(* ===== verification/Prelude.thy ===== *)
theory Prelude
  imports Main "HOL-Library.Word" "HOL-Library.Multiset"
begin

unbundle bit_operations_syntax

section \<open>Shared types, list facts and fact collections\<close>

text \<open>
  What every component uses: the C integer types as words, the BSD tail queues
  (\<^verbatim>\<open>sys/queue.h\<close>, queue(3)) as lists, the first index of a range with a property (what
  the scans of bitmaps and arrays compute), and insertion of an element anywhere in a list.
\<close>

type_synonym u8 = "8 word"
type_synonym u32 = "32 word"

named_theorems runq_intros \<open>facts by which a run queue operation keeps the invariant\<close>
named_theorems frame_simps \<open>fields an operation does not write\<close>

lemma div_mod_nat_eqI: "(a::nat) div n = b div n \<Longrightarrow> a mod n = b mod n \<Longrightarrow> a = b"
  by (metis div_mult_mod_eq)

lemma bit_exp_word: "bit (2 ^ m :: ('w::len) word) k \<longleftrightarrow> k = m \<and> m < LENGTH('w)"
  by (auto simp: bit_simps)

lemma unat_u8_less [simp]: "unat (x :: u8) < 256"
  using unsigned_less [of x] by simp

lemma unat_of_nat_u8 [simp]: "n < 256 \<Longrightarrow> unat (of_nat n :: u8) = n"
  by (simp add: unat_of_nat take_bit_nat_eq_self)

subsection \<open>Tail queues\<close>

text \<open>
  A tail queue is the list of its elements. \<open>TAILQ_REMOVE\<close> of an element that is not on the
  queue and \<open>TAILQ_INSERT_BEFORE\<close> an element that is not on it are undefined in C; every
  caller of the model removes elements that are on the queue.
\<close>

abbreviation (input) TAILQ_INSERT_HEAD :: "'a list \<Rightarrow> 'a \<Rightarrow> 'a list" where
  "TAILQ_INSERT_HEAD q x \<equiv> x # q"

abbreviation (input) TAILQ_INSERT_TAIL :: "'a list \<Rightarrow> 'a \<Rightarrow> 'a list" where
  "TAILQ_INSERT_TAIL q x \<equiv> q @ [x]"

abbreviation (input) TAILQ_REMOVE :: "'a list \<Rightarrow> 'a \<Rightarrow> 'a list" where
  "TAILQ_REMOVE q x \<equiv> remove1 x q"

abbreviation (input) TAILQ_EMPTY :: "'a list \<Rightarrow> bool" where
  "TAILQ_EMPTY q \<equiv> (q = [])"

definition TAILQ_FIRST :: "'a list \<Rightarrow> 'a option" where
  "TAILQ_FIRST q = (case q of [] \<Rightarrow> None | x # _ \<Rightarrow> Some x)"

lemma TAILQ_FIRST_simps [simp]:
  "TAILQ_FIRST [] = None" "TAILQ_FIRST (x # xs) = Some x"
  by (simp_all add: TAILQ_FIRST_def)

lemma TAILQ_FIRST_eq: "TAILQ_FIRST q = (if q = [] then None else Some (hd q))"
  by (cases q) simp_all

subsection \<open>Insertion somewhere in a list\<close>

definition inserted :: "'a \<Rightarrow> 'a list \<Rightarrow> 'a list \<Rightarrow> bool" where
  "inserted x xs ys \<longleftrightarrow> (\<exists>as bs. xs = as @ bs \<and> ys = as @ x # bs)"

lemma insertedI: "xs = as @ bs \<Longrightarrow> ys = as @ x # bs \<Longrightarrow> inserted x xs ys"
  by (auto simp: inserted_def)

lemma inserted_head [simp, intro]: "inserted x xs (x # xs)"
  by (rule insertedI [of _ "[]"]) simp_all

lemma inserted_tail [simp, intro]: "inserted x xs (xs @ [x])"
  by (rule insertedI [of _ xs "[]"]) simp_all

lemma inserted_Cons: "inserted x xs ys \<Longrightarrow> inserted x (y # xs) (y # ys)"
  unfolding inserted_def by (metis append_Cons)

lemma inserted_set: "inserted x xs ys \<Longrightarrow> set ys = insert x (set xs)"
  by (auto simp: inserted_def)

lemma inserted_mset: "inserted x xs ys \<Longrightarrow> mset ys = add_mset x (mset xs)"
  by (auto simp: inserted_def)

lemma inserted_not_Nil: "inserted x xs ys \<Longrightarrow> ys \<noteq> []"
  by (auto simp: inserted_def)

lemma inserted_distinct: "inserted x xs ys \<Longrightarrow> distinct ys \<longleftrightarrow> distinct xs \<and> x \<notin> set xs"
  by (auto simp: inserted_def)

lemma inserted_remove1: "inserted x xs ys \<Longrightarrow> x \<notin> set xs \<Longrightarrow> remove1 x ys = xs"
  by (auto simp: inserted_def remove1_append)

lemma inserted_filter:
  "inserted x xs ys \<Longrightarrow> \<not> P x \<Longrightarrow> filter P ys = filter P xs"
  by (auto simp: inserted_def)

subsection \<open>The first index of a range\<close>

lemma find_append: "find P (xs @ ys) = (case find P xs of None \<Rightarrow> find P ys | Some x \<Rightarrow> Some x)"
  by (induction xs) auto

lemma find_upt_None: "find P [m..<n] = None \<longleftrightarrow> (\<forall>j. m \<le> j \<longrightarrow> j < n \<longrightarrow> \<not> P j)"
  by (auto simp: find_None_iff)

lemma find_upt_SomeD:
  assumes "find P [m..<n] = Some p"
  shows "m \<le> p \<and> p < n \<and> P p \<and> (\<forall>j. m \<le> j \<longrightarrow> j < p \<longrightarrow> \<not> P j)"
proof -
  from assms obtain i where i: "i < n - m" "P (m + i)" "p = m + i" "\<forall>j<i. \<not> P (m + j)"
    by (auto simp: find_Some_iff)
  have "\<not> P j" if "m \<le> j" "j < p" for j
    using i(4) that i(3) by (metis add_diff_inverse_nat leD less_diff_conv2 add.commute)
  with i show ?thesis by auto
qed

lemma find_upt_Some:
  "find P [m..<n] = Some p \<longleftrightarrow> m \<le> p \<and> p < n \<and> P p \<and> (\<forall>j. m \<le> j \<longrightarrow> j < p \<longrightarrow> \<not> P j)"
    (is "?l \<longleftrightarrow> ?r")
proof
  assume r: ?r
  then obtain q where q: "find P [m..<n] = Some q"
    by (cases "find P [m..<n]") (auto simp: find_upt_None)
  from find_upt_SomeD [OF this] r have "q = p"
    by (meson linorder_neqE_nat)
  with q show ?l by simp
qed (rule find_upt_SomeD)

lemma find_cong_range:
  "(\<And>j. m \<le> j \<Longrightarrow> j < n \<Longrightarrow> P j = Q j) \<Longrightarrow> find P [m..<n] = find Q [m..<n]"
  by (rule find_cong) auto

lemma find_upt_split:
  "m \<le> k \<Longrightarrow> k \<le> n \<Longrightarrow>
   find P [m..<n] = (case find P [m..<k] of None \<Rightarrow> find P [k..<n] | Some x \<Rightarrow> Some x)"
proof -
  assume "m \<le> k" and "k \<le> n"
  then have "[m..<n] = [m..<k] @ [k..<n]"
    by (metis le_Suc_ex upt_add_eq_append le_trans)
  then show ?thesis by (simp add: find_append)
qed

subsection \<open>Concatenated queues with one queue replaced\<close>

lemma mset_concat_update:
  "i < length qs \<Longrightarrow> mset (concat (qs[i := q])) + mset (qs ! i) = mset (concat qs) + mset q"
proof (induction qs arbitrary: i)
  case Nil
  then show ?case by simp
next
  case (Cons a qs)
  then show ?case by (cases i) (auto simp: ac_simps)
qed

lemma set_concat_update:
  "i < length qs \<Longrightarrow> set q = insert x (set (qs ! i)) \<Longrightarrow>
   set (concat (qs[i := q])) = insert x (set (concat qs))"
proof (induction qs arbitrary: i)
  case Nil
  then show ?case by simp
next
  case (Cons a qs)
  then show ?case by (cases i) auto
qed

lemma distinct_mset_iff: "mset xs = mset ys \<Longrightarrow> distinct xs = distinct ys"
  by (metis mset_eq_imp_distinct_iff)

end
