(* ===== verification/Threads.thy ===== *)
theory Threads
  imports Prelude
begin

section \<open>Threads and processes\<close>

text \<open>
  The fields of \<^verbatim>\<open>struct thread\<close> and \<^verbatim>\<open>struct proc\<close> that
  \<^verbatim>\<open>kern_switch_orig.c\<close> and \<^verbatim>\<open>sched_ule.c\<close> read or write. Threads are shared by pointer
  between run queues and processors, so a pointer is a \<open>tid\<close> and the fields live in a
  store \<open>tid \<Rightarrow> thread\<close>; \<^verbatim>\<open>NULL\<close> is \<open>None\<close>.
  Flag words whose bits are constants of the kernel headers are sets of named flags.
\<close>

type_synonym tid = nat
type_synonym pid = nat
type_synonym cpuid = nat

datatype td_state = TDS_INACTIVE | TDS_INHIBITED | TDS_CAN_RUN | TDS_RUNQ | TDS_RUNNING

datatype td_flag =
    TDF_INMEM | TDF_INPANIC | TDF_IDLETD | TDF_NOLOAD | TDF_BORROWING
  | TDF_NEEDRESCHED | TDF_SLICEEND | TDF_CANSWAP

datatype td_inhibitor = TDI_SUSPENDED | TDI_SLEEPING | TDI_SWAPPED | TDI_LOCK | TDI_IWAIT

datatype p_flag = P_SYSTEM | P_INEXEC | P_PROTECTED | P_WEXIT

datatype srq_flag = SRQ_YIELDING | SRQ_OURSELF | SRQ_PREEMPTED | SRQ_BORROWING

abbreviation SRQ_BORING :: "srq_flag set" where
  "SRQ_BORING \<equiv> {}"

text \<open>
  The scheduling classes: \<open>PRI_BASE(td_pri_class)\<close> is the class without
  \<open>PRI_FIFO_BIT\<close>, so the pair of both is kept.
\<close>

datatype pri_base = PRI_ITHD | PRI_REALTIME | PRI_TIMESHARE | PRI_IDLE

record proc =
  p_flag :: "p_flag set"
  p_nice :: int
  p_threads :: "tid list"

record thread =
  td_proc :: pid
  td_state :: td_state
  td_flags :: "td_flag set"
  td_priority :: u8
  td_rqindex :: u8
  td_lastcpu :: "cpuid option"
  td_oncpu :: "cpuid option"
  td_critnest :: u32
  td_owepreempt :: bool
  td_pri_class :: "pri_base \<times> bool"
  td_base_pri :: u8
  td_user_pri :: u8
  td_base_user_pri :: u8
  td_lend_user_pri :: u8
  td_pinned :: int
  td_cpuset :: "cpuid set"
  td_slptick :: u32
  td_inhibitors :: "td_inhibitor set"
  td_intr_nesting_level :: int

type_synonym threads = "tid \<Rightarrow> thread"

text \<open>The \<^verbatim>\<open>TD_SET_*\<close> macros write the state of one thread of the store.\<close>

definition TD_SET_STATE :: "threads \<Rightarrow> tid \<Rightarrow> td_state \<Rightarrow> threads" where
  "TD_SET_STATE T td s = T(td := (T td)\<lparr>td_state := s\<rparr>)"

abbreviation "TD_SET_CAN_RUN T td \<equiv> TD_SET_STATE T td TDS_CAN_RUN"
abbreviation "TD_SET_RUNNING T td \<equiv> TD_SET_STATE T td TDS_RUNNING"
abbreviation "TD_SET_RUNQ T td \<equiv> TD_SET_STATE T td TDS_RUNQ"

abbreviation "TD_IS_RUNNING T td \<equiv> td_state (T td) = TDS_RUNNING"
abbreviation "TD_ON_RUNQ T td \<equiv> td_state (T td) = TDS_RUNQ"
abbreviation "TD_IS_INHIBITED T td \<equiv> td_state (T td) = TDS_INHIBITED"
abbreviation "TD_ON_LOCK T td \<equiv> TDI_LOCK \<in> td_inhibitors (T td)"
abbreviation "TD_IS_SUSPENDED T td \<equiv> TDI_SUSPENDED \<in> td_inhibitors (T td)"

abbreviation TD_IS_IDLETHREAD :: "threads \<Rightarrow> tid \<Rightarrow> bool" where
  "TD_IS_IDLETHREAD T td \<equiv> TDF_IDLETD \<in> td_flags (T td)"

lemma TD_SET_STATE_fields [frame_simps]:
  "td_priority (TD_SET_STATE T td s t) = td_priority (T t)"
  "td_rqindex (TD_SET_STATE T td s t) = td_rqindex (T t)"
  "td_flags (TD_SET_STATE T td s t) = td_flags (T t)"
  "td_proc (TD_SET_STATE T td s t) = td_proc (T t)"
  "td_pinned (TD_SET_STATE T td s t) = td_pinned (T t)"
  "td_cpuset (TD_SET_STATE T td s t) = td_cpuset (T t)"
  "td_state (TD_SET_STATE T td s t) = (if t = td then s else td_state (T t))"
  by (simp_all add: TD_SET_STATE_def)

end
