(* ===== verification/Runq.thy ===== *)
theory Runq
  imports Threads
begin

section \<open>Run queues: the bitmap and the queues of kern\_switch\_orig.c\<close>

text \<open>
  \<^verbatim>\<open>struct runq\<close> is an array of \<open>RQ_NQS\<close> tail queues and a bitmap of \<open>RQB_LEN\<close> machine
  words with one bit per queue. The word type, the array sizes and the macros that find a
  bit of the map are declared in \<^verbatim>\<open>sys/runq.h\<close> and \<^verbatim>\<open>machine/runq.h\<close>, which the repository
  does not hold: they are the parameter \<open>E\<close> of every operation, with the word type as a
  type variable, and \<open>rqenv_ok\<close> states what those headers document.
\<close>

record (overloaded) ('w::len) rqenv =
  RQ_NQS :: nat
  RQ_PPQ :: nat
  RQB_LEN :: nat
  RQB_BPW :: nat
  RQB_L2BPW :: nat
  RQB_WORD :: "nat \<Rightarrow> nat"
  RQB_BIT :: "nat \<Rightarrow> 'w word"
  RQB_FFS :: "'w word \<Rightarrow> nat"

text \<open>
  \<open>RQB_BPW * RQB_LEN = RQ_NQS\<close> is the \<^verbatim>\<open>CTASSERT\<close> of \<^verbatim>\<open>kern_switch_orig.c\<close> (line 63);
  the two bounds on \<open>RQ_NQS\<close> say that every priority of an \<^verbatim>\<open>u_char\<close> has a queue and that
  the index of a queue fits in \<^verbatim>\<open>td_rqindex\<close>.
\<close>

definition rqenv_ok :: "('w::len) rqenv \<Rightarrow> bool" where
  "rqenv_ok E \<longleftrightarrow>
     RQB_BPW E = LENGTH('w) \<and> RQB_BPW E = 2 ^ RQB_L2BPW E \<and>
     RQB_BPW E * RQB_LEN E = RQ_NQS E \<and>
     (\<forall>p. RQB_WORD E p = p div RQB_BPW E) \<and>
     (\<forall>p. RQB_BIT E p = push_bit (p mod RQB_BPW E) 1) \<and>
     (\<forall>w. w \<noteq> 0 \<longrightarrow> bit w (RQB_FFS E w) \<and> (\<forall>k<RQB_FFS E w. \<not> bit w k)) \<and>
     0 < RQ_PPQ E \<and> 256 \<le> RQ_NQS E * RQ_PPQ E \<and> RQ_NQS E \<le> 256"

record (overloaded) ('w::len) runq =
  rqb_bits :: "'w word list"
  rq_queues :: "tid list list"

subsection \<open>The operations\<close>

definition runq_init :: "('w::len) rqenv \<Rightarrow> 'w runq" where
  "runq_init E = \<lparr>rqb_bits = replicate (RQB_LEN E) 0, rq_queues = replicate (RQ_NQS E) []\<rparr>"

definition runq_clrbit :: "('w::len) rqenv \<Rightarrow> 'w runq \<Rightarrow> nat \<Rightarrow> 'w runq" where
  "runq_clrbit E rq pri =
     rq\<lparr>rqb_bits := (rqb_bits rq)
          [RQB_WORD E pri := rqb_bits rq ! RQB_WORD E pri AND NOT (RQB_BIT E pri)]\<rparr>"

definition runq_setbit :: "('w::len) rqenv \<Rightarrow> 'w runq \<Rightarrow> nat \<Rightarrow> 'w runq" where
  "runq_setbit E rq pri =
     rq\<lparr>rqb_bits := (rqb_bits rq)
          [RQB_WORD E pri := rqb_bits rq ! RQB_WORD E pri OR RQB_BIT E pri]\<rparr>"

text \<open>The loop of \<open>runq_findbit\<close> from word \<open>i\<close> on; \<open>None\<close> is the result -1.\<close>

function runq_findbit_loop :: "('w::len) rqenv \<Rightarrow> 'w word list \<Rightarrow> nat \<Rightarrow> nat option" where
  "runq_findbit_loop E bits i =
     (if i < RQB_LEN E then
        (if bits ! i \<noteq> 0 then Some (RQB_FFS E (bits ! i) + push_bit (RQB_L2BPW E) i)
         else runq_findbit_loop E bits (Suc i))
      else None)"
  by pat_completeness auto
termination
  by (relation "measure (\<lambda>(E, bits, i). RQB_LEN E - i)") auto

declare runq_findbit_loop.simps [simp del]

definition runq_findbit :: "('w::len) rqenv \<Rightarrow> 'w runq \<Rightarrow> nat option" where
  "runq_findbit E rq = runq_findbit_loop E (rqb_bits rq) 0"

text \<open>
  The \<^verbatim>\<open>for\<close> loop of \<open>runq_findbit_from\<close>: \<open>Inr\<close> is the \<^verbatim>\<open>return (pri)\<close> in its body, \<open>Inl\<close>
  the mask when the loop runs off the last word. The \<^verbatim>\<open>u_char pri\<close> of the code holds every
  index of a queue, since \<open>rqenv_ok\<close> bounds \<open>RQ_NQS\<close> by 256.
\<close>

function runq_findbit_from_loop ::
  "('w::len) rqenv \<Rightarrow> 'w word list \<Rightarrow> nat \<Rightarrow> 'w word \<Rightarrow> 'w word + nat" where
  "runq_findbit_from_loop E bits i msk =
     (if i < RQB_LEN E then
        (let msk' = bits ! i AND msk
         in if msk' = 0 then runq_findbit_from_loop E bits (Suc i) (- 1)
            else Inr (RQB_FFS E msk' + push_bit (RQB_L2BPW E) i))
      else Inl msk)"
  by pat_completeness auto
termination
  by (relation "measure (\<lambda>(E, bits, i, msk). RQB_LEN E - i)") auto

declare runq_findbit_from_loop.simps [simp del]

definition runq_findbit_from :: "('w::len) rqenv \<Rightarrow> 'w runq \<Rightarrow> u8 \<Rightarrow> nat option" where
  "runq_findbit_from E rq pri =
     (let msk = push_bit (unat pri AND (RQB_BPW E - 1)) (- 1)
      in case runq_findbit_from_loop E (rqb_bits rq) (RQB_WORD E (unat pri)) msk of
           Inr p \<Rightarrow> Some p
         | Inl msk' \<Rightarrow>
             (if pri = 0 then None
              else (case runq_findbit_from_loop E (rqb_bits rq) (RQB_WORD E 0) msk' of
                      Inr p \<Rightarrow> Some p
                    | Inl _ \<Rightarrow> None)))"

text \<open>
  \<open>runq_add\<close> and \<open>runq_add_pri\<close> write \<^verbatim>\<open>td_rqindex\<close> in the thread store, set the bit and
  link the thread at the head (preempted threads) or the tail of the queue.
\<close>

definition set_rqindex :: "threads \<Rightarrow> tid \<Rightarrow> nat \<Rightarrow> threads" where
  "set_rqindex T td pri = T(td := (T td)\<lparr>td_rqindex := of_nat pri\<rparr>)"

definition rq_link :: "('w::len) runq \<Rightarrow> nat \<Rightarrow> (tid list \<Rightarrow> tid list) \<Rightarrow> 'w runq" where
  "rq_link rq pri f = rq\<lparr>rq_queues := (rq_queues rq)[pri := f (rq_queues rq ! pri)]\<rparr>"

definition runq_add ::
  "('w::len) rqenv \<Rightarrow> threads \<Rightarrow> 'w runq \<Rightarrow> tid \<Rightarrow> srq_flag set \<Rightarrow> threads \<times> 'w runq" where
  "runq_add E T rq td flags =
     (let pri = unat (td_priority (T td)) div RQ_PPQ E;
          T = set_rqindex T td pri;
          rq = runq_setbit E rq pri
      in if SRQ_PREEMPTED \<in> flags
         then (T, rq_link rq pri (\<lambda>rqh. TAILQ_INSERT_HEAD rqh td))
         else (T, rq_link rq pri (\<lambda>rqh. TAILQ_INSERT_TAIL rqh td)))"

definition runq_add_pri ::
  "('w::len) rqenv \<Rightarrow> threads \<Rightarrow> 'w runq \<Rightarrow> tid \<Rightarrow> u8 \<Rightarrow> srq_flag set \<Rightarrow> threads \<times> 'w runq" where
  "runq_add_pri E T rq td pri flags =
     (let T = set_rqindex T td (unat pri);
          rq = runq_setbit E rq (unat pri)
      in if SRQ_PREEMPTED \<in> flags
         then (T, rq_link rq (unat pri) (\<lambda>rqh. TAILQ_INSERT_HEAD rqh td))
         else (T, rq_link rq (unat pri) (\<lambda>rqh. TAILQ_INSERT_TAIL rqh td)))"

function runq_check_loop :: "('w::len) rqenv \<Rightarrow> 'w word list \<Rightarrow> nat \<Rightarrow> bool" where
  "runq_check_loop E bits i =
     (if i < RQB_LEN E then (if bits ! i \<noteq> 0 then True else runq_check_loop E bits (Suc i))
      else False)"
  by pat_completeness auto
termination
  by (relation "measure (\<lambda>(E, bits, i). RQB_LEN E - i)") auto

declare runq_check_loop.simps [simp del]

definition runq_check :: "('w::len) rqenv \<Rightarrow> 'w runq \<Rightarrow> bool" where
  "runq_check E rq = runq_check_loop E (rqb_bits rq) 0"

text \<open>
  The inner loop of \<open>runq_choose_fuzz\<close>: \<open>td2\<close> walks the queue for at most \<open>cnt\<close>
  entries; the first one that last ran on this processor replaces \<open>td\<close>.
\<close>

fun fuzz_loop :: "threads \<Rightarrow> cpuid \<Rightarrow> tid option \<Rightarrow> nat \<Rightarrow> tid list \<Rightarrow> tid option" where
  "fuzz_loop T cpu td 0 td2 = td"
| "fuzz_loop T cpu td (Suc cnt) [] = td"
| "fuzz_loop T cpu td (Suc cnt) (x # xs) =
     (if td_lastcpu (T x) = Some cpu then Some x else fuzz_loop T cpu td cnt xs)"

definition runq_choose_fuzz ::
  "('w::len) rqenv \<Rightarrow> threads \<Rightarrow> cpuid \<Rightarrow> 'w runq \<Rightarrow> int \<Rightarrow> tid option" where
  "runq_choose_fuzz E T cpu rq fuzz =
     (case runq_findbit E rq of
        None \<Rightarrow> None
      | Some pri \<Rightarrow>
          (let rqh = rq_queues rq ! pri
           in if fuzz > 1 then fuzz_loop T cpu (TAILQ_FIRST rqh) (nat fuzz) rqh
              else TAILQ_FIRST rqh))"

definition runq_choose :: "('w::len) rqenv \<Rightarrow> 'w runq \<Rightarrow> tid option" where
  "runq_choose E rq =
     (case runq_findbit E rq of
        None \<Rightarrow> None
      | Some pri \<Rightarrow> TAILQ_FIRST (rq_queues rq ! pri))"

definition runq_choose_from :: "('w::len) rqenv \<Rightarrow> 'w runq \<Rightarrow> u8 \<Rightarrow> tid option" where
  "runq_choose_from E rq idx =
     (case runq_findbit_from E rq idx of
        None \<Rightarrow> None
      | Some pri \<Rightarrow> TAILQ_FIRST (rq_queues rq ! pri))"

text \<open>
  \<open>runq_remove_idx\<close>: the pointer \<^verbatim>\<open>idx\<close> is \<open>None\<close> for \<^verbatim>\<open>NULL\<close>, otherwise the \<^verbatim>\<open>u_char\<close>
  it points to, returned with the update of lines 540 and 541.
\<close>

definition runq_remove_idx ::
  "('w::len) rqenv \<Rightarrow> threads \<Rightarrow> 'w runq \<Rightarrow> tid \<Rightarrow> u8 option \<Rightarrow> 'w runq \<times> u8 option" where
  "runq_remove_idx E T rq td idx =
     (let pri = td_rqindex (T td);
          rq = rq_link rq (unat pri) (\<lambda>rqh. TAILQ_REMOVE rqh td)
      in if TAILQ_EMPTY (rq_queues rq ! unat pri)
         then (runq_clrbit E rq (unat pri),
               (case idx of
                  None \<Rightarrow> None
                | Some i \<Rightarrow>
                    Some (if i = pri then of_nat ((unat pri + 1) mod RQ_NQS E) else i)))
         else (rq, idx))"

definition runq_remove :: "('w::len) rqenv \<Rightarrow> threads \<Rightarrow> 'w runq \<Rightarrow> tid \<Rightarrow> 'w runq" where
  "runq_remove E T rq td = fst (runq_remove_idx E T rq td None)"

subsection \<open>The header laws, in the form the proofs use\<close>

lemma rqenv_okD:
  fixes E :: "('w::len) rqenv"
  assumes "rqenv_ok E"
  shows rqenv_BPW: "RQB_BPW E = LENGTH('w)"
    and rqenv_L2BPW: "push_bit (RQB_L2BPW E) i = i * LENGTH('w)"
    and rqenv_NQS: "RQ_NQS E = LENGTH('w) * RQB_LEN E"
    and rqenv_WORD: "RQB_WORD E p = p div LENGTH('w)"
    and rqenv_BIT: "RQB_BIT E p = push_bit (p mod LENGTH('w)) 1"
    and rqenv_FFS: "w \<noteq> 0 \<Longrightarrow> bit w (RQB_FFS E w)"
    and rqenv_FFS_least: "w \<noteq> 0 \<Longrightarrow> k < RQB_FFS E w \<Longrightarrow> \<not> bit w k"
    and rqenv_PPQ: "0 < RQ_PPQ E"
    and rqenv_prio: "unat (x :: u8) div RQ_PPQ E < RQ_NQS E"
    and rqenv_NQS_le: "RQ_NQS E \<le> 256"
proof -
  note ok = assms [unfolded rqenv_ok_def]
  show "RQB_BPW E = LENGTH('w)" "0 < RQ_PPQ E" "RQ_NQS E \<le> 256"
    using ok by auto
  show "push_bit (RQB_L2BPW E) i = i * LENGTH('w)"
    using ok by (metis push_bit_nat_def)
  show "RQ_NQS E = LENGTH('w) * RQB_LEN E" "RQB_WORD E p = p div LENGTH('w)"
    "RQB_BIT E p = push_bit (p mod LENGTH('w)) 1"
    "w \<noteq> 0 \<Longrightarrow> bit w (RQB_FFS E w)" "w \<noteq> 0 \<Longrightarrow> k < RQB_FFS E w \<Longrightarrow> \<not> bit w k"
    using ok by auto
  have "unat x < 256" by simp
  with ok have "unat x < RQ_NQS E * RQ_PPQ E" by linarith
  then show "unat x div RQ_PPQ E < RQ_NQS E"
    by (simp add: less_mult_imp_div_less)
qed

text \<open>The bit of queue \<open>i\<close>.\<close>

definition rq_bit :: "('w::len) runq \<Rightarrow> nat \<Rightarrow> bool" where
  "rq_bit rq i = bit (rqb_bits rq ! (i div LENGTH('w))) (i mod LENGTH('w))"

definition rq_shape :: "('w::len) rqenv \<Rightarrow> 'w runq \<Rightarrow> bool" where
  "rq_shape E rq \<longleftrightarrow> length (rqb_bits rq) = RQB_LEN E \<and> length (rq_queues rq) = RQ_NQS E"

lemma rqb_index:
  fixes E :: "('w::len) rqenv"
  shows "rqenv_ok E \<Longrightarrow> i < RQ_NQS E \<Longrightarrow> i div LENGTH('w) < RQB_LEN E"
  by (simp add: rqenv_NQS less_mult_imp_div_less mult.commute)

lemma rq_bit_setbit:
  fixes E :: "('w::len) rqenv"
  assumes "rqenv_ok E" "rq_shape E rq" "pri < RQ_NQS E" "i < RQ_NQS E"
  shows "rq_bit (runq_setbit E rq pri) i = (i = pri \<or> rq_bit rq i)"
proof -
  have "pri div LENGTH('w) < length (rqb_bits rq)" "i div LENGTH('w) < length (rqb_bits rq)"
    using assms rqb_index by (auto simp: rq_shape_def)
  then show ?thesis
    using assms(1) div_mod_nat_eqI [of i "LENGTH('w)" pri]
    by (cases "i div LENGTH('w) = pri div LENGTH('w)")
      (auto simp: rq_bit_def runq_setbit_def rqenv_WORD rqenv_BIT bit_or_iff bit_exp_word)
qed

lemma rq_bit_clrbit:
  fixes E :: "('w::len) rqenv"
  assumes "rqenv_ok E" "rq_shape E rq" "pri < RQ_NQS E" "i < RQ_NQS E"
  shows "rq_bit (runq_clrbit E rq pri) i = (i \<noteq> pri \<and> rq_bit rq i)"
proof -
  have "pri div LENGTH('w) < length (rqb_bits rq)" "i div LENGTH('w) < length (rqb_bits rq)"
    using assms rqb_index by (auto simp: rq_shape_def)
  then show ?thesis
    using assms(1) div_mod_nat_eqI [of i "LENGTH('w)" pri]
    by (cases "i div LENGTH('w) = pri div LENGTH('w)")
      (auto simp: rq_bit_def runq_clrbit_def rqenv_WORD rqenv_BIT bit_and_iff bit_not_iff bit_exp_word)
qed

lemma rq_frame [frame_simps]:
  "rq_queues (runq_setbit E rq pri) = rq_queues rq"
  "rq_queues (runq_clrbit E rq pri) = rq_queues rq"
  "length (rqb_bits (runq_setbit E rq pri)) = length (rqb_bits rq)"
  "length (rqb_bits (runq_clrbit E rq pri)) = length (rqb_bits rq)"
  "rqb_bits (rq_link rq pri f) = rqb_bits rq"
  "rq_queues (rq_link rq pri f) = (rq_queues rq)[pri := f (rq_queues rq ! pri)]"
  "rq_bit (rq_link rq pri f) = rq_bit rq"
  by (simp_all add: runq_setbit_def runq_clrbit_def rq_link_def rq_bit_def fun_eq_iff)

lemma rq_shape_frame [frame_simps]:
  "rq_shape E (runq_setbit E' rq pri) = rq_shape E rq"
  "rq_shape E (runq_clrbit E' rq pri) = rq_shape E rq"
  "rq_shape E (rq_link rq pri f) = rq_shape E rq"
  by (simp_all add: rq_shape_def frame_simps)

subsection \<open>The bitmap scans compute the first set bit of a range\<close>

lemma find_word:
  fixes w :: "('w::len) word"
  assumes "\<And>j. j < LENGTH('w) \<Longrightarrow> P (i * LENGTH('w) + j) = bit w j"
  shows "find P [i * LENGTH('w)..<Suc i * LENGTH('w)] =
    (if w = 0 then None else Some ((LEAST k. bit w k) + i * LENGTH('w)))"
proof (cases "w = 0")
  case True
  have "\<not> P j" if "i * LENGTH('w) \<le> j" "j < Suc i * LENGTH('w)" for j
    using assms [of "j - i * LENGTH('w)"] that True by simp
  with True show ?thesis by (auto simp: find_upt_None)
next
  case False
  then obtain k where k: "bit w k" by (auto simp: bit_eq_iff)
  let ?l = "LEAST k. bit w k"
  have l: "bit w ?l" by (rule LeastI [of _ k]) (rule k)
  then have lt: "?l < LENGTH('w)" by (rule bit_imp_le_length)
  have "\<not> P j" if "i * LENGTH('w) \<le> j" "j < ?l + i * LENGTH('w)" for j
    using assms [of "j - i * LENGTH('w)"] that lt not_less_Least [of "j - i * LENGTH('w)" "bit w"]
    by simp
  moreover have "P (?l + i * LENGTH('w))" using assms [OF lt] l by (simp add: add.commute)
  ultimately show ?thesis
    using False lt by (auto simp: find_upt_Some)
qed

lemma rqenv_FFS_Least:
  "rqenv_ok E \<Longrightarrow> w \<noteq> 0 \<Longrightarrow> RQB_FFS E w = (LEAST k. bit w k)"
  by (rule Least_equality [symmetric]) (auto simp: rqenv_FFS not_less [symmetric] dest: rqenv_FFS_least)

lemma rq_bit_word:
  fixes rq :: "('w::len) runq"
  shows "j < LENGTH('w) \<Longrightarrow> rq_bit rq (i * LENGTH('w) + j) = bit (rqb_bits rq ! i) j"
  by (simp add: rq_bit_def)

lemma find_word_step:
  fixes E :: "('w::len) rqenv"
  assumes "rqenv_ok E" "i < RQB_LEN E"
    and "\<And>j. j < LENGTH('w) \<Longrightarrow> P (i * LENGTH('w) + j) = bit (w :: 'w word) j"
  shows "find P [i * LENGTH('w)..<RQ_NQS E] =
    (if w = 0 then find P [Suc i * LENGTH('w)..<RQ_NQS E]
     else Some (RQB_FFS E w + i * LENGTH('w)))"
proof -
  have "Suc i * LENGTH('w) \<le> RQB_LEN E * LENGTH('w)"
    using assms(2) by (intro mult_le_mono1) simp
  then have "Suc i * LENGTH('w) \<le> RQ_NQS E"
    using assms(1) by (simp add: rqenv_NQS mult.commute)
  then show ?thesis
    using find_upt_split [of "i * LENGTH('w)" "Suc i * LENGTH('w)" "RQ_NQS E" P]
      find_word [OF assms(3)] assms(1)
    by (simp add: rqenv_FFS_Least)
qed

lemma runq_findbit_loop_eq:
  fixes E :: "('w::len) rqenv"
  assumes "rqenv_ok E" "i \<le> RQB_LEN E"
  shows "runq_findbit_loop E (rqb_bits rq) i = find (rq_bit rq) [i * LENGTH('w)..<RQ_NQS E]"
  using assms(2)
proof (induction "RQB_LEN E - i" arbitrary: i)
  case 0
  then show ?case
    using assms(1) by (simp add: runq_findbit_loop.simps rqenv_NQS mult.commute)
next
  case (Suc d)
  then have i: "i < RQB_LEN E" by simp
  with Suc have "runq_findbit_loop E (rqb_bits rq) (Suc i) =
      find (rq_bit rq) [Suc i * LENGTH('w)..<RQ_NQS E]"
    by (intro Suc.hyps) auto
  then show ?case
    using i assms(1) find_word_step [OF assms(1) i rq_bit_word]
    by (simp add: runq_findbit_loop.simps [of E _ i] rqenv_L2BPW)
qed

lemma runq_findbit_eq:
  fixes E :: "('w::len) rqenv"
  assumes "rqenv_ok E"
  shows "runq_findbit E rq = find (rq_bit rq) [0..<RQ_NQS E]"
  using runq_findbit_loop_eq [OF assms, of 0] by (simp add: runq_findbit_def)

lemma runq_check_loop_eq:
  "runq_check_loop E bits i = (runq_findbit_loop E bits i \<noteq> None)"
  by (induction E bits i rule: runq_check_loop.induct)
    (simp add: runq_check_loop.simps [of E _ i for E i] runq_findbit_loop.simps [of E _ i for E i])

lemma nat_and_exp: "(n::nat) AND (2 ^ k - 1) = n mod 2 ^ k"
  by (metis take_bit_eq_mask mask_eq_exp_minus_1 take_bit_eq_mod)

lemma rqenv_and:
  fixes E :: "('w::len) rqenv"
  shows "rqenv_ok E \<Longrightarrow> n AND (RQB_BPW E - 1) = n mod LENGTH('w)"
  by (metis nat_and_exp rqenv_BPW rqenv_ok_def)

lemma runq_findbit_from_loop_full:
  fixes E :: "('w::len) rqenv"
  assumes "rqenv_ok E" "i \<le> RQB_LEN E"
  shows "runq_findbit_from_loop E (rqb_bits rq) i (- 1) =
    (case find (rq_bit rq) [i * LENGTH('w)..<RQ_NQS E] of None \<Rightarrow> Inl (- 1) | Some p \<Rightarrow> Inr p)"
  using assms(2)
proof (induction "RQB_LEN E - i" arbitrary: i)
  case 0
  then show ?case
    using assms(1) by (simp add: runq_findbit_from_loop.simps rqenv_NQS mult.commute)
next
  case (Suc d)
  then have i: "i < RQB_LEN E" by simp
  with Suc have "runq_findbit_from_loop E (rqb_bits rq) (Suc i) (- 1) =
      (case find (rq_bit rq) [Suc i * LENGTH('w)..<RQ_NQS E] of None \<Rightarrow> Inl (- 1) | Some p \<Rightarrow> Inr p)"
    by (intro Suc.hyps) auto
  then show ?case
    using i assms(1) find_word_step [OF assms(1) i rq_bit_word, of rq]
    by (simp add: runq_findbit_from_loop.simps [of E _ i] rqenv_L2BPW Let_def)
qed

lemma runq_findbit_from_loop_first:
  fixes E :: "('w::len) rqenv"
  assumes E: "rqenv_ok E" and pri: "pri < RQ_NQS E"
  shows "runq_findbit_from_loop E (rqb_bits rq) (pri div LENGTH('w))
      (push_bit (pri mod LENGTH('w)) (- 1)) =
    (case find (rq_bit rq) [pri..<RQ_NQS E] of None \<Rightarrow> Inl (- 1) | Some p \<Rightarrow> Inr p)"
proof -
  let ?i = "pri div LENGTH('w)" and ?P = "\<lambda>j. rq_bit rq j \<and> pri \<le> j"
  let ?w = "rqb_bits rq ! ?i AND push_bit (pri mod LENGTH('w)) (- 1)"
  have i: "?i < RQB_LEN E" using rqb_index [OF E pri] .
  have base: "?i * LENGTH('w) + pri mod LENGTH('w) = pri" by simp
  have bits: "?P (?i * LENGTH('w) + j) = bit ?w j" if "j < LENGTH('w)" for j
  proof -
    have "pri \<le> ?i * LENGTH('w) + j \<longleftrightarrow> pri mod LENGTH('w) \<le> j"
      using base by linarith
    then show ?thesis
      using that rq_bit_word [OF that, of rq ?i] by (auto simp: bit_simps)
  qed
  have tail: "find ?P [Suc ?i * LENGTH('w)..<RQ_NQS E] =
      find (rq_bit rq) [Suc ?i * LENGTH('w)..<RQ_NQS E]"
    using dividend_less_times_div [of "LENGTH('w)" pri]
    by (intro find_cong_range) (auto simp: mult.commute)
  have "find ?P [?i * LENGTH('w)..<RQ_NQS E] = find (rq_bit rq) [pri..<RQ_NQS E]"
  proof -
    have "find ?P [?i * LENGTH('w)..<pri] = None" by (auto simp: find_upt_None)
    then show ?thesis
      using find_upt_split [of "?i * LENGTH('w)" pri "RQ_NQS E" ?P] pri
        find_cong_range [of pri "RQ_NQS E" ?P "rq_bit rq"] by simp
  qed
  with find_word_step [OF E i bits] tail
  have eq: "find (rq_bit rq) [pri..<RQ_NQS E] =
    (if ?w = 0 then find (rq_bit rq) [Suc ?i * LENGTH('w)..<RQ_NQS E]
     else Some (RQB_FFS E ?w + ?i * LENGTH('w)))"
    by simp
  have full: "runq_findbit_from_loop E (rqb_bits rq) (Suc ?i) (- 1) =
    (case find (rq_bit rq) [Suc ?i * LENGTH('w)..<RQ_NQS E] of None \<Rightarrow> Inl (- 1) | Some p \<Rightarrow> Inr p)"
    by (rule runq_findbit_from_loop_full [OF E]) (use i in simp)
  show ?thesis
    unfolding runq_findbit_from_loop.simps [of E _ ?i]
    using i full E by (simp add: eq Let_def rqenv_L2BPW)
qed

lemma runq_findbit_from_eq:
  fixes E :: "('w::len) rqenv"
  assumes E: "rqenv_ok E" and pri: "unat pri < RQ_NQS E"
  shows "runq_findbit_from E rq pri = find (rq_bit rq) ([unat pri..<RQ_NQS E] @ [0..<RQ_NQS E])"
proof -
  have wrap: "find (rq_bit rq) [0..<RQ_NQS E] = None"
    if "pri = 0" "find (rq_bit rq) [unat pri..<RQ_NQS E] = None"
    using that by simp
  have "RQB_WORD E 0 = 0" using E by (simp add: rqenv_WORD)
  moreover have "runq_findbit_from_loop E (rqb_bits rq) 0 (- 1) =
    (case find (rq_bit rq) [0..<RQ_NQS E] of None \<Rightarrow> Inl (- 1) | Some p \<Rightarrow> Inr p)"
    using runq_findbit_from_loop_full [OF E, of 0 rq] by simp
  ultimately show ?thesis
    unfolding runq_findbit_from_def Let_def rqenv_and [OF E] rqenv_WORD [OF E, of "unat pri"]
      runq_findbit_from_loop_first [OF E pri] find_append
    using wrap by (auto split: option.splits)
qed

subsection \<open>The invariant\<close>

text \<open>
  The bit of a queue is set exactly when the queue is not empty, every queued thread records
  the index of its queue, and no thread is queued twice.
\<close>

definition rq_elems :: "('w::len) runq \<Rightarrow> tid set" where
  "rq_elems rq = set (concat (rq_queues rq))"

definition rq_inv :: "('w::len) rqenv \<Rightarrow> threads \<Rightarrow> 'w runq \<Rightarrow> bool" where
  "rq_inv E T rq \<longleftrightarrow> rq_shape E rq \<and>
     (\<forall>i<RQ_NQS E. rq_bit rq i = (rq_queues rq ! i \<noteq> [])) \<and>
     (\<forall>i<RQ_NQS E. \<forall>t\<in>set (rq_queues rq ! i). unat (td_rqindex (T t)) = i) \<and>
     distinct (concat (rq_queues rq))"

lemma rq_invD:
  assumes "rq_inv E T rq"
  shows rq_inv_shape: "rq_shape E rq"
    and rq_inv_length: "length (rq_queues rq) = RQ_NQS E"
    and rq_inv_bit: "i < RQ_NQS E \<Longrightarrow> rq_bit rq i = (rq_queues rq ! i \<noteq> [])"
    and rq_inv_index: "i < RQ_NQS E \<Longrightarrow> t \<in> set (rq_queues rq ! i) \<Longrightarrow> unat (td_rqindex (T t)) = i"
    and rq_inv_distinct: "distinct (concat (rq_queues rq))"
  using assms by (auto simp: rq_inv_def rq_shape_def)

lemma rq_elems_iff:
  "rq_shape E rq \<Longrightarrow> t \<in> rq_elems rq \<longleftrightarrow> (\<exists>i<RQ_NQS E. t \<in> set (rq_queues rq ! i))"
  by (fastforce simp: rq_elems_def rq_shape_def in_set_conv_nth)

lemma rq_elems_queue:
  "rq_inv E T rq \<Longrightarrow> t \<in> rq_elems rq \<Longrightarrow>
   unat (td_rqindex (T t)) < RQ_NQS E \<and> t \<in> set (rq_queues rq ! unat (td_rqindex (T t)))"
  using rq_elems_iff [of E rq t] rq_inv_shape [of E T rq] rq_inv_index [of E T rq] by auto

lemma rq_elems_finite [simp]: "finite (rq_elems rq)"
  by (simp add: rq_elems_def)

lemma rq_inv_init:
  assumes "rqenv_ok E"
  shows "rq_inv E T (runq_init E)"
  using rqb_index [OF assms]
  by (auto simp: rq_inv_def rq_shape_def runq_init_def rq_bit_def)

lemma rq_elems_init: "rq_elems (runq_init E) = {}"
  by (auto simp: rq_elems_def runq_init_def)

text \<open>
  What every way of adding a thread does: the thread records the index, the bit is set, and
  the thread is linked somewhere in the queue of that index.
\<close>

definition rq_enqueue ::
  "('w::len) rqenv \<Rightarrow> threads \<Rightarrow> 'w runq \<Rightarrow> tid \<Rightarrow> nat \<Rightarrow> threads \<times> 'w runq \<Rightarrow> bool" where
  "rq_enqueue E T rq td pri r \<longleftrightarrow>
     fst r = set_rqindex T td pri \<and>
     (\<exists>q. inserted td (rq_queues rq ! pri) q \<and>
          snd r = rq_link (runq_setbit E rq pri) pri (\<lambda>_. q))"

lemma rq_link_cong: "f (rq_queues rq ! pri) = q \<Longrightarrow> rq_link rq pri f = rq_link rq pri (\<lambda>_. q)"
  by (simp add: rq_link_def)

lemma rq_enqueueI:
  "inserted td (rq_queues rq ! pri) (f (rq_queues rq ! pri)) \<Longrightarrow>
   rq_enqueue E T rq td pri (set_rqindex T td pri, rq_link (runq_setbit E rq pri) pri f)"
  unfolding rq_enqueue_def by (auto simp: frame_simps intro!: exI rq_link_cong)

lemma set_rqindex_at: "pri < 256 \<Longrightarrow> unat (td_rqindex (set_rqindex T td pri td)) = pri"
  by (simp add: set_rqindex_def)

lemma set_rqindex_other [simp]: "t \<noteq> td \<Longrightarrow> set_rqindex T td pri t = T t"
  by (simp add: set_rqindex_def)

lemma set_rqindex_fields [frame_simps]:
  "td_priority (set_rqindex T td pri t) = td_priority (T t)"
  "td_lastcpu (set_rqindex T td pri t) = td_lastcpu (T t)"
  "td_flags (set_rqindex T td pri t) = td_flags (T t)"
  "td_proc (set_rqindex T td pri t) = td_proc (T t)"
  "td_pinned (set_rqindex T td pri t) = td_pinned (T t)"
  "td_cpuset (set_rqindex T td pri t) = td_cpuset (T t)"
  "td_state (set_rqindex T td pri t) = td_state (T t)"
  by (simp_all add: set_rqindex_def)

lemma rq_enqueue_elems:
  assumes "rq_enqueue E T rq td pri (T', rq')" "rq_shape E rq" "pri < RQ_NQS E"
  shows "rq_elems rq' = insert td (rq_elems rq)"
proof -
  from assms(1) obtain q where q: "inserted td (rq_queues rq ! pri) q"
    and rq': "rq' = rq_link (runq_setbit E rq pri) pri (\<lambda>_. q)"
    by (auto simp: rq_enqueue_def)
  have "pri < length (rq_queues rq)" using assms(2,3) by (simp add: rq_shape_def)
  then show ?thesis
    unfolding rq_elems_def rq' frame_simps by (rule set_concat_update) (rule inserted_set [OF q])
qed

lemma rq_enqueue_inv:
  assumes E: "rqenv_ok E" and inv: "rq_inv E T rq" and new: "td \<notin> rq_elems rq"
    and pri: "pri < RQ_NQS E" and enq: "rq_enqueue E T rq td pri (T', rq')"
  shows "rq_inv E T' rq'"
proof -
  from enq obtain q where T': "T' = set_rqindex T td pri"
    and q: "inserted td (rq_queues rq ! pri) q"
    and rq': "rq' = rq_link (runq_setbit E rq pri) pri (\<lambda>_. q)"
    by (auto simp: rq_enqueue_def)
  have len: "length (rq_queues rq) = RQ_NQS E" using inv by (rule rq_inv_length)
  have pri256: "pri < 256" using pri rqenv_NQS_le [OF E] by simp
  have "mset (concat (rq_queues rq')) = add_mset td (mset (concat (rq_queues rq)))"
    using mset_concat_update [of pri "rq_queues rq" q] pri len inserted_mset [OF q]
    by (simp add: rq' frame_simps)
  then have "distinct (concat (rq_queues rq')) = distinct (td # concat (rq_queues rq))"
    by (intro distinct_mset_iff) simp
  then have dist: "distinct (concat (rq_queues rq'))"
    using rq_inv_distinct [OF inv] new by (simp add: rq_elems_def)
  have other: "t \<noteq> td" if "i < RQ_NQS E" "t \<in> set (rq_queues rq ! i)" for i t
    using that new rq_elems_iff [OF rq_inv_shape [OF inv], of td] by auto
  have bits: "rq_bit rq' i = (rq_queues rq' ! i \<noteq> [])" if "i < RQ_NQS E" for i
    using that pri len inserted_not_Nil [OF q] rq_inv_bit [OF inv]
      rq_bit_setbit [OF E rq_inv_shape [OF inv] pri]
    by (auto simp: rq' frame_simps nth_list_update)
  have idx: "unat (td_rqindex (T' t)) = i" if "i < RQ_NQS E" "t \<in> set (rq_queues rq' ! i)" for i t
    using that pri len other rq_inv_index [OF inv] set_rqindex_at [OF pri256] inserted_set [OF q]
    by (auto simp: rq' T' frame_simps nth_list_update split: if_splits)
  show ?thesis
    using rq_inv_shape [OF inv] bits idx dist
    by (auto simp: rq_inv_def rq' frame_simps)
qed

lemma runq_add_enqueue:
  "rq_enqueue E T rq td (unat (td_priority (T td)) div RQ_PPQ E) (runq_add E T rq td flags)"
  by (auto simp: runq_add_def Let_def intro!: rq_enqueueI)

lemma runq_add_pri_enqueue:
  "rq_enqueue E T rq td (unat pri) (runq_add_pri E T rq td pri flags)"
  by (auto simp: runq_add_pri_def Let_def intro!: rq_enqueueI)

subsection \<open>Removing a thread\<close>

definition rq_unlink :: "('w::len) rqenv \<Rightarrow> 'w runq \<Rightarrow> tid \<Rightarrow> nat \<Rightarrow> 'w runq" where
  "rq_unlink E rq td i =
     (let rq' = rq_link rq i (remove1 td)
      in if rq_queues rq' ! i = [] then runq_clrbit E rq' i else rq')"

lemma runq_remove_eq:
  "fst (runq_remove_idx E T rq td idx) = rq_unlink E rq td (unat (td_rqindex (T td)))"
  "runq_remove E T rq td = rq_unlink E rq td (unat (td_rqindex (T td)))"
  by (simp_all add: runq_remove_def runq_remove_idx_def rq_unlink_def Let_def)

lemma rq_unlink_frame [frame_simps]:
  "rq_queues (rq_unlink E rq td i) = (rq_queues rq)[i := remove1 td (rq_queues rq ! i)]"
  "rq_shape E (rq_unlink E rq td i) = rq_shape E rq"
  by (simp_all add: rq_unlink_def Let_def frame_simps)

lemma rq_unlink_bit:
  assumes "rqenv_ok E" "rq_shape E rq" "i < RQ_NQS E" "j < RQ_NQS E"
  shows "rq_bit (rq_unlink E rq td i) j =
    (rq_bit rq j \<and> (j = i \<longrightarrow> remove1 td (rq_queues rq ! i) \<noteq> []))"
  using assms
  by (auto simp: rq_unlink_def Let_def frame_simps rq_bit_clrbit rq_shape_def)

lemma mset_cancel_one:
  "A + B = C + D \<Longrightarrow> B = add_mset x D \<Longrightarrow> add_mset x A = C" for A B C D :: "'a multiset"
  by simp

lemma concat_unlink_mset:
  assumes "i < length qs" "td \<in> set (qs ! i)"
  shows "add_mset td (mset (concat (qs[i := remove1 td (qs ! i)]))) = mset (concat qs)"
proof (rule mset_cancel_one)
  show "mset (concat (qs[i := remove1 td (qs ! i)])) + mset (qs ! i) =
      mset (concat qs) + mset (remove1 td (qs ! i))"
    by (rule mset_concat_update) (rule assms)
  show "mset (qs ! i) = add_mset td (mset (remove1 td (qs ! i)))"
    using assms(2) by simp
qed

lemma rq_remove_inv:
  assumes E: "rqenv_ok E" and inv: "rq_inv E T rq" and td: "td \<in> rq_elems rq"
  shows "rq_inv E T (runq_remove E T rq td)"
    and "rq_elems (runq_remove E T rq td) = rq_elems rq - {td}"
proof -
  let ?i = "unat (td_rqindex (T td))" and ?rq = "runq_remove E T rq td"
  have i: "?i < RQ_NQS E" and mem: "td \<in> set (rq_queues rq ! ?i)"
    using rq_elems_queue [OF inv td] by auto
  have len: "length (rq_queues rq) = RQ_NQS E" using inv by (rule rq_inv_length)
  have m: "add_mset td (mset (concat (rq_queues ?rq))) = mset (concat (rq_queues rq))"
    unfolding runq_remove_eq frame_simps
    by (rule concat_unlink_mset) (use i len mem in simp_all)
  then have "mset (td # concat (rq_queues ?rq)) = mset (concat (rq_queues rq))" by simp
  note eq = distinct_mset_iff [OF this] mset_eq_setD [OF this]
  from eq(1) have dist: "distinct (concat (rq_queues ?rq))" and out: "td \<notin> rq_elems ?rq"
    using rq_inv_distinct [OF inv] by (simp_all add: rq_elems_def del: set_concat)
  from eq(2) have "insert td (rq_elems ?rq) = rq_elems rq"
    by (simp add: rq_elems_def del: set_concat)
  then show "rq_elems ?rq = rq_elems rq - {td}" using out by blast
  have sub: "set (rq_queues ?rq ! j) \<subseteq> set (rq_queues rq ! j)" if "j < RQ_NQS E" for j
    using that i len by (simp add: runq_remove_eq frame_simps nth_list_update set_remove1_subset)
  have bits: "rq_bit ?rq j = (rq_queues ?rq ! j \<noteq> [])" if "j < RQ_NQS E" for j
    unfolding runq_remove_eq frame_simps rq_unlink_bit [OF E rq_inv_shape [OF inv] i that]
    using i that len by (cases "j = ?i") (simp_all add: rq_inv_bit [OF inv], metis remove1.simps(1))
  have idx: "unat (td_rqindex (T t)) = j" if "j < RQ_NQS E" "t \<in> set (rq_queues ?rq ! j)" for j t
    using rq_inv_index [OF inv that(1)] sub [OF that(1)] that(2) by auto
  have "rq_shape E ?rq" using rq_inv_shape [OF inv] by (simp add: runq_remove_eq frame_simps)
  then show "rq_inv E T ?rq"
    unfolding rq_inv_def using bits idx dist by blast
qed

subsection \<open>What the choosers return\<close>

lemma find_nonempty_cong:
  assumes "rq_inv E T rq" "\<And>i. i \<in> set is \<Longrightarrow> i < RQ_NQS E"
  shows "find (rq_bit rq) is = find (\<lambda>i. rq_queues rq ! i \<noteq> []) is"
  using assms by (intro find_cong) (auto simp: rq_inv_bit)

lemma runq_choose_find:
  assumes "rqenv_ok E" "rq_inv E T rq"
  shows "runq_choose E rq =
    map_option (\<lambda>i. hd (rq_queues rq ! i)) (find (\<lambda>i. rq_queues rq ! i \<noteq> []) [0..<RQ_NQS E])"
proof -
  have "find (rq_bit rq) [0..<RQ_NQS E] = find (\<lambda>i. rq_queues rq ! i \<noteq> []) [0..<RQ_NQS E]"
    by (rule find_nonempty_cong [OF assms(2)]) simp
  then show ?thesis
    by (cases "find (\<lambda>i. rq_queues rq ! i \<noteq> []) [0..<RQ_NQS E]")
      (auto simp: runq_choose_def runq_findbit_eq [OF assms(1)] TAILQ_FIRST_eq dest: find_upt_SomeD)
qed

lemma runq_choose_Some:
  assumes "rqenv_ok E" "rq_inv E T rq"
  shows "runq_choose E rq = Some td \<longleftrightarrow>
    (\<exists>i<RQ_NQS E. rq_queues rq ! i \<noteq> [] \<and> td = hd (rq_queues rq ! i) \<and>
       (\<forall>j<i. rq_queues rq ! j = []))"
  unfolding runq_choose_find [OF assms] map_option_eq_Some find_upt_Some by auto

lemma runq_choose_None:
  assumes "rqenv_ok E" "rq_inv E T rq"
  shows "runq_choose E rq = None \<longleftrightarrow> rq_elems rq = {}"
proof -
  have "runq_choose E rq = None \<longleftrightarrow> (\<forall>i<RQ_NQS E. rq_queues rq ! i = [])"
    by (simp add: runq_choose_find [OF assms] find_upt_None)
  also have "\<dots> \<longleftrightarrow> (\<forall>t. t \<notin> rq_elems rq)"
    unfolding rq_elems_iff [OF rq_inv_shape [OF assms(2)]] by (metis list.set_intros(1) neq_Nil_conv empty_iff list.set(1))
  finally show ?thesis by blast
qed

lemma runq_choose_mem:
  assumes "rqenv_ok E" "rq_inv E T rq" "runq_choose E rq = Some td"
  shows "td \<in> rq_elems rq"
proof -
  from assms obtain i where "i < RQ_NQS E" "rq_queues rq ! i \<noteq> []" "td = hd (rq_queues rq ! i)"
    by (auto simp: runq_choose_Some)
  then show ?thesis
    unfolding rq_elems_iff [OF rq_inv_shape [OF assms(2)]] using hd_in_set by blast
qed

end
