(* ===== verification/Runq_Laws.thy ===== *)
theory Runq_Laws
  imports Runq
begin

section \<open>What a scheduler may rely on, and that the run queue provides it\<close>

text \<open>
  The scheduler adds threads, removes threads and asks for a thread to run. The locale
  \<open>thread_queue\<close> states this interface with the laws its clients use; the locale
  \<open>runq_headers\<close> fixes header parameters that satisfy \<open>rqenv_ok\<close> and shows that the run
  queue of \<^verbatim>\<open>kern_switch_orig.c\<close> is such a queue. Both are interpreted on the layout of a
  64-bit machine (one word of 64 bits) and of a 32-bit machine (two words of 32 bits).
\<close>

subsection \<open>Two layouts of the bitmap\<close>

definition ffs_word :: "('w::len) word \<Rightarrow> nat" where
  "ffs_word w = (case find (bit w) [0..<LENGTH('w)] of None \<Rightarrow> 0 | Some k \<Rightarrow> k)"

lemma ffs_word:
  fixes w :: "('w::len) word"
  assumes "w \<noteq> 0"
  shows "bit w (ffs_word w)" "k < ffs_word w \<Longrightarrow> \<not> bit w k"
proof -
  from assms obtain j where "bit w j" "j < LENGTH('w)"
    by (metis bit_imp_le_length bit_eqI bit_0_eq bot_apply bot_bool_def)
  then obtain p where "find (bit w) [0..<LENGTH('w)] = Some p"
    by (cases "find (bit w) [0..<LENGTH('w)]") (auto simp: find_upt_None)
  then show "bit w (ffs_word w)" "k < ffs_word w \<Longrightarrow> \<not> bit w k"
    using find_upt_SomeD [of "bit w" 0 "LENGTH('w)" p] by (auto simp: ffs_word_def)
qed

definition amd64_env :: "64 rqenv" where
  "amd64_env = \<lparr>RQ_NQS = 64, RQ_PPQ = 4, RQB_LEN = 1, RQB_BPW = 64, RQB_L2BPW = 6,
     RQB_WORD = (\<lambda>p. p div 64), RQB_BIT = (\<lambda>p. push_bit (p mod 64) 1), RQB_FFS = ffs_word\<rparr>"

definition i386_env :: "32 rqenv" where
  "i386_env = \<lparr>RQ_NQS = 64, RQ_PPQ = 4, RQB_LEN = 2, RQB_BPW = 32, RQB_L2BPW = 5,
     RQB_WORD = (\<lambda>p. p div 32), RQB_BIT = (\<lambda>p. push_bit (p mod 32) 1), RQB_FFS = ffs_word\<rparr>"

lemma rqenv_ok_amd64: "rqenv_ok amd64_env"
  by (simp add: rqenv_ok_def amd64_env_def ffs_word)

lemma rqenv_ok_i386: "rqenv_ok i386_env"
  by (simp add: rqenv_ok_def i386_env_def ffs_word)

subsection \<open>The interface of the scheduler\<close>

text \<open>Taking threads with \<open>pick\<close> and \<open>deq\<close> until none is left, for at most \<open>n\<close> rounds.\<close>

primrec take_queue ::
  "('s \<Rightarrow> tid option) \<Rightarrow> (tid \<Rightarrow> 's \<Rightarrow> 's) \<Rightarrow> nat \<Rightarrow> 's \<Rightarrow> tid list \<times> 's" where
  "take_queue pick deq 0 s = ([], s)"
| "take_queue pick deq (Suc n) s =
     (case pick s of
        None \<Rightarrow> ([], s)
      | Some td \<Rightarrow> (let (tds, s') = take_queue pick deq n (deq td s) in (td # tds, s')))"

locale thread_queue =
  fixes ok :: "'s \<Rightarrow> bool"
    and elems :: "'s \<Rightarrow> tid set"
    and enq :: "tid \<Rightarrow> 's \<Rightarrow> 's"
    and deq :: "tid \<Rightarrow> 's \<Rightarrow> 's"
    and pick :: "'s \<Rightarrow> tid option"
  assumes finite_elems: "ok s \<Longrightarrow> finite (elems s)"
    and enq_ok: "ok s \<Longrightarrow> td \<notin> elems s \<Longrightarrow> ok (enq td s)"
    and enq_elems: "ok s \<Longrightarrow> td \<notin> elems s \<Longrightarrow> elems (enq td s) = insert td (elems s)"
    and deq_ok: "ok s \<Longrightarrow> td \<in> elems s \<Longrightarrow> ok (deq td s)"
    and deq_elems: "ok s \<Longrightarrow> td \<in> elems s \<Longrightarrow> elems (deq td s) = elems s - {td}"
    and pick_None: "ok s \<Longrightarrow> pick s = None \<longleftrightarrow> elems s = {}"
    and pick_elems: "ok s \<Longrightarrow> pick s = Some td \<Longrightarrow> td \<in> elems s"
begin

lemma enq_all_ok:
  "ok s \<Longrightarrow> distinct tds \<Longrightarrow> set tds \<inter> elems s = {} \<Longrightarrow>
   ok (fold enq tds s) \<and> elems (fold enq tds s) = set tds \<union> elems s"
  by (induction tds arbitrary: s) (auto simp: enq_ok enq_elems)

lemma pick_Some: "ok s \<Longrightarrow> elems s \<noteq> {} \<Longrightarrow> \<exists>td\<in>elems s. pick s = Some td"
  using pick_None pick_elems by (metis option.exhaust)

lemma deq_card: "ok s \<Longrightarrow> td \<in> elems s \<Longrightarrow> Suc (card (elems (deq td s))) = card (elems s)"
  unfolding deq_elems by (rule card_Suc_Diff1 [OF finite_elems])

lemma take_queue_all:
  assumes "ok s" "card (elems s) \<le> n"
  shows "ok (snd (take_queue pick deq n s)) \<and> elems (snd (take_queue pick deq n s)) = {} \<and>
    distinct (fst (take_queue pick deq n s)) \<and> set (fst (take_queue pick deq n s)) = elems s"
  using assms
proof (induction n arbitrary: s)
  case 0
  then show ?case by (simp add: finite_elems)
next
  case (Suc n)
  show ?case
  proof (cases "elems s = {}")
    case True
    then have "pick s = None" using Suc.prems pick_None by simp
    then show ?thesis using True Suc.prems by simp
  next
    case False
    then obtain td where td: "td \<in> elems s" "pick s = Some td"
      using pick_Some Suc.prems by blast
    obtain tds s' where r: "take_queue pick deq n (deq td s) = (tds, s')" by fastforce
    have "ok (deq td s)" "card (elems (deq td s)) \<le> n"
      using Suc.prems td deq_ok deq_card [of s td] by auto
    from Suc.IH [OF this] r td show ?thesis
      by (auto simp: deq_elems Suc.prems)
  qed
qed

end

subsection \<open>The run queue provides it\<close>

text \<open>The state is the thread store and the run queue, since adding writes both.\<close>

abbreviation rq_ok :: "('w::len) rqenv \<Rightarrow> threads \<times> 'w runq \<Rightarrow> bool" where
  "rq_ok E s \<equiv> rq_inv E (fst s) (snd s)"

abbreviation rq_set :: "threads \<times> ('w::len) runq \<Rightarrow> tid set" where
  "rq_set s \<equiv> rq_elems (snd s)"

abbreviation rq_deq :: "('w::len) rqenv \<Rightarrow> tid \<Rightarrow> threads \<times> 'w runq \<Rightarrow> threads \<times> 'w runq" where
  "rq_deq E td s \<equiv> (fst s, runq_remove E (fst s) (snd s) td)"

abbreviation rq_enq ::
  "('w::len) rqenv \<Rightarrow> srq_flag set \<Rightarrow> tid \<Rightarrow> threads \<times> 'w runq \<Rightarrow> threads \<times> 'w runq" where
  "rq_enq E flags td s \<equiv> runq_add E (fst s) (snd s) td flags"

lemma runq_add_inv [runq_intros]:
  assumes "rqenv_ok E" "rq_inv E T rq" "td \<notin> rq_elems rq"
  shows "rq_ok E (runq_add E T rq td flags)"
    and "rq_set (runq_add E T rq td flags) = insert td (rq_elems rq)"
  using rq_enqueue_inv [OF assms rqenv_prio [OF assms(1)]]
    rq_enqueue_elems [OF _ rq_inv_shape [OF assms(2)] rqenv_prio [OF assms(1)]]
    runq_add_enqueue [of E T rq td flags]
  by (metis prod.collapse)+

lemma runq_add_pri_inv [runq_intros]:
  assumes "rqenv_ok E" "rq_inv E T rq" "td \<notin> rq_elems rq" "unat pri < RQ_NQS E"
  shows "rq_ok E (runq_add_pri E T rq td pri flags)"
    and "rq_set (runq_add_pri E T rq td pri flags) = insert td (rq_elems rq)"
  using rq_enqueue_inv [OF assms] rq_enqueue_elems [OF _ rq_inv_shape [OF assms(2)] assms(4)]
    runq_add_pri_enqueue [of E T rq td pri flags]
  by (metis prod.collapse)+

text \<open>A thread for the examples on concrete run queues.\<close>

definition thread0 :: thread where
  "thread0 = \<lparr>td_proc = 0, td_state = TDS_CAN_RUN, td_flags = {}, td_priority = 0, td_rqindex = 0,
     td_lastcpu = None, td_oncpu = None, td_critnest = 1, td_owepreempt = False,
     td_pri_class = (PRI_TIMESHARE, False), td_base_pri = 120, td_user_pri = 120,
     td_base_user_pri = 120, td_lend_user_pri = 255, td_pinned = 0, td_cpuset = {0},
     td_slptick = 0, td_inhibitors = {}, td_intr_nesting_level = 0\<rparr>"

definition threads0 :: threads where
  "threads0 td = thread0\<lparr>td_priority := of_nat (td mod 256)\<rparr>"

locale runq_headers =
  fixes E :: "('w::len) rqenv"
  assumes headers: "rqenv_ok E"
begin

text \<open>
  Any way of adding that stores an index and links the thread in that queue gives a
  \<open>thread_queue\<close> together with \<open>runq_remove\<close> and \<open>runq_choose\<close>.
\<close>

lemma enqueue_queue:
  assumes "\<And>td s. rq_ok E s \<Longrightarrow> td \<notin> rq_set s \<Longrightarrow>
    \<exists>pri<RQ_NQS E. rq_enqueue E (fst s) (snd s) td pri (f td s)"
  shows "thread_queue (rq_ok E) rq_set f (rq_deq E) (\<lambda>s. runq_choose E (snd s))"
proof
  fix s :: "threads \<times> 'w runq" and td
  assume s: "rq_ok E s"
  show "finite (rq_set s)" by simp
  show "runq_choose E (snd s) = None \<longleftrightarrow> rq_set s = {}"
    using s headers by (simp add: runq_choose_None)
  show "runq_choose E (snd s) = Some td \<Longrightarrow> td \<in> rq_set s"
    using s headers by (simp add: runq_choose_mem)
  show "td \<in> rq_set s \<Longrightarrow> rq_ok E (rq_deq E td s)"
    and "td \<in> rq_set s \<Longrightarrow> rq_set (rq_deq E td s) = rq_set s - {td}"
    using s headers by (simp_all add: rq_remove_inv)
  assume "td \<notin> rq_set s"
  with assms [OF s] obtain pri where pri: "pri < RQ_NQS E"
    and enq: "rq_enqueue E (fst s) (snd s) td pri (fst (f td s), snd (f td s))"
    by auto
  show "rq_ok E (f td s)"
    using rq_enqueue_inv [OF headers s \<open>td \<notin> rq_set s\<close> pri enq] by simp
  show "rq_set (f td s) = insert td (rq_set s)"
    using rq_enqueue_elems [OF enq rq_inv_shape [OF s] pri] .
qed

end

sublocale runq_headers \<subseteq> stock:
  thread_queue "rq_ok E" rq_set "rq_enq E flags" "rq_deq E" "\<lambda>s. runq_choose E (snd s)" for flags
  by (rule enqueue_queue) (auto intro: runq_add_enqueue rqenv_prio [OF headers])

context runq_headers
begin

lemma add_all_ok:
  assumes "distinct tds"
  shows "rq_ok E (fold (rq_enq E flags) tds (T, runq_init E)) \<and>
    rq_set (fold (rq_enq E flags) tds (T, runq_init E)) = set tds"
  using stock.enq_all_ok [of "(T, runq_init E)" tds flags] assms headers
  by (simp add: rq_inv_init rq_elems_init)

end

interpretation amd64: runq_headers amd64_env
  by unfold_locales (rule rqenv_ok_amd64)

interpretation i386: runq_headers i386_env
  by unfold_locales (rule rqenv_ok_i386)

end
