(* ===== verification/Runq_Props.thy ===== *)
theory Runq_Props
  imports Runq_Laws
begin

section \<open>Properties of the run queue\<close>

text \<open>
  The properties of the operations of \<^verbatim>\<open>kern_switch_orig.c\<close>: what each search returns, that
  adding and removing are inverse, that every sequence of operations keeps the invariant, and
  that draining a run queue sorts its threads.
\<close>

subsection \<open>Adding and removing are inverse\<close>

lemma or_and_not: "\<not> bit b k \<Longrightarrow> (b OR 2 ^ k) AND NOT (2 ^ k) = b" for b :: "('w::len) word"
  by (rule bit_word_eqI) (auto simp: bit_simps)

lemma or_same: "bit b k \<Longrightarrow> b OR 2 ^ k = b" for b :: "('w::len) word"
  by (rule bit_word_eqI) (auto simp: bit_simps)

lemma list_update_same: "xs ! i = x \<Longrightarrow> xs[i := x] = xs"
  by (metis list_update_id)

lemma rq_enqueue_unlink:
  fixes E :: "('w::len) rqenv"
  assumes E: "rqenv_ok E" and inv: "rq_inv E T rq" and new: "td \<notin> rq_elems rq"
    and pri: "pri < RQ_NQS E" and enq: "rq_enqueue E T rq td pri (T', rq')"
  shows "runq_remove E T' rq' td = rq"
proof -
  from enq obtain q where T': "T' = set_rqindex T td pri"
    and q: "inserted td (rq_queues rq ! pri) q"
    and rq': "rq' = rq_link (runq_setbit E rq pri) pri (\<lambda>_. q)"
    by (auto simp: rq_enqueue_def)
  have len: "length (rq_queues rq) = RQ_NQS E" using inv by (rule rq_inv_length)
  have "pri < 256" using pri rqenv_NQS_le [OF E] by simp
  then have idx: "unat (td_rqindex (T' td)) = pri" unfolding T' by (rule set_rqindex_at)
  have "td \<notin> set (rq_queues rq ! pri)"
    using new pri rq_elems_iff [OF rq_inv_shape [OF inv]] by auto
  then have rem: "remove1 td q = rq_queues rq ! pri" by (rule inserted_remove1 [OF q])
  have w: "pri div LENGTH('w) < length (rqb_bits rq)"
    using rqb_index [OF E pri] rq_inv_shape [OF inv] by (simp add: rq_shape_def)
  have bit: "bit (rqb_bits rq ! (pri div LENGTH('w))) (pri mod LENGTH('w)) = (rq_queues rq ! pri \<noteq> [])"
    using rq_inv_bit [OF inv pri] by (simp add: rq_bit_def)
  show ?thesis
    unfolding runq_remove_eq idx
    using pri len bit w
    by (cases "rq_queues rq ! pri = []")
      (simp_all add: rq_unlink_def Let_def rq' rq_link_def runq_setbit_def runq_clrbit_def rem
        rqenv_WORD [OF E] rqenv_BIT [OF E] or_and_not or_same
        list_update_same)
qed

subsection \<open>Draining a run queue\<close>

lemma concat_first_nonempty:
  "i < length qs \<Longrightarrow> \<forall>j<i. qs ! j = [] \<Longrightarrow> concat qs = qs ! i @ concat (drop (Suc i) qs)"
proof (induction qs arbitrary: i)
  case Nil
  then show ?case by simp
next
  case (Cons q qs)
  then show ?case by (cases i) force+
qed

lemma runq_choose_concat:
  assumes E: "rqenv_ok E" and inv: "rq_inv E T rq" and td: "runq_choose E rq = Some td"
  shows "concat (rq_queues rq) = td # concat (rq_queues (runq_remove E T rq td))"
proof -
  from td obtain i where i: "i < RQ_NQS E" "rq_queues rq ! i \<noteq> []" "td = hd (rq_queues rq ! i)"
    "\<forall>j<i. rq_queues rq ! j = []"
    by (auto simp: runq_choose_Some [OF E inv])
  then obtain tds where q: "rq_queues rq ! i = td # tds" by (metis list.collapse)
  have len: "i < length (rq_queues rq)" using i(1) rq_inv_length [OF inv] by simp
  have idx: "unat (td_rqindex (T td)) = i" using rq_inv_index [OF inv i(1)] q by simp
  have "concat (rq_queues rq) = td # tds @ concat (drop (Suc i) (rq_queues rq))"
    using concat_first_nonempty [OF len i(4)] q by simp
  moreover have "concat ((rq_queues rq)[i := tds]) = tds @ concat (drop (Suc i) (rq_queues rq))"
    using concat_first_nonempty [of i "(rq_queues rq)[i := tds]"] len i(4) by simp
  ultimately show ?thesis by (simp add: runq_remove_eq idx frame_simps q)
qed

lemma take_queue_concat:
  assumes E: "rqenv_ok E" and "rq_ok E s" and "length (concat (rq_queues (snd s))) \<le> n"
  shows "fst (take_queue (\<lambda>s. runq_choose E (snd s)) (rq_deq E) n s) = concat (rq_queues (snd s))"
  using assms(2-)
proof (induction n arbitrary: s)
  case 0
  then show ?case by simp
next
  case (Suc n)
  show ?case
  proof (cases "runq_choose E (snd s)")
    case None
    then have "rq_set s = {}" using runq_choose_None [OF E Suc.prems(1)] by simp
    then have "concat (rq_queues (snd s)) = []" unfolding rq_elems_def set_empty .
    then show ?thesis by (simp only: take_queue.simps None option.case fst_conv)
  next
    case (Some td)
    note c = runq_choose_concat [OF E Suc.prems(1) Some]
    have "td \<in> rq_set s" by (rule runq_choose_mem [OF E Suc.prems(1) Some])
    then have "rq_ok E (rq_deq E td s)" using rq_remove_inv(1) [OF E Suc.prems(1)] by simp
    then show ?thesis
      using Suc.IH [of "rq_deq E td s"] Suc.prems c Some by (auto split: prod.splits)
  qed
qed

abbreviation rq_key :: "('w::len) rqenv \<Rightarrow> threads \<Rightarrow> tid \<Rightarrow> nat" where
  "rq_key E T td \<equiv> unat (td_priority (T td)) div RQ_PPQ E"

lemma runq_add_queues:
  "rq_queues (snd (runq_add E T rq td {})) =
    (rq_queues rq)[rq_key E T td := rq_queues rq ! rq_key E T td @ [td]]"
  "td_priority (fst (runq_add E T rq td {}) t) = td_priority (T t)"
  by (simp_all add: runq_add_def Let_def frame_simps)

lemma add_all_queues:
  assumes E: "rqenv_ok E" and "length (rq_queues (snd s)) = RQ_NQS E" and "i < RQ_NQS E"
  shows "rq_queues (snd (fold (rq_enq E {}) tds s)) ! i =
    rq_queues (snd s) ! i @ filter (\<lambda>td. rq_key E (fst s) td = i) tds"
  using assms(2)
proof (induction tds arbitrary: s)
  case Nil
  then show ?case by simp
next
  case (Cons td tds)
  then show ?case
    using rqenv_prio [OF E, of "td_priority (fst s td)"] assms(3)
    by (simp add: runq_add_queues nth_list_update)
qed

text \<open>The elements of a list by the value of a key, one bucket after the other.\<close>

definition buckets :: "('a \<Rightarrow> nat) \<Rightarrow> 'a list \<Rightarrow> nat \<Rightarrow> 'a list" where
  "buckets f xs n = concat (map (\<lambda>i. filter (\<lambda>x. f x = i) xs) [0..<n])"

lemma buckets_simps:
  "buckets f xs 0 = []" "buckets f xs (Suc n) = buckets f xs n @ filter (\<lambda>x. f x = n) xs"
  by (simp_all add: buckets_def)

lemma filter_less_Suc_mset:
  "mset (filter (\<lambda>x. f x < Suc m) xs) =
   mset (filter (\<lambda>x. f x < m) xs) + mset (filter (\<lambda>x. f x = m) xs)" for f :: "'a \<Rightarrow> nat"
  by (induction xs) auto

lemma buckets_mset: "mset (buckets f xs m) = mset (filter (\<lambda>x. f x < m) xs)"
  by (induction m) (simp_all only: buckets_simps filter_less_Suc_mset mset_append, simp)

lemma buckets_set: "set (buckets f xs m) = {x \<in> set xs. f x < m}"
  using mset_eq_setD [OF buckets_mset [of f xs m]] by simp

lemma sorted_map_filter_const: "sorted (map f (filter (\<lambda>x. f x = m) xs))" for m :: nat
  by (induction xs) auto

lemma buckets_sorted: "sorted (map f (buckets f xs m))"
  by (induction m) (auto simp: buckets_simps sorted_append buckets_set sorted_map_filter_const)

lemma buckets_filter: "k < m \<Longrightarrow> filter (\<lambda>x. f x = k) (buckets f xs m) = filter (\<lambda>x. f x = k) xs"
proof (induction m)
  case 0
  then show ?case by simp
next
  case (Suc m)
  then show ?case
    by (cases "k = m") (auto simp: buckets_simps buckets_set filter_empty_conv intro: filter_False)
qed

lemma buckets_sort:
  assumes "\<forall>x\<in>set xs. f x < n"
  shows "buckets f xs n = sort_key f xs"
proof (rule sym, rule properties_for_sort_key)
  show "mset (buckets f xs n) = mset xs"
    unfolding buckets_mset using assms by (simp only: filter_True)
  show "filter (\<lambda>x. f k = f x) (buckets f xs n) = filter (\<lambda>x. f k = f x) xs"
    if "k \<in> set (buckets f xs n)" for k
    using that buckets_filter [of "f k" n f xs] by (simp add: buckets_set eq_commute [of "f k"])
qed (rule buckets_sorted)

lemma map_nth_upt: "length qs = n \<Longrightarrow> (\<And>i. i < n \<Longrightarrow> qs ! i = g i) \<Longrightarrow> qs = map g [0..<n]"
  by (rule nth_equalityI) simp_all

lemma add_all_length:
  "length (rq_queues (snd (fold (rq_enq E {}) tds s))) = length (rq_queues (snd s))"
  by (induction tds arbitrary: s) (simp_all add: runq_add_queues)

lemma add_all_concat:
  assumes E: "rqenv_ok E"
  shows "concat (rq_queues (snd (fold (rq_enq E {}) tds (T, runq_init E)))) =
    sort_key (rq_key E T) tds"
proof -
  let ?qs = "rq_queues (snd (fold (rq_enq E {}) tds (T, runq_init E)))"
  have len: "length (rq_queues (runq_init E)) = RQ_NQS E" by (simp add: runq_init_def)
  have "?qs = map (\<lambda>i. filter (\<lambda>td. rq_key E T td = i) tds) [0..<RQ_NQS E]"
    using add_all_queues [OF E, of "(T, runq_init E)" _ tds] len
    by (intro map_nth_upt) (simp_all add: add_all_length, simp add: runq_init_def)
  then have "concat ?qs = buckets (rq_key E T) tds (RQ_NQS E)" by (simp add: buckets_def)
  also have "\<dots> = sort_key (rq_key E T) tds"
    by (rule buckets_sort) (simp add: rqenv_prio [OF E])
  finally show ?thesis .
qed

subsection \<open>Reachable run queues\<close>

text \<open>
  What happens to a run queue in the kernel: threads that are not queued are added, queued
  threads are removed, and the rest of the kernel changes any field of a thread except the
  \<^verbatim>\<open>td_rqindex\<close> of a queued one.
\<close>

inductive rq_reach :: "('w::len) rqenv \<Rightarrow> threads \<Rightarrow> 'w runq \<Rightarrow> bool" for E where
  init: "rq_reach E T (runq_init E)"
| add: "rq_reach E T rq \<Longrightarrow> td \<notin> rq_elems rq \<Longrightarrow> runq_add E T rq td flags = (T', rq') \<Longrightarrow>
    rq_reach E T' rq'"
| add_pri: "rq_reach E T rq \<Longrightarrow> td \<notin> rq_elems rq \<Longrightarrow> unat pri < RQ_NQS E \<Longrightarrow>
    runq_add_pri E T rq td pri flags = (T', rq') \<Longrightarrow> rq_reach E T' rq'"
| remove: "rq_reach E T rq \<Longrightarrow> td \<in> rq_elems rq \<Longrightarrow>
    runq_remove_idx E T rq td idx = (rq', idx') \<Longrightarrow> rq_reach E T rq'"
| others: "rq_reach E T rq \<Longrightarrow> \<forall>td\<in>rq_elems rq. td_rqindex (T' td) = td_rqindex (T td) \<Longrightarrow>
    rq_reach E T' rq"

inductive_cases rq_reach_cases: "rq_reach E T rq"

lemma rq_inv_threads:
  assumes "rq_inv E T rq" "\<forall>td\<in>rq_elems rq. td_rqindex (T' td) = td_rqindex (T td)"
  shows "rq_inv E T' rq"
  using assms rq_elems_iff [OF rq_inv_shape [OF assms(1)]] unfolding rq_inv_def by metis

lemma rq_reach_inv:
  assumes E: "rqenv_ok E"
  shows "rq_reach E T rq \<Longrightarrow> rq_inv E T rq"
proof (induction rule: rq_reach.induct)
  case (init T)
  show ?case by (rule rq_inv_init [OF E])
next
  case (add T rq td flags T' rq')
  then show ?case using runq_add_inv(1) [OF E, of T rq td flags] by simp
next
  case (add_pri T rq td pri flags T' rq')
  then show ?case using runq_add_pri_inv(1) [OF E, of T rq td pri flags] by simp
next
  case (remove T rq td idx rq' idx')
  then have "rq' = runq_remove E T rq td" using runq_remove_eq(1) [of E T rq td idx] runq_remove_eq(2) [of E T rq td] by simp
  with remove show ?case using rq_remove_inv(1) [OF E] by simp
next
  case (others T rq T')
  then show ?case using rq_inv_threads by blast
qed

lemma rq_add_all_ok:
  assumes "rqenv_ok E" "distinct tds"
  shows "rq_ok E (fold (rq_enq E {}) tds (T, runq_init E)) \<and>
    rq_set (fold (rq_enq E {}) tds (T, runq_init E)) = set tds"
  by (rule runq_headers.add_all_ok [OF runq_headers.intro [OF assms(1)] assms(2)])

lemma rq_add_all_reach:
  assumes "rqenv_ok E" "distinct tds"
  shows "rq_reach E (fst (fold (rq_enq E {}) tds (T, runq_init E)))
    (snd (fold (rq_enq E {}) tds (T, runq_init E)))"
  using assms(2)
proof (induction tds rule: rev_induct)
  case Nil
  then show ?case by (simp add: rq_reach.init)
next
  case (snoc td tds)
  let ?s = "fold (rq_enq E {}) tds (T, runq_init E)"
  have "rq_reach E (fst ?s) (snd ?s)" "td \<notin> rq_elems (snd ?s)"
    using snoc rq_add_all_ok [OF assms(1), of tds T] by simp_all
  then have "rq_reach E (fst (rq_enq E {} td ?s)) (snd (rq_enq E {} td ?s))"
    by (rule rq_reach.add) (rule prod.collapse [symmetric])
  then show ?case by simp
qed

text \<open>Two queued threads of the priorities 40 and 200, added in the wrong order.\<close>

definition two_queued :: "threads \<times> 64 runq" where
  "two_queued = fold (rq_enq amd64_env {}) [200, 40] (threads0, runq_init amd64_env)"

lemma two_queued:
  "rq_ok amd64_env two_queued" "rq_set two_queued = {40, 200}"
  "rq_reach amd64_env (fst two_queued) (snd two_queued)"
  unfolding two_queued_def
  using rq_add_all_ok [OF rqenv_ok_amd64, of "[200, 40]" threads0]
    rq_add_all_reach [OF rqenv_ok_amd64, of "[200, 40]" threads0]
  by auto

lemma amd64_NQS [simp]: "RQ_NQS amd64_env = 64" "RQ_PPQ amd64_env = 4"
  by (simp_all add: amd64_env_def)

lemma two_queued_queues:
  "i < 64 \<Longrightarrow> rq_queues (snd two_queued) ! i = (if i = 50 then [200] else if i = 10 then [40] else [])"
  unfolding two_queued_def
  by (subst add_all_queues [OF rqenv_ok_amd64])
    (auto simp: runq_init_def amd64_env_def threads0_def)

subsection \<open>The properties\<close>

text \<open>
  C2. \<open>runq_choose\<close> on any reachable run queue: it returns \<^verbatim>\<open>NULL\<close> exactly when nothing is
  queued, and otherwise the head of the queue of the numerically least (best) priority that
  is not empty; in particular the \<^verbatim>\<open>KASSERT\<close> on a set bit over an empty queue never fires.
\<close>

theorem runq_choose_highest:
  assumes "rqenv_ok E" and "rq_reach E T rq"
  shows "case runq_choose E rq of
      None \<Rightarrow> rq_elems rq = {}
    | Some td \<Rightarrow> (\<exists>i<RQ_NQS E. rq_queues rq ! i \<noteq> [] \<and> td = hd (rq_queues rq ! i) \<and>
        unat (td_rqindex (T td)) = i \<and> (\<forall>t\<in>rq_elems rq. i \<le> unat (td_rqindex (T t))))"
proof -
  note inv = rq_reach_inv [OF assms]
  have least: "i \<le> unat (td_rqindex (T t))" if "\<forall>j<i. rq_queues rq ! j = []" "t \<in> rq_elems rq" for i t
    using rq_elems_queue [OF inv that(2)] that(1) by (metis empty_iff empty_set not_less)
  show ?thesis
  proof (cases "runq_choose E rq")
    case None
    then have "rq_elems rq = {}" using runq_choose_None [OF assms(1) inv] by simp
    then show ?thesis using None by simp
  next
    case (Some td)
    then obtain i where i: "i < RQ_NQS E" "rq_queues rq ! i \<noteq> []" "td = hd (rq_queues rq ! i)"
      "\<forall>j<i. rq_queues rq ! j = []"
      by (auto simp: runq_choose_Some [OF assms(1) inv])
    then have "unat (td_rqindex (T td)) = i" using rq_inv_index [OF inv i(1)] by simp
    with i least [OF i(4)] Some show ?thesis by auto
  qed
qed

theorem runq_choose_highest_witness:
  "\<exists>td. runq_choose amd64_env (snd two_queued) = Some td \<and>
     unat (td_rqindex (fst two_queued td)) \<le> unat (td_rqindex (fst two_queued 200))"
  using runq_choose_highest [OF rqenv_ok_amd64 two_queued(3)] two_queued(2)
  by (auto split: option.splits)

text \<open>
  Threads added one after the other, each with its flags: a preempted one goes before those that are
  there, any other behind them.
\<close>

definition runq_adds :: "('w::len) rqenv \<Rightarrow> (tid \<times> srq_flag set) list \<Rightarrow> threads \<times> 'w runq \<Rightarrow> threads \<times> 'w runq" where
  "runq_adds E adds s = fold (\<lambda>(td, flags) s. runq_add E (fst s) (snd s) td flags) adds s"

definition arrivals :: "(tid \<times> srq_flag set) list \<Rightarrow> tid list \<Rightarrow> tid list" where
  "arrivals adds xs = fold (\<lambda>(td, flags) xs. if SRQ_PREEMPTED \<in> flags then td # xs else xs @ [td]) adds xs"

lemma adds_simps [simp]:
  "runq_adds E [] s = s" "runq_adds E ((td, flags) # adds) s = runq_adds E adds (runq_add E (fst s) (snd s) td flags)"
  "arrivals [] xs = xs"
  "arrivals ((td, flags) # adds) xs = arrivals adds (if SRQ_PREEMPTED \<in> flags then td # xs else xs @ [td])"
  by (simp_all add: runq_adds_def arrivals_def)

lemma arrivals_mset: "mset (arrivals adds xs) = mset (map fst adds) + mset xs"
  by (induction adds arbitrary: xs) auto

lemma runq_add_flags:
  "rq_queues (snd (runq_add E T rq td flags)) = (rq_queues rq)[rq_key E T td :=
    if SRQ_PREEMPTED \<in> flags then td # rq_queues rq ! rq_key E T td else rq_queues rq ! rq_key E T td @ [td]]"
  "td_priority (fst (runq_add E T rq td flags) t) = td_priority (T t)"
  by (simp_all add: runq_add_def Let_def frame_simps)

lemma runq_adds_length: "length (rq_queues (snd (runq_adds E adds s))) = length (rq_queues (snd s))"
proof (induction adds arbitrary: s)
  case (Cons a adds)
  then show ?case by (cases a) (simp add: runq_add_flags)
qed simp

lemma runq_adds_queues:
  assumes E: "rqenv_ok E" and "length (rq_queues (snd s)) = RQ_NQS E" and "i < RQ_NQS E"
    and "rq_queues (snd s) ! i = filter (\<lambda>td. rq_key E (fst s) td = i) xs"
  shows "rq_queues (snd (runq_adds E adds s)) ! i = filter (\<lambda>td. rq_key E (fst s) td = i) (arrivals adds xs)"
  using assms(2,4)
proof (induction adds arbitrary: s xs)
  case Nil
  then show ?case by simp
next
  case (Cons a adds)
  obtain td flags where a: "a = (td, flags)" by (cases a)
  let ?s = "runq_add E (fst s) (snd s) td flags"
  let ?xs = "if SRQ_PREEMPTED \<in> flags then td # xs else xs @ [td]"
  have key: "rq_key E (fst ?s) t = rq_key E (fst s) t" for t by (simp add: runq_add_flags)
  have "rq_queues (snd ?s) ! i = filter (\<lambda>td. rq_key E (fst ?s) td = i) ?xs"
    using Cons.prems rqenv_prio [OF E, of "td_priority (fst s td)"] by (simp add: key runq_add_flags nth_list_update)
  with Cons.IH [of ?s ?xs] Cons.prems(1) show ?case unfolding a by (simp add: key runq_add_flags)
qed

lemma runq_adds_ok:
  assumes "rqenv_ok E"
  shows "rq_ok E s \<Longrightarrow> distinct (map fst adds) \<Longrightarrow> rq_set s \<inter> fst ` set adds = {} \<Longrightarrow> rq_ok E (runq_adds E adds s)"
proof (induction adds arbitrary: s)
  case (Cons a adds)
  obtain td flags where a: "a = (td, flags)" by (cases a)
  note r = runq_add_inv [OF assms Cons.prems(1), of td flags]
  show ?case using Cons.prems Cons.IH [of "runq_add E (fst s) (snd s) td flags"] r unfolding a by auto
qed simp

lemma runq_adds_concat:
  assumes E: "rqenv_ok E"
  shows "concat (rq_queues (snd (runq_adds E adds (T, runq_init E)))) = sort_key (rq_key E T) (arrivals adds [])"
proof -
  let ?qs = "rq_queues (snd (runq_adds E adds (T, runq_init E)))"
  have len: "length (rq_queues (runq_init E)) = RQ_NQS E" by (simp add: runq_init_def)
  have "?qs = map (\<lambda>i. filter (\<lambda>td. rq_key E T td = i) (arrivals adds [])) [0..<RQ_NQS E]"
    using runq_adds_queues [OF E, of "(T, runq_init E)" _ "[]" adds] len
    by (intro map_nth_upt) (simp_all add: runq_adds_length runq_init_def)
  then have "concat ?qs = buckets (rq_key E T) (arrivals adds []) (RQ_NQS E)" by (simp add: buckets_def)
  also have "\<dots> = sort_key (rq_key E T) (arrivals adds [])"
    by (rule buckets_sort) (simp add: rqenv_prio [OF E])
  finally show ?thesis .
qed

text \<open>
  C21. Draining a run queue sorts: different threads added in any order and with any flags to an empty
  run queue leave it, by repeated \<open>runq_choose\<close> and \<open>runq_remove\<close>, in the order of a stable sort by
  priority divided by \<^verbatim>\<open>RQ_PPQ\<close>, best first, of the line they formed: one added with
  \<^verbatim>\<open>SRQ_PREEMPTED\<close> goes to the front of the line, any other to its end.
\<close>

theorem runq_drain_sorts:
  assumes "rqenv_ok E" and "distinct (map fst adds)"
  shows "fst (take_queue (\<lambda>s. runq_choose E (snd s)) (\<lambda>td s. (fst s, runq_remove E (fst s) (snd s) td))
      (length adds) (fold (\<lambda>(td, flags) s. runq_add E (fst s) (snd s) td flags) adds (T, runq_init E))) =
    sort_key (\<lambda>td. unat (td_priority (T td)) div RQ_PPQ E)
      (fold (\<lambda>(td, flags) xs. if SRQ_PREEMPTED \<in> flags then td # xs else xs @ [td]) adds [])"
proof -
  let ?s = "runq_adds E adds (T, runq_init E)"
  have i: "rq_ok E (T, runq_init E)" "rq_set (T, runq_init E) = {}"
    using rq_inv_init [OF assms(1)] by (simp_all add: rq_elems_def runq_init_def)
  have ok: "rq_ok E ?s" using runq_adds_ok [OF assms(1) i(1) assms(2)] i(2) by simp
  have "length (arrivals adds []) = length adds" using arg_cong [OF arrivals_mset [of adds "[]"], of size] by simp
  then have n: "length (concat (rq_queues (snd ?s))) \<le> length adds"
    by (simp only: runq_adds_concat [OF assms(1)] length_sort)
  show ?thesis
    unfolding runq_adds_def [symmetric] arrivals_def [symmetric] runq_adds_concat [OF assms(1), symmetric]
    by (rule take_queue_concat [OF assms(1) ok n])
qed

theorem runq_drain_sorts_witness:
  "fst (take_queue (\<lambda>s. runq_choose amd64_env (snd s))
      (\<lambda>td s. (fst s, runq_remove amd64_env (fst s) (snd s) td))
      (length [(200, {}), (42, {}), (40, {}), (43 :: tid, {SRQ_PREEMPTED})])
      (fold (\<lambda>(td, flags) s. runq_add amd64_env (fst s) (snd s) td flags)
        [(200, {}), (42, {}), (40, {}), (43, {SRQ_PREEMPTED})] (threads0, runq_init amd64_env))) = [43, 42, 40, 200]"
  by (rule trans [OF runq_drain_sorts [OF rqenv_ok_amd64]]) (simp_all add: threads0_def)

text \<open>
  C25. Removing undoes adding: adding a thread that is not queued, with any flags, and
  removing it gives back the same bitmap, word by word, and the same queues.
\<close>

theorem runq_add_remove:
  assumes "rqenv_ok E" and "rq_reach E T rq" and "td \<notin> rq_elems rq"
    and "runq_add E T rq td flags = (T', rq')"
  shows "runq_remove E T' rq' td = rq"
  using rq_enqueue_unlink [OF assms(1) rq_reach_inv [OF assms(1,2)] assms(3) rqenv_prio [OF assms(1)]]
    runq_add_enqueue [of E T rq td flags] assms(4)
  by metis

theorem runq_add_remove_witness:
  "runq_remove amd64_env (fst (runq_add amd64_env (fst two_queued) (snd two_queued) 41 {SRQ_PREEMPTED}))
     (snd (runq_add amd64_env (fst two_queued) (snd two_queued) 41 {SRQ_PREEMPTED})) 41 = snd two_queued"
  by (rule runq_add_remove [OF rqenv_ok_amd64 two_queued(3) _ prod.collapse [symmetric]])
    (simp add: two_queued(2))

text \<open>
  C18. Every sequence of additions, removals and unrelated changes of threads keeps the
  bitmap and the queues in step: a bit is set exactly when its queue is not empty, a queued
  thread knows its queue, and no thread is queued twice.
\<close>

theorem runq_reachable_invariant:
  assumes "rqenv_ok E" and "rq_reach E T rq"
  shows "(\<forall>i<RQ_NQS E. rq_bit rq i \<longleftrightarrow> rq_queues rq ! i \<noteq> []) \<and>
    (\<forall>i<RQ_NQS E. \<forall>t\<in>set (rq_queues rq ! i). unat (td_rqindex (T t)) = i) \<and>
    distinct (concat (rq_queues rq)) \<and> (runq_check E rq \<longleftrightarrow> rq_elems rq \<noteq> {})"
proof -
  note inv = rq_reach_inv [OF assms]
  have "find (rq_bit rq) [0..<RQ_NQS E] = find (\<lambda>i. rq_queues rq ! i \<noteq> []) [0..<RQ_NQS E]"
    by (rule find_nonempty_cong [OF inv]) simp
  then have "runq_check E rq = (runq_choose E rq \<noteq> None)"
    unfolding runq_choose_find [OF assms(1) inv] option.map_disc_iff runq_check_def
      runq_check_loop_eq runq_findbit_def [symmetric] runq_findbit_eq [OF assms(1)]
    by (rule arg_cong)
  then have "runq_check E rq \<longleftrightarrow> rq_elems rq \<noteq> {}"
    unfolding runq_choose_None [OF assms(1) inv] .
  with inv [unfolded rq_inv_def] show ?thesis by (elim conjE) (intro conjI)
qed

theorem runq_reachable_invariant_witness:
  "runq_check amd64_env (snd two_queued) \<and> rq_bit (snd two_queued) 10 \<and> \<not> rq_bit (snd two_queued) 11"
  using runq_reachable_invariant [OF rqenv_ok_amd64 two_queued(3)] two_queued(2)
  by (simp add: two_queued_queues)

text \<open>
  C37. \<open>runq_choose_from\<close> searches the queues as a ring: the head of the first queue that is
  not empty from index \<open>idx\<close> up to the last one and then from 0 to \<open>idx - 1\<close>. Every queue is
  visited, so it returns \<^verbatim>\<open>NULL\<close> only on an empty run queue.
\<close>

theorem runq_choose_from_ring:
  assumes "rqenv_ok E" and "rq_reach E T rq" and "unat idx < RQ_NQS E"
  shows "runq_choose_from E rq idx =
      map_option (\<lambda>i. hd (rq_queues rq ! i))
        (find (\<lambda>i. rq_queues rq ! i \<noteq> []) ([unat idx..<RQ_NQS E] @ [0..<unat idx])) \<and>
    (runq_choose_from E rq idx = None \<longleftrightarrow> rq_elems rq = {})"
proof -
  note inv = rq_reach_inv [OF assms(1,2)]
  let ?P = "\<lambda>i. rq_queues rq ! i \<noteq> []"
  have split: "find ?P [0..<RQ_NQS E] =
      (case find ?P [0..<unat idx] of None \<Rightarrow> find ?P [unat idx..<RQ_NQS E] | Some x \<Rightarrow> Some x)"
    using find_upt_split [of 0 "unat idx" "RQ_NQS E" ?P] assms(3) by simp
  have "find (rq_bit rq) ([unat idx..<RQ_NQS E] @ [0..<RQ_NQS E]) =
      find ?P ([unat idx..<RQ_NQS E] @ [0..<RQ_NQS E])"
    by (rule find_nonempty_cong [OF inv]) auto
  also have "\<dots> = find ?P ([unat idx..<RQ_NQS E] @ [0..<unat idx])"
    unfolding find_append split by (auto split: option.splits)
  finally have eq: "runq_findbit_from E rq idx = find ?P ([unat idx..<RQ_NQS E] @ [0..<unat idx])"
    using runq_findbit_from_eq [OF assms(1,3)] by simp
  have nonempty: "?P i" if "find ?P is = Some i" for i "is"
    using that by (auto simp: find_Some_iff)
  have 1: "runq_choose_from E rq idx = map_option (\<lambda>i. hd (rq_queues rq ! i))
      (find ?P ([unat idx..<RQ_NQS E] @ [0..<unat idx]))"
    by (cases "find ?P ([unat idx..<RQ_NQS E] @ [0..<unat idx])")
      (simp_all add: runq_choose_from_def eq TAILQ_FIRST_eq nonempty)
  have "find ?P ([unat idx..<RQ_NQS E] @ [0..<unat idx]) = None \<longleftrightarrow> (\<forall>i<RQ_NQS E. \<not> ?P i)"
    using assms(3) by (auto simp: find_None_iff)
  also have "\<dots> \<longleftrightarrow> rq_elems rq = {}"
    using runq_choose_None [OF assms(1) inv] unfolding runq_choose_find [OF assms(1) inv]
    by (simp add: find_upt_None)
  finally show ?thesis using 1 by simp
qed

theorem runq_choose_from_ring_witness:
  "runq_choose_from amd64_env (snd two_queued) 11 = Some 200 \<and>
   runq_choose_from amd64_env (snd two_queued) 51 = Some 40"
proof -
  have "find (\<lambda>i. rq_queues (snd two_queued) ! i \<noteq> []) ([11..<64] @ [0..<11]) = Some 50"
    unfolding find_append by (auto simp: find_upt_Some two_queued_queues)
  moreover have "find (\<lambda>i. rq_queues (snd two_queued) ! i \<noteq> []) ([51..<64] @ [0..<51]) = Some 10"
    unfolding find_append by (auto simp: find_upt_Some two_queued_queues)
  ultimately show ?thesis
    using runq_choose_from_ring [OF rqenv_ok_amd64 two_queued(3), of 11]
      runq_choose_from_ring [OF rqenv_ok_amd64 two_queued(3), of 51]
    by (simp add: two_queued_queues)
qed

end
