(* ===== verification/Runq_Policies.thy ===== *)
theory Runq_Policies
  imports Runq_Props
begin

section \<open>The run queue policies of the benchmark kernels\<close>

text \<open>
  The scheduling assignment replaces \<open>runq_add\<close> of \<^verbatim>\<open>kern_switch.c\<close> in several ways and keeps
  the other functions of the file. Each variant is one definition here. The values of
  \<^verbatim>\<open>random()\<close> are the parameter \<open>rnd\<close>, with the number \<open>k\<close> of the next value as state; a
  \<^verbatim>\<open>while(true)\<close> loop that never ends is the result \<open>None\<close>, and a division by zero is the error
  \<open>DIVIDE_BY_ZERO\<close>, which stops the kernel.
\<close>

datatype rq_error = DIVIDE_BY_ZERO

subsection \<open>Placing a thread\<close>

text \<open>The priority insertion: before the first thread of a worse (greater) priority.\<close>

fun prio_insert :: "threads \<Rightarrow> tid \<Rightarrow> tid list \<Rightarrow> tid list" where
  "prio_insert T td [] = [td]"
| "prio_insert T td (currenttd # rest) =
     (if td_priority (T currenttd) > td_priority (T td) then td # currenttd # rest
      else currenttd # prio_insert T td rest)"

text \<open>
  The random insertion: \<open>curr_pos\<close> is compared with the position and never advanced by the
  loop, since its increment is in the branch that returns.
\<close>

fun rand_insert :: "nat \<Rightarrow> nat \<Rightarrow> tid \<Rightarrow> tid list \<Rightarrow> tid list" where
  "rand_insert ins_pos curr_pos td [] = [td]"
| "rand_insert ins_pos curr_pos td (curr_td # rest) =
     (if ins_pos \<le> curr_pos then td # curr_td # rest
      else curr_td # rand_insert ins_pos curr_pos td rest)"

text \<open>The splatter of \<^verbatim>\<open>kern_switch2.c\<close> and \<^verbatim>\<open>kern_switch3.c\<close>.\<close>

definition splatter :: "(nat \<Rightarrow> nat) \<Rightarrow> nat \<Rightarrow> nat \<Rightarrow> nat \<times> nat" where
  "splatter rnd k pri =
     (let (pri, k) = (if pri \<ge> 12 \<and> pri \<le> 19 then (rnd k mod 8 + 12, Suc k) else (pri, k));
          (pri, k) = (if pri \<ge> 30 \<and> pri \<le> 55 then (rnd k mod 26 + 30, Suc k) else (pri, k));
          (pri, k) = (if pri \<ge> 56 \<and> pri \<le> 63 then (rnd k mod 8 + 56, Suc k) else (pri, k))
      in (pri, k))"

definition checkKern :: "nat \<Rightarrow> bool" where
  "checkKern checkpriority \<longleftrightarrow> checkpriority < 48 \<or> (checkpriority < 120 \<and> checkpriority > 79)"

partial_function (option) user_pri :: "(nat \<Rightarrow> nat) \<Rightarrow> nat \<Rightarrow> (nat \<times> nat) option" where
  "user_pri rnd k =
     (let pri = rnd k mod 256
      in if \<not> (pri < 48 \<or> (pri > 79 \<and> pri < 120)) then Some (pri, Suc k)
         else user_pri rnd (Suc k))"

text \<open>The head or tail insertion of the stock kernel.\<close>

definition place_boring :: "srq_flag set \<Rightarrow> tid \<Rightarrow> tid list \<Rightarrow> tid list" where
  "place_boring flags td rqh =
     (if SRQ_PREEMPTED \<in> flags then TAILQ_INSERT_HEAD rqh td else TAILQ_INSERT_TAIL rqh td)"

subsection \<open>The variants of runq\_add\<close>

definition ks1_runq_add ::
  "('w::len) rqenv \<Rightarrow> threads \<Rightarrow> 'w runq \<Rightarrow> tid \<Rightarrow> srq_flag set \<Rightarrow> threads \<times> 'w runq" where
  "ks1_runq_add E T rq td flags =
     (let pri = unat (td_priority (T td)) div RQ_PPQ E;
          T = set_rqindex T td pri;
          rq = runq_setbit E rq pri
      in if pri \<ge> 30 \<and> pri \<le> 55
         then (T, rq_link rq pri (prio_insert T td))
         else (T, rq_link rq pri (place_boring flags td)))"

definition ks2_runq_add ::
  "('w::len) rqenv \<Rightarrow> (nat \<Rightarrow> nat) \<Rightarrow> nat \<Rightarrow> threads \<Rightarrow> 'w runq \<Rightarrow> tid \<Rightarrow> srq_flag set \<Rightarrow>
   rq_error + (threads \<times> 'w runq) \<times> nat" where
  "ks2_runq_add E rnd k T rq td flags =
     (let (pri, k) = splatter rnd k (unat (td_priority (T td)) div RQ_PPQ E);
          T = set_rqindex T td pri;
          rq = runq_setbit E rq pri
      in if (pri \<ge> 12 \<and> pri \<le> 19) \<or> (pri \<ge> 30 \<and> pri \<le> 63)
         then (let queue_size = length (rq_queues rq ! pri)
               in if queue_size = 0 then Inl DIVIDE_BY_ZERO
                  else Inr ((T, rq_link rq pri (rand_insert (rnd k mod queue_size) 0 td)), Suc k))
         else Inr ((T, rq_link rq pri (place_boring flags td)), k))"

definition ks3_runq_add ::
  "('w::len) rqenv \<Rightarrow> (nat \<Rightarrow> nat) \<Rightarrow> nat \<Rightarrow> threads \<Rightarrow> 'w runq \<Rightarrow> tid \<Rightarrow> srq_flag set \<Rightarrow>
   (threads \<times> 'w runq) \<times> nat" where
  "ks3_runq_add E rnd k T rq td flags =
     (let (pri, k) = splatter rnd k (unat (td_priority (T td)) div RQ_PPQ E);
          T = set_rqindex T td pri;
          rq = runq_setbit E rq pri
      in if (pri \<ge> 12 \<and> pri \<le> 19) \<or> (pri \<ge> 30 \<and> pri \<le> 63)
         then ((T, rq_link rq pri (prio_insert T td)), k)
         else ((T, rq_link rq pri (place_boring flags td)), k))"

text \<open>\<^verbatim>\<open>benchmark4/kern_switch4.c\<close>.\<close>

definition ks4_runq_add ::
  "('w::len) rqenv \<Rightarrow> (nat \<Rightarrow> nat) \<Rightarrow> nat \<Rightarrow> threads \<Rightarrow> 'w runq \<Rightarrow> tid \<Rightarrow> srq_flag set \<Rightarrow>
   ((threads \<times> 'w runq) \<times> nat) option" where
  "ks4_runq_add E rnd k T rq td flags =
     (let kern = checkKern (unat (td_priority (T td)))
      in case (if kern then Some (unat (td_priority (T td)) div RQ_PPQ E, k)
               else map_option (\<lambda>(pri, k). (pri div RQ_PPQ E, k)) (user_pri rnd k)) of
           None \<Rightarrow> None
         | Some (pri, k) \<Rightarrow>
             (let T = set_rqindex T td pri;
                  rq = runq_setbit E rq pri
              in if kern then Some ((T, rq_link rq pri (place_boring flags td)), k)
                 else Some ((T, rq_link rq pri (prio_insert T td)), k)))"

text \<open>\<^verbatim>\<open>kern_switch.c\<close> at the top of the benchmark directory.\<close>

definition ks_runq_add ::
  "('w::len) rqenv \<Rightarrow> (nat \<Rightarrow> nat) \<Rightarrow> nat \<Rightarrow> threads \<Rightarrow> 'w runq \<Rightarrow> tid \<Rightarrow> srq_flag set \<Rightarrow>
   ((threads \<times> 'w runq) \<times> nat) option" where
  "ks_runq_add E rnd k T rq td flags =
     (let kern = checkKern (unat (td_priority (T td)))
      in case (if kern then Some (unat (td_priority (T td)) div RQ_PPQ E, k)
               else map_option (\<lambda>(pri, k). (pri div RQ_PPQ E, k)) (user_pri rnd k)) of
           None \<Rightarrow> None
         | Some (pri, k) \<Rightarrow>
             (let T = set_rqindex T td pri;
                  rq = runq_setbit E rq pri
              in if kern then Some ((T, rq_link rq pri (place_boring flags td)), k)
                 else if pri \<ge> 30 \<and> pri \<le> 55
                 then Some ((T, rq_link rq pri (prio_insert T td)), k)
                 else Some ((T, rq_link rq pri (place_boring flags td)), k)))"

text \<open>\<^verbatim>\<open>benchmark2/kern_switch.c\<close> and \<^verbatim>\<open>benchmark3/kern_switch.c\<close>.\<close>

definition b2_runq_add ::
  "('w::len) rqenv \<Rightarrow> threads \<Rightarrow> 'w runq \<Rightarrow> tid \<Rightarrow> srq_flag set \<Rightarrow> threads \<times> 'w runq" where
  "b2_runq_add E T rq td flags =
     (let pri = unat (td_priority (T td)) div RQ_PPQ E;
          T = set_rqindex T td pri;
          rq = runq_setbit E rq pri
      in if (pri \<ge> 30 \<and> pri \<le> 63) \<or> (pri \<ge> 12 \<and> pri \<le> 19)
         then (T, rq_link rq pri (prio_insert T td))
         else (T, rq_link rq pri (place_boring flags td)))"

definition b3_runq_add ::
  "('w::len) rqenv \<Rightarrow> (nat \<Rightarrow> nat) \<Rightarrow> nat \<Rightarrow> threads \<Rightarrow> 'w runq \<Rightarrow> tid \<Rightarrow> srq_flag set \<Rightarrow>
   ((threads \<times> 'w runq) \<times> nat) option" where
  "b3_runq_add E rnd k T rq td flags =
     (let kern = checkKern (unat (td_priority (T td)))
      in case (if kern then Some (unat (td_priority (T td)) div RQ_PPQ E, k)
               else map_option (\<lambda>(pri, k). (pri div RQ_PPQ E, k)) (user_pri rnd k)) of
           None \<Rightarrow> None
         | Some (pri, k) \<Rightarrow>
             (let T = set_rqindex T td pri;
                  rq = runq_setbit E rq pri
              in Some ((T, rq_link rq pri (place_boring flags td)), k)))"

text \<open>
  \<^verbatim>\<open>testkernel/kern_switch.c\<close>: the sysctl variable \<^verbatim>\<open>kern_switch_choose\<close> selects the policy at
  run time. The four \<^verbatim>\<open>if\<close> statements follow one another, so a value that is none of 1 to 4
  leaves the function without touching the run queue.
\<close>

definition tk_choose1 ::
  "('w::len) rqenv \<Rightarrow> threads \<Rightarrow> 'w runq \<Rightarrow> tid \<Rightarrow> srq_flag set \<Rightarrow> threads \<times> 'w runq" where
  "tk_choose1 E T rq td flags =
     (let pri = unat (td_priority (T td)) div RQ_PPQ E;
          T = set_rqindex T td pri;
          rq = runq_setbit E rq pri
      in if SRQ_PREEMPTED \<in> flags
         then (T, rq_link rq pri (\<lambda>rqh. TAILQ_INSERT_HEAD rqh td))
         else (T, rq_link rq pri (\<lambda>rqh. TAILQ_INSERT_TAIL rqh td)))"

definition tk_choose2 ::
  "('w::len) rqenv \<Rightarrow> threads \<Rightarrow> 'w runq \<Rightarrow> tid \<Rightarrow> srq_flag set \<Rightarrow> threads \<times> 'w runq" where
  "tk_choose2 E T rq td flags =
     (let pri = unat (td_priority (T td)) div RQ_PPQ E;
          T = set_rqindex T td pri;
          rq = runq_setbit E rq pri
      in if (pri \<ge> 30 \<and> pri \<le> 63) \<or> (pri \<ge> 12 \<and> pri \<le> 19)
         then (T, rq_link rq pri (prio_insert T td))
         else if SRQ_PREEMPTED \<in> flags
         then (T, rq_link rq pri (\<lambda>rqh. TAILQ_INSERT_HEAD rqh td))
         else (T, rq_link rq pri (\<lambda>rqh. TAILQ_INSERT_TAIL rqh td)))"

definition tk_choose3 ::
  "('w::len) rqenv \<Rightarrow> (nat \<Rightarrow> nat) \<Rightarrow> nat \<Rightarrow> threads \<Rightarrow> 'w runq \<Rightarrow> tid \<Rightarrow> srq_flag set \<Rightarrow>
   ((threads \<times> 'w runq) \<times> nat) option" where
  "tk_choose3 E rnd k T rq td flags =
     (let kern = checkKern (unat (td_priority (T td)))
      in case (if kern then Some (unat (td_priority (T td)) div RQ_PPQ E, k)
               else map_option (\<lambda>(pri, k). (pri div RQ_PPQ E, k)) (user_pri rnd k)) of
           None \<Rightarrow> None
         | Some (pri, k) \<Rightarrow>
             (let T = set_rqindex T td pri;
                  rq = runq_setbit E rq pri
              in if SRQ_PREEMPTED \<in> flags
                 then Some ((T, rq_link rq pri (\<lambda>rqh. TAILQ_INSERT_HEAD rqh td)), k)
                 else Some ((T, rq_link rq pri (\<lambda>rqh. TAILQ_INSERT_TAIL rqh td)), k)))"

definition tk_choose4 ::
  "('w::len) rqenv \<Rightarrow> (nat \<Rightarrow> nat) \<Rightarrow> nat \<Rightarrow> threads \<Rightarrow> 'w runq \<Rightarrow> tid \<Rightarrow> srq_flag set \<Rightarrow>
   ((threads \<times> 'w runq) \<times> nat) option" where
  "tk_choose4 E rnd k T rq td flags =
     (let kern = checkKern (unat (td_priority (T td)))
      in case (if kern then Some (unat (td_priority (T td)) div RQ_PPQ E, k)
               else map_option (\<lambda>(pri, k). (pri div RQ_PPQ E, k)) (user_pri rnd k)) of
           None \<Rightarrow> None
         | Some (pri, k) \<Rightarrow>
             (let T = set_rqindex T td pri;
                  rq = runq_setbit E rq pri
              in if kern
                 then (if SRQ_PREEMPTED \<in> flags
                       then Some ((T, rq_link rq pri (\<lambda>rqh. TAILQ_INSERT_HEAD rqh td)), k)
                       else Some ((T, rq_link rq pri (\<lambda>rqh. TAILQ_INSERT_TAIL rqh td)), k))
                 else Some ((T, rq_link rq pri (prio_insert T td)), k)))"

definition tk_runq_add ::
  "('w::len) rqenv \<Rightarrow> int \<Rightarrow> (nat \<Rightarrow> nat) \<Rightarrow> nat \<Rightarrow> threads \<Rightarrow> 'w runq \<Rightarrow> tid \<Rightarrow> srq_flag set \<Rightarrow>
   ((threads \<times> 'w runq) \<times> nat) option" where
  "tk_runq_add E kern_switch_choose rnd k T rq td flags =
     (if kern_switch_choose = 2 then Some (tk_choose2 E T rq td flags, k)
      else if kern_switch_choose = 3 then tk_choose3 E rnd k T rq td flags
      else if kern_switch_choose = 4 then tk_choose4 E rnd k T rq td flags
      else if kern_switch_choose = 1 then Some (tk_choose1 E T rq td flags, k)
      else Some ((T, rq), k))"

text \<open>
  \<^verbatim>\<open>test.c\<close>: C reads \<^verbatim>\<open>12<= pri<= 19\<close> as a comparison of the truth value of \<^verbatim>\<open>12<= pri\<close>, 0 or 1,
  with 19; \<open>chained a x b\<close> is what \<^verbatim>\<open>a <= x <= b\<close> means in C.
\<close>

definition chained :: "nat \<Rightarrow> nat \<Rightarrow> nat \<Rightarrow> bool" where
  "chained a x b \<longleftrightarrow> of_bool (a \<le> x) \<le> b"

definition test_runq_add ::
  "('w::len) rqenv \<Rightarrow> (nat \<Rightarrow> nat) \<Rightarrow> nat \<Rightarrow> threads \<Rightarrow> 'w runq \<Rightarrow> tid \<Rightarrow> srq_flag set \<Rightarrow>
   rq_error + (threads \<times> 'w runq) \<times> nat" where
  "test_runq_add E rnd k T rq td flags =
     (let pri = unat (td_priority (T td)) div RQ_PPQ E;
          (pri, k) = (if chained 12 pri 19 then (rnd k mod 8 + 12, Suc k) else (pri, k));
          (pri, k) = (if chained 30 pri 55 then (rnd k mod 26 + 30, Suc k) else (pri, k));
          (pri, k) = (if chained 56 pri 63 then (rnd k mod 8 + 56, Suc k) else (pri, k));
          T = set_rqindex T td pri;
          rq = runq_setbit E rq pri
      in if chained 12 pri 19 \<or> chained 30 pri 63
         then (let queue_size = length (rq_queues rq ! pri)
               in if queue_size = 0 then Inl DIVIDE_BY_ZERO
                  else Inr ((T, rq_link rq pri (rand_insert (rnd k mod queue_size) 0 td)), Suc k))
         else Inr ((T, rq_link rq pri (place_boring flags td)), k))"

text \<open>\<^verbatim>\<open>test2.c\<close> and \<^verbatim>\<open>test3.c\<close>.\<close>

definition test2_runq_add ::
  "('w::len) rqenv \<Rightarrow> threads \<Rightarrow> 'w runq \<Rightarrow> tid \<Rightarrow> srq_flag set \<Rightarrow> threads \<times> 'w runq" where
  "test2_runq_add E T rq td flags =
     (let pri = unat (td_priority (T td)) div RQ_PPQ E;
          T = set_rqindex T td pri;
          rq = runq_setbit E rq pri
      in if SRQ_PREEMPTED \<in> flags
         then (T, rq_link rq pri (\<lambda>rqh. TAILQ_INSERT_HEAD rqh td))
         else (T, rq_link rq pri (\<lambda>rqh. TAILQ_INSERT_TAIL rqh td)))"

definition test3_runq_add ::
  "('w::len) rqenv \<Rightarrow> threads \<Rightarrow> 'w runq \<Rightarrow> tid \<Rightarrow> srq_flag set \<Rightarrow> threads \<times> 'w runq" where
  "test3_runq_add E T rq td flags =
     (let pri = unat (td_priority (T td)) div RQ_PPQ E;
          T = set_rqindex T td pri;
          rq = runq_setbit E rq pri
      in if chained 30 pri 63 \<or> chained 12 pri 19
         then (T, rq_link rq pri (prio_insert T td))
         else (T, rq_link rq pri (place_boring flags td)))"

subsection \<open>Every variant is one of the placements\<close>

lemma prio_insert_inserted: "inserted td q (prio_insert T td q)"
  by (induction T td q rule: prio_insert.induct) (auto intro: inserted_Cons)

lemma prio_insert_cong: "(\<And>t. td_priority (T t) = td_priority (T' t)) \<Longrightarrow> prio_insert T td q = prio_insert T' td q"
  by (induction q) simp_all

lemma prio_insert_set_rqindex [simp]: "prio_insert (set_rqindex T t i) td q = prio_insert T td q"
  by (rule prio_insert_cong) (simp add: frame_simps)

lemma prio_insert_takeWhile:
  "prio_insert T td q =
    takeWhile (\<lambda>x. td_priority (T x) \<le> td_priority (T td)) q @
    td # dropWhile (\<lambda>x. td_priority (T x) \<le> td_priority (T td)) q"
  by (induction q) (auto simp: not_le)

lemma prio_insert_sorted:
  "sorted (map (\<lambda>x. td_priority (T x)) q) \<Longrightarrow> sorted (map (\<lambda>x. td_priority (T x)) (prio_insert T td q))"
  by (induction q) (auto dest!: inserted_set [OF prio_insert_inserted, THEN equalityD1, THEN subsetD])

lemma prio_insert_filter:
  assumes "sorted (map (\<lambda>x. td_priority (T x)) q)"
  shows "filter (\<lambda>x. td_priority (T x) = p) (prio_insert T td q) =
    filter (\<lambda>x. td_priority (T x) = p) q @ (if td_priority (T td) = p then [td] else [])"
  using assms
proof (induction q)
  case Nil
  then show ?case by simp
next
  case (Cons a q)
  show ?case
  proof (cases "td_priority (T td) < td_priority (T a)")
    case True
    then have "filter (\<lambda>x. td_priority (T x) = td_priority (T td)) (a # q) = []"
      using Cons.prems by (fastforce simp: filter_empty_conv)
    with True show ?thesis by (cases "p = td_priority (T td)") simp_all
  next
    case False
    with Cons show ?thesis by simp
  qed
qed

lemma prio_insert_sort:
  fixes T :: threads
  defines "f \<equiv> \<lambda>x. td_priority (T x)"
  shows "prio_insert T td (sort_key f xs) = sort_key f (xs @ [td])"
proof (rule sym, rule properties_for_sort_key)
  have sorted: "sorted (map (\<lambda>x. td_priority (T x)) (sort_key f xs))" by (simp add: f_def)
  show "mset (prio_insert T td (sort_key f xs)) = mset (xs @ [td])"
    by (simp add: inserted_mset [OF prio_insert_inserted])
  show "sorted (map f (prio_insert T td (sort_key f xs)))"
    unfolding f_def by (rule prio_insert_sorted) (simp add: sorted [unfolded f_def])
  show "filter (\<lambda>x. f k = f x) (prio_insert T td (sort_key f xs)) = filter (\<lambda>x. f k = f x) (xs @ [td])" for k
    using prio_insert_filter [OF sorted, of "f k" td] sort_key_stable [of f "f k" xs]
    by (auto simp: f_def eq_commute [of "td_priority (T k)"])
qed

lemma sort_key_buckets:
  fixes f :: "'a \<Rightarrow> 'b::linorder" and g :: "'b \<Rightarrow> nat"
  assumes "\<forall>x\<in>set xs. g (f x) < n" "mono g"
  shows "concat (map (\<lambda>i. sort_key f (filter (\<lambda>x. g (f x) = i) xs)) [0..<n]) = sort_key f xs"
proof -
  have "sorted (map (\<lambda>x. g (f x)) (sort_key f xs))"
    using sorted_sort_key [of f xs] assms(2) by (auto simp: sorted_iff_nth_mono monoD)
  then have "sort_key (\<lambda>x. g (f x)) (sort_key f xs) = sort_key f xs" by (rule sort_key_id_if_sorted)
  then show ?thesis
    using buckets_sort [of "sort_key f xs" "\<lambda>x. g (f x)" n] assms(1)
    by (simp add: buckets_def filter_sort)
qed

lemma rand_insert_head_tail:
  "rand_insert pos cur td q = (if pos \<le> cur \<or> q = [] then td # q else q @ [td])"
  by (induction pos cur td q rule: rand_insert.induct) auto

lemma rand_insert_inserted: "inserted td q (rand_insert pos cur td q)"
  by (simp add: rand_insert_head_tail)

lemma place_boring_inserted: "inserted td q (place_boring flags td q)"
  by (simp add: place_boring_def)

lemmas placements = prio_insert_inserted rand_insert_inserted place_boring_inserted

lemma splatter_cases:
  "fst (splatter rnd k pri) =
    (if 12 \<le> pri \<and> pri \<le> 19 then rnd k mod 8 + 12
     else if 30 \<le> pri \<and> pri \<le> 55 then rnd k mod 26 + 30
     else if 56 \<le> pri \<and> pri \<le> 63 then rnd k mod 8 + 56 else pri)"
proof -
  have "rnd k mod 8 < 8" "rnd k mod 26 < 26" by simp_all
  then show ?thesis by (auto simp: splatter_def Let_def split: prod.split)
qed

lemma splatter_less: "pri < n \<Longrightarrow> 64 \<le> n \<Longrightarrow> fst (splatter rnd k pri) < n"
proof -
  assume "pri < n" "64 \<le> n"
  moreover have "rnd k mod 8 < 8" "rnd k mod 26 < 26" by simp_all
  ultimately show ?thesis unfolding splatter_cases by auto
qed

text \<open>The loop of the user priorities ends exactly when a later value of \<^verbatim>\<open>random()\<close> is one.\<close>

definition user_value :: "nat \<Rightarrow> bool" where
  "user_value r \<longleftrightarrow> \<not> checkKern (r mod 256)"

lemma user_pri_step:
  "user_pri rnd k = (if user_value (rnd k) then Some (rnd k mod 256, Suc k) else user_pri rnd (Suc k))"
  by (subst user_pri.simps) (auto simp: user_value_def checkKern_def Let_def)

lemma user_pri_Some:
  assumes "user_value (rnd j)" "k \<le> j"
  shows "\<exists>i. k \<le> i \<and> user_value (rnd i) \<and> user_pri rnd k = Some (rnd i mod 256, Suc i)"
  using assms(2)
proof (induction "j - k" arbitrary: k)
  case 0
  then show ?case using assms(1) by (subst user_pri_step) auto
next
  case (Suc d)
  show ?case
  proof (cases "user_value (rnd k)")
    case True
    then show ?thesis by (subst user_pri_step) auto
  next
    case False
    then have "k \<noteq> j" using assms(1) by auto
    with Suc have "\<exists>i. Suc k \<le> i \<and> user_value (rnd i) \<and> user_pri rnd (Suc k) = Some (rnd i mod 256, Suc i)"
      by (intro Suc.hyps) auto
    with False show ?thesis by (subst user_pri_step) (auto dest: Suc_leD)
  qed
qed

lemma user_pri_returns:
  "user_pri rnd k = Some r \<Longrightarrow> \<exists>i. k \<le> i \<and> user_value (rnd i) \<and> r = (rnd i mod 256, Suc i)"
proof (rule user_pri.raw_induct [of "\<lambda>rnd k r. \<exists>i. k \<le> i \<and> user_value (rnd i) \<and> r = (rnd i mod 256, Suc i)"])
  fix f :: "(nat \<Rightarrow> nat) \<Rightarrow> nat \<Rightarrow> (nat \<times> nat) option" and rnd k r
  assume IH: "\<And>rnd k r. f rnd k = Some r \<Longrightarrow> \<exists>i. k \<le> i \<and> user_value (rnd i) \<and> r = (rnd i mod 256, Suc i)"
    and r: "(let pri = rnd k mod 256 in if \<not> (pri < 48 \<or> 79 < pri \<and> pri < 120) then Some (pri, Suc k)
      else f rnd (Suc k)) = Some r"
  show "\<exists>i. k \<le> i \<and> user_value (rnd i) \<and> r = (rnd i mod 256, Suc i)"
  proof (cases "user_value (rnd k)")
    case True
    with r show ?thesis by (auto simp: Let_def user_value_def checkKern_def split: if_splits)
  next
    case False
    with r have "f rnd (Suc k) = Some r"
      by (auto simp: Let_def user_value_def checkKern_def split: if_splits)
    from IH [OF this] show ?thesis by (blast dest: Suc_leD)
  qed
qed

lemma user_pri_defined: "(\<exists>r. user_pri rnd k = Some r) \<longleftrightarrow> (\<exists>j\<ge>k. user_value (rnd j))"
  using user_pri_Some user_pri_returns by blast

subsection \<open>Every variant queues the thread\<close>

lemma rq_enqueue_place:
  "(\<And>q. inserted td q (f q)) \<Longrightarrow>
   rq_enqueue E T rq td pri (set_rqindex T td pri, rq_link (runq_setbit E rq pri) pri f)"
  by (rule rq_enqueueI)

lemma ks1_enqueue: "rq_enqueue E T rq td (rq_key E T td) (ks1_runq_add E T rq td flags)"
  by (simp add: ks1_runq_add_def Let_def rq_enqueue_place placements)

lemma b2_enqueue: "rq_enqueue E T rq td (rq_key E T td) (b2_runq_add E T rq td flags)"
  by (simp add: b2_runq_add_def Let_def rq_enqueue_place placements)

lemma ks3_enqueue:
  "rq_enqueue E T rq td (fst (splatter rnd k (rq_key E T td))) (fst (ks3_runq_add E rnd k T rq td flags))"
  by (simp add: ks3_runq_add_def Let_def rq_enqueue_place placements split: prod.split)

lemma ks2_enqueue:
  "ks2_runq_add E rnd k T rq td flags = Inr (r, k') \<Longrightarrow>
   rq_enqueue E T rq td (fst (splatter rnd k (rq_key E T td))) r"
  by (auto simp: ks2_runq_add_def Let_def rq_enqueue_place placements split: prod.splits if_splits)

text \<open>The index the policies with the random user priority choose.\<close>

definition user_index :: "('w::len) rqenv \<Rightarrow> (nat \<Rightarrow> nat) \<Rightarrow> nat \<Rightarrow> nat \<Rightarrow> nat \<Rightarrow> bool" where
  "user_index E rnd k p i \<longleftrightarrow>
     (if checkKern p then i = p div RQ_PPQ E
      else \<exists>j\<ge>k. user_value (rnd j) \<and> i = (rnd j mod 256) div RQ_PPQ E)"

lemma user_index_kern: "checkKern p \<Longrightarrow> user_index E rnd k p (p div RQ_PPQ E)"
  by (simp add: user_index_def)

lemma user_index_user:
  "\<not> checkKern p \<Longrightarrow> user_pri rnd k = Some (n, k') \<Longrightarrow> user_index E rnd k p (n div RQ_PPQ E)"
  by (auto simp: user_index_def dest!: user_pri_returns)

lemma user_index_placed:
  "user_index E rnd k p i \<Longrightarrow> (\<And>q. inserted td q (f q)) \<Longrightarrow>
   \<exists>i'. user_index E rnd k p i' \<and>
     rq_enqueue E T rq td i' (set_rqindex T td i, rq_link (runq_setbit E rq i) i f)"
  using rq_enqueue_place by blast

lemma random_user_enqueue:
  "ks4_runq_add E rnd k T rq td flags = Some (r, k') \<Longrightarrow>
    \<exists>i. user_index E rnd k (unat (td_priority (T td))) i \<and> rq_enqueue E T rq td i r"
  "ks_runq_add E rnd k T rq td flags = Some (r, k') \<Longrightarrow>
    \<exists>i. user_index E rnd k (unat (td_priority (T td))) i \<and> rq_enqueue E T rq td i r"
  "b3_runq_add E rnd k T rq td flags = Some (r, k') \<Longrightarrow>
    \<exists>i. user_index E rnd k (unat (td_priority (T td))) i \<and> rq_enqueue E T rq td i r"
  by (auto simp: ks4_runq_add_def ks_runq_add_def b3_runq_add_def Let_def
        split: option.splits if_splits
        intro!: user_index_placed placements intro: user_index_kern user_index_user)

lemma user_index_less:
  assumes "rqenv_ok E" "user_index E rnd k (unat (p :: u8)) i"
  shows "i < RQ_NQS E"
proof -
  have "n div RQ_PPQ E < RQ_NQS E" if "n < 256" for n
    using rqenv_prio [OF assms(1), of "of_nat n"] that by simp
  with assms(2) show ?thesis by (auto simp: user_index_def split: if_splits)
qed

end
