(* ===== verification/Policy_Props.thy ===== *)
theory Policy_Props
  imports Runq_Policies
begin

section \<open>Properties of the run queue policies\<close>

text \<open>
  Every policy is a \<open>thread_queue\<close> with the unchanged \<open>runq_remove\<close> and \<open>runq_choose\<close>; the
  priority insertion makes draining sort by the exact priority, and the faults of the random
  policies are stated as the code has them.
\<close>

subsection \<open>The interface\<close>

text \<open>
  The state of a random policy is the run queue with the number of the next random value. The
  locale \<open>runq_headers64\<close> adds that there are at least the 64 queues the policies hard-code.
\<close>

lemma enqueue_ok:
  assumes "rqenv_ok E" "rq_ok E s" "td \<notin> rq_set s" "pri < RQ_NQS E"
    and "rq_enqueue E (fst s) (snd s) td pri r"
  shows "rq_ok E r \<and> rq_set r = insert td (rq_set s)"
  using rq_enqueue_inv [OF assms(1-4)] rq_enqueue_elems [OF _ rq_inv_shape [OF assms(2)] assms(4)]
    assms(5) by (metis prod.collapse)

locale runq_headers64 = runq_headers +
  assumes queues64: "64 \<le> RQ_NQS E"
begin

lemma random_queue:
  assumes "\<And>td s. rq_ok E (fst s) \<Longrightarrow> td \<notin> rq_set (fst s) \<Longrightarrow>
    \<exists>pri<RQ_NQS E. rq_enqueue E (fst (fst s)) (snd (fst s)) td pri (fst (f td s))"
  shows "thread_queue (\<lambda>s. rq_ok E (fst s)) (\<lambda>s. rq_set (fst s)) f
    (\<lambda>td s. (rq_deq E td (fst s), snd s)) (\<lambda>s. runq_choose E (snd (fst s)))"
proof
  fix s :: "(threads \<times> 'a runq) \<times> 'b" and td
  assume s: "rq_ok E (fst s)"
  show "finite (rq_set (fst s))" by simp
  show "runq_choose E (snd (fst s)) = None \<longleftrightarrow> rq_set (fst s) = {}"
    by (rule runq_choose_None [OF headers s])
  show "runq_choose E (snd (fst s)) = Some td \<Longrightarrow> td \<in> rq_set (fst s)"
    by (rule runq_choose_mem [OF headers s])
  show "td \<in> rq_set (fst s) \<Longrightarrow> rq_ok E (fst (rq_deq E td (fst s), snd s))"
    and "td \<in> rq_set (fst s) \<Longrightarrow> rq_set (fst (rq_deq E td (fst s), snd s)) = rq_set (fst s) - {td}"
    using s headers by (simp_all add: rq_remove_inv)
  assume new: "td \<notin> rq_set (fst s)"
  from assms [OF s new] obtain pri where "pri < RQ_NQS E"
    "rq_enqueue E (fst (fst s)) (snd (fst s)) td pri (fst (f td s))"
    by blast
  from enqueue_ok [OF headers s new this]
  show "rq_ok E (fst (f td s))" "rq_set (fst (f td s)) = insert td (rq_set (fst s))" by simp_all
qed

end

sublocale runq_headers \<subseteq> ks1: thread_queue "rq_ok E" rq_set
    "\<lambda>td s. ks1_runq_add E (fst s) (snd s) td flags" "rq_deq E" "\<lambda>s. runq_choose E (snd s)" for flags
  by (rule enqueue_queue) (auto intro: ks1_enqueue rqenv_prio [OF headers])

sublocale runq_headers \<subseteq> b2: thread_queue "rq_ok E" rq_set
    "\<lambda>td s. b2_runq_add E (fst s) (snd s) td flags" "rq_deq E" "\<lambda>s. runq_choose E (snd s)" for flags
  by (rule enqueue_queue) (auto intro: b2_enqueue rqenv_prio [OF headers])

sublocale runq_headers64 \<subseteq> ks3: thread_queue "\<lambda>s. rq_ok E (fst s)" "\<lambda>s. rq_set (fst s)"
    "\<lambda>td s. ks3_runq_add E rnd (snd s) (fst (fst s)) (snd (fst s)) td flags"
    "\<lambda>td s. (rq_deq E td (fst s), snd s)" "\<lambda>s. runq_choose E (snd (fst s))" for rnd flags
  by (rule random_queue)
    (use ks3_enqueue splatter_less [OF rqenv_prio [OF headers] queues64] in blast)

text \<open>A stream with user priorities again and again: the loop of the random policies ends.\<close>

definition fair_random :: "(nat \<Rightarrow> nat) \<Rightarrow> bool" where
  "fair_random rnd \<longleftrightarrow> (\<forall>k. \<exists>j\<ge>k. user_value (rnd j))"

lemma fair_random_user_pri: "fair_random rnd \<Longrightarrow> \<exists>r. user_pri rnd k = Some r"
  using user_pri_defined by (auto simp: fair_random_def)

lemma fair_random_returns:
  assumes "fair_random rnd"
  shows "\<exists>r. ks4_runq_add E rnd k T rq td flags = Some r"
    and "\<exists>r. ks_runq_add E rnd k T rq td flags = Some r"
    and "\<exists>r. b3_runq_add E rnd k T rq td flags = Some r"
  using fair_random_user_pri [OF assms, of k]
  by (auto simp: ks4_runq_add_def ks_runq_add_def b3_runq_add_def Let_def split: option.splits)

lemma random_enqueue:
  assumes "rqenv_ok E" and "\<exists>r. res = Some r"
    and "\<And>r k'. res = Some (r, k') \<Longrightarrow>
      \<exists>i. user_index E rnd k (unat (td_priority (T td))) i \<and> rq_enqueue E T rq td i r"
  shows "\<exists>pri<RQ_NQS E. rq_enqueue E T rq td pri (fst (the res))"
proof -
  from assms(2) obtain r k' where r: "res = Some (r, k')" by (metis prod.collapse)
  with assms(3) obtain i where i: "user_index E rnd k (unat (td_priority (T td))) i" "rq_enqueue E T rq td i r"
    by blast
  have "fst (the res) = r" using r by simp
  with user_index_less [OF assms(1) i(1)] i(2) show ?thesis by blast
qed

locale random_headers = runq_headers64 +
  fixes rnd :: "nat \<Rightarrow> nat"
  assumes fair: "fair_random rnd"

sublocale random_headers \<subseteq> ks4: thread_queue "\<lambda>s. rq_ok E (fst s)" "\<lambda>s. rq_set (fst s)"
    "\<lambda>td s. the (ks4_runq_add E rnd (snd s) (fst (fst s)) (snd (fst s)) td flags)"
    "\<lambda>td s. (rq_deq E td (fst s), snd s)" "\<lambda>s. runq_choose E (snd (fst s))" for flags
  by (rule random_queue)
    (rule random_enqueue [OF headers fair_random_returns(1) [OF fair] random_user_enqueue(1)])

sublocale random_headers \<subseteq> ks: thread_queue "\<lambda>s. rq_ok E (fst s)" "\<lambda>s. rq_set (fst s)"
    "\<lambda>td s. the (ks_runq_add E rnd (snd s) (fst (fst s)) (snd (fst s)) td flags)"
    "\<lambda>td s. (rq_deq E td (fst s), snd s)" "\<lambda>s. runq_choose E (snd (fst s))" for flags
  by (rule random_queue)
    (rule random_enqueue [OF headers fair_random_returns(2) [OF fair] random_user_enqueue(2)])

sublocale random_headers \<subseteq> b3: thread_queue "\<lambda>s. rq_ok E (fst s)" "\<lambda>s. rq_set (fst s)"
    "\<lambda>td s. the (b3_runq_add E rnd (snd s) (fst (fst s)) (snd (fst s)) td flags)"
    "\<lambda>td s. (rq_deq E td (fst s), snd s)" "\<lambda>s. runq_choose E (snd (fst s))" for flags
  by (rule random_queue)
    (rule random_enqueue [OF headers fair_random_returns(3) [OF fair] random_user_enqueue(3)])

interpretation amd64: runq_headers64 amd64_env
  by unfold_locales (simp add: amd64_env_def)

interpretation i386: runq_headers64 i386_env
  by unfold_locales (simp add: i386_env_def)

text \<open>Random values that count up give every user priority again and again.\<close>

lemma fair_counting: "fair_random (\<lambda>k. k)"
proof -
  have "\<exists>j\<ge>k. user_value j" for k
    by (rule exI [of _ "256 * k + 50"]) (simp add: user_value_def checkKern_def)
  then show ?thesis by (simp add: fair_random_def)
qed

interpretation counting: random_headers amd64_env "\<lambda>k. k"
  by unfold_locales (rule fair_counting)

subsection \<open>The priority insertion sorts by the exact priority\<close>

text \<open>The priorities whose queues \<^verbatim>\<open>benchmark2\<close> keeps in order of priority.\<close>

definition b2_sorted_key :: "nat \<Rightarrow> bool" where
  "b2_sorted_key pri \<longleftrightarrow> (pri \<ge> 30 \<and> pri \<le> 63) \<or> (pri \<ge> 12 \<and> pri \<le> 19)"

abbreviation b2_enq :: "('w::len) rqenv \<Rightarrow> tid \<Rightarrow> threads \<times> 'w runq \<Rightarrow> threads \<times> 'w runq" where
  "b2_enq E td s \<equiv> b2_runq_add E (fst s) (snd s) td {}"

lemma b2_add_queues:
  "rq_queues (snd (b2_runq_add E T rq td {})) =
    (rq_queues rq)[rq_key E T td :=
      (if b2_sorted_key (rq_key E T td) then prio_insert T td else (\<lambda>q. q @ [td]))
        (rq_queues rq ! rq_key E T td)]"
  "td_priority (fst (b2_runq_add E T rq td {}) t) = td_priority (T t)"
  by (simp_all add: b2_runq_add_def b2_sorted_key_def Let_def frame_simps place_boring_def)

lemma b2_add_all_length:
  "length (rq_queues (snd (fold (b2_enq E) tds s))) = length (rq_queues (snd s))"
  by (induction tds arbitrary: s) (simp_all add: b2_add_queues)

lemma b2_add_all_priority: "td_priority (fst (fold (b2_enq E) tds s) t) = td_priority (fst s t)"
  by (induction tds arbitrary: s) (simp_all add: b2_add_queues)

lemma b2_add_all_queues:
  assumes E: "rqenv_ok E" and "i < RQ_NQS E" and "\<forall>td\<in>set tds. b2_sorted_key (rq_key E T td)"
  shows "rq_queues (snd (fold (b2_enq E) tds (T, runq_init E))) ! i =
    sort_key (\<lambda>td. td_priority (T td)) (filter (\<lambda>td. rq_key E T td = i) tds)"
  using assms(3)
proof (induction tds rule: rev_induct)
  case Nil
  then show ?case using assms(2) by (simp add: runq_init_def)
next
  case (snoc td tds)
  let ?s = "fold (b2_enq E) tds (T, runq_init E)"
  have key: "rq_key E (fst ?s) td = rq_key E T td" by (simp add: b2_add_all_priority)
  have len: "length (rq_queues (snd ?s)) = RQ_NQS E" by (simp add: b2_add_all_length runq_init_def)
  have lt: "rq_key E T td < RQ_NQS E" by (rule rqenv_prio [OF E])
  have "prio_insert (fst ?s) td q = prio_insert T td q" for q
    by (rule prio_insert_cong) (simp add: b2_add_all_priority)
  then show ?case
    using snoc assms(2) len lt
    by (simp add: b2_add_queues key nth_list_update prio_insert_sort del: sort_key_simps)
qed

lemma b2_drain_concat:
  assumes "rqenv_ok E" "\<forall>td\<in>set tds. b2_sorted_key (rq_key E T td)"
  shows "concat (rq_queues (snd (fold (b2_enq E) tds (T, runq_init E)))) =
    sort_key (\<lambda>td. td_priority (T td)) tds"
proof -
  let ?f = "\<lambda>td. td_priority (T td)" and ?g = "\<lambda>p. unat (p :: u8) div RQ_PPQ E"
  have "rq_queues (snd (fold (b2_enq E) tds (T, runq_init E))) =
      map (\<lambda>i. sort_key ?f (filter (\<lambda>td. ?g (?f td) = i) tds)) [0..<RQ_NQS E]"
    by (rule map_nth_upt) (simp add: b2_add_all_length runq_init_def, rule b2_add_all_queues [OF assms(1) _ assms(2)])
  moreover have "mono ?g"
    by (auto intro!: monoI div_le_mono simp: word_le_nat_alt)
  then have "concat (map (\<lambda>i. sort_key ?f (filter (\<lambda>td. ?g (?f td) = i) tds)) [0..<RQ_NQS E]) =
      sort_key ?f tds"
    by (intro sort_key_buckets) (simp add: rqenv_prio [OF assms(1)])
  ultimately show ?thesis by simp
qed

context runq_headers
begin

lemma b2_add_all_ok:
  assumes "distinct tds"
  shows "rq_ok E (fold (b2_enq E) tds (T, runq_init E)) \<and>
    rq_set (fold (b2_enq E) tds (T, runq_init E)) = set tds"
  using b2.enq_all_ok [of "(T, runq_init E)" tds "{}"] assms headers
  by (simp add: rq_inv_init rq_elems_init)

end

text \<open>The insertion by priority does not look at the flags.\<close>

lemma b2_any_flags:
  assumes "\<forall>(td, flags)\<in>set adds. b2_sorted_key (rq_key E (fst s) td)"
  shows "fold (\<lambda>(td, flags) s. b2_runq_add E (fst s) (snd s) td flags) adds s = fold (b2_enq E) (map fst adds) s"
  using assms
proof (induction adds arbitrary: s)
  case (Cons a adds)
  obtain td flags where a: "a = (td, flags)" by (cases a)
  have e: "b2_runq_add E (fst s) (snd s) td flags = b2_enq E td s"
    using Cons.prems by (simp add: a b2_runq_add_def b2_sorted_key_def Let_def)
  have "td_priority (fst (b2_enq E td s) t) = td_priority (fst s t)" for t
    using b2_add_all_priority [of E "[td]" s t] by simp
  with Cons show ?case by (simp add: a e)
qed simp

text \<open>
  C28. With the policy of \<^verbatim>\<open>benchmark2\<close> and threads whose priority divided by \<^verbatim>\<open>RQ_PPQ\<close> is between 12
  and 19 or between 30 and 63, the queues that the policy keeps sorted, draining the run queue yields
  the stable sort by the whole priority, whatever the flags, although the bitmap only orders the
  threads by priority divided by \<^verbatim>\<open>RQ_PPQ\<close>: on these threads the policy refines a priority queue.
\<close>

theorem b2_drain_sorts_exactly:
  assumes "rqenv_ok E" and "distinct (map fst adds)"
    and "\<forall>td\<in>set (map fst adds). let pri = unat (td_priority (T td)) div RQ_PPQ E
      in (30 \<le> pri \<and> pri \<le> 63) \<or> (12 \<le> pri \<and> pri \<le> 19)"
  shows "fst (take_queue (\<lambda>s. runq_choose E (snd s)) (\<lambda>td s. (fst s, runq_remove E (fst s) (snd s) td))
      (length adds) (fold (\<lambda>(td, flags) s. b2_runq_add E (fst s) (snd s) td flags) adds (T, runq_init E))) =
    sort_key (\<lambda>td. td_priority (T td)) (map fst adds)"
proof -
  have k: "\<forall>td\<in>set (map fst adds). b2_sorted_key (rq_key E T td)"
    using assms(3) by (simp only: b2_sorted_key_def Let_def)
  note c = b2_drain_concat [OF assms(1) k]
  have "\<forall>(td, flags)\<in>set adds. b2_sorted_key (rq_key E (fst (T, runq_init E)) td)" using k by force
  note f = b2_any_flags [OF this]
  show ?thesis
    using take_queue_concat [OF assms(1), of "fold (b2_enq E) (map fst adds) (T, runq_init E)" "length adds"]
      runq_headers.b2_add_all_ok [OF runq_headers.intro [OF assms(1)] assms(2), of T]
    by (simp add: c f)
qed

theorem b2_drain_sorts_exactly_witness:
  "fst (take_queue (\<lambda>s. runq_choose amd64_env (snd s))
      (\<lambda>td s. (fst s, runq_remove amd64_env (fst s) (snd s) td)) (length [(203, {}), (202, {SRQ_PREEMPTED}), (60 :: tid, {})])
      (fold (\<lambda>(td, flags) s. b2_runq_add amd64_env (fst s) (snd s) td flags)
        [(203, {}), (202, {SRQ_PREEMPTED}), (60, {})] (threads0, runq_init amd64_env))) = [60, 202, 203]"
  by (rule trans [OF b2_drain_sorts_exactly [OF rqenv_ok_amd64]]) (simp_all add: threads0_def)

subsection \<open>The selection at run time\<close>

lemma place_boring_fun:
  "place_boring flags td =
    (if SRQ_PREEMPTED \<in> flags then (\<lambda>rqh. TAILQ_INSERT_HEAD rqh td) else (\<lambda>rqh. TAILQ_INSERT_TAIL rqh td))"
  by (auto simp: place_boring_def fun_eq_iff)

text \<open>
  \<^verbatim>\<open>testkernel/kern_switch.c\<close> with \<^verbatim>\<open>kern_switch_choose\<close> 1, 2, 3 and 4 adds a thread exactly as
  the kernels of the stock system and of the benchmarks 2, 3 and 4 do; any other value of the
  sysctl leaves the thread on no run queue, so that it is never run.
\<close>

theorem tk_runq_add_dispatch:
  "tk_runq_add E c rnd k T rq td flags =
     (if c = 1 then Some (runq_add E T rq td flags, k)
      else if c = 2 then Some (b2_runq_add E T rq td flags, k)
      else if c = 3 then b3_runq_add E rnd k T rq td flags
      else if c = 4 then ks4_runq_add E rnd k T rq td flags
      else Some ((T, rq), k))"
  by (auto simp: tk_runq_add_def tk_choose1_def tk_choose2_def tk_choose3_def tk_choose4_def
      runq_add_def b2_runq_add_def b3_runq_add_def ks4_runq_add_def place_boring_fun Let_def
      split: option.splits)

subsection \<open>The faults of the random insertion\<close>

lemma ks2_DIVIDE:
  "ks2_runq_add E rnd k T rq td flags = Inl DIVIDE_BY_ZERO \<longleftrightarrow>
    (let pri = fst (splatter rnd k (rq_key E T td))
     in ((12 \<le> pri \<and> pri \<le> 19) \<or> (30 \<le> pri \<and> pri \<le> 63)) \<and> rq_queues rq ! pri = [])"
  by (auto simp: ks2_runq_add_def Let_def frame_simps split: prod.splits)

lemma splatter_class:
  "(12 \<le> fst (splatter rnd k pri) \<and> fst (splatter rnd k pri) \<le> 19) = (12 \<le> pri \<and> pri \<le> 19)"
  "(30 \<le> fst (splatter rnd k pri) \<and> fst (splatter rnd k pri) \<le> 63) = (30 \<le> pri \<and> pri \<le> 63)"
proof -
  have "rnd k mod 8 < 8" "rnd k mod 26 < 26" by simp_all
  then show "(12 \<le> fst (splatter rnd k pri) \<and> fst (splatter rnd k pri) \<le> 19) = (12 \<le> pri \<and> pri \<le> 19)"
    "(30 \<le> fst (splatter rnd k pri) \<and> fst (splatter rnd k pri) \<le> 63) = (30 \<le> pri \<and> pri \<le> 63)"
    unfolding splatter_cases by auto
qed

text \<open>
  \<^verbatim>\<open>kern_switch2.c\<close> computes a random position modulo the length of the queue before the thread
  is on it: on an empty run queue, adding a thread divides by zero, whatever the random values,
  exactly when its priority is one of the splattered ones, and succeeds for all others.
\<close>

theorem ks2_first_thread_divides_by_zero:
  assumes "rqenv_ok E" and "64 \<le> RQ_NQS E"
  shows "ks2_runq_add E rnd k T (runq_init E) td flags = Inl DIVIDE_BY_ZERO \<longleftrightarrow>
    (let pri = unat (td_priority (T td)) div RQ_PPQ E
     in (12 \<le> pri \<and> pri \<le> 19) \<or> (30 \<le> pri \<and> pri \<le> 63))"
  unfolding ks2_DIVIDE Let_def
  using splatter_less [OF rqenv_prio [OF assms(1)] assms(2)]
  by (simp add: splatter_class runq_init_def)

theorem ks2_first_thread_divides_by_zero_witness:
  "ks2_runq_add amd64_env (\<lambda>k. k) 0 threads0 (runq_init amd64_env) 60 {} = Inl DIVIDE_BY_ZERO \<and>
   ks2_runq_add amd64_env (\<lambda>k. k) 0 threads0 (runq_init amd64_env) 40 {} \<noteq> Inl DIVIDE_BY_ZERO"
  using ks2_first_thread_divides_by_zero [OF rqenv_ok_amd64, of "\<lambda>k. k" 0 threads0 60 "{}"]
    ks2_first_thread_divides_by_zero [OF rqenv_ok_amd64, of "\<lambda>k. k" 0 threads0 40 "{}"]
  by (simp add: threads0_def)

text \<open>
  On a queue that is not empty the random insertion of \<^verbatim>\<open>kern_switch2.c\<close> never inserts in the
  middle, since its loop does not advance the position it compares with: when the remainder is
  zero the thread becomes the first of the queue, otherwise the last. The index stays in the
  class of the priority of the thread.
\<close>

theorem ks2_inserts_at_an_end:
  assumes "rqenv_ok E" and "64 \<le> RQ_NQS E" and "rq_reach E T rq"
    and "ks2_runq_add E rnd k T rq td flags = Inr ((T', rq'), k')"
  shows "let pri = unat (td_rqindex (T' td));
             q = rq_queues rq ! pri
    in pri < RQ_NQS E \<and> rq_queues rq' ! pri \<in> {td # q, q @ [td]} \<and>
       (\<forall>i<RQ_NQS E. i \<noteq> pri \<longrightarrow> rq_queues rq' ! i = rq_queues rq ! i)"
proof -
  let ?pri = "fst (splatter rnd k (rq_key E T td))"
  have lt: "?pri < RQ_NQS E" by (rule splatter_less [OF rqenv_prio [OF assms(1)] assms(2)])
  then have "?pri < 256" using rqenv_NQS_le [OF assms(1)] by simp
  then have idx: "unat (td_rqindex (set_rqindex T td ?pri td)) = ?pri" by (rule set_rqindex_at)
  have len: "?pri < length (rq_queues rq)"
    using lt rq_inv_length [OF rq_reach_inv [OF assms(1,3)]] by simp
  from assms(4) obtain f where r: "T' = set_rqindex T td ?pri"
    "rq' = rq_link (runq_setbit E rq ?pri) ?pri f" "\<And>q. f q = td # q \<or> f q = q @ [td]"
    unfolding ks2_runq_add_def Let_def
    by (cases "splatter rnd k (rq_key E T td)")
      (auto simp: rand_insert_head_tail place_boring_def split: if_splits)
  show ?thesis
    using r(3) [of "rq_queues rq ! ?pri"] lt len idx
    by (auto simp: r(1,2) Let_def frame_simps)
qed

lemma two_queued_priority: "td_priority (fst two_queued t) = of_nat (t mod 256)"
  by (simp add: two_queued_def runq_add_queues threads0_def)

lemma ks2_two_queued:
  "\<exists>r. ks2_runq_add amd64_env (\<lambda>_. 20) 0 (fst two_queued) (snd two_queued) 201 {} = Inr (r, 2) \<and>
    unat (td_rqindex (fst r 201)) = 50"
  by (simp add: ks2_runq_add_def splatter_def two_queued_priority Let_def frame_simps
      two_queued_queues set_rqindex_def)

theorem ks2_inserts_at_an_end_witness:
  "\<exists>r. ks2_runq_add amd64_env (\<lambda>_. 20) 0 (fst two_queued) (snd two_queued) 201 {} = Inr (r, 2) \<and>
    rq_queues (snd r) ! 50 \<in> {[201, 200], [200, 201]}"
proof -
  from ks2_two_queued obtain r where r:
    "ks2_runq_add amd64_env (\<lambda>_. 20) 0 (fst two_queued) (snd two_queued) 201 {} = Inr ((fst r, snd r), 2)"
    "unat (td_rqindex (fst r 201)) = 50" by auto
  from ks2_inserts_at_an_end [OF rqenv_ok_amd64 _ two_queued(3) r(1)] r
  show ?thesis by (simp add: Let_def two_queued_queues)
qed

lemma chained_true: "chained 12 x 19" "chained 30 x 55" "chained 56 x 63" "chained 30 x 63"
  by (simp_all add: chained_def)

lemma rq_link_rand:
  "rq_queues rq ! pri \<noteq> [] \<Longrightarrow>
   rq_link (runq_setbit E rq pri) pri (rand_insert n 0 td) =
   rq_link (runq_setbit E rq pri) pri (if n = 0 then (\<lambda>q. td # q) else (\<lambda>q. q @ [td]))"
  by (simp add: rq_link_def frame_simps rand_insert_head_tail)

text \<open>
  In \<^verbatim>\<open>test.c\<close> the chained comparisons are always true, so the priority of the thread plays no
  role: a thread of any priority is put in one of the queues 56 to 63, picked by the third
  random value, and the division by the length of an empty queue faults.
\<close>

theorem test_runq_add_ignores_priority:
  "test_runq_add E rnd k T rq td flags =
    (let pri = rnd (k + 2) mod 8 + 56;
         q = rq_queues rq ! pri
     in if q = [] then Inl DIVIDE_BY_ZERO
        else Inr ((set_rqindex T td pri,
          rq_link (runq_setbit E rq pri) pri
            (if rnd (k + 3) mod length q = 0 then (\<lambda>q. td # q) else (\<lambda>q. q @ [td]))), k + 4))"
proof -
  have k: "k + 2 = Suc (Suc k)" "k + 3 = Suc (Suc (Suc k))" "k + 4 = Suc (Suc (Suc (Suc k)))"
    by simp_all
  show ?thesis
    unfolding test_runq_add_def k
    by (simp only: chained_true if_True Let_def prod.case frame_simps length_0_conv simp_thms)
      (simp add: rq_link_rand)
qed

subsection \<open>The loop of the random user priority\<close>

text \<open>
  The loop of \<^verbatim>\<open>kern_switch.c\<close>, \<^verbatim>\<open>benchmark3\<close> and \<^verbatim>\<open>benchmark4\<close> ends for a thread exactly when its
  priority is a kernel one or a later value of \<^verbatim>\<open>random()\<close> modulo 256 lies in 48..79 or 120..255;
  with values that never do, adding the thread does not return.
\<close>

theorem ks_runq_add_returns:
  "(\<exists>r. ks_runq_add E rnd k T rq td flags = Some r) \<longleftrightarrow>
    checkKern (unat (td_priority (T td))) \<or>
    (\<exists>j\<ge>k. (48 \<le> rnd j mod 256 \<and> rnd j mod 256 \<le> 79) \<or> 120 \<le> rnd j mod 256)"
proof -
  have "user_value r \<longleftrightarrow> (48 \<le> r mod 256 \<and> r mod 256 \<le> 79) \<or> 120 \<le> r mod 256" for r
    by (auto simp: user_value_def checkKern_def)
  with user_pri_defined [of rnd k]
  have pri: "(\<exists>p. user_pri rnd k = Some p) \<longleftrightarrow>
      (\<exists>j\<ge>k. (48 \<le> rnd j mod 256 \<and> rnd j mod 256 \<le> 79) \<or> 120 \<le> rnd j mod 256)"
    by simp
  show ?thesis
    unfolding pri [symmetric]
    by (auto simp: ks_runq_add_def Let_def split: option.splits)
qed

abbreviation ks_enq :: "('w::len) rqenv \<Rightarrow> (nat \<Rightarrow> nat) \<Rightarrow> tid \<Rightarrow> (threads \<times> 'w runq) \<times> nat \<Rightarrow> (threads \<times> 'w runq) \<times> nat" where
  "ks_enq E rnd td s \<equiv> the (ks_runq_add E rnd (snd s) (fst (fst s)) (snd (fst s)) td {})"

context random_headers
begin

lemma ks_drain:
  fixes T :: threads and k :: nat
  assumes "distinct tds"
  defines "s \<equiv> fold (ks_enq E rnd) tds ((T, runq_init E), k)"
  defines "out \<equiv> fst (take_queue (\<lambda>s. runq_choose E (snd (fst s)))
    (\<lambda>td s. (rq_deq E td (fst s), snd s)) (length tds) s)"
  shows "distinct out \<and> set out = set tds"
proof -
  have "rq_ok E (fst s)" and elems: "rq_set (fst s) = set tds"
    using ks.enq_all_ok [of "((T, runq_init E), k)" tds "{}"] assms(1) headers
    by (simp_all add: s_def rq_inv_init rq_elems_init)
  moreover have "card (rq_set (fst s)) \<le> length tds" by (simp add: elems card_length)
  ultimately show ?thesis
    unfolding out_def using ks.take_queue_all [of s "length tds"] by simp
qed

end

text \<open>
  However the random values of \<^verbatim>\<open>kern_switch.c\<close> place the threads, none is lost or
  duplicated: when user priorities come up again and again, adding distinct threads one after
  the other and draining the run queue yields every one of them exactly once.
\<close>

theorem ks_drain_complete:
  assumes "rqenv_ok E" and "64 \<le> RQ_NQS E" and "\<forall>k. \<exists>j\<ge>k. \<not> checkKern (rnd j mod 256)"
    and "distinct tds"
  shows "let s = fold (\<lambda>td s. the (ks_runq_add E rnd (snd s) (fst (fst s)) (snd (fst s)) td {})) tds
               ((T, runq_init E), k);
             out = fst (take_queue (\<lambda>s. runq_choose E (snd (fst s)))
               (\<lambda>td s. ((fst (fst s), runq_remove E (fst (fst s)) (snd (fst s)) td), snd s))
               (length tds) s)
    in distinct out \<and> set out = set tds"
proof -
  have "random_headers E rnd"
    by unfold_locales (use assms(1-3) in \<open>simp_all add: fair_random_def user_value_def\<close>)
  from random_headers.ks_drain [OF this assms(4)] show ?thesis unfolding Let_def .
qed

theorem ks_drain_complete_witness:
  "set (fst (take_queue (\<lambda>s. runq_choose amd64_env (snd (fst s)))
     (\<lambda>td s. ((fst (fst s), runq_remove amd64_env (fst (fst s)) (snd (fst s)) td), snd s)) (length [60, 130 :: tid])
     (fold (\<lambda>td s. the (ks_runq_add amd64_env (\<lambda>_. 50) (snd s) (fst (fst s)) (snd (fst s)) td {}))
       [60, 130] ((threads0, runq_init amd64_env), 0)))) = {60, 130}"
  using ks_drain_complete [OF rqenv_ok_amd64, of "\<lambda>_. 50" "[60, 130]" threads0 0]
  by (simp only: Let_def) (auto simp: checkKern_def)

end
