(* ===== verification/Ule_Prio.thy ===== *)
theory Ule_Prio
  imports Threads "HOL-Library.Signed_Division"
begin

section \<open>ULE: constants, interactivity and priorities\<close>

text \<open>
  The arithmetic of \<^verbatim>\<open>sched_ule.c\<close>: the priority ranges, the interactivity score, the history
  of sleep and run time, the window of the cpu usage and the priorities computed from them. A
  \<^verbatim>\<open>u_int\<close> is a word of 32 bits, and so are \<^verbatim>\<open>ticks\<close> and the tick fields of a thread, whose
  signed differences roll over; the tunables and the priorities are small and stay integers.

  The priorities of \<^verbatim>\<open>sys/priority.h\<close> and the nice values of \<^verbatim>\<open>sys/resource.h\<close> are not in the
  repository: they are the parameter \<open>P\<close>, with the order they have in \<open>pri_env_ok\<close>.
\<close>

record pri_env =
  PRI_MAX_ITHD :: int
  PRI_MIN_TIMESHARE :: int
  PRI_MAX_TIMESHARE :: int
  PRI_MIN_IDLE :: int
  PRI_MAX_IDLE :: int
  PRIO_MIN :: int
  PRIO_MAX :: int
  PSOCK :: int

definition PRI_TIMESHARE_RANGE :: "pri_env \<Rightarrow> int" where
  "PRI_TIMESHARE_RANGE P = PRI_MAX_TIMESHARE P - PRI_MIN_TIMESHARE P + 1"

definition SCHED_PRI_NRESV :: "pri_env \<Rightarrow> int" where
  "SCHED_PRI_NRESV P = PRIO_MAX P - PRIO_MIN P"

definition PRI_INTERACT_RANGE :: "pri_env \<Rightarrow> int" where
  "PRI_INTERACT_RANGE P = (PRI_TIMESHARE_RANGE P - SCHED_PRI_NRESV P) div 2"

definition PRI_BATCH_RANGE :: "pri_env \<Rightarrow> int" where
  "PRI_BATCH_RANGE P = PRI_TIMESHARE_RANGE P - PRI_INTERACT_RANGE P"

definition PRI_MIN_INTERACT :: "pri_env \<Rightarrow> int" where
  "PRI_MIN_INTERACT P = PRI_MIN_TIMESHARE P"

definition PRI_MAX_INTERACT :: "pri_env \<Rightarrow> int" where
  "PRI_MAX_INTERACT P = PRI_MIN_TIMESHARE P + PRI_INTERACT_RANGE P - 1"

definition PRI_MIN_BATCH :: "pri_env \<Rightarrow> int" where
  "PRI_MIN_BATCH P = PRI_MIN_TIMESHARE P + PRI_INTERACT_RANGE P"

definition PRI_MAX_BATCH :: "pri_env \<Rightarrow> int" where
  "PRI_MAX_BATCH P = PRI_MAX_TIMESHARE P"

definition SCHED_PRI_NHALF :: "pri_env \<Rightarrow> int" where
  "SCHED_PRI_NHALF P = SCHED_PRI_NRESV P div 2"

definition SCHED_PRI_MIN :: "pri_env \<Rightarrow> int" where
  "SCHED_PRI_MIN P = PRI_MIN_BATCH P + SCHED_PRI_NHALF P"

definition SCHED_PRI_MAX :: "pri_env \<Rightarrow> int" where
  "SCHED_PRI_MAX P = PRI_MAX_BATCH P - SCHED_PRI_NHALF P"

definition SCHED_PRI_RANGE :: "pri_env \<Rightarrow> int" where
  "SCHED_PRI_RANGE P = SCHED_PRI_MAX P - SCHED_PRI_MIN P + 1"

definition pri_env_ok :: "pri_env \<Rightarrow> bool" where
  "pri_env_ok P \<longleftrightarrow>
     0 \<le> PRI_MAX_ITHD P \<and> PRI_MAX_ITHD P < PRI_MIN_TIMESHARE P \<and>
     PRI_MAX_TIMESHARE P < PRI_MIN_IDLE P \<and> PRI_MIN_IDLE P \<le> PRI_MAX_IDLE P \<and>
     PRI_MAX_IDLE P \<le> 255 \<and> 0 \<le> PRIO_MAX P \<and> PRIO_MIN P = - PRIO_MAX P \<and>
     SCHED_PRI_NRESV P + 2 \<le> PRI_TIMESHARE_RANGE P"

lemmas pri_env_defs = PRI_TIMESHARE_RANGE_def SCHED_PRI_NRESV_def PRI_INTERACT_RANGE_def
  PRI_BATCH_RANGE_def PRI_MIN_INTERACT_def PRI_MAX_INTERACT_def PRI_MIN_BATCH_def
  PRI_MAX_BATCH_def SCHED_PRI_NHALF_def SCHED_PRI_MIN_def SCHED_PRI_MAX_def SCHED_PRI_RANGE_def

text \<open>The values of the FreeBSD kernel the assignment uses.\<close>

definition freebsd_pri :: pri_env where
  "freebsd_pri = \<lparr>PRI_MAX_ITHD = 47, PRI_MIN_TIMESHARE = 120, PRI_MAX_TIMESHARE = 223,
     PRI_MIN_IDLE = 224, PRI_MAX_IDLE = 255, PRIO_MIN = -20, PRIO_MAX = 20, PSOCK = 88\<rparr>"

lemma pri_env_ok_freebsd: "pri_env_ok freebsd_pri"
  by (simp add: pri_env_ok_def freebsd_pri_def pri_env_defs)

text \<open>
  The static variables of the scheduler that are constant while threads run: \<^verbatim>\<open>hz\<close> and
  \<^verbatim>\<open>stathz\<close> of the clock, and the tunables, with their initial values where the source gives one.
\<close>

record ule_conf =
  hz :: int
  stathz :: int
  sched_interact_var :: int
  tickincr :: int
  realstathz :: int
  sched_slice :: int
  sched_slice_min :: int
  preempt_thresh :: int
  static_boost :: int
  sched_idlespins :: int
  sched_idlespinthresh :: int
  rebalance :: bool
  balance_interval :: int
  affinity :: int
  steal_idle :: bool
  steal_thresh :: int
  always_steal :: bool
  trysteal_limit :: int
  hogticks :: int

definition SCHED_TICK_SHIFT :: nat where
  "SCHED_TICK_SHIFT = 10"

definition SCHED_TICK_TARG :: "ule_conf \<Rightarrow> int" where
  "SCHED_TICK_TARG C = hz C * 10"

definition SCHED_TICK_MAX :: "ule_conf \<Rightarrow> int" where
  "SCHED_TICK_MAX C = SCHED_TICK_TARG C + hz C"

definition SCHED_SLP_RUN_MAX :: "ule_conf \<Rightarrow> int" where
  "SCHED_SLP_RUN_MAX C = push_bit SCHED_TICK_SHIFT (hz C * 5)"

definition SCHED_SLP_RUN_FORK :: "ule_conf \<Rightarrow> int" where
  "SCHED_SLP_RUN_FORK C = push_bit SCHED_TICK_SHIFT (hz C div 2)"

definition SCHED_INTERACT_MAX :: int where
  "SCHED_INTERACT_MAX = 100"

definition SCHED_INTERACT_HALF :: int where
  "SCHED_INTERACT_HALF = SCHED_INTERACT_MAX div 2"

definition SCHED_INTERACT_THRESH :: int where
  "SCHED_INTERACT_THRESH = 30"

definition SCHED_SLICE_DEFAULT_DIVISOR :: int where
  "SCHED_SLICE_DEFAULT_DIVISOR = 10"

definition SCHED_SLICE_MIN_DIVISOR :: int where
  "SCHED_SLICE_MIN_DIVISOR = 6"

lemmas sched_consts = SCHED_TICK_SHIFT_def SCHED_TICK_TARG_def SCHED_TICK_MAX_def
  SCHED_SLP_RUN_MAX_def SCHED_SLP_RUN_FORK_def SCHED_INTERACT_MAX_def SCHED_INTERACT_HALF_def
  SCHED_INTERACT_THRESH_def SCHED_SLICE_DEFAULT_DIVISOR_def SCHED_SLICE_MIN_DIVISOR_def

text \<open>
  \<^verbatim>\<open>struct td_sched\<close>. The pointer \<^verbatim>\<open>ts_runq\<close> points to one of the three run queues of a
  processor, so it is the processor and the name of the queue.
\<close>

datatype rq_name = RQ_REALTIME | RQ_TIMESHARE | RQ_IDLE

datatype ts_flag = TSF_BOUND | TSF_XFERABLE

record td_sched =
  ts_runq :: "(cpuid \<times> rq_name) option"
  ts_flags :: "ts_flag set"
  ts_cpu :: cpuid
  ts_rltick :: u32
  ts_slice :: int
  ts_slptime :: u32
  ts_runtime :: u32
  ts_ltick :: u32
  ts_ftick :: u32
  ts_ticks :: u32

subsection \<open>The operations\<close>

definition sched_shouldpreempt :: "pri_env \<Rightarrow> ule_conf \<Rightarrow> int \<Rightarrow> int \<Rightarrow> bool \<Rightarrow> bool" where
  "sched_shouldpreempt P C pri cpri remote =
     (if pri \<ge> cpri then False
      else if cpri \<ge> PRI_MIN_IDLE P then True
      else if preempt_thresh C = 0 then False
      else if pri \<le> preempt_thresh C then True
      else if remote \<and> pri \<le> PRI_MAX_INTERACT P \<and> cpri > PRI_MAX_INTERACT P then True
      else False)"

text \<open>\<open>sched_random\<close>: the new state and the number returned.\<close>

definition sched_random :: "u32 \<Rightarrow> u32 \<times> u32" where
  "sched_random rndptr = (let r = rndptr * 69069 + 5 in (r, drop_bit 16 r))"

text \<open>
  The time constants. The variables that \<open>sched_initticks\<close> divides by are positive when \<^verbatim>\<open>hz\<close>
  is; \<^verbatim>\<open>div\<close> rounds as C does on these values, which are not negative.
\<close>

definition sched_initticks :: "ule_conf \<Rightarrow> ule_conf" where
  "sched_initticks C =
     (let rst = (if stathz C \<noteq> 0 then stathz C else hz C);
          slice = rst div SCHED_SLICE_DEFAULT_DIVISOR;
          incr = push_bit SCHED_TICK_SHIFT (hz C) div rst;
          incr = (if incr = 0 then 1 else incr)
      in C\<lparr>realstathz := rst,
           sched_slice := slice,
           sched_slice_min := slice div SCHED_SLICE_MIN_DIVISOR,
           hogticks := max 1 ((2 * hz C * slice + rst div 2) div rst),
           tickincr := incr,
           balance_interval := rst,
           affinity := max 1 (hz C div 1000),
           sched_idlespinthresh :=
             (if sched_idlespinthresh C < 0 then 2 * max 10000 (6 * hz C) div rst
              else sched_idlespinthresh C)\<rparr>)"

definition sched_rr_interval :: "ule_conf \<Rightarrow> int" where
  "sched_rr_interval C = max 1 ((sched_slice C * hz C + realstathz C div 2) div realstathz C)"

text \<open>
  The score: \<^verbatim>\<open>max\<close> is the one of \<^verbatim>\<open>u_int\<close>, and the subtraction and the additions are made on
  \<^verbatim>\<open>u_int\<close> before the result becomes an \<^verbatim>\<open>int\<close>.
\<close>

definition sched_interact_score :: "ule_conf \<Rightarrow> td_sched \<Rightarrow> int" where
  "sched_interact_score C ts =
     (if sched_interact_var C \<le> SCHED_INTERACT_HALF \<and> ts_runtime ts \<ge> ts_slptime ts
      then SCHED_INTERACT_HALF
      else if ts_runtime ts > ts_slptime ts
      then (let dv = max 1 (ts_runtime ts div word_of_int SCHED_INTERACT_HALF)
            in sint (word_of_int SCHED_INTERACT_HALF +
                 (word_of_int SCHED_INTERACT_HALF - ts_slptime ts div dv) :: u32))
      else if ts_slptime ts > ts_runtime ts
      then (let dv = max 1 (ts_slptime ts div word_of_int SCHED_INTERACT_HALF)
            in sint (ts_runtime ts div dv))
      else if ts_runtime ts \<noteq> 0 then SCHED_INTERACT_HALF
      else 0)"

definition sched_interact_update :: "ule_conf \<Rightarrow> td_sched \<Rightarrow> td_sched" where
  "sched_interact_update C ts =
     (let sum = ts_runtime ts + ts_slptime ts
      in if sum < word_of_int (SCHED_SLP_RUN_MAX C) then ts
         else if sum > word_of_int (SCHED_SLP_RUN_MAX C * 2)
         then (if ts_runtime ts > ts_slptime ts
               then ts\<lparr>ts_runtime := word_of_int (SCHED_SLP_RUN_MAX C), ts_slptime := 1\<rparr>
               else ts\<lparr>ts_slptime := word_of_int (SCHED_SLP_RUN_MAX C), ts_runtime := 1\<rparr>)
         else if sum > word_of_int ((SCHED_SLP_RUN_MAX C div 5) * 6)
         then ts\<lparr>ts_runtime := ts_runtime ts div 2, ts_slptime := ts_slptime ts div 2\<rparr>
         else ts\<lparr>ts_runtime := (ts_runtime ts div 5) * 4, ts_slptime := (ts_slptime ts div 5) * 4\<rparr>)"

definition sched_interact_fork :: "ule_conf \<Rightarrow> td_sched \<Rightarrow> td_sched" where
  "sched_interact_fork C ts =
     (let sum = sint (ts_runtime ts + ts_slptime ts)
      in if sum > SCHED_SLP_RUN_FORK C
         then (let ratio = word_of_int (sum div SCHED_SLP_RUN_FORK C)
               in ts\<lparr>ts_runtime := ts_runtime ts div ratio, ts_slptime := ts_slptime ts div ratio\<rparr>)
         else ts)"

text \<open>
  The window of the cpu usage; \<open>None\<close> is a division by zero. The comparison of line 1702 is made
  on \<^verbatim>\<open>u_int\<close>, the others on \<^verbatim>\<open>int\<close>; \<open>int_div\<close> is the division of two \<^verbatim>\<open>int\<close>, which
  rounds to zero.
\<close>

definition int_div :: "u32 \<Rightarrow> u32 \<Rightarrow> u32" where
  "int_div a b = word_of_int (sint a sdiv sint b)"

definition sched_pctcpu_update :: "ule_conf \<Rightarrow> u32 \<Rightarrow> td_sched \<Rightarrow> bool \<Rightarrow> td_sched option" where
  "sched_pctcpu_update C t ts run =
     (let targ = word_of_int (SCHED_TICK_TARG C);
          ts' = (if t - ts_ltick ts \<ge> targ
                 then Some (ts\<lparr>ts_ticks := 0, ts_ftick := t - targ\<rparr>)
                 else if sint (t - ts_ftick ts) \<ge> SCHED_TICK_MAX C
                 then (if ts_ltick ts - ts_ftick ts = 0 then None
                       else Some (ts\<lparr>ts_ticks := int_div (ts_ticks ts) (ts_ltick ts - ts_ftick ts) *
                                       (ts_ltick ts - (t - targ)),
                                     ts_ftick := t - targ\<rparr>))
                 else Some ts)
      in map_option
           (\<lambda>ts. (if run then ts\<lparr>ts_ticks := ts_ticks ts +
                            push_bit SCHED_TICK_SHIFT (t - ts_ltick ts)\<rparr> else ts)
                  \<lparr>ts_ltick := t\<rparr>) ts')"

text \<open>
  \<open>SCHED_PRI_TICKS\<close>: the ticks are shifted as an \<^verbatim>\<open>int\<close> and divided as \<^verbatim>\<open>u_int\<close>; roundup(9) rounds
  up to a multiple. \<open>None\<close> is a division by zero.
\<close>

definition roundup :: "u32 \<Rightarrow> u32 \<Rightarrow> u32" where
  "roundup x y = ((x + (y - 1)) div y) * y"

definition SCHED_TICK_TOTAL :: "ule_conf \<Rightarrow> td_sched \<Rightarrow> u32" where
  "SCHED_TICK_TOTAL C ts = max (ts_ltick ts - ts_ftick ts) (word_of_int (hz C))"

definition SCHED_PRI_TICKS :: "pri_env \<Rightarrow> ule_conf \<Rightarrow> td_sched \<Rightarrow> u32 option" where
  "SCHED_PRI_TICKS P C ts =
     (let range = word_of_int (SCHED_PRI_RANGE P);
          q = roundup (SCHED_TICK_TOTAL C ts) range div range
      in if q = 0 then None else Some (signed_drop_bit SCHED_TICK_SHIFT (ts_ticks ts) div q))"

definition sched_user_prio :: "thread \<Rightarrow> u8 \<Rightarrow> thread" where
  "sched_user_prio td prio =
     (let td = td\<lparr>td_base_user_pri := prio\<rparr>
      in if td_lend_user_pri td \<le> prio then td else td\<lparr>td_user_pri := prio\<rparr>)"

text \<open>The priority that \<open>sched_priority\<close> computes for a timeshare thread.\<close>

definition sched_priority_pri :: "pri_env \<Rightarrow> ule_conf \<Rightarrow> td_sched \<Rightarrow> int \<Rightarrow> int option" where
  "sched_priority_pri P C ts nice =
     (let score = max 0 (sched_interact_score C ts + nice)
      in if score < sched_interact_var C
         then Some (PRI_MIN_INTERACT P +
                ((PRI_MAX_INTERACT P - PRI_MIN_INTERACT P + 1) div sched_interact_var C) * score)
         else if ts_ticks ts \<noteq> 0
         then map_option
                (\<lambda>n. SCHED_PRI_MIN P + uint (min n (word_of_int (SCHED_PRI_RANGE P - 1))) + nice)
                (SCHED_PRI_TICKS P C ts)
         else Some (SCHED_PRI_MIN P + nice))"

definition sched_priority ::
  "pri_env \<Rightarrow> ule_conf \<Rightarrow> (pid \<Rightarrow> proc) \<Rightarrow> td_sched \<Rightarrow> thread \<Rightarrow> thread option" where
  "sched_priority P C procs ts td =
     (if fst (td_pri_class td) \<noteq> PRI_TIMESHARE then Some td
      else map_option (\<lambda>pri. sched_user_prio td (word_of_int pri))
             (sched_priority_pri P C ts (p_nice (procs (td_proc td)))))"

text \<open>The slice of a timeshare thread by the number of threads that wait.\<close>

definition slice_of_load :: "ule_conf \<Rightarrow> int \<Rightarrow> int" where
  "slice_of_load C sysload =
     (let load = sysload - 1
      in if load \<ge> SCHED_SLICE_MIN_DIVISOR then sched_slice_min C
         else if load \<le> 1 then sched_slice C
         else sched_slice C div load)"

end
