(* ===== verification/Ule_Prio_Props.thy ===== *)
theory Ule_Prio_Props
  imports Ule_Prio
begin

section \<open>Properties of the interactivity and priority arithmetic\<close>

text \<open>
  Bounds on what the arithmetic of \<^verbatim>\<open>sched_ule.c\<close> yields, for every value of the 32-bit
  counters the code keeps, and the window invariant that makes its divisions safe.
\<close>

subsection \<open>Word arithmetic as natural numbers\<close>

lemma unat_max_u32: "unat (max a b :: u32) = max (unat a) (unat b)"
  by (simp add: max_def word_le_nat_alt)

lemma unat_min_u32: "unat (min a b :: u32) = min (unat a) (unat b)"
  by (simp add: min_def word_le_nat_alt)

lemma unat_u32_less [simp]: "unat (x :: u32) < 4294967296"
  using unsigned_less [of x] by simp

lemma unat_word_of_int_u32: "0 \<le> i \<Longrightarrow> i < 4294967296 \<Longrightarrow> unat (word_of_int i :: u32) = nat i"
  by (simp add: unat_eq_nat_uint uint_word_of_int_eq take_bit_int_eq_self)

lemma uint_word_of_int_u32: "0 \<le> i \<Longrightarrow> i < 4294967296 \<Longrightarrow> uint (word_of_int i :: u32) = i"
  by (simp add: uint_word_of_int_eq take_bit_int_eq_self)

lemma signed_shift:
  fixes u :: int
  assumes "0 \<le> u" "u < 4294967296"
  shows "(u + 2147483648) mod 4294967296 - 2147483648 = (if u < 2147483648 then u else u - 4294967296)"
proof (cases "u < 2147483648")
  case True
  with assms show ?thesis by (simp add: mod_pos_pos_trivial)
next
  case False
  have "(u + 2147483648) mod 4294967296 = (u - 2147483648 + 4294967296) mod 4294967296"
    by (rule arg_cong [where f = "\<lambda>v. v mod 4294967296"]) simp
  also have "\<dots> = (u - 2147483648) mod 4294967296" by (rule mod_add_self2)
  also have "\<dots> = u - 2147483648" using assms False by (simp add: mod_pos_pos_trivial)
  finally show ?thesis using False by simp
qed

lemma sint_u32_uint: "sint (x :: u32) = (if uint x < 2147483648 then uint x else uint x - 4294967296)"
proof -
  have "sint x = (uint x + 2147483648) mod 4294967296 - 2147483648"
    by (simp add: sint_uint signed_take_bit_eq_take_bit_shift take_bit_eq_mod)
  also have "uint x < 4294967296" using unsigned_less [where 'a = int, of x] by simp
  then have "(uint x + 2147483648) mod 4294967296 - 2147483648 =
      (if uint x < 2147483648 then uint x else uint x - 4294967296)"
    by (intro signed_shift) simp_all
  finally show ?thesis .
qed

lemma sint_small: "unat (x :: u32) \<le> n \<Longrightarrow> n < 2147483648 \<Longrightarrow> sint x = int (unat x)"
proof -
  assume "unat x \<le> n" "n < 2147483648"
  then have "int (unat x) < 2147483648" by linarith
  then show ?thesis unfolding sint_u32_uint uint_nat by (rule if_P)
qed

lemma unat_add_u32: "unat a + unat b < 4294967296 \<Longrightarrow> unat (a + b) = unat a + unat b" for a b :: u32
  using unat_add_lem [of a b] by simp

lemma unat_div2: "unat (x div 2) = unat x div 2" for x :: u32
  by (simp add: unat_div)

lemma unat_div5_mult4: "unat (x div 5 * 4) = unat x div 5 * 4" for x :: u32
proof -
  have "unat (x div 5) = unat x div 5" by (simp add: unat_div)
  moreover have "unat x div 5 * 4 < 4294967296" using unat_u32_less [of x] by linarith
  ultimately show ?thesis using unat_mult_lem [of "x div 5" 4] by simp
qed

subsection \<open>The interactivity score\<close>

text \<open>The quotient of the smaller counter by the scaled greater one is less than 100.\<close>

lemma score_quotient:
  fixes a b :: nat
  assumes "a < b"
  shows "a div max 1 (b div 50) \<le> 98"
proof (cases "b div 50 = 0")
  case True
  then have "b < 50" by (simp add: div_eq_0_iff)
  with assms True show ?thesis by simp
next
  case False
  define d where "d = b div 50"
  have "b < 50 * d + 50" unfolding d_def by presburger
  with assms False have "a < 99 * d"
    unfolding d_def by linarith
  then have "a div d < 99" by (simp add: less_mult_imp_div_less)
  with False show ?thesis by (simp add: d_def max_def)
qed

lemma score_quotient_word:
  fixes a b :: u32
  assumes "a < b"
  shows "unat (a div max 1 (b div 50)) \<le> 98"
  using score_quotient [of "unat a" "unat b"] assms
  by (simp add: unat_div unat_max_u32 word_less_nat_alt)

lemma sched_interact_score_range:
  "0 \<le> sched_interact_score C ts \<and> sched_interact_score C ts \<le> SCHED_INTERACT_MAX"
proof -
  let ?r = "ts_runtime ts" and ?s = "ts_slptime ts"
  have half: "word_of_int SCHED_INTERACT_HALF = (50 :: u32)" "SCHED_INTERACT_HALF = 50"
    "SCHED_INTERACT_MAX = 100" by (simp_all add: sched_consts)
  have less: "0 \<le> sint (?r div max 1 (?s div 50)) \<and> sint (?r div max 1 (?s div 50)) \<le> 98"
    if "?r < ?s" using score_quotient_word [OF that] sint_small [OF score_quotient_word [OF that]] by linarith
  have more: "0 \<le> sint (50 + (50 - q) :: u32) \<and> sint (50 + (50 - q) :: u32) \<le> 100"
    if "unat q \<le> 98" for q :: u32
  proof -
    have "q \<le> 100" using that by (simp add: word_le_nat_alt)
    then have "unat (50 + (50 - q)) = 100 - unat q"
      using unat_sub [of q 100] by simp
    then have "unat (50 + (50 - q)) \<le> 100" by linarith
    with sint_small [OF this] show ?thesis by linarith
  qed
  show ?thesis
    using less more [OF score_quotient_word [of ?s ?r]]
    by (auto simp: sched_interact_score_def Let_def half)
qed

subsection \<open>The computed priority\<close>

lemma pri_ranges:
  assumes "pri_env_ok P"
  shows "1 \<le> PRI_INTERACT_RANGE P" "1 \<le> SCHED_PRI_RANGE P" "SCHED_PRI_RANGE P \<le> 256"
    "SCHED_PRI_MIN P = PRI_MIN_BATCH P + PRIO_MAX P"
    "SCHED_PRI_MIN P + SCHED_PRI_RANGE P - 1 = PRI_MAX_BATCH P - PRIO_MAX P"
    "PRI_MAX_INTERACT P - PRI_MIN_INTERACT P + 1 = PRI_INTERACT_RANGE P"
    "0 \<le> PRI_MIN_INTERACT P" "PRI_MAX_INTERACT P < PRI_MIN_BATCH P" "PRI_MAX_BATCH P \<le> 255"
    "PRI_MIN_INTERACT P \<le> PRI_MAX_INTERACT P" "PRI_MIN_BATCH P \<le> PRI_MAX_BATCH P"
  using assms unfolding pri_env_ok_def pri_env_defs by presburger+

text \<open>The window in which the ticks of a thread were counted, in ticks.\<close>

definition tick_window :: "td_sched \<Rightarrow> nat" where
  "tick_window ts = unat (ts_ltick ts - ts_ftick ts)"

lemma roundup_quotient_pos:
  fixes x y :: nat
  assumes "0 < x" "0 < y"
  shows "0 < (x + (y - 1)) div y"
  using assms by (simp add: div_greater_zero_iff)

lemma SCHED_PRI_TICKS_defined:
  assumes P: "pri_env_ok P" and hz: "0 < hz C" "hz C < 2147483648"
    and win: "tick_window ts < 2147483648"
  shows "\<exists>n. SCHED_PRI_TICKS P C ts = Some n"
proof -
  let ?x = "SCHED_TICK_TOTAL C ts" and ?y = "word_of_int (SCHED_PRI_RANGE P) :: u32"
  have y: "unat ?y = nat (SCHED_PRI_RANGE P)" "0 < nat (SCHED_PRI_RANGE P)" "nat (SCHED_PRI_RANGE P) \<le> 256"
    using pri_ranges(2,3) [OF P] unat_word_of_int_u32 [of "SCHED_PRI_RANGE P"] by auto
  have x: "0 < unat ?x" "unat ?x < 2147483648"
    using hz win unat_word_of_int_u32 [of "hz C"]
    by (auto simp: SCHED_TICK_TOTAL_def unat_max_u32 tick_window_def)
  have y1: "unat (?y - 1) = unat ?y - 1"
    using y by (intro unat_minus_one) auto
  have "unat (?x + (?y - 1)) = unat ?x + (unat ?y - 1)"
    using x y y1 by (subst unat_add_lem [THEN iffD1]) (simp_all)
  then have q: "unat ((?x + (?y - 1)) div ?y) = (unat ?x + (unat ?y - 1)) div unat ?y"
    by (simp add: unat_div)
  have "(unat ?x + (unat ?y - 1)) div unat ?y * unat ?y \<le> unat ?x + (unat ?y - 1)"
    by (rule div_times_less_eq_dividend)
  also have "\<dots> < 4294967296" using x y by linarith
  finally have "unat (roundup ?x ?y) = unat ((?x + (?y - 1)) div ?y) * unat ?y"
    unfolding roundup_def q [symmetric] by (subst unat_mult_lem [THEN iffD1]) (simp_all add: q)
  then have "unat (roundup ?x ?y div ?y) = (unat ?x + (unat ?y - 1)) div unat ?y"
    unfolding unat_div [of "roundup ?x ?y"] q using y
    by (simp only: nonzero_mult_div_cancel_right)
  moreover have "0 < (unat ?x + (unat ?y - 1)) div unat ?y"
    using x y by (intro roundup_quotient_pos) auto
  ultimately have "roundup ?x ?y div ?y \<noteq> 0"
    by (metis less_numeral_extra(3) unat_0)
  then show ?thesis by (simp add: SCHED_PRI_TICKS_def Let_def)
qed

lemma interactive_pri_range:
  fixes R s :: int
  assumes "0 \<le> score" "score < s" "1 \<le> R"
  shows "0 \<le> (R div s) * score \<and> (R div s) * score \<le> R - 1"
proof -
  have q: "0 \<le> R div s" using assms by (simp add: pos_imp_zdiv_nonneg_iff)
  have "(R div s) * score \<le> (R div s) * (s - 1)" using assms q by (intro mult_left_mono) auto
  also have "\<dots> \<le> R - R div s"
  proof -
    have "(R div s) * s + R mod s = R" by (rule div_mult_mod_eq)
    moreover have "0 \<le> R mod s" using assms by (intro pos_mod_sign) auto
    ultimately show ?thesis unfolding right_diff_distrib by linarith
  qed
  finally have le: "(R div s) * score \<le> R - R div s" .
  show ?thesis
  proof (cases "R div s = 0")
    case True
    then show ?thesis using assms by simp
  next
    case False
    then show ?thesis using le q assms by (simp add: mult_nonneg_nonneg)
  qed
qed

lemma min_ticks_range:
  fixes n :: u32
  assumes "1 \<le> R" "R \<le> 256"
  shows "0 \<le> uint (min n (word_of_int (R - 1))) \<and> uint (min n (word_of_int (R - 1))) \<le> R - 1"
proof -
  have "uint (min n (word_of_int (R - 1))) \<le> uint (word_of_int (R - 1) :: u32)"
    by (simp add: min_def word_le_def)
  also have "\<dots> = R - 1" using assms by (intro uint_word_of_int_u32) auto
  finally show ?thesis by simp
qed

text \<open>
  The priority of a timeshare thread is always in the range of its class: below the
  threshold of interactivity it lies in the interactive range, otherwise in the batch range,
  for every nice value and every history; the two \<^verbatim>\<open>KASSERT\<close> conditions of \<open>sched_priority\<close>
  hold, no division faults, and the \<^verbatim>\<open>u_char\<close> that stores it loses nothing.
\<close>

theorem sched_priority_in_class:
  assumes "pri_env_ok P" and "0 < hz C" and "hz C < 2147483648"
    and "tick_window ts < 2147483648"
    and "PRIO_MIN P \<le> nice" and "nice \<le> PRIO_MAX P"
  shows "\<exists>pri. sched_priority_pri P C ts nice = Some pri \<and>
    (if max 0 (sched_interact_score C ts + nice) < sched_interact_var C
     then PRI_MIN_INTERACT P \<le> pri \<and> pri \<le> PRI_MAX_INTERACT P
     else PRI_MIN_BATCH P \<le> pri \<and> pri \<le> PRI_MAX_BATCH P) \<and>
    uint (word_of_int pri :: u8) = pri"
proof -
  note r = pri_ranges [OF assms(1)]
  obtain n where n: "SCHED_PRI_TICKS P C ts = Some n"
    using SCHED_PRI_TICKS_defined [OF assms(1-4)] by auto
  define score where "score = max 0 (sched_interact_score C ts + nice)"
  have nice: "- PRIO_MAX P \<le> nice" using assms(1,5) by (simp add: pri_env_ok_def)
  have u8: "uint (word_of_int pri :: u8) = pri" if "0 \<le> pri" "pri \<le> 255" for pri
    using that by (simp add: uint_word_of_int_eq take_bit_int_eq_self)
  show ?thesis
  proof (cases "score < sched_interact_var C")
    case True
    define pri where "pri = PRI_MIN_INTERACT P + (PRI_INTERACT_RANGE P div sched_interact_var C) * score"
    have "PRI_MIN_INTERACT P \<le> pri \<and> pri \<le> PRI_MAX_INTERACT P"
      using interactive_pri_range [of score "sched_interact_var C" "PRI_INTERACT_RANGE P"] True r(1,6)
      by (simp add: pri_def score_def)
    moreover have "sched_priority_pri P C ts nice = Some pri"
      using True by (simp add: sched_priority_pri_def score_def [symmetric] pri_def r(6) Let_def)
    moreover have "0 \<le> pri" "pri \<le> 255" using calculation(1) r(7-11) by linarith+
    ultimately show ?thesis using True u8 by (simp add: score_def [symmetric])
  next
    case False
    define add where "add = (if ts_ticks ts \<noteq> 0
      then uint (min n (word_of_int (SCHED_PRI_RANGE P - 1))) else 0)"
    have add: "0 \<le> add" "add \<le> SCHED_PRI_RANGE P - 1"
      using min_ticks_range [OF r(2,3), of n] r(2) by (auto simp: add_def)
    define pri where "pri = SCHED_PRI_MIN P + add + nice"
    have range: "PRI_MIN_BATCH P \<le> pri \<and> pri \<le> PRI_MAX_BATCH P"
      unfolding pri_def using r(4,5) add nice assms(6) by linarith
    have eq: "sched_priority_pri P C ts nice = Some pri"
      using False n by (simp add: sched_priority_pri_def score_def [symmetric] pri_def add_def Let_def)
    have "0 \<le> pri" "pri \<le> 255" using range r(7-11) by linarith+
    then show ?thesis using False u8 range eq by (simp add: score_def [symmetric])
  qed
qed

text \<open>A thread of the default values, for the examples.\<close>

definition td_sched0 :: td_sched where
  "td_sched0 = \<lparr>ts_runq = None, ts_flags = {}, ts_cpu = 0, ts_rltick = 0, ts_slice = 0,
     ts_slptime = 0, ts_runtime = 0, ts_ltick = 0, ts_ftick = 0, ts_ticks = 0\<rparr>"

definition conf0 :: ule_conf where
  "conf0 = \<lparr>hz = 1000, stathz = 127, sched_interact_var = SCHED_INTERACT_THRESH, tickincr = 8192,
     realstathz = 127, sched_slice = 10, sched_slice_min = 1, preempt_thresh = 80,
     static_boost = 152, sched_idlespins = 10000, sched_idlespinthresh = -1, rebalance = True,
     balance_interval = 128, affinity = 1, steal_idle = True, steal_thresh = 2,
     always_steal = False, trysteal_limit = 2, hogticks = 100\<rparr>"

theorem sched_priority_in_class_witness:
  "\<exists>pri. sched_priority_pri freebsd_pri conf0 (td_sched0\<lparr>ts_runtime := 5000, ts_ticks := 4096\<rparr>) 7 = Some pri \<and>
    152 \<le> pri \<and> pri \<le> 223"
proof -
  have "tick_window (td_sched0\<lparr>ts_runtime := 5000, ts_ticks := 4096\<rparr>) < 2147483648"
    by (simp add: tick_window_def td_sched0_def)
  from sched_priority_in_class [OF pri_env_ok_freebsd _ _ this, of conf0 7]
  show ?thesis
    by (auto simp: conf0_def freebsd_pri_def pri_env_defs sched_interact_score_def td_sched0_def
        sched_consts)
qed

subsection \<open>The window of the cpu usage\<close>

lemma pctcpu_window:
  assumes "0 < hz C" and "hz C < 10000000" and "int (tick_window ts) < SCHED_TICK_MAX C"
  shows "\<exists>ts'. sched_pctcpu_update C t ts run = Some ts' \<and> ts_ltick ts' = t \<and>
    int (tick_window ts') < SCHED_TICK_MAX C"
proof -
  define targ where "targ = (word_of_int (SCHED_TICK_TARG C) :: u32)"
  have targ: "int (unat targ) = hz C * 10"
    unfolding targ_def using assms(1,2) unat_word_of_int_u32 [of "hz C * 10"] by (simp add: sched_consts)
  have max: "SCHED_TICK_MAX C = hz C * 11" by (simp add: sched_consts)
  show ?thesis
  proof (cases "t - ts_ltick ts \<ge> targ")
    case True
    then show ?thesis
      using targ assms(1) by (auto simp: sched_pctcpu_update_def targ_def [symmetric] tick_window_def max Let_def)
  next
    case False
    then have l: "unat (t - ts_ltick ts) < unat targ" by (simp add: word_le_nat_alt)
    have "t - ts_ftick ts = (t - ts_ltick ts) + (ts_ltick ts - ts_ftick ts)" by simp
    moreover have "unat (t - ts_ltick ts) + tick_window ts < 4294967296"
      using l targ assms max by linarith
    ultimately have w: "unat (t - ts_ftick ts) = unat (t - ts_ltick ts) + tick_window ts"
      unfolding tick_window_def using unat_add_u32 by metis
    then have small: "unat (t - ts_ftick ts) < 2147483648"
      using l targ assms max by linarith
    show ?thesis
    proof (cases "sint (t - ts_ftick ts) \<ge> SCHED_TICK_MAX C")
      case True
      then have "SCHED_TICK_MAX C \<le> int (unat (t - ts_ltick ts)) + int (tick_window ts)"
        using sint_small [OF order_refl small] w by linarith
      then have "tick_window ts \<noteq> 0"
        using l targ max assms(1) by linarith
      then have "ts_ltick ts - ts_ftick ts \<noteq> 0"
        by (metis tick_window_def unat_0)
      with True False targ assms(1) show ?thesis
        by (auto simp: sched_pctcpu_update_def targ_def [symmetric] tick_window_def max Let_def)
    next
      case notmax: False
      then have "int (unat (t - ts_ftick ts)) < SCHED_TICK_MAX C"
        using small sint_small [of "t - ts_ftick ts" "unat (t - ts_ftick ts)"] by simp
      with notmax False show ?thesis
        by (auto simp: sched_pctcpu_update_def targ_def [symmetric] tick_window_def Let_def)
    qed
  qed
qed

text \<open>The witness crosses the rollover of the clock.\<close>

text \<open>
  \<open>sched_pctcpu_update\<close> never divides by zero and keeps the window short: whatever the
  clock shows, even after it has rolled over, a thread whose window is shorter than
  \<^verbatim>\<open>SCHED_TICK_MAX\<close> ticks gets a window shorter than \<^verbatim>\<open>SCHED_TICK_MAX\<close> that ends now.
\<close>

theorem sched_pctcpu_window:
  assumes "0 < hz C" and "hz C < 10000000" and "int (tick_window ts) < SCHED_TICK_MAX C"
  shows "\<exists>ts'. sched_pctcpu_update C t ts run = Some ts' \<and> ts_ltick ts' = t \<and>
    int (tick_window ts') < SCHED_TICK_MAX C"
  using assms by (rule pctcpu_window)

theorem sched_pctcpu_window_witness:
  "\<exists>ts'. sched_pctcpu_update conf0 5 (td_sched0\<lparr>ts_ltick := -3, ts_ftick := -100\<rparr>) True = Some ts' \<and>
    ts_ltick ts' = 5 \<and> tick_window ts' < 11000"
proof -
  have "tick_window (td_sched0\<lparr>ts_ltick := -3, ts_ftick := -100\<rparr>) = 97"
    by (simp add: tick_window_def td_sched0_def)
  then show ?thesis
    using sched_pctcpu_window [of conf0 "td_sched0\<lparr>ts_ltick := -3, ts_ftick := -100\<rparr>" 5 True]
    by (auto simp: conf0_def sched_consts)
qed

subsection \<open>The history of sleep and run time\<close>

text \<open>The history of a thread, as the code adds it up without the wrap-around of \<^verbatim>\<open>u_int\<close>.\<close>

definition slp_run :: "td_sched \<Rightarrow> nat" where
  "slp_run ts = unat (ts_runtime ts) + unat (ts_slptime ts)"

lemma slp_run_consts:
  assumes "0 < hz C" "hz C \<le> 100000"
  defines "M \<equiv> nat (SCHED_SLP_RUN_MAX C)"
  shows "unat (word_of_int (SCHED_SLP_RUN_MAX C) :: u32) = M"
    and "unat (word_of_int (SCHED_SLP_RUN_MAX C * 2) :: u32) = M * 2"
    and "unat (word_of_int (SCHED_SLP_RUN_MAX C div 5 * 6) :: u32) = M div 5 * 6"
    and "5120 \<le> M" "M div 5 * 5 = M"
proof -
  obtain h where h: "hz C = int h" "0 < h" "h \<le> 100000"
    using assms(1,2) by (metis nonneg_int_cases of_nat_0_less_iff of_nat_le_iff of_nat_numeral less_imp_le)
  have S: "SCHED_SLP_RUN_MAX C = int (h * 5120)" by (simp add: sched_consts h(1) push_bit_eq_mult)
  have M: "M = h * 5120" unfolding M_def S by (rule nat_int)
  have u: "unat (word_of_int (int n) :: u32) = n" if "n \<le> 1200000000" for n
    using that by (subst unat_word_of_int_u32) simp_all
  have S1: "SCHED_SLP_RUN_MAX C = int M" unfolding S M ..
  have S2: "SCHED_SLP_RUN_MAX C * 2 = int (M * 2)" unfolding S1 by simp
  have S3: "SCHED_SLP_RUN_MAX C div 5 * 6 = int (M div 5 * 6)" unfolding S1 by (simp add: zdiv_int)
  have le: "M \<le> 512000000" using h M by simp
  show "unat (word_of_int (SCHED_SLP_RUN_MAX C) :: u32) = M" unfolding S1 by (rule u) (use le in linarith)
  show "unat (word_of_int (SCHED_SLP_RUN_MAX C * 2) :: u32) = M * 2"
    unfolding S2 by (rule u) (use le in linarith)
  show "unat (word_of_int (SCHED_SLP_RUN_MAX C div 5 * 6) :: u32) = M div 5 * 6"
    unfolding S3 by (rule u) (use le in linarith)
  show "5120 \<le> M" "M div 5 * 5 = M" using h M by simp_all
qed

text \<open>
  C30. \<open>sched_interact_update\<close> bounds the history of a thread and keeps its order. With \<^verbatim>\<open>hz\<close> between
  1 and 100000, and unless the two counters together overflow an \<^verbatim>\<open>u_int\<close>: the sum afterwards is at
  most \<^verbatim>\<open>SCHED_SLP_RUN_MAX\<close> plus one, a sum that was below the maximum is left alone, the counter that
  was at least the other one still is, and beyond twice the maximum the larger counter becomes the
  maximum and the other one 1.
\<close>

theorem sched_interact_update_bounds:
  assumes "0 < hz C" and "hz C \<le> 100000" and "slp_run ts < 2 ^ 32"
  shows "slp_run (sched_interact_update C ts) \<le> nat (SCHED_SLP_RUN_MAX C) + 1 \<and>
    (slp_run ts < nat (SCHED_SLP_RUN_MAX C) \<longrightarrow> sched_interact_update C ts = ts) \<and>
    (ts_slptime ts < ts_runtime ts \<longrightarrow>
      ts_slptime (sched_interact_update C ts) \<le> ts_runtime (sched_interact_update C ts)) \<and>
    (ts_runtime ts \<le> ts_slptime ts \<longrightarrow>
      ts_runtime (sched_interact_update C ts) \<le> ts_slptime (sched_interact_update C ts)) \<and>
    (nat (SCHED_SLP_RUN_MAX C) * 2 < slp_run ts \<longrightarrow>
      (unat (ts_runtime (sched_interact_update C ts)), unat (ts_slptime (sched_interact_update C ts))) =
        (if ts_slptime ts < ts_runtime ts then (nat (SCHED_SLP_RUN_MAX C), 1) else (1, nat (SCHED_SLP_RUN_MAX C))))"
proof -
  define M where "M = nat (SCHED_SLP_RUN_MAX C)"
  define r where "r = unat (ts_runtime ts)"
  define s where "s = unat (ts_slptime ts)"
  note c = slp_run_consts [OF assms(1,2), folded M_def]
  have sum: "unat (ts_runtime ts + ts_slptime ts) = r + s"
    unfolding r_def s_def using assms(3) by (intro unat_add_u32) (simp add: slp_run_def)
  have dv: "unat (x div 2) = unat x div 2" "unat (x div 5 * 4) = unat x div 5 * 4" for x :: u32
    by (rule unat_div2, rule unat_div5_mult4)
  have less: "ts_slptime ts < ts_runtime ts \<longleftrightarrow> s < r" by (simp add: word_less_nat_alt r_def s_def)
  have upd: "sched_interact_update C ts =
    (if r + s < M then ts
     else if r + s > M * 2
     then (if s < r then ts\<lparr>ts_runtime := word_of_int (SCHED_SLP_RUN_MAX C), ts_slptime := 1\<rparr>
           else ts\<lparr>ts_slptime := word_of_int (SCHED_SLP_RUN_MAX C), ts_runtime := 1\<rparr>)
     else if r + s > M div 5 * 6
     then ts\<lparr>ts_runtime := ts_runtime ts div 2, ts_slptime := ts_slptime ts div 2\<rparr>
     else ts\<lparr>ts_runtime := (ts_runtime ts div 5) * 4, ts_slptime := (ts_slptime ts div 5) * 4\<rparr>)"
    unfolding sched_interact_update_def Let_def word_less_nat_alt sum c(1-3) r_def s_def by simp
  have res: "(unat (ts_runtime (sched_interact_update C ts)), unat (ts_slptime (sched_interact_update C ts))) =
    (if r + s < M then (r, s)
     else if r + s > M * 2 then (if s < r then (M, 1) else (1, M))
     else if r + s > M div 5 * 6 then (r div 2, s div 2)
     else (r div 5 * 4, s div 5 * 4))"
    unfolding upd by (simp add: r_def s_def dv c(1))
  define r' where "r' = unat (ts_runtime (sched_interact_update C ts))"
  define s' where "s' = unat (ts_slptime (sched_interact_update C ts))"
  have "r' + s' \<le> M + 1 \<and> (s < r \<longrightarrow> s' \<le> r') \<and> (r \<le> s \<longrightarrow> r' \<le> s') \<and>
      (M * 2 < r + s \<longrightarrow> (r', s') = (if s < r then (M, 1) else (1, M)))"
    using res c(4,5) unfolding r'_def [symmetric] s'_def [symmetric]
    by (auto split: if_splits intro: div_le_mono mult_le_mono1)
  moreover have "r + s < M \<longrightarrow> sched_interact_update C ts = ts" by (simp add: upd)
  ultimately show ?thesis
    by (simp add: M_def [symmetric] slp_run_def r'_def [symmetric] s'_def [symmetric] less
        r_def [symmetric] s_def [symmetric] word_le_nat_alt)
qed

theorem sched_interact_update_bounds_witness:
  "slp_run (sched_interact_update conf0 (td_sched0\<lparr>ts_runtime := 9000000, ts_slptime := 3000000\<rparr>)) \<le> 5120001"
proof -
  have "slp_run (td_sched0\<lparr>ts_runtime := 9000000, ts_slptime := 3000000\<rparr>) < 2 ^ 32"
    by (simp add: slp_run_def td_sched0_def)
  from sched_interact_update_bounds [OF _ _ this, of conf0] show ?thesis
    by (simp add: conf0_def sched_consts)
qed

text \<open>
  The comment on line 1622 says that halving leaves at least 4/5 of the maximum; a history just
  over 6/5 of it is halved to 3/5.
\<close>

lemma sched_interact_update_below_four_fifths:
  "5 * slp_run (sched_interact_update conf0 (td_sched0\<lparr>ts_runtime := 6144001\<rparr>)) <
   4 * nat (SCHED_SLP_RUN_MAX conf0)"
  by (simp add: sched_interact_update_def td_sched0_def conf0_def sched_consts slp_run_def Let_def)

text \<open>
  The interactivity score lies between 0 and 100 for all values of the 32-bit counters: the
  subtraction on \<^verbatim>\<open>u_int\<close> never wraps around. With the threshold at most one half, a thread that
  ran at least as long as it slept always scores one half.
\<close>

theorem sched_interact_score_bounds:
  "0 \<le> sched_interact_score C ts \<and> sched_interact_score C ts \<le> SCHED_INTERACT_MAX \<and>
   \<not> (sched_interact_var C \<le> SCHED_INTERACT_HALF \<and> ts_slptime ts \<le> ts_runtime ts \<and>
      sched_interact_score C ts \<noteq> SCHED_INTERACT_HALF)"
  using sched_interact_score_range [of C ts] by (auto simp: sched_interact_score_def)

text \<open>
  With a threshold over one half the comment of the function fails for small counters: run time
  greater than sleep time, and yet a score far below one half.
\<close>

lemma sched_interact_score_rounding:
  "sched_interact_score (conf0\<lparr>sched_interact_var := 60\<rparr>) (td_sched0\<lparr>ts_runtime := 99, ts_slptime := 98\<rparr>) = 2"
  by (simp add: sched_interact_score_def conf0_def td_sched0_def sched_consts Let_def)

subsection \<open>The history a child inherits\<close>

lemma ratio_bound:
  fixes a b f :: nat
  assumes "0 < f" "f < a + b"
  defines "q \<equiv> (a + b) div f"
  shows "0 < q" "a div q + b div q < 2 * f"
proof -
  show q: "0 < q" using assms by (simp add: q_def div_greater_zero_iff)
  have "a div q + b div q \<le> (a + b) div q"
    using q by (metis add_mult_distrib2 div_le_mono div_mult_self_is_m add_mono mult.commute times_div_less_eq_dividend)
  also have "\<dots> < 2 * f"
  proof -
    have "a + b < f * (q + 1)"
      using assms(1) unfolding q_def by (metis Suc_eq_plus1 dividend_less_times_div mult_Suc_right add.commute)
    also have "\<dots> \<le> f * (2 * q)" using q by (intro mult_le_mono2) simp
    finally have "a + b < (2 * f) * q" by (simp add: mult_ac)
    then show ?thesis by (rule less_mult_imp_div_less)
  qed
  finally show "a div q + b div q < 2 * f" .
qed

text \<open>
  A forked child starts with a short history: \<open>sched_interact_fork\<close> leaves less than twice
  \<^verbatim>\<open>SCHED_SLP_RUN_FORK\<close>, never divides by zero, and leaves a history within that limit alone.
\<close>

theorem sched_interact_fork_bounds:
  assumes "2 \<le> hz C" and "hz C \<le> 100000" and "slp_run ts < 2 ^ 31"
  shows "int (slp_run (sched_interact_fork C ts)) < 2 * SCHED_SLP_RUN_FORK C \<and>
    (int (slp_run ts) \<le> SCHED_SLP_RUN_FORK C \<longrightarrow> sched_interact_fork C ts = ts)"
proof -
  define r where "r = unat (ts_runtime ts)"
  define s where "s = unat (ts_slptime ts)"
  obtain f where f: "SCHED_SLP_RUN_FORK C = int f" "0 < f"
    using assms(1) by (intro that [of "nat (SCHED_SLP_RUN_FORK C)"]) (auto simp: sched_consts push_bit_eq_mult)
  have lt: "r + s < 2147483648" using assms(3) by (simp add: slp_run_def r_def s_def)
  then have "unat (ts_runtime ts + ts_slptime ts) = r + s"
    unfolding r_def s_def by (intro unat_add_u32) linarith
  then have sum: "sint (ts_runtime ts + ts_slptime ts) = int (r + s)"
    using sint_small [of "ts_runtime ts + ts_slptime ts" "r + s"] lt by simp
  show ?thesis
  proof (cases "f < r + s")
    case True
    define q where "q = (r + s) div f"
    note q = ratio_bound [OF f(2) True, folded q_def]
    have "q \<le> r + s" unfolding q_def by (rule div_le_dividend)
    then have ratio: "unat (word_of_int (int q) :: u32) = q"
      using lt by (subst unat_word_of_int_u32) simp_all
    have "sched_interact_fork C ts = ts\<lparr>ts_runtime := ts_runtime ts div word_of_int (int q),
        ts_slptime := ts_slptime ts div word_of_int (int q)\<rparr>"
      using True by (simp add: sched_interact_fork_def Let_def sum f(1) q_def zdiv_int del: of_nat_add)
    then have "slp_run (sched_interact_fork C ts) = r div q + s div q"
      using ratio by (simp add: slp_run_def unat_div r_def s_def)
    with q True show ?thesis by (simp add: f(1) slp_run_def r_def [symmetric] s_def [symmetric])
  next
    case False
    then have "sched_interact_fork C ts = ts"
      by (simp add: sched_interact_fork_def Let_def sum f(1) del: of_nat_add)
    moreover have "slp_run ts \<le> f" using False by (simp add: slp_run_def r_def s_def)
    then have "int (slp_run ts) < 2 * int f" using f(2) by linarith
    ultimately show ?thesis by (simp add: f(1))
  qed
qed

theorem sched_interact_fork_bounds_witness:
  "int (slp_run (sched_interact_fork conf0 (td_sched0\<lparr>ts_runtime := 4000000, ts_slptime := 900000\<rparr>))) < 1024000"
proof -
  have "slp_run (td_sched0\<lparr>ts_runtime := 4000000, ts_slptime := 900000\<rparr>) < 2 ^ 31"
    by (simp add: slp_run_def td_sched0_def)
  from sched_interact_fork_bounds [OF _ _ this, of conf0] show ?thesis
    by (simp add: conf0_def sched_consts)
qed

end
