(* ===== verification/Tdq.thy ===== *)
theory Tdq
  imports Runq_Laws Ule_Prio
begin

section \<open>ULE: the thread queue of a processor\<close>

text \<open>
  \<^verbatim>\<open>struct tdq\<close> of \<^verbatim>\<open>sched_ule.c\<close>, with the operations on one thread queue. An operation on the
  queue of processor \<open>c\<close> takes and returns the thread store \<open>T\<close>, the scheduler fields \<open>S\<close> of
  the threads and the queue. Locks are not modelled: an operation runs with the lock of the
  queue held. \<^verbatim>\<open>tdq_cg\<close> points to a group of the cpu topology, whose parents are reached
  through it: it is the list of the group and its ancestors, empty for \<^verbatim>\<open>NULL\<close>.
\<close>

datatype cg_flag = CG_FLAG_HTT | CG_FLAG_SMT | CG_FLAG_NODE

datatype cpu_group =
  CPU_GROUP (cg_mask: "cpuid list") (cg_level: nat) (cg_flags: "cg_flag list")
    (cg_child: "cpu_group list")

record (overloaded) ('w::len) tdq =
  tdq_cg :: "cpu_group list"
  tdq_load :: int
  tdq_cpu_idle :: bool
  tdq_sysload :: int
  tdq_transferable :: int
  tdq_switchcnt :: "16 word"
  tdq_oldswitchcnt :: "16 word"
  tdq_lowpri :: u8
  tdq_ipipending :: bool
  tdq_idx :: u8
  tdq_ridx :: u8
  tdq_realtime :: "'w runq"
  tdq_timeshare :: "'w runq"
  tdq_idle :: "'w runq"

type_synonym tscheds = "tid \<Rightarrow> td_sched"

type_synonym 'w tdq_state = "threads \<times> tscheds \<times> 'w tdq"

abbreviation THREAD_CAN_MIGRATE :: "threads \<Rightarrow> tid \<Rightarrow> bool" where
  "THREAD_CAN_MIGRATE T td \<equiv> td_pinned (T td) = 0"

abbreviation THREAD_CAN_SCHED :: "threads \<Rightarrow> tid \<Rightarrow> cpuid \<Rightarrow> bool" where
  "THREAD_CAN_SCHED T td cpu \<equiv> cpu \<in> td_cpuset (T td)"

subsection \<open>The operations\<close>

definition tdq_slice :: "ule_conf \<Rightarrow> ('w::len) tdq \<Rightarrow> int" where
  "tdq_slice C q = slice_of_load C (tdq_sysload q)"

definition tdq_setup :: "('w::len) rqenv \<Rightarrow> 'w tdq \<Rightarrow> 'w tdq" where
  "tdq_setup E q = q\<lparr>tdq_realtime := runq_init E, tdq_timeshare := runq_init E, tdq_idle := runq_init E\<rparr>"

text \<open>The index of a timeshare thread that neither borrows a priority nor was preempted.\<close>

definition timeshare_index ::
  "('w::len) rqenv \<Rightarrow> pri_env \<Rightarrow> u8 \<Rightarrow> u8 \<Rightarrow> u8 \<Rightarrow> u8" where
  "timeshare_index E P idx ridx prio =
     (let pri = (of_nat (nat (int (RQ_NQS E) * (uint prio - PRI_MIN_BATCH P) div PRI_BATCH_RANGE P)) :: u8);
          pri = (of_nat ((unat pri + unat idx) mod RQ_NQS E) :: u8)
      in if ridx \<noteq> idx \<and> pri = ridx then of_nat (unat (pri - 1) mod RQ_NQS E) else pri)"

definition tdq_runq_add ::
  "('w::len) rqenv \<Rightarrow> pri_env \<Rightarrow> cpuid \<Rightarrow> 'w tdq_state \<Rightarrow> tid \<Rightarrow> srq_flag set \<Rightarrow> 'w tdq_state" where
  "tdq_runq_add E P c s td flags =
     (let (T, S, q) = s;
          pri = td_priority (T td);
          T = TD_SET_RUNQ T td;
          (S, q) = (if THREAD_CAN_MIGRATE T td
                    then (S(td := (S td)\<lparr>ts_flags := insert TSF_XFERABLE (ts_flags (S td))\<rparr>),
                          q\<lparr>tdq_transferable := tdq_transferable q + 1\<rparr>)
                    else (S, q))
      in if uint pri < PRI_MIN_BATCH P
         then (let S = S(td := (S td)\<lparr>ts_runq := Some (c, RQ_REALTIME)\<rparr>);
                   (T, rq) = runq_add E T (tdq_realtime q) td flags
               in (T, S, q\<lparr>tdq_realtime := rq\<rparr>))
         else if uint pri \<le> PRI_MAX_BATCH P
         then (let S = S(td := (S td)\<lparr>ts_runq := Some (c, RQ_TIMESHARE)\<rparr>);
                   pri = (if flags \<inter> {SRQ_BORROWING, SRQ_PREEMPTED} = {}
                          then timeshare_index E P (tdq_idx q) (tdq_ridx q) pri
                          else tdq_ridx q);
                   (T, rq) = runq_add_pri E T (tdq_timeshare q) td pri flags
               in (T, S, q\<lparr>tdq_timeshare := rq\<rparr>))
         else (let S = S(td := (S td)\<lparr>ts_runq := Some (c, RQ_IDLE)\<rparr>);
                   (T, rq) = runq_add E T (tdq_idle q) td flags
               in (T, S, q\<lparr>tdq_idle := rq\<rparr>)))"

text \<open>
  \<open>tdq_runq_rem\<close>: a null \<^verbatim>\<open>ts_runq\<close> is excluded by the assertion of the code; the model leaves
  the queues alone there.
\<close>

definition tdq_runq_rem :: "('w::len) rqenv \<Rightarrow> 'w tdq_state \<Rightarrow> tid \<Rightarrow> 'w tdq_state" where
  "tdq_runq_rem E s td =
     (let (T, S, q) = s;
          (S, q) = (if TSF_XFERABLE \<in> ts_flags (S td)
                    then (S(td := (S td)\<lparr>ts_flags := ts_flags (S td) - {TSF_XFERABLE}\<rparr>),
                          q\<lparr>tdq_transferable := tdq_transferable q - 1\<rparr>)
                    else (S, q))
      in case ts_runq (S td) of
           Some (_, RQ_TIMESHARE) \<Rightarrow>
             (if tdq_idx q \<noteq> tdq_ridx q
              then (let (rq, idx) = runq_remove_idx E T (tdq_timeshare q) td (Some (tdq_ridx q))
                    in (T, S, q\<lparr>tdq_timeshare := rq,
                                tdq_ridx := (case idx of None \<Rightarrow> tdq_ridx q | Some i \<Rightarrow> i)\<rparr>))
              else (T, S, q\<lparr>tdq_timeshare := fst (runq_remove_idx E T (tdq_timeshare q) td None)\<rparr>))
         | Some (_, RQ_REALTIME) \<Rightarrow> (T, S, q\<lparr>tdq_realtime := runq_remove E T (tdq_realtime q) td\<rparr>)
         | Some (_, RQ_IDLE) \<Rightarrow> (T, S, q\<lparr>tdq_idle := runq_remove E T (tdq_idle q) td\<rparr>)
         | None \<Rightarrow> (T, S, q))"

definition tdq_load_add :: "threads \<Rightarrow> ('w::len) tdq \<Rightarrow> tid \<Rightarrow> 'w tdq" where
  "tdq_load_add T q td =
     (let q = q\<lparr>tdq_load := tdq_load q + 1\<rparr>
      in if TDF_NOLOAD \<notin> td_flags (T td) then q\<lparr>tdq_sysload := tdq_sysload q + 1\<rparr> else q)"

definition tdq_load_rem :: "threads \<Rightarrow> ('w::len) tdq \<Rightarrow> tid \<Rightarrow> 'w tdq" where
  "tdq_load_rem T q td =
     (let q = q\<lparr>tdq_load := tdq_load q - 1\<rparr>
      in if TDF_NOLOAD \<notin> td_flags (T td) then q\<lparr>tdq_sysload := tdq_sysload q - 1\<rparr> else q)"

definition tdq_choose :: "('w::len) rqenv \<Rightarrow> 'w tdq \<Rightarrow> tid option" where
  "tdq_choose E q =
     (case runq_choose E (tdq_realtime q) of
        Some td \<Rightarrow> Some td
      | None \<Rightarrow>
          (case runq_choose_from E (tdq_timeshare q) (tdq_ridx q) of
             Some td \<Rightarrow> Some td
           | None \<Rightarrow>
               (case runq_choose E (tdq_idle q) of
                  Some td \<Rightarrow> Some td
                | None \<Rightarrow> None)))"

text \<open>\<open>curtd\<close> is the running thread of the processor, which the code finds when passed \<^verbatim>\<open>NULL\<close>.\<close>

definition tdq_setlowpri :: "('w::len) rqenv \<Rightarrow> threads \<Rightarrow> 'w tdq \<Rightarrow> tid option \<Rightarrow> tid \<Rightarrow> 'w tdq" where
  "tdq_setlowpri E T q ctd curtd =
     (let ctd = (case ctd of None \<Rightarrow> curtd | Some t \<Rightarrow> t)
      in case tdq_choose E q of
           None \<Rightarrow> q\<lparr>tdq_lowpri := td_priority (T ctd)\<rparr>
         | Some td \<Rightarrow>
             (if td_priority (T td) > td_priority (T ctd)
              then q\<lparr>tdq_lowpri := td_priority (T ctd)\<rparr>
              else q\<lparr>tdq_lowpri := td_priority (T td)\<rparr>))"

definition tdq_add ::
  "('w::len) rqenv \<Rightarrow> pri_env \<Rightarrow> cpuid \<Rightarrow> 'w tdq_state \<Rightarrow> tid \<Rightarrow> srq_flag set \<Rightarrow> 'w tdq_state" where
  "tdq_add E P c s td flags =
     (let (T, S, q) = s;
          q = (if td_priority (T td) < tdq_lowpri q then q\<lparr>tdq_lowpri := td_priority (T td)\<rparr> else q);
          (T, S, q) = tdq_runq_add E P c (T, S, q) td flags
      in (T, S, tdq_load_add T q td))"

definition sched_rem ::
  "('w::len) rqenv \<Rightarrow> 'w tdq_state \<Rightarrow> tid \<Rightarrow> tid \<Rightarrow> 'w tdq_state" where
  "sched_rem E s td curtd =
     (let (T, S, q) = tdq_runq_rem E s td;
          q = tdq_load_rem T q td;
          T = TD_SET_CAN_RUN T td
      in (T, S, if td_priority (T td) = tdq_lowpri q then tdq_setlowpri E T q None curtd else q))"

text \<open>\<open>sched_choose\<close>: the thread to run and the queue it leaves; \<open>idle\<close> is the idle thread.\<close>

definition sched_choose ::
  "('w::len) rqenv \<Rightarrow> pri_env \<Rightarrow> tid \<Rightarrow> 'w tdq_state \<Rightarrow> tid \<times> 'w tdq_state" where
  "sched_choose E P idle s =
     (let (T, S, q) = s
      in case tdq_choose E q of
           Some td \<Rightarrow>
             (let (T, S, q) = tdq_runq_rem E (T, S, q) td
              in (td, T, S, q\<lparr>tdq_lowpri := td_priority (T td)\<rparr>))
         | None \<Rightarrow> (idle, T, S, q\<lparr>tdq_lowpri := word_of_int (PRI_MAX_IDLE P)\<rparr>))"

subsection \<open>Stealing from a run queue\<close>

definition can_steal :: "threads \<Rightarrow> cpuid \<Rightarrow> tid \<Rightarrow> bool" where
  "can_steal T cpu td \<longleftrightarrow> THREAD_CAN_MIGRATE T td \<and> THREAD_CAN_SCHED T td cpu"

text \<open>The bits \<open>bit\<close>, \<open>bit + 1\<close>, ... of word \<open>i\<close> that are set, as the inner loops visit them.\<close>

definition set_bits :: "('w::len) rqenv \<Rightarrow> 'w word \<Rightarrow> nat \<Rightarrow> nat list" where
  "set_bits E w bt = filter (bit w) [bt..<RQB_BPW E]"

definition runq_steal :: "('w::len) rqenv \<Rightarrow> threads \<Rightarrow> 'w runq \<Rightarrow> cpuid \<Rightarrow> tid option" where
  "runq_steal E T rq cpu =
     find (can_steal T cpu)
       (concat (map (\<lambda>wd. concat (map (\<lambda>bt. rq_queues rq ! (bt + push_bit (RQB_L2BPW E) wd))
                                     (set_bits E (rqb_bits rq ! wd) 0)))
                    [0..<RQB_LEN E]))"

text \<open>
  The loops of \<open>runq_steal_from\<close>. \<open>steal_queue\<close> walks one queue: \<open>Inr\<close> is the thread returned,
  \<open>Inl\<close> the value of \<^verbatim>\<open>first\<close> afterwards, which every thread that is passed overwrites.
\<close>

fun steal_queue :: "threads \<Rightarrow> cpuid \<Rightarrow> tid option \<Rightarrow> tid list \<Rightarrow> tid option + tid" where
  "steal_queue T cpu frst [] = Inl frst"
| "steal_queue T cpu frst (td # tds) =
     (if frst \<noteq> None \<and> can_steal T cpu td then Inr td else steal_queue T cpu (Some td) tds)"

function steal_words ::
  "('w::len) rqenv \<Rightarrow> threads \<Rightarrow> 'w runq \<Rightarrow> cpuid \<Rightarrow> nat \<Rightarrow> nat \<Rightarrow> tid option \<Rightarrow> tid option + tid" where
  "steal_words E T rq cpu i bt frst =
     (if i < RQB_LEN E then
        (let w = rqb_bits rq ! i
         in if w = 0 then steal_words E T rq cpu (Suc i) 0 frst
            else (let bt = (if bt = 0 then RQB_FFS E w else bt)
                  in case steal_queue T cpu frst
                       (concat (map (\<lambda>bt. rq_queues rq ! (bt + push_bit (RQB_L2BPW E) i))
                          (set_bits E w bt))) of
                       Inr td \<Rightarrow> Inr td
                     | Inl frst \<Rightarrow> steal_words E T rq cpu (Suc i) 0 frst))
      else Inl frst)"
  by pat_completeness auto
termination
  by (relation "measure (\<lambda>(E, T, rq, cpu, i, bt, frst). RQB_LEN E - i)") auto

declare steal_words.simps [simp del]

definition runq_steal_from ::
  "('w::len) rqenv \<Rightarrow> threads \<Rightarrow> 'w runq \<Rightarrow> cpuid \<Rightarrow> u8 \<Rightarrow> tid option" where
  "runq_steal_from E T rq cpu start =
     (let bt = unat start AND (RQB_BPW E - 1)
      in case steal_words E T rq cpu (RQB_WORD E (unat start)) bt None of
           Inr td \<Rightarrow> Some td
         | Inl frst \<Rightarrow>
             (case (if start \<noteq> 0 then steal_words E T rq cpu (RQB_WORD E 0) 0 frst else Inl frst) of
                Inr td \<Rightarrow> Some td
              | Inl None \<Rightarrow> None
              | Inl (Some td) \<Rightarrow> (if can_steal T cpu td then Some td else None)))"

definition tdq_steal :: "('w::len) rqenv \<Rightarrow> threads \<Rightarrow> 'w tdq \<Rightarrow> cpuid \<Rightarrow> tid option" where
  "tdq_steal E T q cpu =
     (case runq_steal E T (tdq_realtime q) cpu of
        Some td \<Rightarrow> Some td
      | None \<Rightarrow>
          (case runq_steal_from E T (tdq_timeshare q) cpu (tdq_ridx q) of
             Some td \<Rightarrow> Some td
           | None \<Rightarrow> runq_steal E T (tdq_idle q) cpu))"

end
