(* ===== verification/Tdq_Props.thy ===== *)
theory Tdq_Props
  imports Tdq Runq_Props Ule_Prio_Props
begin

section \<open>Properties of the thread queue of a processor\<close>

text \<open>
  The invariant of a thread queue, the operations that keep it, the refinement of the thread
  queue to the interface \<open>thread_queue\<close>, and what stealing finds.
\<close>

subsection \<open>The three run queues by name\<close>

definition tdq_rq :: "('w::len) tdq \<Rightarrow> rq_name \<Rightarrow> 'w runq" where
  "tdq_rq q n = (case n of RQ_REALTIME \<Rightarrow> tdq_realtime q | RQ_TIMESHARE \<Rightarrow> tdq_timeshare q | RQ_IDLE \<Rightarrow> tdq_idle q)"

definition tdq_set_rq :: "rq_name \<Rightarrow> ('w::len) runq \<Rightarrow> 'w tdq \<Rightarrow> 'w tdq" where
  "tdq_set_rq n rq q = (case n of RQ_REALTIME \<Rightarrow> q\<lparr>tdq_realtime := rq\<rparr>
     | RQ_TIMESHARE \<Rightarrow> q\<lparr>tdq_timeshare := rq\<rparr> | RQ_IDLE \<Rightarrow> q\<lparr>tdq_idle := rq\<rparr>)"

lemma tdq_rq_simps [simp]:
  "tdq_rq q RQ_REALTIME = tdq_realtime q"
  "tdq_rq q RQ_TIMESHARE = tdq_timeshare q"
  "tdq_rq q RQ_IDLE = tdq_idle q"
  by (simp_all add: tdq_rq_def)

lemma tdq_set_rq_get [simp]: "tdq_rq (tdq_set_rq n rq q) m = (if m = n then rq else tdq_rq q m)"
  by (cases n; cases m) (simp_all add: tdq_set_rq_def)

lemma tdq_rq_frame [simp]:
  "tdq_rq (q\<lparr>tdq_transferable := x\<rparr>) n = tdq_rq q n"
  "tdq_rq (q\<lparr>tdq_lowpri := y\<rparr>) n = tdq_rq q n"
  "tdq_rq (q\<lparr>tdq_load := z\<rparr>) n = tdq_rq q n"
  "tdq_rq (q\<lparr>tdq_sysload := z\<rparr>) n = tdq_rq q n"
  "tdq_rq (q\<lparr>tdq_ridx := y\<rparr>) n = tdq_rq q n"
  "tdq_rq (q\<lparr>tdq_idx := y\<rparr>) n = tdq_rq q n"
  by (cases n; simp)+

lemma tdq_set_rq_frame [simp]:
  "tdq_transferable (tdq_set_rq n rq q) = tdq_transferable q"
  "tdq_idx (tdq_set_rq n rq q) = tdq_idx q"
  "tdq_ridx (tdq_set_rq n rq q) = tdq_ridx q"
  "tdq_load (tdq_set_rq n rq q) = tdq_load q"
  "tdq_sysload (tdq_set_rq n rq q) = tdq_sysload q"
  "tdq_lowpri (tdq_set_rq n rq q) = tdq_lowpri q"
  by (cases n; simp add: tdq_set_rq_def)+

definition tdq_elems :: "('w::len) tdq \<Rightarrow> tid set" where
  "tdq_elems q = (\<Union>n. rq_elems (tdq_rq q n))"

lemma UNIV_rq_name: "UNIV = {RQ_REALTIME, RQ_TIMESHARE, RQ_IDLE}"
  using rq_name.exhaust by auto

lemma tdq_elems_names:
  "tdq_elems q = rq_elems (tdq_realtime q) \<union> rq_elems (tdq_timeshare q) \<union> rq_elems (tdq_idle q)"
  by (auto simp: tdq_elems_def UNIV_rq_name)

lemma tdq_elems_finite [simp]: "finite (tdq_elems q)"
  by (simp add: tdq_elems_names)

subsection \<open>The invariant\<close>

text \<open>
  Each run queue keeps its own invariant, a queued thread knows the processor and the run queue
  it is on and has the state \<^verbatim>\<open>TDS_RUNQ\<close>, \<^verbatim>\<open>tdq_transferable\<close> counts the queued threads with the
  flag \<^verbatim>\<open>TSF_XFERABLE\<close>, and both indices name a queue.
\<close>

definition tdq_xfer :: "tscheds \<Rightarrow> ('w::len) tdq \<Rightarrow> tid set" where
  "tdq_xfer S q = {td \<in> tdq_elems q. TSF_XFERABLE \<in> ts_flags (S td)}"

definition tdq_inv :: "('w::len) rqenv \<Rightarrow> cpuid \<Rightarrow> 'w tdq_state \<Rightarrow> bool" where
  "tdq_inv E c s \<longleftrightarrow> (case s of (T, S, q) \<Rightarrow>
     (\<forall>n. rq_inv E T (tdq_rq q n)) \<and>
     (\<forall>n. \<forall>td\<in>rq_elems (tdq_rq q n). ts_runq (S td) = Some (c, n) \<and> td_state (T td) = TDS_RUNQ) \<and>
     tdq_transferable q = int (card (tdq_xfer S q)) \<and>
     unat (tdq_idx q) < RQ_NQS E \<and> unat (tdq_ridx q) < RQ_NQS E)"

lemma tdq_invD:
  assumes "tdq_inv E c (T, S, q)"
  shows tdq_inv_rq: "rq_inv E T (tdq_rq q n)"
    and tdq_inv_runq: "td \<in> rq_elems (tdq_rq q n) \<Longrightarrow> ts_runq (S td) = Some (c, n)"
    and tdq_inv_state: "td \<in> rq_elems (tdq_rq q n) \<Longrightarrow> td_state (T td) = TDS_RUNQ"
    and tdq_inv_xfer: "tdq_transferable q = int (card (tdq_xfer S q))"
    and tdq_inv_idx: "unat (tdq_idx q) < RQ_NQS E" "unat (tdq_ridx q) < RQ_NQS E"
  using assms by (auto simp: tdq_inv_def)

text \<open>A queued thread is on exactly the run queue its \<^verbatim>\<open>ts_runq\<close> names.\<close>

lemma tdq_inv_elems:
  assumes "tdq_inv E c (T, S, q)" "td \<in> tdq_elems q"
  obtains n where "ts_runq (S td) = Some (c, n)" "td \<in> rq_elems (tdq_rq q n)"
    "\<And>m. m \<noteq> n \<Longrightarrow> td \<notin> rq_elems (tdq_rq q m)"
proof -
  from assms(2) obtain n where n: "td \<in> rq_elems (tdq_rq q n)" by (auto simp: tdq_elems_def)
  have "ts_runq (S td) = Some (c, n)" using tdq_inv_runq [OF assms(1) n] .
  moreover have "td \<notin> rq_elems (tdq_rq q m)" if "m \<noteq> n" for m
    using tdq_inv_runq [OF assms(1), of td m] calculation that by auto
  ultimately show ?thesis using n that by blast
qed

subsection \<open>What adding and removing do\<close>

definition xfer_added :: "threads \<Rightarrow> tscheds \<Rightarrow> cpuid \<Rightarrow> rq_name \<Rightarrow> tid \<Rightarrow> tscheds" where
  "xfer_added T S c n td = S(td := (S td)
     \<lparr>ts_flags := (if THREAD_CAN_MIGRATE T td then insert TSF_XFERABLE (ts_flags (S td)) else ts_flags (S td)),
      ts_runq := Some (c, n)\<rparr>)"

definition tdq_added ::
  "('w::len) rqenv \<Rightarrow> cpuid \<Rightarrow> 'w tdq_state \<Rightarrow> tid \<Rightarrow> rq_name \<Rightarrow> nat \<Rightarrow> 'w tdq_state \<Rightarrow> bool" where
  "tdq_added E c s td n i s' \<longleftrightarrow> (case s of (T, S, q) \<Rightarrow>
     \<exists>r. rq_enqueue E (TD_SET_RUNQ T td) (tdq_rq q n) td i r \<and>
       s' = (fst r, xfer_added T S c n td,
         tdq_set_rq n (snd r)
           (q\<lparr>tdq_transferable := tdq_transferable q + of_bool (THREAD_CAN_MIGRATE T td)\<rparr>)))"

definition add_name :: "pri_env \<Rightarrow> u8 \<Rightarrow> rq_name" where
  "add_name P pri = (if uint pri < PRI_MIN_BATCH P then RQ_REALTIME
     else if uint pri \<le> PRI_MAX_BATCH P then RQ_TIMESHARE else RQ_IDLE)"

definition add_index ::
  "('w::len) rqenv \<Rightarrow> pri_env \<Rightarrow> 'w tdq \<Rightarrow> u8 \<Rightarrow> srq_flag set \<Rightarrow> nat" where
  "add_index E P q pri flags =
     (if add_name P pri = RQ_TIMESHARE
      then (if flags \<inter> {SRQ_BORROWING, SRQ_PREEMPTED} = {}
            then unat (timeshare_index E P (tdq_idx q) (tdq_ridx q) pri) else unat (tdq_ridx q))
      else unat pri div RQ_PPQ E)"

lemma tdq_runq_add_added:
  "tdq_added E c (T, S, q) td (add_name P (td_priority (T td)))
    (add_index E P q (td_priority (T td)) flags) (tdq_runq_add E P c (T, S, q) td flags)"
proof -
  note enq = runq_add_enqueue [of E "TD_SET_RUNQ T td" _ td flags, unfolded frame_simps]
  note enqp = runq_add_pri_enqueue [of E "TD_SET_RUNQ T td" "tdq_timeshare q" td _ flags]
  show ?thesis
    using enq [of "tdq_realtime q"] enq [of "tdq_idle q"] enqp [of "tdq_ridx q"]
      enqp [of "timeshare_index E P (tdq_idx q) (tdq_ridx q) (td_priority (T td))"]
    by (auto simp: tdq_added_def tdq_runq_add_def add_name_def add_index_def xfer_added_def
          tdq_set_rq_def Let_def frame_simps split: prod.splits if_splits intro!: exI)
qed

lemma timeshare_index_less:
  assumes "rqenv_ok E"
  shows "unat (timeshare_index E P idx ridx pri) < RQ_NQS E"
proof -
  have pos: "0 < RQ_NQS E" using rqenv_prio [OF assms, of 0] by linarith
  have "n mod RQ_NQS E < RQ_NQS E" "n mod RQ_NQS E < 256" for n
    using pos rqenv_NQS_le [OF assms] mod_less_divisor [OF pos, of n] by linarith+
  then show ?thesis by (auto simp: timeshare_index_def Let_def)
qed

lemma add_index_less:
  assumes "rqenv_ok E" "unat (tdq_ridx q) < RQ_NQS E"
  shows "add_index E P q pri flags < RQ_NQS E"
  using assms rqenv_prio [OF assms(1)] timeshare_index_less [OF assms(1)] by (simp add: add_index_def)

lemma tdq_added_inv:
  assumes E: "rqenv_ok E" and inv: "tdq_inv E c (T, S, q)" and new: "td \<notin> tdq_elems q"
    and flag: "TSF_XFERABLE \<notin> ts_flags (S td)"
    and i: "i < RQ_NQS E" and add: "tdq_added E c (T, S, q) td n i (T', S', q')"
  shows "tdq_inv E c (T', S', q') \<and> tdq_elems q' = insert td (tdq_elems q)"
proof -
  let ?T = "TD_SET_RUNQ T td"
  from add obtain rq' where enq: "rq_enqueue E ?T (tdq_rq q n) td i (T', rq')"
    and S': "S' = xfer_added T S c n td"
    and q': "q' = tdq_set_rq n rq' (q\<lparr>tdq_transferable := tdq_transferable q + of_bool (THREAD_CAN_MIGRATE T td)\<rparr>)"
    by (auto simp: tdq_added_def)
  have T': "T' = set_rqindex ?T td i" using enq by (simp add: rq_enqueue_def)
  have out: "td \<notin> rq_elems (tdq_rq q m)" for m using new by (auto simp: tdq_elems_def)
  have T: "rq_inv E ?T (tdq_rq q m)" for m
    using tdq_inv_rq [OF inv] by (rule rq_inv_threads) (simp add: frame_simps)
  have rq': "rq_inv E T' rq'" by (rule rq_enqueue_inv [OF E T out i enq])
  have elems': "rq_elems rq' = insert td (rq_elems (tdq_rq q n))"
    by (rule rq_enqueue_elems [OF enq rq_inv_shape [OF T] i])
  have 1: "rq_inv E T' (tdq_rq q' m)" for m
  proof (cases "m = n")
    case True
    then show ?thesis using rq' by (simp add: q')
  next
    case False
    have "rq_inv E T' (tdq_rq q m)"
      using T by (rule rq_inv_threads) (use out in \<open>auto simp: T' set_rqindex_def\<close>)
    with False show ?thesis by (simp add: q')
  qed
  have mem: "t \<in> rq_elems (tdq_rq q' m) \<longleftrightarrow> (t = td \<and> m = n) \<or> t \<in> rq_elems (tdq_rq q m)" for t m
    using elems' out by (auto simp: q')
  have 2: "ts_runq (S' t) = Some (c, m) \<and> td_state (T' t) = TDS_RUNQ" if "t \<in> rq_elems (tdq_rq q' m)" for t m
    using that mem tdq_inv_runq [OF inv] tdq_inv_state [OF inv] out
    by (auto simp: S' xfer_added_def T' frame_simps)
  have elems: "tdq_elems q' = insert td (tdq_elems q)"
    using mem by (auto simp: tdq_elems_def)
  have xfer: "tdq_xfer S' q' = (if THREAD_CAN_MIGRATE T td then insert td (tdq_xfer S q) else tdq_xfer S q)"
    using new flag by (auto simp: tdq_xfer_def elems S' xfer_added_def)
  have "td \<notin> tdq_xfer S q" "finite (tdq_xfer S q)" using new by (simp_all add: tdq_xfer_def)
  moreover have "tdq_transferable q' = tdq_transferable q + of_bool (THREAD_CAN_MIGRATE T td)"
    by (simp add: q')
  ultimately have 3: "tdq_transferable q' = int (card (tdq_xfer S' q'))"
    unfolding xfer using tdq_inv_xfer [OF inv] by simp
  have 4: "unat (tdq_idx q') < RQ_NQS E" "unat (tdq_ridx q') < RQ_NQS E"
    using tdq_inv_idx [OF inv] by (simp_all add: q')
  show ?thesis
    unfolding tdq_inv_def prod.case using 1 2 3 4 elems by blast
qed

text \<open>Removing: the run queue that holds the thread loses it, and the counters follow.\<close>

definition xfer_removed :: "tscheds \<Rightarrow> tid \<Rightarrow> tscheds" where
  "xfer_removed S td = (if TSF_XFERABLE \<in> ts_flags (S td)
     then S(td := (S td)\<lparr>ts_flags := ts_flags (S td) - {TSF_XFERABLE}\<rparr>) else S)"

definition tdq_removed ::
  "('w::len) rqenv \<Rightarrow> 'w tdq_state \<Rightarrow> tid \<Rightarrow> rq_name \<Rightarrow> u8 \<Rightarrow> 'w tdq_state \<Rightarrow> bool" where
  "tdq_removed E s td n ridx s' \<longleftrightarrow> (case s of (T, S, q) \<Rightarrow>
     s' = (T, xfer_removed S td,
       tdq_set_rq n (runq_remove E T (tdq_rq q n) td)
         (q\<lparr>tdq_transferable := tdq_transferable q - of_bool (TSF_XFERABLE \<in> ts_flags (S td)),
            tdq_ridx := ridx\<rparr>)))"

lemma runq_remove_idx_less:
  assumes "0 < RQ_NQS E" "RQ_NQS E \<le> 256" "unat i < RQ_NQS E"
  shows "\<exists>j. snd (runq_remove_idx E T rq td (Some i)) = Some j \<and> unat j < RQ_NQS E"
proof -
  have "n mod RQ_NQS E < RQ_NQS E" "n mod RQ_NQS E < 256" for n
    using assms(1,2) mod_less_divisor [OF assms(1), of n] by linarith+
  then show ?thesis using assms(3) by (auto simp: runq_remove_idx_def Let_def)
qed

lemma tdq_runq_rem_removed:
  assumes E: "rqenv_ok E" and inv: "tdq_inv E c (T, S, q)" and td: "ts_runq (S td) = Some (c, n)"
  shows "\<exists>ridx. unat ridx < RQ_NQS E \<and> tdq_removed E (T, S, q) td n ridx (tdq_runq_rem E (T, S, q) td) \<and>
    (n \<noteq> RQ_TIMESHARE \<or> tdq_idx q = tdq_ridx q \<or>
      td_rqindex (T td) \<noteq> tdq_ridx q \<longrightarrow> ridx = tdq_ridx q)"
proof -
  have pos: "0 < RQ_NQS E" using rqenv_prio [OF E, of 0] by linarith
  note idx = tdq_inv_idx [OF inv]
  obtain j where j: "snd (runq_remove_idx E T (tdq_timeshare q) td (Some (tdq_ridx q))) = Some j"
    "unat j < RQ_NQS E"
    using runq_remove_idx_less [OF pos rqenv_NQS_le [OF E] idx(2)] by blast
  have same: "td_rqindex (T td) \<noteq> tdq_ridx q \<Longrightarrow> j = tdq_ridx q"
    using j(1) by (auto simp: runq_remove_idx_def Let_def split: if_splits)
  have rem: "fst (runq_remove_idx E T (tdq_timeshare q) td x) = runq_remove E T (tdq_timeshare q) td" for x
    by (simp add: runq_remove_eq)
  have eq: "runq_remove_idx E T (tdq_timeshare q) td (Some (tdq_ridx q)) =
      (runq_remove E T (tdq_timeshare q) td, Some j)"
    using j(1) rem [of "Some (tdq_ridx q)"] by (simp add: prod_eq_iff)
  show ?thesis
  proof (cases n)
    case RQ_TIMESHARE
    show ?thesis
      by (rule exI [of _ "if tdq_idx q = tdq_ridx q then tdq_ridx q else j"])
        (use td RQ_TIMESHARE j(2) idx rem same eq in
          \<open>auto simp: tdq_removed_def tdq_runq_rem_def xfer_removed_def tdq_set_rq_def Let_def
            split: prod.splits\<close>)
  qed (rule exI [of _ "tdq_ridx q"],
      use td idx in \<open>simp add: tdq_removed_def tdq_runq_rem_def xfer_removed_def tdq_set_rq_def Let_def\<close>)+
qed

lemma tdq_removed_inv:
  assumes E: "rqenv_ok E" and inv: "tdq_inv E c (T, S, q)" and td: "td \<in> rq_elems (tdq_rq q n)"
    and ridx: "unat ridx < RQ_NQS E" and rem: "tdq_removed E (T, S, q) td n ridx (T', S', q')"
  shows "tdq_inv E c (T', S', q') \<and> tdq_elems q' = tdq_elems q - {td} \<and> T' = T \<and>
    TSF_XFERABLE \<notin> ts_flags (S' td)"
proof -
  let ?x = "TSF_XFERABLE \<in> ts_flags (S td)"
  have T': "T' = T" and S': "S' = xfer_removed S td"
    and q': "q' = tdq_set_rq n (runq_remove E T (tdq_rq q n) td)
       (q\<lparr>tdq_transferable := tdq_transferable q - of_bool ?x, tdq_ridx := ridx\<rparr>)"
    using rem by (simp_all add: tdq_removed_def)
  note rq = rq_remove_inv [OF E tdq_inv_rq [OF inv] td]
  have only: "td \<notin> rq_elems (tdq_rq q m)" if "m \<noteq> n" for m
    using tdq_inv_runq [OF inv td] tdq_inv_runq [OF inv, of td m] that by auto
  have mem: "t \<in> rq_elems (tdq_rq q' m) \<longleftrightarrow> t \<noteq> td \<and> t \<in> rq_elems (tdq_rq q m)" for t m
    using rq(2) only by (auto simp: q')
  have 1: "rq_inv E T' (tdq_rq q' m)" for m
    using rq(1) tdq_inv_rq [OF inv] by (simp add: q' T')
  have 2: "ts_runq (S' t) = Some (c, m) \<and> td_state (T' t) = TDS_RUNQ" if "t \<in> rq_elems (tdq_rq q' m)" for t m
    using that mem tdq_inv_runq [OF inv] tdq_inv_state [OF inv] by (auto simp: S' xfer_removed_def T')
  have elems: "tdq_elems q' = tdq_elems q - {td}" using mem by (auto simp: tdq_elems_def)
  have tdq: "td \<in> tdq_elems q" using td by (auto simp: tdq_elems_def)
  have xfer: "tdq_xfer S' q' = tdq_xfer S q - {td}"
    using tdq by (auto simp: tdq_xfer_def elems S' xfer_removed_def)
  have fin: "finite (tdq_xfer S q)" by (simp add: tdq_xfer_def)
  have "int (card (tdq_xfer S' q')) = int (card (tdq_xfer S q)) - of_bool ?x"
  proof (cases ?x)
    case True
    then have "td \<in> tdq_xfer S q" using tdq by (simp add: tdq_xfer_def)
    with fin have "Suc (card (tdq_xfer S q - {td})) = card (tdq_xfer S q)" by (simp only: card_Suc_Diff1)
    with True show ?thesis by (simp add: xfer)
  next
    case False
    then have "tdq_xfer S q - {td} = tdq_xfer S q" by (auto simp: tdq_xfer_def)
    with False show ?thesis by (simp add: xfer)
  qed
  moreover have "tdq_transferable q' = tdq_transferable q - of_bool ?x" by (simp add: q')
  ultimately have 3: "tdq_transferable q' = int (card (tdq_xfer S' q'))"
    using tdq_inv_xfer [OF inv] by simp
  have 4: "unat (tdq_idx q') < RQ_NQS E" "unat (tdq_ridx q') < RQ_NQS E"
    using tdq_inv_idx [OF inv] ridx by (simp_all add: q')
  have 5: "TSF_XFERABLE \<notin> ts_flags (S' td)" by (simp add: S' xfer_removed_def)
  show ?thesis
    unfolding tdq_inv_def prod.case using 1 2 3 4 5 elems T' by blast
qed

lemma tdq_runq_add_inv [runq_intros]:
  assumes E: "rqenv_ok E" and inv: "tdq_inv E c (T, S, q)" and new: "td \<notin> tdq_elems q"
    and flag: "TSF_XFERABLE \<notin> ts_flags (S td)"
    and r: "tdq_runq_add E P c (T, S, q) td flags = (T', S', q')"
  shows "tdq_inv E c (T', S', q')" "tdq_elems q' = insert td (tdq_elems q)"
  using tdq_added_inv [OF E inv new flag add_index_less [OF E tdq_inv_idx(2) [OF inv]]
      tdq_runq_add_added [of E c T S q td P flags, unfolded r]] by simp_all

lemma tdq_runq_rem_inv [runq_intros]:
  assumes E: "rqenv_ok E" and inv: "tdq_inv E c (T, S, q)" and td: "td \<in> tdq_elems q"
    and r: "tdq_runq_rem E (T, S, q) td = (T', S', q')"
  shows "tdq_inv E c (T', S', q')" "tdq_elems q' = tdq_elems q - {td}" "T' = T"
    "TSF_XFERABLE \<notin> ts_flags (S' td)"
proof -
  from tdq_inv_elems [OF inv td] obtain n where n: "ts_runq (S td) = Some (c, n)" "td \<in> rq_elems (tdq_rq q n)" .
  from tdq_runq_rem_removed [OF E inv n(1)] r obtain ridx
    where "unat ridx < RQ_NQS E" "tdq_removed E (T, S, q) td n ridx (T', S', q')" by auto
  from tdq_removed_inv [OF E inv n(2) this]
  show "tdq_inv E c (T', S', q')" "tdq_elems q' = tdq_elems q - {td}" "T' = T"
    "TSF_XFERABLE \<notin> ts_flags (S' td)" by blast+
qed

subsection \<open>Choosing\<close>

lemma runq_choose_from_None:
  assumes "rqenv_ok E" "rq_inv E T rq" "unat idx < RQ_NQS E"
  shows "runq_choose_from E rq idx = None \<longleftrightarrow> rq_elems rq = {}"
    and "runq_choose_from E rq idx = Some td \<Longrightarrow> td \<in> rq_elems rq"
proof -
  let ?is = "[unat idx..<RQ_NQS E] @ [0..<RQ_NQS E]"
  have eq: "runq_findbit_from E rq idx = find (\<lambda>i. rq_queues rq ! i \<noteq> []) ?is"
    unfolding runq_findbit_from_eq [OF assms(1,3)] by (rule find_nonempty_cong [OF assms(2)]) auto
  have mem: "i < RQ_NQS E \<and> rq_queues rq ! i \<noteq> []" if "find (\<lambda>i. rq_queues rq ! i \<noteq> []) ?is = Some i" for i
    using that by (auto simp: find_Some_iff nth_append split: if_splits)
  have "runq_choose_from E rq idx = None \<longleftrightarrow> find (\<lambda>i. rq_queues rq ! i \<noteq> []) ?is = None"
    using mem by (auto simp: runq_choose_from_def eq TAILQ_FIRST_eq split: option.splits)
  also have "\<dots> \<longleftrightarrow> (\<forall>i<RQ_NQS E. rq_queues rq ! i = [])" by (auto simp: find_None_iff)
  also have "\<dots> \<longleftrightarrow> (\<forall>t. t \<notin> rq_elems rq)"
    unfolding rq_elems_iff [OF rq_inv_shape [OF assms(2)]]
    by (metis list.set_intros(1) neq_Nil_conv empty_iff list.set(1))
  finally show "runq_choose_from E rq idx = None \<longleftrightarrow> rq_elems rq = {}" by blast
  assume "runq_choose_from E rq idx = Some td"
  then obtain i where "find (\<lambda>i. rq_queues rq ! i \<noteq> []) ?is = Some i" "td = hd (rq_queues rq ! i)"
    by (auto simp: runq_choose_from_def eq TAILQ_FIRST_eq split: option.splits if_splits)
  with mem have "i < RQ_NQS E" "td \<in> set (rq_queues rq ! i)" by auto
  then show "td \<in> rq_elems rq" unfolding rq_elems_iff [OF rq_inv_shape [OF assms(2)]] by blast
qed

lemma tdq_choose_None:
  assumes "rqenv_ok E" "tdq_inv E c (T, S, q)"
  shows "tdq_choose E q = None \<longleftrightarrow> tdq_elems q = {}"
    and "tdq_choose E q = Some td \<Longrightarrow> td \<in> tdq_elems q"
proof -
  note inv = tdq_inv_rq [OF assms(2)]
  note rt = runq_choose_None [OF assms(1) inv [of RQ_REALTIME, simplified]]
    runq_choose_mem [OF assms(1) inv [of RQ_REALTIME, simplified]]
  note id = runq_choose_None [OF assms(1) inv [of RQ_IDLE, simplified]]
    runq_choose_mem [OF assms(1) inv [of RQ_IDLE, simplified]]
  note ts = runq_choose_from_None [OF assms(1) inv [of RQ_TIMESHARE, simplified] tdq_inv_idx(2) [OF assms(2)]]
  show "tdq_choose E q = None \<longleftrightarrow> tdq_elems q = {}"
    unfolding tdq_elems_names tdq_choose_def using rt(1) id(1) ts(1) by (auto split: option.splits)
  show "tdq_choose E q = Some td \<Longrightarrow> td \<in> tdq_elems q"
    unfolding tdq_elems_names tdq_choose_def using rt(2) id(2) ts(2) by (auto split: option.splits)
qed

subsection \<open>The interface\<close>

text \<open>
  The thread queue with its stores refines \<open>thread_queue\<close>. The flag \<^verbatim>\<open>TSF_XFERABLE\<close> is clear on
  threads that are not queued.
\<close>

definition tdq_ok :: "('w::len) rqenv \<Rightarrow> cpuid \<Rightarrow> 'w tdq_state \<Rightarrow> bool" where
  "tdq_ok E c s \<longleftrightarrow> tdq_inv E c s \<and>
     (\<forall>td. td \<notin> tdq_elems (snd (snd s)) \<longrightarrow> TSF_XFERABLE \<notin> ts_flags (fst (snd s) td))"

abbreviation tdq_set :: "('w::len) tdq_state \<Rightarrow> tid set" where
  "tdq_set s \<equiv> tdq_elems (snd (snd s))"

lemma tdq_runq_add_flags:
  "tdq_runq_add E P c (T, S, q) td flags = (T', S', q') \<Longrightarrow> t \<noteq> td \<Longrightarrow> ts_flags (S' t) = ts_flags (S t)"
  using tdq_runq_add_added [of E c T S q td P flags] by (auto simp: tdq_added_def xfer_added_def)

lemma tdq_runq_rem_flags:
  "tdq_runq_rem E (T, S, q) td = (T', S', q') \<Longrightarrow> ts_flags (S' t) \<subseteq> ts_flags (S t)"
  by (auto simp: tdq_runq_rem_def Let_def split: option.splits prod.splits rq_name.splits if_splits)

lemma tdq_runq_add_ok:
  assumes "rqenv_ok E" "tdq_ok E c s" "td \<notin> tdq_set s"
  shows "tdq_ok E c (tdq_runq_add E P c s td flags) \<and>
    tdq_set (tdq_runq_add E P c s td flags) = insert td (tdq_set s)"
proof -
  obtain T S q where s: "s = (T, S, q)" by (cases s)
  obtain T' S' q' where r: "tdq_runq_add E P c (T, S, q) td flags = (T', S', q')"
    by (cases "tdq_runq_add E P c (T, S, q) td flags")
  show ?thesis
    using tdq_runq_add_inv [OF assms(1) _ _ _ r] tdq_runq_add_flags [OF r] assms(2,3)
    by (simp add: tdq_ok_def s r)
qed

lemma tdq_runq_rem_ok:
  assumes "rqenv_ok E" "tdq_ok E c s" "td \<in> tdq_set s"
  shows "tdq_ok E c (tdq_runq_rem E s td) \<and> tdq_set (tdq_runq_rem E s td) = tdq_set s - {td}"
proof -
  obtain T S q where s: "s = (T, S, q)" by (cases s)
  obtain T' S' q' where r: "tdq_runq_rem E (T, S, q) td = (T', S', q')"
    by (cases "tdq_runq_rem E (T, S, q) td")
  have "tdq_inv E c (T, S, q)" "td \<in> tdq_elems q" using assms(2,3) by (simp_all add: tdq_ok_def s)
  note inv = tdq_runq_rem_inv [OF assms(1) this r]
  have "TSF_XFERABLE \<notin> ts_flags (S' t)" if "t \<notin> tdq_elems q'" for t
    using that inv(2,4) tdq_runq_rem_flags [OF r, of t] assms(2) by (cases "t = td") (auto simp: tdq_ok_def s)
  with inv(1,2) show ?thesis by (simp add: tdq_ok_def s r)
qed

sublocale runq_headers \<subseteq> ule: thread_queue "tdq_ok E c" tdq_set
    "\<lambda>td s. tdq_runq_add E P c s td flags" "\<lambda>td s. tdq_runq_rem E s td"
    "\<lambda>s. tdq_choose E (snd (snd s))" for P c flags
proof
  fix s :: "'w tdq_state" and td
  assume s: "tdq_ok E c s"
  then have inv: "tdq_inv E c (fst s, fst (snd s), snd (snd s))" by (simp add: tdq_ok_def)
  show "finite (tdq_set s)" by simp
  show "tdq_choose E (snd (snd s)) = None \<longleftrightarrow> tdq_set s = {}"
    by (rule tdq_choose_None(1) [OF headers inv])
  show "tdq_choose E (snd (snd s)) = Some td \<Longrightarrow> td \<in> tdq_set s"
    by (rule tdq_choose_None(2) [OF headers inv])
  show "td \<in> tdq_set s \<Longrightarrow> tdq_ok E c (tdq_runq_rem E s td)"
    and "td \<in> tdq_set s \<Longrightarrow> tdq_set (tdq_runq_rem E s td) = tdq_set s - {td}"
    using tdq_runq_rem_ok [OF headers s] by simp_all
  show "td \<notin> tdq_set s \<Longrightarrow> tdq_ok E c (tdq_runq_add E P c s td flags)"
    and "td \<notin> tdq_set s \<Longrightarrow> tdq_set (tdq_runq_add E P c s td flags) = insert td (tdq_set s)"
    using tdq_runq_add_ok [OF headers s] by simp_all
qed

subsection \<open>Adding and removing a thread\<close>

lemma mod_pred_neq:
  fixes n r :: nat
  assumes "1 < n" "r < n" "r < 256" "n \<le> 256" "even n"
  shows "unat ((of_nat r :: u8) - 1) mod n \<noteq> r"
proof (cases "r = 0")
  case True
  have "unat (- 1 :: u8) = 255" by (simp add: unsigned_minus_1_eq_mask mask_eq_exp_minus_1)
  moreover have "255 mod n \<noteq> 0" using assms(5) by (metis dvd_eq_mod_eq_0 dvd_trans odd_numeral)
  ultimately show ?thesis using True by simp
next
  case False
  then have "unat ((of_nat r :: u8) - 1) = r - 1"
    using assms(3) by (subst unat_minus_one) (auto simp: word_of_nat_eq_0_iff dvd_imp_le)
  with False assms(2) show ?thesis by simp
qed

lemma timeshare_index_not_ridx:
  assumes "rqenv_ok E" "even (RQ_NQS E)" "unat ridx < RQ_NQS E" "ridx \<noteq> idx"
  shows "timeshare_index E P idx ridx pri \<noteq> ridx"
proof -
  have n: "1 < RQ_NQS E" using assms(2,3) by (metis One_nat_def Suc_lessI even_Suc gr0I not_less_zero odd_one)
  have "of_nat (unat (ridx - 1) mod RQ_NQS E) \<noteq> ridx"
  proof
    assume "of_nat (unat (ridx - 1) mod RQ_NQS E) = ridx"
    then have "unat (of_nat (unat (ridx - 1) mod RQ_NQS E) :: u8) = unat ridx" by simp
    moreover have "unat (ridx - 1) mod RQ_NQS E < 256"
      using unat_u8_less [of "ridx - 1"] by (meson le_less_trans mod_less_eq_dividend)
    ultimately have "unat (ridx - 1) mod RQ_NQS E = unat ridx" by simp
    then show False
      using mod_pred_neq [OF n assms(3) _ rqenv_NQS_le [OF assms(1)] assms(2)] by simp
  qed
  with assms(4) show ?thesis by (auto simp: timeshare_index_def Let_def)
qed

lemma tdq_set_rq_id: "tdq_set_rq n (tdq_rq q n) q = q"
  by (cases n) (simp_all add: tdq_set_rq_def)

lemma tdq_set_rq_twice:
  "tdq_set_rq n a ((tdq_set_rq n b (q\<lparr>tdq_transferable := x\<rparr>))\<lparr>tdq_transferable := y, tdq_ridx := z\<rparr>) =
   tdq_set_rq n a (q\<lparr>tdq_transferable := y, tdq_ridx := z\<rparr>)"
  by (cases n) (simp_all add: tdq_set_rq_def)

text \<open>
  Taking a thread off the thread queue again right after it was added leaves the queue as it
  was, bit for bit: the three run queues, the count of transferable threads and the two indices
  of the calendar. The calendar index moves only for a preempted or borrowing thread, since a
  plain addition never uses the slot \<^verbatim>\<open>tdq_ridx\<close> while it differs from \<^verbatim>\<open>tdq_idx\<close>.
\<close>

theorem tdq_add_rem_roundtrip:
  assumes "rqenv_ok E" and "even (RQ_NQS E)" and "tdq_ok E c (T, S, q)" and "td \<notin> tdq_elems q"
    and "flags \<inter> {SRQ_BORROWING, SRQ_PREEMPTED} = {}"
  shows "\<exists>T' S'. tdq_runq_rem E (tdq_runq_add E P c (T, S, q) td flags) td = (T', S', q) \<and>
    ts_flags (S' td) = ts_flags (S td)"
proof -
  let ?n = "add_name P (td_priority (T td))" and ?i = "add_index E P q (td_priority (T td)) flags"
  have inv: "tdq_inv E c (T, S, q)" and flag: "TSF_XFERABLE \<notin> ts_flags (S td)"
    using assms(3,4) by (simp_all add: tdq_ok_def)
  note i = add_index_less [OF assms(1) tdq_inv_idx(2) [OF inv], of P "td_priority (T td)" flags]
  obtain T' S' q' where r: "tdq_runq_add E P c (T, S, q) td flags = (T', S', q')"
    by (cases "tdq_runq_add E P c (T, S, q) td flags")
  have add: "tdq_added E c (T, S, q) td ?n ?i (T', S', q')"
    using tdq_runq_add_added [of E c T S q td P flags] by (simp add: r)
  then obtain rq' where enq: "rq_enqueue E (TD_SET_RUNQ T td) (tdq_rq q ?n) td ?i (T', rq')"
    and S': "S' = xfer_added T S c ?n td"
    and q': "q' = tdq_set_rq ?n rq' (q\<lparr>tdq_transferable := tdq_transferable q + of_bool (THREAD_CAN_MIGRATE T td)\<rparr>)"
    by (auto simp: tdq_added_def)
  have T: "rq_inv E (TD_SET_RUNQ T td) (tdq_rq q ?n)"
    using tdq_inv_rq [OF inv] by (rule rq_inv_threads) (simp add: frame_simps)
  have out: "td \<notin> rq_elems (tdq_rq q ?n)" using assms(4) by (auto simp: tdq_elems_def)
  have gone: "runq_remove E T' rq' td = tdq_rq q ?n"
    by (rule rq_enqueue_unlink [OF assms(1) T out i enq])
  have inv': "tdq_inv E c (T', S', q')"
    by (rule tdq_runq_add_inv(1) [OF assms(1) inv assms(4) flag r])
  have runq: "ts_runq (S' td) = Some (c, ?n)" by (simp add: S' xfer_added_def)
  have "T' = set_rqindex (TD_SET_RUNQ T td) td ?i" using enq by (simp add: rq_enqueue_def)
  then have index: "unat (td_rqindex (T' td)) = ?i"
    using set_rqindex_at i rqenv_NQS_le [OF assms(1)] by simp
  have same: "?n \<noteq> RQ_TIMESHARE \<or> tdq_idx q' = tdq_ridx q' \<or> td_rqindex (T' td) \<noteq> tdq_ridx q'"
  proof (cases "?n = RQ_TIMESHARE \<and> tdq_ridx q \<noteq> tdq_idx q")
    case True
    then have "timeshare_index E P (tdq_idx q) (tdq_ridx q) (td_priority (T td)) \<noteq> tdq_ridx q"
      using timeshare_index_not_ridx [OF assms(1,2) tdq_inv_idx(2) [OF inv]] by simp
    then have "unat (timeshare_index E P (tdq_idx q) (tdq_ridx q) (td_priority (T td))) \<noteq> unat (tdq_ridx q)"
      by (simp add: word_unat_eq_iff)
    with True index assms(5) show ?thesis by (auto simp: add_index_def q')
  next
    case False
    then show ?thesis by (auto simp: q')
  qed
  from tdq_runq_rem_removed [OF assms(1) inv' runq] same
  have "tdq_removed E (T', S', q') td ?n (tdq_ridx q') (tdq_runq_rem E (T', S', q') td)" by blast
  moreover have "TSF_XFERABLE \<in> ts_flags (S' td) \<longleftrightarrow> THREAD_CAN_MIGRATE T td"
    using flag by (simp add: S' xfer_added_def)
  ultimately have "tdq_runq_rem E (T', S', q') td = (T', xfer_removed S' td, q)"
    by (simp add: tdq_removed_def gone q' tdq_set_rq_twice, simp add: tdq_set_rq_id)
  moreover have "ts_flags (xfer_removed S' td td) = ts_flags (S td)"
    using flag by (auto simp: S' xfer_added_def xfer_removed_def)
  ultimately show ?thesis by (auto simp: r)
qed

subsection \<open>A thread queue for the examples\<close>

definition tdq0 :: "64 tdq" where
  "tdq0 = tdq_setup amd64_env
     \<lparr>tdq_cg = [], tdq_load = 0, tdq_cpu_idle = False, tdq_sysload = 0, tdq_transferable = 0,
      tdq_switchcnt = 0, tdq_oldswitchcnt = 0, tdq_lowpri = 255, tdq_ipipending = False,
      tdq_idx = 1, tdq_ridx = 0, tdq_realtime = runq_init amd64_env,
      tdq_timeshare = runq_init amd64_env, tdq_idle = runq_init amd64_env\<rparr>"

abbreviation tdq_state0 :: "64 tdq_state" where
  "tdq_state0 \<equiv> (threads0, \<lambda>_. td_sched0, tdq0)"

lemma tdq_state0: "tdq_ok amd64_env 0 tdq_state0" "tdq_elems tdq0 = {}"
proof -
  have rq: "tdq_rq tdq0 n = runq_init amd64_env" for n
    by (cases n) (simp_all add: tdq0_def tdq_setup_def)
  show e: "tdq_elems tdq0 = {}" by (simp add: tdq_elems_def rq rq_elems_init)
  have "tdq_transferable tdq0 = 0" "tdq_idx tdq0 = 1" "tdq_ridx tdq0 = 0"
    by (simp_all add: tdq0_def tdq_setup_def)
  then show "tdq_ok amd64_env 0 tdq_state0"
    using e by (simp add: tdq_ok_def tdq_inv_def rq rq_inv_init [OF rqenv_ok_amd64] rq_elems_init
        tdq_xfer_def td_sched0_def)
qed

text \<open>The threads 160 (timeshare) and 130 (interactive) of these priorities, queued on processor 0.\<close>

definition tdq_state2 :: "64 tdq_state" where
  "tdq_state2 = fold (\<lambda>td s. tdq_runq_add amd64_env freebsd_pri 0 s td {}) [160, 130] tdq_state0"

lemma tdq_state2: "tdq_ok amd64_env 0 tdq_state2" "tdq_set tdq_state2 = {130, 160}"
  unfolding tdq_state2_def
  using amd64.ule.enq_all_ok [of 0 tdq_state0 "[160, 130]" freebsd_pri "{}"] tdq_state0
  by auto

theorem tdq_add_rem_roundtrip_witness:
  "\<exists>T' S'. tdq_runq_rem amd64_env (tdq_runq_add amd64_env freebsd_pri 0 tdq_state2 170 {}) 170 =
    (T', S', snd (snd tdq_state2))"
proof -
  obtain T S q where s: "tdq_state2 = (T, S, q)" by (cases tdq_state2)
  have "170 \<notin> tdq_elems q" using tdq_state2(2) by (simp add: s)
  from tdq_add_rem_roundtrip [OF rqenv_ok_amd64 _ tdq_state2(1) [unfolded s] this, of "{}" freebsd_pri]
  show ?thesis by (auto simp: s)
qed

end
