(* ===== verification/Tdq_Steal.thy ===== *)
theory Tdq_Steal
  imports Tdq_Props
begin

section \<open>Choosing from and stealing from a thread queue\<close>

text \<open>
  The order in which \<open>tdq_choose\<close> serves the run queues, and what \<open>runq_steal\<close>,
  \<open>runq_steal_from\<close> and \<open>tdq_steal\<close> find.
\<close>

subsection \<open>The order of the calendar\<close>

text \<open>The distance of a queue from the removal index, going round the calendar.\<close>

definition ring_dist :: "nat \<Rightarrow> nat \<Rightarrow> nat \<Rightarrow> nat" where
  "ring_dist n r i = (if r \<le> i then i - r else i + n - r)"

lemma find_ring:
  assumes "find P ([r..<n] @ [0..<n]) = Some i" "r < n" "j < n" "ring_dist n r j < ring_dist n r i"
  shows "\<not> P j"
proof (cases "find P [r..<n]")
  case None
  then have "find P [0..<n] = Some i" using assms(1) by (simp add: find_append)
  then have i: "i < n" "P i" "\<And>j. j < i \<Longrightarrow> \<not> P j" by (auto simp: find_upt_Some)
  have none: "\<And>j. r \<le> j \<Longrightarrow> j < n \<Longrightarrow> \<not> P j" using None by (simp add: find_upt_None)
  then have "i < r" using i by (meson not_le)
  then show ?thesis using assms(2-4) i none by (auto simp: ring_dist_def split: if_splits)
next
  case (Some k)
  then have "k = i" using assms(1) by (simp add: find_append)
  then show ?thesis using Some assms(2-4) by (auto simp: find_upt_Some ring_dist_def split: if_splits)
qed

lemma find_in: "find P xs = Some x \<Longrightarrow> P x \<and> x \<in> set xs"
  by (auto simp: find_Some_iff)

lemma runq_choose_from_Some:
  assumes E: "rqenv_ok E" and inv: "rq_inv E T rq" and r: "unat idx < RQ_NQS E"
    and td: "runq_choose_from E rq idx = Some td"
  shows "td \<in> rq_elems rq \<and> (\<forall>t\<in>rq_elems rq.
    ring_dist (RQ_NQS E) (unat idx) (unat (td_rqindex (T td))) \<le>
    ring_dist (RQ_NQS E) (unat idx) (unat (td_rqindex (T t))))"
proof -
  let ?P = "\<lambda>i. rq_queues rq ! i \<noteq> []" and ?is = "[unat idx..<RQ_NQS E] @ [0..<RQ_NQS E]"
  have eq: "runq_findbit_from E rq idx = find ?P ?is"
    unfolding runq_findbit_from_eq [OF E r] by (rule find_nonempty_cong [OF inv]) auto
  from td obtain i where i: "find ?P ?is = Some i" "td = hd (rq_queues rq ! i)"
    by (auto simp: runq_choose_from_def eq TAILQ_FIRST_eq split: option.splits if_splits)
  from find_in [OF i(1)] have q: "i < RQ_NQS E" "td \<in> set (rq_queues rq ! i)" using i(2) by auto
  have idx: "unat (td_rqindex (T td)) = i" by (rule rq_inv_index [OF inv q])
  have "ring_dist (RQ_NQS E) (unat idx) i \<le> ring_dist (RQ_NQS E) (unat idx) (unat (td_rqindex (T t)))"
    if "t \<in> rq_elems rq" for t
  proof (rule ccontr)
    assume "\<not> ?thesis"
    then have "\<not> ?P (unat (td_rqindex (T t)))"
      using rq_elems_queue [OF inv that] by (intro find_ring [OF i(1) r]) auto
    then show False using rq_elems_queue [OF inv that] by auto
  qed
  with q idx rq_elems_iff [OF rq_inv_shape [OF inv]] show ?thesis by blast
qed

text \<open>
  C32. \<open>tdq_choose\<close> serves the real-time run queue first, then the timeshare calendar, then the
  idle run queue: the thread it returns is queued, no run queue before its own holds a thread,
  on a linear queue no thread has a better index, on the calendar none is nearer to the removal
  index going round. It returns \<^verbatim>\<open>NULL\<close> only when nothing is queued.
\<close>

theorem tdq_choose_serves_in_order:
  assumes "rqenv_ok E" and "tdq_inv E c (T, S, q)"
  shows "case tdq_choose E q of
      None \<Rightarrow> tdq_elems q = {}
    | Some td \<Rightarrow>
        (ts_runq (S td) = Some (c, RQ_REALTIME) \<and> td \<in> rq_elems (tdq_realtime q) \<and>
         (\<forall>t\<in>rq_elems (tdq_realtime q). unat (td_rqindex (T td)) \<le> unat (td_rqindex (T t)))) \<or>
        (ts_runq (S td) = Some (c, RQ_TIMESHARE) \<and> td \<in> rq_elems (tdq_timeshare q) \<and>
         rq_elems (tdq_realtime q) = {} \<and>
         (\<forall>t\<in>rq_elems (tdq_timeshare q).
            ring_dist (RQ_NQS E) (unat (tdq_ridx q)) (unat (td_rqindex (T td))) \<le>
            ring_dist (RQ_NQS E) (unat (tdq_ridx q)) (unat (td_rqindex (T t))))) \<or>
        (ts_runq (S td) = Some (c, RQ_IDLE) \<and> td \<in> rq_elems (tdq_idle q) \<and>
         rq_elems (tdq_realtime q) = {} \<and> rq_elems (tdq_timeshare q) = {} \<and>
         (\<forall>t\<in>rq_elems (tdq_idle q). unat (td_rqindex (T td)) \<le> unat (td_rqindex (T t))))"
proof -
  note inv = tdq_inv_rq [OF assms(2)] and runq = tdq_inv_runq [OF assms(2)]
  have lin: "td \<in> rq_elems rq \<and> (\<forall>t\<in>rq_elems rq. unat (td_rqindex (T td)) \<le> unat (td_rqindex (T t)))"
    if rq: "rq_inv E T rq" "runq_choose E rq = Some td" for rq td
  proof -
    obtain i where i: "i < RQ_NQS E" "td = hd (rq_queues rq ! i)" "rq_queues rq ! i \<noteq> []"
      "\<forall>j<i. rq_queues rq ! j = []"
      using rq(2) by (auto simp: runq_choose_Some [OF assms(1) rq(1)])
    then have "unat (td_rqindex (T td)) = i" using rq_inv_index [OF rq(1) i(1)] by simp
    moreover have "i \<le> unat (td_rqindex (T t))" if "t \<in> rq_elems rq" for t
      using rq_elems_queue [OF rq(1) that] i(4) by (metis empty_iff empty_set not_less)
    ultimately show ?thesis using runq_choose_mem [OF assms(1) rq] by auto
  qed
  note rt = lin [OF inv [of RQ_REALTIME, unfolded tdq_rq_simps]]
    and id = lin [OF inv [of RQ_IDLE, unfolded tdq_rq_simps]]
    and ts = runq_choose_from_Some [OF assms(1) inv [of RQ_TIMESHARE, unfolded tdq_rq_simps] tdq_inv_idx(2) [OF assms(2)]]
  note n = runq_choose_None [OF assms(1) inv [of RQ_REALTIME, unfolded tdq_rq_simps]]
    runq_choose_None [OF assms(1) inv [of RQ_IDLE, unfolded tdq_rq_simps]]
    runq_choose_from_None(1) [OF assms(1) inv [of RQ_TIMESHARE, unfolded tdq_rq_simps] tdq_inv_idx(2) [OF assms(2)]]
  show ?thesis
  proof (cases "runq_choose E (tdq_realtime q)")
    case (Some td)
    then show ?thesis
      using rt [OF Some] runq [of td RQ_REALTIME] by (simp add: tdq_choose_def)
  next
    case None
    note rt_None = this
    show ?thesis
    proof (cases "runq_choose_from E (tdq_timeshare q) (tdq_ridx q)")
      case (Some td)
      then show ?thesis
        using ts [OF Some] runq [of td RQ_TIMESHARE] None n(1) by (simp add: tdq_choose_def)
    next
      case None
      show ?thesis
      proof (cases "runq_choose E (tdq_idle q)")
        case (Some td)
        then show ?thesis
          using id [OF Some] runq [of td RQ_IDLE] None rt_None n by (simp add: tdq_choose_def)
      next
        case None': None
        have "tdq_elems q = {}"
          unfolding tdq_elems_names using n rt_None None None' by blast
        then show ?thesis by (simp add: tdq_choose_def rt_None None None')
      qed
    qed
  qed
qed

theorem tdq_choose_serves_in_order_witness:
  "\<exists>td. tdq_choose amd64_env (snd (snd tdq_state2)) = Some td \<and> td \<in> {130, 160}"
proof -
  obtain T S q where s: "tdq_state2 = (T, S, q)" by (cases tdq_state2)
  have inv: "tdq_inv amd64_env 0 (T, S, q)" and e: "tdq_elems q = {130, 160}"
    using tdq_state2 by (simp_all add: s tdq_ok_def)
  from tdq_choose_serves_in_order [OF rqenv_ok_amd64 inv] e show ?thesis
    unfolding s tdq_elems_names by (auto split: option.splits)
qed

subsection \<open>The threads a scan visits\<close>

lemma concat_map_filter:
  "(\<And>x. x \<in> set xs \<Longrightarrow> \<not> P x \<Longrightarrow> f x = []) \<Longrightarrow> concat (map f (filter P xs)) = concat (map f xs)"
  by (induction xs) auto

text \<open>The threads of the queues \<open>a\<close>, \<open>a + 1\<close>, ... , \<open>b - 1\<close>.\<close>

definition rq_range :: "('w::len) runq \<Rightarrow> nat \<Rightarrow> nat \<Rightarrow> tid list" where
  "rq_range rq a b = concat (map ((!) (rq_queues rq)) [a..<b])"

lemma rq_range_split: "a \<le> b \<Longrightarrow> b \<le> c \<Longrightarrow> rq_range rq a c = rq_range rq a b @ rq_range rq b c"
  unfolding rq_range_def concat_append [symmetric] map_append [symmetric]
  by (metis le_Suc_ex upt_add_eq_append)

lemma rq_range_all: "rq_range rq 0 (length (rq_queues rq)) = concat (rq_queues rq)"
  by (simp add: rq_range_def map_nth)

lemma rq_range_empty: "(\<And>i. a \<le> i \<Longrightarrow> i < b \<Longrightarrow> rq_queues rq ! i = []) \<Longrightarrow> rq_range rq a b = []"
  by (simp add: rq_range_def)

lemma map_shift_upt: "map (\<lambda>k. f (k + m)) [a..<b] = map f [a + m..<b + m]" for m :: nat
  by (rule nth_equalityI) (simp_all add: add.commute add.left_commute)

lemma word_queues:
  fixes E :: "('w::len) rqenv"
  assumes E: "rqenv_ok E" and inv: "rq_inv E T rq" and i: "i < RQB_LEN E" and bt: "bt < LENGTH('w)"
  shows "concat (map (\<lambda>bt. rq_queues rq ! (bt + push_bit (RQB_L2BPW E) i)) (set_bits E (rqb_bits rq ! i) bt)) =
    rq_range rq (i * LENGTH('w) + bt) (Suc i * LENGTH('w))"
proof -
  have le: "Suc i * LENGTH('w) \<le> RQ_NQS E"
    unfolding rqenv_NQS [OF E] mult.commute [of "LENGTH('w)"] using i by (intro mult_le_mono1) simp
  have "rq_queues rq ! (k + i * LENGTH('w)) = []"
    if "k < LENGTH('w)" "\<not> bit (rqb_bits rq ! i) k" for k
  proof -
    have "k + i * LENGTH('w) < RQ_NQS E" using that(1) le by simp
    then show ?thesis
      using rq_inv_bit [OF inv, of "k + i * LENGTH('w)"] rq_bit_word [OF that(1), of rq i] that(2)
      by (simp add: add.commute)
  qed
  then have "concat (map (\<lambda>k. rq_queues rq ! (k + i * LENGTH('w))) (filter (bit (rqb_bits rq ! i)) [bt..<LENGTH('w)])) =
      concat (map (\<lambda>k. rq_queues rq ! (k + i * LENGTH('w))) [bt..<LENGTH('w)])"
    by (intro concat_map_filter) simp
  also have "\<dots> = rq_range rq (i * LENGTH('w) + bt) (Suc i * LENGTH('w))"
    unfolding rq_range_def by (simp add: map_shift_upt add.commute)
  finally show ?thesis by (simp add: set_bits_def rqenv_BPW [OF E] rqenv_L2BPW [OF E])
qed

lemma words_queues:
  fixes E :: "('w::len) rqenv"
  assumes "n \<le> RQB_LEN E" "rqenv_ok E" "rq_inv E T rq"
  shows "concat (map (\<lambda>wd. concat (map (\<lambda>bt. rq_queues rq ! (bt + push_bit (RQB_L2BPW E) wd))
      (set_bits E (rqb_bits rq ! wd) 0))) [0..<n]) = rq_range rq 0 (n * LENGTH('w))"
  using assms(1)
proof (induction n)
  case 0
  then show ?case by (simp add: rq_range_def)
next
  case (Suc n)
  then show ?case
    using word_queues [OF assms(2,3), of n 0] rq_range_split [of 0 "n * LENGTH('w)" "Suc n * LENGTH('w)" rq]
    by simp
qed

lemma runq_steal_find:
  fixes E :: "('w::len) rqenv"
  assumes "rqenv_ok E" "rq_inv E T rq"
  shows "runq_steal E T rq cpu = find (can_steal T cpu) (concat (rq_queues rq))"
  unfolding runq_steal_def words_queues [OF order_refl assms]
  using rq_range_all [of rq] rq_inv_length [OF assms(2)] rqenv_NQS [OF assms(1)]
  by (simp add: mult.commute)

lemma steal_queue_append:
  "steal_queue T cpu frst (xs @ ys) =
    (case steal_queue T cpu frst xs of Inr td \<Rightarrow> Inr td | Inl frst' \<Rightarrow> steal_queue T cpu frst' ys)"
  by (induction T cpu frst xs rule: steal_queue.induct) auto

lemma FFS_queues:
  fixes E :: "('w::len) rqenv"
  assumes E: "rqenv_ok E" and w: "w \<noteq> (0 :: 'w word)"
  shows "set_bits E w (RQB_FFS E w) = set_bits E w 0"
proof -
  have "RQB_FFS E w < LENGTH('w)" using rqenv_FFS [OF E w] by (rule bit_imp_le_length)
  then have "[0..<LENGTH('w)] = [0..<RQB_FFS E w] @ [RQB_FFS E w..<LENGTH('w)]"
    by (metis le_Suc_ex upt_add_eq_append le0 less_imp_le)
  moreover have "filter (bit w) [0..<RQB_FFS E w] = []"
    using rqenv_FFS_least [OF E w] by (simp add: filter_empty_conv)
  ultimately show ?thesis by (simp add: set_bits_def rqenv_BPW [OF E])
qed

lemma steal_words_queue:
  fixes E :: "('w::len) rqenv"
  assumes E: "rqenv_ok E" and inv: "rq_inv E T rq"
  shows "i \<le> RQB_LEN E \<Longrightarrow> bt < LENGTH('w) \<Longrightarrow> i = RQB_LEN E \<longrightarrow> bt = 0 \<Longrightarrow>
    steal_words E T rq cpu i bt frst = steal_queue T cpu frst (rq_range rq (i * LENGTH('w) + bt) (RQ_NQS E))"
proof (induction "RQB_LEN E - i" arbitrary: i bt frst)
  case 0
  then show ?case
    by (simp add: steal_words.simps [of E T rq cpu i] rq_range_def rqenv_NQS [OF E] mult.commute)
next
  case (Suc d)
  then have i: "i < RQB_LEN E" by simp
  let ?w = "rqb_bits rq ! i"
  have "Suc i * LENGTH('w) \<le> RQB_LEN E * LENGTH('w)" using i by (intro mult_le_mono1) simp
  then have "Suc i * LENGTH('w) \<le> RQ_NQS E" by (simp add: rqenv_NQS [OF E] mult.commute)
  then have split: "rq_range rq (i * LENGTH('w) + bt) (RQ_NQS E) =
      rq_range rq (i * LENGTH('w) + bt) (Suc i * LENGTH('w)) @ rq_range rq (Suc i * LENGTH('w)) (RQ_NQS E)"
    using Suc.prems(2) by (intro rq_range_split) simp_all
  have IH: "steal_words E T rq cpu (Suc i) 0 f = steal_queue T cpu f (rq_range rq (Suc i * LENGTH('w)) (RQ_NQS E))" for f
    using Suc.hyps(1) [of "Suc i" 0 f] Suc.hyps(2) i by simp
  note wq = word_queues [OF E inv i Suc.prems(2)]
  show ?case
  proof (cases "?w = 0")
    case True
    then have "rq_range rq (i * LENGTH('w) + bt) (Suc i * LENGTH('w)) = []"
      using wq by (simp add: set_bits_def)
    then show ?thesis
      unfolding split using True i IH by (simp add: steal_words.simps [of E T rq cpu i] Let_def)
  next
    case False
    then have "set_bits E ?w (if bt = 0 then RQB_FFS E ?w else bt) = set_bits E ?w bt"
      using FFS_queues [OF E False] by simp
    then show ?thesis
      unfolding split steal_queue_append wq [symmetric]
      using False i IH by (simp add: steal_words.simps [of E T rq cpu i] Let_def split: sum.split)
  qed
qed

lemma steal_queue_Some:
  "steal_queue T cpu (Some f) xs =
    (case find (can_steal T cpu) xs of Some td \<Rightarrow> Inr td | None \<Rightarrow> Inl (Some (last (f # xs))))"
proof (induction xs arbitrary: f)
  case Nil
  then show ?case by simp
next
  case (Cons a xs)
  then show ?case by (cases xs) (auto split: option.split)
qed

text \<open>What \<open>runq_steal_from\<close> makes of the list of threads it visits.\<close>

definition steal_visited :: "threads \<Rightarrow> cpuid \<Rightarrow> tid list \<Rightarrow> tid option" where
  "steal_visited T cpu tds =
     (case tds of
        [] \<Rightarrow> None
      | [td] \<Rightarrow> (if can_steal T cpu td then Some td else None)
      | _ # td # rest \<Rightarrow> find (can_steal T cpu) (td # rest))"

lemma steal_visited_queue:
  "steal_visited T cpu tds =
    (case steal_queue T cpu None tds of
       Inr td \<Rightarrow> Some td | Inl None \<Rightarrow> None | Inl (Some td) \<Rightarrow> if can_steal T cpu td then Some td else None)"
proof (cases tds)
  case Nil
  then show ?thesis by (simp add: steal_visited_def)
next
  case (Cons x xs)
  have "\<not> can_steal T cpu (last xs)" if "find (can_steal T cpu) xs = None" "xs \<noteq> []"
    using that by (auto simp: find_None_iff)
  then show ?thesis
    by (cases xs) (auto simp: steal_visited_def Cons steal_queue_Some split: option.split)
qed

lemma runq_steal_from_eq:
  fixes E :: "('w::len) rqenv"
  assumes "rqenv_ok E" and "rq_inv E T rq" and "unat start < RQ_NQS E"
  shows "runq_steal_from E T rq cpu start =
    steal_visited T cpu (concat (drop (unat start) (rq_queues rq)) @ (if start = 0 then [] else concat (rq_queues rq)))"
proof -
  let ?L = "LENGTH('w)"
  have "unat start div ?L < RQB_LEN E" by (rule rqb_index [OF assms(1,3)])
  then have one: "steal_words E T rq cpu (RQB_WORD E (unat start)) (unat start mod ?L) None =
      steal_queue T cpu None (rq_range rq (unat start) (RQ_NQS E))"
    using steal_words_queue [OF assms(1,2), of "unat start div ?L" "unat start mod ?L" cpu None]
    by (simp add: rqenv_WORD [OF assms(1)])
  have two: "steal_words E T rq cpu (RQB_WORD E 0) 0 f = steal_queue T cpu f (rq_range rq 0 (RQ_NQS E))" for f
    using steal_words_queue [OF assms(1,2), of 0 0 cpu f] by (simp add: rqenv_WORD [OF assms(1)])
  have len: "length (rq_queues rq) = RQ_NQS E" by (rule rq_inv_length [OF assms(2)])
  have r: "rq_range rq 0 (RQ_NQS E) = concat (rq_queues rq)"
    "rq_range rq (unat start) (RQ_NQS E) = concat (drop (unat start) (rq_queues rq))"
  proof -
    show "rq_range rq 0 (RQ_NQS E) = concat (rq_queues rq)" using rq_range_all [of rq] len by simp
    have "map ((!) (rq_queues rq)) [unat start..<RQ_NQS E] = drop (unat start) (rq_queues rq)"
      using len by (intro nth_equalityI) simp_all
    then show "rq_range rq (unat start) (RQ_NQS E) = concat (drop (unat start) (rq_queues rq))"
      by (simp add: rq_range_def)
  qed
  show "runq_steal_from E T rq cpu start =
      steal_visited T cpu (concat (drop (unat start) (rq_queues rq)) @ (if start = 0 then [] else concat (rq_queues rq)))"
    unfolding steal_visited_queue steal_queue_append r [symmetric] runq_steal_from_def Let_def
      rqenv_and [OF assms(1)] one two
    by (cases "steal_queue T cpu None (rq_range rq (unat start) (RQ_NQS E))"; cases "start = 0")
      (simp_all add: steal_queue_append)
qed

lemma steal_visited_mem: "steal_visited T cpu tds = Some td \<Longrightarrow> td \<in> set tds \<and> can_steal T cpu td"
  by (auto simp: steal_visited_def split: list.splits if_splits dest!: find_in)

text \<open>
  \<open>runq_steal_from\<close> visits the threads of the queues \<open>start\<close> to the last, then, unless
  \<open>start\<close> is 0, those of all queues again. It returns the only thread visited if that may be
  stolen, and otherwise the first stealable one after the first visited: the thread visited
  first is never considered again unless the second round meets it, because \<^verbatim>\<open>first\<close> is
  overwritten by every thread that is passed.
\<close>

theorem runq_steal_from_visits:
  assumes "rqenv_ok E" and "rq_inv E T rq" and "unat start < RQ_NQS E"
  shows "runq_steal_from E T rq cpu start =
    (let tds = concat (drop (unat start) (rq_queues rq)) @
               (if start = 0 then [] else concat (rq_queues rq))
     in case tds of
          [] \<Rightarrow> None
        | [td] \<Rightarrow> (if can_steal T cpu td then Some td else None)
        | _ # td # rest \<Rightarrow> find (can_steal T cpu) (td # rest))"
  by (simp only: runq_steal_from_eq [OF assms] steal_visited_def Let_def)


text \<open>
  Threads 40 and 42 in the queue 10 of a run queue, the second one pinned: the first may be
  stolen, and yet the scan from index 0 returns \<^verbatim>\<open>NULL\<close>.
\<close>

definition pinned42 :: "threads \<times> 64 runq" where
  "pinned42 = fold (rq_enq amd64_env {}) [40, 42]
     (threads0(42 := (threads0 42)\<lparr>td_pinned := 1\<rparr>), runq_init amd64_env)"

lemma runq_add_frame [frame_simps]:
  "td_pinned (fst (runq_add E T rq td flags) t) = td_pinned (T t)"
  "td_cpuset (fst (runq_add E T rq td flags) t) = td_cpuset (T t)"
  by (simp_all add: runq_add_def Let_def frame_simps)

lemma pinned42:
  "rq_inv amd64_env (fst pinned42) (snd pinned42)" "concat (rq_queues (snd pinned42)) = [40, 42]"
  "can_steal (fst pinned42) 0 40" "\<not> can_steal (fst pinned42) 0 42"
  using rq_add_all_ok [OF rqenv_ok_amd64, of "[40, 42]" "threads0(42 := (threads0 42)\<lparr>td_pinned := 1\<rparr>)"]
    add_all_concat [OF rqenv_ok_amd64, of "[40, 42]" "threads0(42 := (threads0 42)\<lparr>td_pinned := 1\<rparr>)"]
  by (simp_all add: pinned42_def threads0_def thread0_def can_steal_def frame_simps)

theorem runq_steal_from_visits_witness:
  "runq_steal_from amd64_env (fst pinned42) (snd pinned42) 0 0 = None \<and>
   40 \<in> rq_elems (snd pinned42) \<and> can_steal (fst pinned42) 0 40"
proof -
  have "runq_steal_from amd64_env (fst pinned42) (snd pinned42) 0 0 = None"
    by (subst runq_steal_from_visits [OF rqenv_ok_amd64 pinned42(1)])
      (simp_all add: pinned42(2,4))
  then show ?thesis using pinned42(2,3) by (simp add: rq_elems_def del: set_concat)
qed

text \<open>
  C33. \<open>tdq_steal\<close> only ever returns a thread that is queued on the thread queue, is not pinned
  and may run on the stealing processor; on the real-time and idle run queues it misses none:
  when it returns \<^verbatim>\<open>NULL\<close> no thread of these two can be stolen.
\<close>

theorem tdq_steal_sound:
  assumes "rqenv_ok E" and "tdq_inv E c (T, S, q)"
  shows "case tdq_steal E T q cpu of
      Some td \<Rightarrow> td \<in> tdq_elems q \<and> td_pinned (T td) = 0 \<and> cpu \<in> td_cpuset (T td)
    | None \<Rightarrow> \<forall>td \<in> rq_elems (tdq_realtime q) \<union> rq_elems (tdq_idle q).
        \<not> (td_pinned (T td) = 0 \<and> cpu \<in> td_cpuset (T td))"
proof -
  note inv = tdq_inv_rq [OF assms(2)]
  have lin: "runq_steal E T rq cpu = find (can_steal T cpu) (concat (rq_queues rq))"
    if "rq_inv E T rq" for rq by (rule runq_steal_find [OF assms(1) that])
  have rt: "runq_steal E T (tdq_realtime q) cpu = find (can_steal T cpu) (concat (rq_queues (tdq_realtime q)))"
    and id: "runq_steal E T (tdq_idle q) cpu = find (can_steal T cpu) (concat (rq_queues (tdq_idle q)))"
    using lin inv [of RQ_REALTIME] inv [of RQ_IDLE] by simp_all
  have ts: "td \<in> rq_elems (tdq_timeshare q) \<and> can_steal T cpu td"
    if td: "runq_steal_from E T (tdq_timeshare q) cpu (tdq_ridx q) = Some td" for td
    using steal_visited_mem [OF td [unfolded runq_steal_from_eq [OF assms(1)
        inv [of RQ_TIMESHARE, unfolded tdq_rq_simps] tdq_inv_idx(2) [OF assms(2)]]]]
    by (auto simp: rq_elems_def dest: in_set_dropD split: if_splits)
  show ?thesis
    unfolding tdq_steal_def rt id
    by (auto simp: tdq_elems_names rq_elems_def can_steal_def find_None_iff
        dest!: find_in ts split: option.splits)
qed

theorem tdq_steal_sound_witness:
  "case tdq_steal amd64_env (fst tdq_state2) (snd (snd tdq_state2)) 3 of
     Some td \<Rightarrow> td \<in> {130, 160}
   | None \<Rightarrow> \<forall>td \<in> rq_elems (tdq_realtime (snd (snd tdq_state2))). \<not> can_steal (fst tdq_state2) 3 td"
proof -
  obtain T S q where s: "tdq_state2 = (T, S, q)" by (cases tdq_state2)
  have inv: "tdq_inv amd64_env 0 (T, S, q)" and e: "tdq_elems q = {130, 160}"
    using tdq_state2 by (simp_all add: s tdq_ok_def)
  from tdq_steal_sound [OF rqenv_ok_amd64 inv, of 3] e show ?thesis
    unfolding s by (auto simp: can_steal_def split: option.splits)
qed

end
