(* ===== verification/Cpu_Search.thy ===== *)
theory Cpu_Search
  imports Tdq_Props
begin

section \<open>ULE: the search of the cpu topology\<close>

text \<open>
  \<open>cpu_search\<close> of \<^verbatim>\<open>sched_ule.c\<close> and the two searches built on it. The thread queues of all
  processors are the function \<open>tdqs\<close>; the state of the generator \<open>sched_random\<close> of the searching
  processor is passed along. The model follows the variant with \<^verbatim>\<open>HAVE_INLINE_FFSL\<close>, which
  visits the processors of a group in ascending order. A processor number of -1 is \<open>None\<close>.
\<close>

record cpu_search_s =
  cs_mask :: "cpuid set"
  cs_prefer :: "cpuid option"
  cs_pri :: int
  cs_limit :: int
  cs_cpu :: "cpuid option"
  cs_load :: int

definition INT_MAX :: int where
  "INT_MAX = 2147483647"

definition INT_MIN :: int where
  "INT_MIN = -2147483648"

text \<open>
  The local variables of \<open>cpu_search\<close> while it iterates: the total, \<open>lload\<close> and \<open>hload\<close>, what
  \<open>low\<close> and \<open>high\<close> point to, the copies \<open>lgroup\<close> and \<open>hgroup\<close>, and the random state.
\<close>

record search_state =
  ss_total :: int
  ss_lload :: int
  ss_hload :: int
  ss_low :: cpu_search_s
  ss_high :: cpu_search_s
  ss_lgroup :: cpu_search_s
  ss_hgroup :: cpu_search_s
  ss_rnd :: u32

text \<open>The \<^verbatim>\<open>match\<close> argument: \<^verbatim>\<open>CPU_SEARCH_LOWEST\<close> and \<^verbatim>\<open>CPU_SEARCH_HIGHEST\<close> are two flags.\<close>

record cs_match =
  CPU_SEARCH_LOWEST :: bool
  CPU_SEARCH_HIGHEST :: bool

definition search_start :: "cpu_search_s \<Rightarrow> cpu_search_s \<Rightarrow> u32 \<Rightarrow> search_state" where
  "search_start low high rnd =
     \<lparr>ss_total = 0, ss_lload = INT_MAX, ss_hload = INT_MIN, ss_low = low, ss_high = high,
      ss_lgroup = low, ss_hgroup = high, ss_rnd = rnd\<rparr>"

definition search_reset :: "cs_match \<Rightarrow> search_state \<Rightarrow> search_state" where
  "search_reset m st =
     st\<lparr>ss_lgroup := (if CPU_SEARCH_LOWEST m then (ss_lgroup st)\<lparr>cs_cpu := None\<rparr> else ss_lgroup st),
        ss_hgroup := (if CPU_SEARCH_HIGHEST m then (ss_hgroup st)\<lparr>cs_cpu := None\<rparr> else ss_hgroup st)\<rparr>"

text \<open>The comparison of lines 747 to 766 with what a child or a processor yielded.\<close>

definition search_compare :: "cs_match \<Rightarrow> int \<Rightarrow> search_state \<Rightarrow> search_state" where
  "search_compare m load st =
     (let st = st\<lparr>ss_total := ss_total st + load\<rparr>;
          st = (if CPU_SEARCH_LOWEST m \<and> cs_cpu (ss_lgroup st) \<noteq> None \<and>
                   (load < ss_lload st \<or>
                    (load = ss_lload st \<and> cs_load (ss_lgroup st) < cs_load (ss_low st)))
                then st\<lparr>ss_lload := load,
                        ss_low := (ss_low st)\<lparr>cs_cpu := cs_cpu (ss_lgroup st),
                                              cs_load := cs_load (ss_lgroup st)\<rparr>\<rparr>
                else st)
      in if CPU_SEARCH_HIGHEST m \<and> cs_cpu (ss_hgroup st) \<noteq> None \<and>
            (load > ss_hload st \<or>
             (load = ss_hload st \<and> cs_load (ss_hgroup st) > cs_load (ss_high st)))
         then st\<lparr>ss_hload := load,
                 ss_high := (ss_high st)\<lparr>cs_cpu := cs_cpu (ss_hgroup st),
                                         cs_load := cs_load (ss_hgroup st)\<rparr>\<rparr>
         else st)"

text \<open>One processor: its load, and whether it qualifies for the two searches.\<close>

definition search_cpu ::
  "(cpuid \<Rightarrow> ('w::len) tdq) \<Rightarrow> cs_match \<Rightarrow> cpuid \<Rightarrow> search_state \<Rightarrow> search_state" where
  "search_cpu tdqs m cpu st =
     (let st = search_reset m st;
          tdq = tdqs cpu;
          load = tdq_load tdq * 256;
          (rndptr, r) = sched_random (ss_rnd st);
          rnd = uint r mod 32;
          st = st\<lparr>ss_rnd := rndptr\<rparr>;
          load = (if CPU_SEARCH_LOWEST m \<and> Some cpu = cs_prefer (ss_low st) then load - 64 else load);
          st = (if CPU_SEARCH_LOWEST m \<and> uint (tdq_lowpri tdq) > cs_pri (ss_lgroup st) \<and>
                   tdq_load tdq \<le> cs_limit (ss_lgroup st) \<and> cpu \<in> cs_mask (ss_lgroup st)
                then st\<lparr>ss_lgroup := (ss_lgroup st)\<lparr>cs_cpu := Some cpu, cs_load := load - rnd\<rparr>\<rparr>
                else st);
          st = (if CPU_SEARCH_HIGHEST m \<and> tdq_load tdq \<ge> cs_limit (ss_hgroup st) \<and>
                   tdq_transferable tdq \<noteq> 0 \<and> cpu \<in> cs_mask (ss_hgroup st)
                then st\<lparr>ss_hgroup := (ss_hgroup st)\<lparr>cs_cpu := Some cpu, cs_load := load - rnd\<rparr>\<rparr>
                else st)
      in search_compare m load st)"

fun search_cpus ::
  "(cpuid \<Rightarrow> ('w::len) tdq) \<Rightarrow> cs_match \<Rightarrow> cpuid list \<Rightarrow> search_state \<Rightarrow> search_state" where
  "search_cpus tdqs m [] st = st"
| "search_cpus tdqs m (cpu # cpus) st = search_cpus tdqs m cpus (search_cpu tdqs m cpu st)"

text \<open>The processors of a group that belong to none of its children, in ascending order.\<close>

definition own_cpus :: "cpuid list \<Rightarrow> cpu_group list \<Rightarrow> cpuid list" where
  "own_cpus cmask children =
     sort (remdups (filter (\<lambda>cpu. \<forall>child\<in>set children. cpu \<notin> set (cg_mask child)) cmask))"

text \<open>
  \<open>cpu_search\<close> visits its children from the last to the first and then its own processors; the
  result is the total load, and the updated \<open>low\<close>, \<open>high\<close> and random state.
\<close>

fun cpu_search ::
  "(cpuid \<Rightarrow> ('w::len) tdq) \<Rightarrow> cs_match \<Rightarrow> cpu_group \<Rightarrow> cpu_search_s \<Rightarrow> cpu_search_s \<Rightarrow> u32 \<Rightarrow> search_state"
  and search_children ::
  "(cpuid \<Rightarrow> 'w tdq) \<Rightarrow> cs_match \<Rightarrow> cpu_group list \<Rightarrow> search_state \<Rightarrow> search_state" where
  "cpu_search tdqs m (CPU_GROUP cmask lvl flgs children) low high rnd =
     search_cpus tdqs m (own_cpus cmask children)
       (search_children tdqs m children (search_start low high rnd))"
| "search_children tdqs m [] st = st"
| "search_children tdqs m (child # before) st =
     (let st = search_reset m (search_children tdqs m before st);
          r = cpu_search tdqs m child (ss_lgroup st) (ss_hgroup st) (ss_rnd st)
      in search_compare m (ss_total r)
           (st\<lparr>ss_lgroup := ss_low r, ss_hgroup := ss_high r, ss_rnd := ss_rnd r\<rparr>))"

definition low_match :: cs_match where
  "low_match = \<lparr>CPU_SEARCH_LOWEST = True, CPU_SEARCH_HIGHEST = False\<rparr>"

definition high_match :: cs_match where
  "high_match = \<lparr>CPU_SEARCH_LOWEST = False, CPU_SEARCH_HIGHEST = True\<rparr>"

definition no_search :: cpu_search_s where
  "no_search = \<lparr>cs_mask = {}, cs_prefer = None, cs_pri = 0, cs_limit = 0, cs_cpu = None, cs_load = 0\<rparr>"

text \<open>
  The searches that use it. The field \<^verbatim>\<open>cs_load\<close> is not initialised in the code and not read
  before it is written.
\<close>

definition sched_lowest ::
  "(cpuid \<Rightarrow> ('w::len) tdq) \<Rightarrow> u32 \<Rightarrow> cpu_group \<Rightarrow> cpuid set \<Rightarrow> int \<Rightarrow> int \<Rightarrow> cpuid option \<Rightarrow>
   cpuid option \<times> u32" where
  "sched_lowest tdqs rnd cg msk pri maxload prefer =
     (let low = \<lparr>cs_mask = msk, cs_prefer = prefer, cs_pri = pri, cs_limit = maxload,
                 cs_cpu = None, cs_load = 0\<rparr>;
          r = cpu_search tdqs low_match cg low no_search rnd
      in (cs_cpu (ss_low r), ss_rnd r))"

definition sched_highest ::
  "(cpuid \<Rightarrow> ('w::len) tdq) \<Rightarrow> u32 \<Rightarrow> cpu_group \<Rightarrow> cpuid set \<Rightarrow> int \<Rightarrow> cpuid option \<times> u32" where
  "sched_highest tdqs rnd cg msk minload =
     (let high = \<lparr>cs_mask = msk, cs_prefer = None, cs_pri = 0, cs_limit = minload,
                  cs_cpu = None, cs_load = 0\<rparr>;
          r = cpu_search tdqs high_match cg no_search high rnd
      in (cs_cpu (ss_high r), ss_rnd r))"

subsection \<open>The processors a search visits\<close>

fun group_cpus :: "cpu_group \<Rightarrow> cpuid list" and children_cpus :: "cpu_group list \<Rightarrow> cpuid list" where
  "group_cpus (CPU_GROUP cmask lvl flgs children) = children_cpus children @ own_cpus cmask children"
| "children_cpus [] = []"
| "children_cpus (child # before) = children_cpus before @ group_cpus child"

text \<open>
  What one of the two searches keeps while it visits the processors \<open>cpus\<close>: the candidate is a
  processor among them that qualifies, and there is one as soon as one of them qualifies.
\<close>

definition found_inv :: "(cpuid \<Rightarrow> bool) \<Rightarrow> cpuid list \<Rightarrow> cpuid option \<Rightarrow> bool" where
  "found_inv good cpus r \<longleftrightarrow> (case r of
     None \<Rightarrow> \<forall>cpu\<in>set cpus. \<not> good cpu
   | Some cpu \<Rightarrow> cpu \<in> set cpus \<and> good cpu)"

lemma found_inv_append:
  "found_inv good xs a \<Longrightarrow> found_inv good ys b \<Longrightarrow>
   (b \<noteq> None \<and> a = None \<longrightarrow> r = b) \<Longrightarrow> (b = None \<longrightarrow> r = a) \<Longrightarrow> r = a \<or> r = b \<Longrightarrow>
   found_inv good (xs @ ys) r"
  by (auto simp: found_inv_def split: option.splits)

definition qualifies_low :: "(cpuid \<Rightarrow> ('w::len) tdq) \<Rightarrow> cpu_search_s \<Rightarrow> cpuid \<Rightarrow> bool" where
  "qualifies_low tdqs low cpu \<longleftrightarrow> uint (tdq_lowpri (tdqs cpu)) > cs_pri low \<and>
     tdq_load (tdqs cpu) \<le> cs_limit low \<and> cpu \<in> cs_mask low"

definition qualifies_high :: "(cpuid \<Rightarrow> ('w::len) tdq) \<Rightarrow> cpu_search_s \<Rightarrow> cpuid \<Rightarrow> bool" where
  "qualifies_high tdqs high cpu \<longleftrightarrow> tdq_load (tdqs cpu) \<ge> cs_limit high \<and>
     tdq_transferable (tdqs cpu) \<noteq> 0 \<and> cpu \<in> cs_mask high"

text \<open>The loads stay far from the bounds of \<^verbatim>\<open>int\<close> for fewer than 2\<open>^\<close>20 threads per processor.\<close>

definition loads_ok :: "(cpuid \<Rightarrow> ('w::len) tdq) \<Rightarrow> cpuid list \<Rightarrow> bool" where
  "loads_ok tdqs cpus \<longleftrightarrow> (\<forall>cpu\<in>set cpus. 0 \<le> tdq_load (tdqs cpu)) \<and>
     (\<Sum>cpu\<leftarrow>cpus. tdq_load (tdqs cpu) * 256 + 64) < INT_MAX"

lemma loads_sum_nonneg:
  "\<forall>cpu\<in>set cpus. 0 \<le> tdq_load (tdqs cpu) \<Longrightarrow> 0 \<le> (\<Sum>cpu\<leftarrow>cpus. tdq_load (tdqs cpu) * 256 + 64)"
  by (rule sum_list_nonneg) auto

lemma loads_ok_append: "loads_ok tdqs (xs @ ys) \<Longrightarrow> loads_ok tdqs xs \<and> loads_ok tdqs ys"
  using loads_sum_nonneg [of xs tdqs] loads_sum_nonneg [of ys tdqs] by (auto simp: loads_ok_def)

lemma loads_ok_Cons: "loads_ok tdqs (x # xs) \<Longrightarrow> loads_ok tdqs [x] \<and> loads_ok tdqs xs"
  using loads_ok_append [of tdqs "[x]" xs] by simp

text \<open>The total of a search is bounded by the loads of the processors it visits.\<close>

definition total_bounds :: "(cpuid \<Rightarrow> ('w::len) tdq) \<Rightarrow> cpuid list \<Rightarrow> int \<Rightarrow> bool" where
  "total_bounds tdqs cpus t \<longleftrightarrow>
     (\<Sum>cpu\<leftarrow>cpus. tdq_load (tdqs cpu) * 256 - 64) \<le> t \<and> t \<le> (\<Sum>cpu\<leftarrow>cpus. tdq_load (tdqs cpu) * 256)"

lemma search_compare_total [simp]: "ss_total (search_compare m load st) = ss_total st + load"
  by (simp add: search_compare_def Let_def)

lemma search_reset_total [simp]: "ss_total (search_reset m st) = ss_total st"
  by (simp add: search_reset_def)

lemma search_cpu_total:
  "\<exists>load. ss_total (search_cpu tdqs m cpu st) = ss_total st + load \<and>
     tdq_load (tdqs cpu) * 256 - 64 \<le> load \<and> load \<le> tdq_load (tdqs cpu) * 256"
  by (auto simp: search_cpu_def Let_def split: prod.splits)

lemma search_cpus_total:
  "total_bounds tdqs cpus (ss_total (search_cpus tdqs m cpus st) - ss_total st)"
proof (induction tdqs m cpus st rule: search_cpus.induct)
  case (1 tdqs m st)
  then show ?case by (simp add: total_bounds_def)
next
  case (2 tdqs m cpu cpus st)
  obtain load where "ss_total (search_cpu tdqs m cpu st) = ss_total st + load"
    "tdq_load (tdqs cpu) * 256 - 64 \<le> load" "load \<le> tdq_load (tdqs cpu) * 256"
    using search_cpu_total by blast
  with 2 show ?case by (simp add: total_bounds_def)
qed

lemma search_total:
  "total_bounds tdqs (group_cpus cg) (ss_total (cpu_search tdqs m cg low high rnd))"
  "total_bounds tdqs (children_cpus cgs) (ss_total (search_children tdqs m cgs st) - ss_total st)"
proof (induction tdqs m cg low high rnd and tdqs m cgs st rule: cpu_search_search_children.induct)
  case (1 tdqs m cmask lvl flgs children low high rnd)
  then show ?case
    using search_cpus_total [of tdqs "own_cpus cmask children" m
        "search_children tdqs m children (search_start low high rnd)"]
    by (simp add: total_bounds_def search_start_def)
next
  case (2 tdqs m st)
  then show ?case by (simp add: total_bounds_def)
next
  case (3 tdqs m child before st)
  then show ?case by (simp add: total_bounds_def Let_def)
qed

lemma total_in_range:
  assumes "total_bounds tdqs cpus t" "loads_ok tdqs cpus"
  shows "t < INT_MAX" "INT_MIN < t"
proof -
  have "(\<Sum>cpu\<leftarrow>cpus. tdq_load (tdqs cpu) * 256) \<le> (\<Sum>cpu\<leftarrow>cpus. tdq_load (tdqs cpu) * 256 + 64)"
    by (rule sum_list_mono) simp
  then show "t < INT_MAX" using assms by (simp add: total_bounds_def loads_ok_def)
  have "(\<Sum>cpu\<leftarrow>cpus. - (tdq_load (tdqs cpu) * 256 + 64)) \<le> (\<Sum>cpu\<leftarrow>cpus. tdq_load (tdqs cpu) * 256 - 64)"
    using assms(2) by (intro sum_list_mono) (auto simp: loads_ok_def)
  moreover have "(\<Sum>cpu\<leftarrow>cpus. - (tdq_load (tdqs cpu) * 256 + 64)) = - (\<Sum>cpu\<leftarrow>cpus. tdq_load (tdqs cpu) * 256 + 64)"
    by (induction cpus) auto
  ultimately show "INT_MIN < t"
    using assms by (simp add: total_bounds_def loads_ok_def INT_MIN_def INT_MAX_def)
qed

subsection \<open>The lowest search finds a qualifying processor whenever there is one\<close>

definition low_static :: "cpu_search_s \<Rightarrow> cpu_search_s \<Rightarrow> bool" where
  "low_static low l \<longleftrightarrow> cs_mask l = cs_mask low \<and> cs_pri l = cs_pri low \<and> cs_limit l = cs_limit low"

definition low_inv ::
  "(cpuid \<Rightarrow> ('w::len) tdq) \<Rightarrow> cpu_search_s \<Rightarrow> cpuid list \<Rightarrow> search_state \<Rightarrow> bool" where
  "low_inv tdqs low cpus st \<longleftrightarrow> low_static low (ss_low st) \<and> low_static low (ss_lgroup st) \<and>
     found_inv (qualifies_low tdqs low) cpus (cs_cpu (ss_low st)) \<and>
     (cs_cpu (ss_low st) = None \<longrightarrow> ss_lload st = INT_MAX)"

lemma qualifies_low_static: "low_static low l \<Longrightarrow> qualifies_low tdqs l = qualifies_low tdqs low"
  by (simp add: low_static_def qualifies_low_def fun_eq_iff)

lemma low_compare:
  assumes "CPU_SEARCH_LOWEST m" "low_inv tdqs low xs st" "load < INT_MAX"
    and "found_inv (qualifies_low tdqs low) ys (cs_cpu (ss_lgroup st))"
  shows "low_inv tdqs low (xs @ ys) (search_compare m load st)"
  using assms
  by (cases "cs_cpu (ss_low st)"; cases "cs_cpu (ss_lgroup st)")
    (auto simp: low_inv_def low_static_def search_compare_def Let_def found_inv_def)

lemma low_reset:
  "low_inv tdqs low xs st \<Longrightarrow> low_inv tdqs low xs (search_reset m st)"
  "CPU_SEARCH_LOWEST m \<Longrightarrow> cs_cpu (ss_lgroup (search_reset m st)) = None"
  by (auto simp: low_inv_def search_reset_def low_static_def)

lemma low_cpu:
  assumes "CPU_SEARCH_LOWEST m" "low_inv tdqs low xs st" "loads_ok tdqs [cpu]"
  shows "low_inv tdqs low (xs @ [cpu]) (search_cpu tdqs m cpu st)"
proof -
  have load: "tdq_load (tdqs cpu) * 256 < INT_MAX" "tdq_load (tdqs cpu) * 256 - 64 < INT_MAX"
    using assms(3) by (auto simp: loads_ok_def)
  have inv: "low_inv tdqs low xs (search_reset m st)" by (rule low_reset(1) [OF assms(2)])
  then have st: "low_static low (ss_lgroup (search_reset m st))" by (simp add: low_inv_def)
  show ?thesis
    unfolding search_cpu_def Let_def prod.case_eq_if
    using inv st load assms(1) low_reset(2) [OF assms(1), of st]
    by (intro low_compare)
      (auto simp: low_inv_def low_static_def found_inv_def qualifies_low_def)
qed

lemma low_cpus:
  assumes "CPU_SEARCH_LOWEST m"
  shows "low_inv tdqs low xs st \<Longrightarrow> loads_ok tdqs cpus \<Longrightarrow> low_inv tdqs low (xs @ cpus) (search_cpus tdqs m cpus st)"
proof (induction cpus arbitrary: xs st)
  case Nil
  then show ?case by simp
next
  case (Cons cpu cpus)
  from loads_ok_Cons [OF Cons.prems(2)] have "loads_ok tdqs [cpu]" "loads_ok tdqs cpus" by auto
  with Cons.IH [OF low_cpu [OF assms Cons.prems(1)]] show ?case by simp
qed

lemma low_search:
  "CPU_SEARCH_LOWEST m \<Longrightarrow> cs_cpu low = None \<Longrightarrow> loads_ok tdqs (group_cpus cg) \<Longrightarrow>
    low_inv tdqs low (group_cpus cg) (cpu_search tdqs m cg low high rnd)"
  "CPU_SEARCH_LOWEST m \<Longrightarrow> low_inv tdqs l xs st \<Longrightarrow> loads_ok tdqs (children_cpus cgs) \<Longrightarrow>
    low_inv tdqs l (xs @ children_cpus cgs) (search_children tdqs m cgs st)"
proof (induction tdqs m cg low high rnd and tdqs m cgs st arbitrary: and l xs
    rule: cpu_search_search_children.induct)
  case (1 tdqs m cmask lvl flgs children low high rnd)
  have "low_inv tdqs low [] (search_start low high rnd)"
    using 1(3) by (simp add: low_inv_def search_start_def low_static_def found_inv_def)
  moreover have "loads_ok tdqs (children_cpus children)" "loads_ok tdqs (own_cpus cmask children)"
    using loads_ok_append 1(4) by auto
  ultimately have "low_inv tdqs low (children_cpus children) (search_children tdqs m children (search_start low high rnd))"
    using 1(1) [OF 1(2), of low "[]"] by simp
  from low_cpus [OF 1(2) this \<open>loads_ok tdqs (own_cpus cmask children)\<close>] show ?case by simp
next
  case (2 tdqs m st)
  then show ?case by simp
next
  case (3 tdqs m child before st)
  have ok: "loads_ok tdqs (children_cpus before)" "loads_ok tdqs (group_cpus child)"
    using loads_ok_append 3(5) by auto
  let ?st = "search_reset m (search_children tdqs m before st)"
  let ?r = "cpu_search tdqs m child (ss_lgroup ?st) (ss_hgroup ?st) (ss_rnd ?st)"
  have inv: "low_inv tdqs l (xs @ children_cpus before) ?st"
    using 3(1) [OF 3(3,4) ok(1)] by (rule low_reset(1))
  have none: "cs_cpu (ss_lgroup ?st) = None" by (rule low_reset(2) [OF 3(3)])
  have r: "low_inv tdqs (ss_lgroup ?st) (group_cpus child) ?r"
    by (rule 3(2) [OF refl 3(3) none ok(2)])
  have st: "low_static l (ss_lgroup ?st)" using inv by (simp add: low_inv_def)
  have "ss_total ?r < INT_MAX" by (rule total_in_range(1) [OF search_total(1) ok(2)])
  moreover have "low_inv tdqs l (xs @ children_cpus before)
      (?st\<lparr>ss_lgroup := ss_low ?r, ss_hgroup := ss_high ?r, ss_rnd := ss_rnd ?r\<rparr>)"
    using inv r st by (simp add: low_inv_def low_static_def)
  ultimately show ?case
    using low_compare [OF 3(3), of tdqs l "xs @ children_cpus before"
        "?st\<lparr>ss_lgroup := ss_low ?r, ss_hgroup := ss_high ?r, ss_rnd := ss_rnd ?r\<rparr>" "ss_total ?r"
        "group_cpus child"] r qualifies_low_static [OF st, of tdqs]
    by (simp add: Let_def low_inv_def)
qed

subsection \<open>The highest search finds a qualifying processor whenever there is one\<close>

definition high_static :: "cpu_search_s \<Rightarrow> cpu_search_s \<Rightarrow> bool" where
  "high_static low l \<longleftrightarrow> cs_mask l = cs_mask low \<and> cs_limit l = cs_limit low"

definition high_inv ::
  "(cpuid \<Rightarrow> ('w::len) tdq) \<Rightarrow> cpu_search_s \<Rightarrow> cpuid list \<Rightarrow> search_state \<Rightarrow> bool" where
  "high_inv tdqs low cpus st \<longleftrightarrow> high_static low (ss_high st) \<and> high_static low (ss_hgroup st) \<and>
     found_inv (qualifies_high tdqs low) cpus (cs_cpu (ss_high st)) \<and>
     (cs_cpu (ss_high st) = None \<longrightarrow> ss_hload st = INT_MIN)"

lemma qualifies_high_static: "high_static low l \<Longrightarrow> qualifies_high tdqs l = qualifies_high tdqs low"
  by (simp add: high_static_def qualifies_high_def fun_eq_iff)

lemma high_compare:
  assumes "CPU_SEARCH_HIGHEST m" "high_inv tdqs low xs st" "INT_MIN < load"
    and "found_inv (qualifies_high tdqs low) ys (cs_cpu (ss_hgroup st))"
  shows "high_inv tdqs low (xs @ ys) (search_compare m load st)"
  using assms
  by (cases "cs_cpu (ss_high st)"; cases "cs_cpu (ss_hgroup st)")
    (auto simp: high_inv_def high_static_def search_compare_def Let_def found_inv_def)

lemma high_reset:
  "high_inv tdqs low xs st \<Longrightarrow> high_inv tdqs low xs (search_reset m st)"
  "CPU_SEARCH_HIGHEST m \<Longrightarrow> cs_cpu (ss_hgroup (search_reset m st)) = None"
  by (auto simp: high_inv_def search_reset_def high_static_def)

lemma high_cpu:
  assumes "CPU_SEARCH_HIGHEST m" "high_inv tdqs low xs st" "loads_ok tdqs [cpu]"
  shows "high_inv tdqs low (xs @ [cpu]) (search_cpu tdqs m cpu st)"
proof -
  have load: "INT_MIN < tdq_load (tdqs cpu) * 256" "INT_MIN < tdq_load (tdqs cpu) * 256 - 64"
    using assms(3) by (auto simp: loads_ok_def INT_MIN_def)
  have inv: "high_inv tdqs low xs (search_reset m st)" by (rule high_reset(1) [OF assms(2)])
  then have st: "high_static low (ss_hgroup (search_reset m st))" by (simp add: high_inv_def)
  show ?thesis
    unfolding search_cpu_def Let_def prod.case_eq_if
    using inv st load assms(1) high_reset(2) [OF assms(1), of st]
    by (intro high_compare)
      (auto simp: high_inv_def high_static_def found_inv_def qualifies_high_def)
qed

lemma high_cpus:
  assumes "CPU_SEARCH_HIGHEST m"
  shows "high_inv tdqs low xs st \<Longrightarrow> loads_ok tdqs cpus \<Longrightarrow> high_inv tdqs low (xs @ cpus) (search_cpus tdqs m cpus st)"
proof (induction cpus arbitrary: xs st)
  case Nil
  then show ?case by simp
next
  case (Cons cpu cpus)
  from loads_ok_Cons [OF Cons.prems(2)] have "loads_ok tdqs [cpu]" "loads_ok tdqs cpus" by auto
  with Cons.IH [OF high_cpu [OF assms Cons.prems(1)]] show ?case by simp
qed

lemma high_search:
  "CPU_SEARCH_HIGHEST m \<Longrightarrow> cs_cpu high = None \<Longrightarrow> loads_ok tdqs (group_cpus cg) \<Longrightarrow>
    high_inv tdqs high (group_cpus cg) (cpu_search tdqs m cg low high rnd)"
  "CPU_SEARCH_HIGHEST m \<Longrightarrow> high_inv tdqs l xs st \<Longrightarrow> loads_ok tdqs (children_cpus cgs) \<Longrightarrow>
    high_inv tdqs l (xs @ children_cpus cgs) (search_children tdqs m cgs st)"
proof (induction tdqs m cg low high rnd and tdqs m cgs st arbitrary: and l xs
    rule: cpu_search_search_children.induct)
  case (1 tdqs m cmask lvl flgs children low high rnd)
  have "high_inv tdqs high [] (search_start low high rnd)"
    using 1(3) by (simp add: high_inv_def search_start_def high_static_def found_inv_def)
  moreover have "loads_ok tdqs (children_cpus children)" "loads_ok tdqs (own_cpus cmask children)"
    using loads_ok_append 1(4) by auto
  ultimately have "high_inv tdqs high (children_cpus children) (search_children tdqs m children (search_start low high rnd))"
    using 1(1) [OF 1(2), of high "[]"] by simp
  from high_cpus [OF 1(2) this \<open>loads_ok tdqs (own_cpus cmask children)\<close>] show ?case by simp
next
  case (2 tdqs m st)
  then show ?case by simp
next
  case (3 tdqs m child before st)
  have ok: "loads_ok tdqs (children_cpus before)" "loads_ok tdqs (group_cpus child)"
    using loads_ok_append 3(5) by auto
  let ?st = "search_reset m (search_children tdqs m before st)"
  let ?r = "cpu_search tdqs m child (ss_lgroup ?st) (ss_hgroup ?st) (ss_rnd ?st)"
  have inv: "high_inv tdqs l (xs @ children_cpus before) ?st"
    using 3(1) [OF 3(3,4) ok(1)] by (rule high_reset(1))
  have none: "cs_cpu (ss_hgroup ?st) = None" by (rule high_reset(2) [OF 3(3)])
  have r: "high_inv tdqs (ss_hgroup ?st) (group_cpus child) ?r"
    by (rule 3(2) [OF refl 3(3) none ok(2)])
  have st: "high_static l (ss_hgroup ?st)" using inv by (simp add: high_inv_def)
  have "INT_MIN < ss_total ?r" by (rule total_in_range(2) [OF search_total(1) ok(2)])
  moreover have "high_inv tdqs l (xs @ children_cpus before)
      (?st\<lparr>ss_lgroup := ss_low ?r, ss_hgroup := ss_high ?r, ss_rnd := ss_rnd ?r\<rparr>)"
    using inv r st by (simp add: high_inv_def high_static_def)
  ultimately show ?case
    using high_compare [OF 3(3), of tdqs l "xs @ children_cpus before"
        "?st\<lparr>ss_lgroup := ss_low ?r, ss_hgroup := ss_high ?r, ss_rnd := ss_rnd ?r\<rparr>" "ss_total ?r"
        "group_cpus child"] r qualifies_high_static [OF st, of tdqs]
    by (simp add: Let_def high_inv_def)
qed

subsection \<open>The two searches\<close>

lemma sched_lowest_spec:
  assumes "loads_ok tdqs (group_cpus cg)"
  shows "case fst (sched_lowest tdqs rnd cg msk pri maxload pref) of
      None \<Rightarrow> \<forall>cpu\<in>set (group_cpus cg). \<not> (pri < uint (tdq_lowpri (tdqs cpu)) \<and>
        tdq_load (tdqs cpu) \<le> maxload \<and> cpu \<in> msk)
    | Some cpu \<Rightarrow> cpu \<in> set (group_cpus cg) \<and> pri < uint (tdq_lowpri (tdqs cpu)) \<and>
        tdq_load (tdqs cpu) \<le> maxload \<and> cpu \<in> msk"
proof -
  define low where "low = \<lparr>cs_mask = msk, cs_prefer = pref, cs_pri = pri, cs_limit = maxload,
    cs_cpu = None, cs_load = 0\<rparr>"
  have "low_inv tdqs low (group_cpus cg) (cpu_search tdqs low_match cg low no_search rnd)"
    by (rule low_search(1)) (simp_all add: low_match_def low_def assms)
  then show ?thesis
    by (auto simp: sched_lowest_def Let_def low_def low_inv_def found_inv_def qualifies_low_def split: option.splits)
qed

lemma sched_highest_spec:
  assumes "loads_ok tdqs (group_cpus cg)"
  shows "case fst (sched_highest tdqs rnd cg msk minload) of
      None \<Rightarrow> \<forall>cpu\<in>set (group_cpus cg). \<not> (minload \<le> tdq_load (tdqs cpu) \<and>
        tdq_transferable (tdqs cpu) \<noteq> 0 \<and> cpu \<in> msk)
    | Some cpu \<Rightarrow> cpu \<in> set (group_cpus cg) \<and> minload \<le> tdq_load (tdqs cpu) \<and>
        tdq_transferable (tdqs cpu) \<noteq> 0 \<and> cpu \<in> msk"
proof -
  define high where "high = \<lparr>cs_mask = msk, cs_prefer = None, cs_pri = 0, cs_limit = minload,
    cs_cpu = None, cs_load = 0\<rparr>"
  have "high_inv tdqs high (group_cpus cg) (cpu_search tdqs high_match cg no_search high rnd)"
    by (rule high_search(1)) (simp_all add: high_match_def high_def assms)
  then show ?thesis
    by (auto simp: sched_highest_def Let_def high_def high_inv_def found_inv_def qualifies_high_def split: option.splits)
qed

text \<open>
  C31. The searches of the cpu topology are sound and complete: \<open>sched_lowest\<close> returns a processor
  of the group and of the mask whose lowest priority is worse than \<open>pri\<close> and whose load is at
  most \<open>maxload\<close>, \<open>sched_highest\<close> one of the mask with at least the load \<open>minload\<close> and a
  transferable thread, and either returns -1 only when the group has no such processor, whatever
  the random numbers and however the groups are nested.
\<close>

theorem cpu_search_sound_complete:
  assumes "\<forall>cpu\<in>set (group_cpus cg). 0 \<le> tdq_load (tdqs cpu)"
    and "(\<Sum>cpu\<leftarrow>group_cpus cg. tdq_load (tdqs cpu) * 256 + 64) < INT_MAX"
  shows "(case fst (sched_lowest tdqs rnd cg msk pri maxload pref) of
      None \<Rightarrow> \<forall>cpu\<in>set (group_cpus cg). \<not> (pri < uint (tdq_lowpri (tdqs cpu)) \<and>
        tdq_load (tdqs cpu) \<le> maxload \<and> cpu \<in> msk)
    | Some cpu \<Rightarrow> cpu \<in> set (group_cpus cg) \<and> pri < uint (tdq_lowpri (tdqs cpu)) \<and>
        tdq_load (tdqs cpu) \<le> maxload \<and> cpu \<in> msk) \<and>
    (case fst (sched_highest tdqs rnd cg msk minload) of
      None \<Rightarrow> \<forall>cpu\<in>set (group_cpus cg). \<not> (minload \<le> tdq_load (tdqs cpu) \<and>
        tdq_transferable (tdqs cpu) \<noteq> 0 \<and> cpu \<in> msk)
    | Some cpu \<Rightarrow> cpu \<in> set (group_cpus cg) \<and> minload \<le> tdq_load (tdqs cpu) \<and>
        tdq_transferable (tdqs cpu) \<noteq> 0 \<and> cpu \<in> msk)"
proof -
  have "loads_ok tdqs (group_cpus cg)" using assms by (simp add: loads_ok_def)
  from sched_lowest_spec [OF this] sched_highest_spec [OF this] show ?thesis by blast
qed

text \<open>Two packages of two processors each.\<close>

definition topology4 :: cpu_group where
  "topology4 = CPU_GROUP [0, 1, 2, 3] 0 [] [CPU_GROUP [0, 1] 3 [] [], CPU_GROUP [2, 3] 3 [] []]"

lemma topology4_cpus: "set (group_cpus topology4) = {0, 1, 2, 3}" "length (group_cpus topology4) = 4"
  by (auto simp: topology4_def own_cpus_def)

theorem cpu_search_sound_complete_witness:
  "\<exists>cpu. fst (sched_lowest (\<lambda>cpu. tdq0\<lparr>tdq_load := int cpu, tdq_lowpri := 255, tdq_transferable := 1\<rparr>)
      7 topology4 {2, 3} 100 5 None) = Some cpu \<and> cpu \<in> {2, 3}"
proof -
  let ?tdqs = "\<lambda>cpu. tdq0\<lparr>tdq_load := int cpu, tdq_lowpri := 255, tdq_transferable := 1\<rparr>"
  have "(\<Sum>cpu\<leftarrow>group_cpus topology4. tdq_load (?tdqs cpu) * 256 + 64) < INT_MAX"
    by (simp add: topology4_def own_cpus_def INT_MAX_def)
  from cpu_search_sound_complete [OF _ this, where rnd = 7 and msk = "{2, 3}" and pri = 100 and maxload = 5 and pref = None and minload = 0] show ?thesis
    by (auto simp: topology4_cpus split: option.splits)
qed

end
