(* ===== verification/Kernel.thy ===== *)
theory Kernel
  imports Tdq_Steal Cpu_Search "HOL-Library.Monad_Syntax"
begin

section \<open>The state of the scheduler on all processors\<close>

text \<open>
  What the functions of \<^verbatim>\<open>sched_ule.c\<close> that work on more than one thread queue share: the thread
  store, the scheduler fields, the processes, the array \<^verbatim>\<open>tdq_cpu\<close> of thread queues, the running
  thread of every processor, and the static variables. The processor that executes a function
  (\<^verbatim>\<open>PCPU_GET(cpuid)\<close>) is its argument \<open>self\<close>. \<^verbatim>\<open>k_ipis\<close> records the interrupts sent.

  What is not in the source is a field of the environment \<^verbatim>\<open>kenv\<close>: the headers, the topology
  the machine reports, \<^verbatim>\<open>cpu_idle_wakeup\<close>, \<^verbatim>\<open>cpu_idle\<close>, \<^verbatim>\<open>turnstile_adjust\<close>, \<^verbatim>\<open>mi_switch\<close>,
  \<^verbatim>\<open>cpu_switch\<close>, and \<open>ke_others n\<close>, what the other processors do while this one holds no lock
  for the \<open>n\<close>-th time; \<open>k_now\<close> counts these points.

  A result in \<^typ>\<open>'a option\<close> is \<open>None\<close> where the code divides by zero, dereferences a null
  pointer or does not return.
\<close>

datatype sw_flag =
    SW_VOL | SW_INVOL | SW_PREEMPT | SWT_IDLE | SWT_OWEPREEMPT | SWT_RELINQUISH
  | SWT_REMOTEPREEMPT | SWT_REMOTEWAKEIDLE

record (overloaded) ('w::len) ksys =
  k_threads :: threads
  k_sched :: tscheds
  k_procs :: "pid \<Rightarrow> proc"
  k_tdq :: "cpuid \<Rightarrow> 'w tdq"
  k_curthread :: "cpuid \<Rightarrow> tid"
  k_idlethread :: "cpuid \<Rightarrow> tid"
  k_ticks :: u32
  k_random :: "cpuid \<Rightarrow> u32"
  k_balance_ticks :: u32
  k_balance_tdq :: cpuid
  k_smp_started :: bool
  k_panicstr :: bool
  k_cold :: bool
  k_ipis :: "cpuid list"
  k_now :: nat

record (overloaded) ('w::len) kenv =
  ke_rq :: "'w rqenv"
  ke_pri :: pri_env
  ke_conf :: ule_conf
  ke_cpus :: "cpuid list"
  ke_mp_maxid :: cpuid
  ke_CPU_SETSIZE :: nat
  ke_CG_SHARE_L2 :: nat
  ke_cpu_top :: cpu_group
  ke_topo_find :: "cpu_group \<Rightarrow> cpuid \<Rightarrow> cpu_group list"
  ke_idle_wakeup :: "'w ksys \<Rightarrow> cpuid \<Rightarrow> bool"
  ke_cpu_idle :: "cpuid \<Rightarrow> bool \<Rightarrow> 'w ksys \<Rightarrow> 'w ksys"
  ke_turnstile_adjust :: "tid \<Rightarrow> u8 \<Rightarrow> 'w ksys \<Rightarrow> 'w ksys"
  ke_mi_switch :: "cpuid \<Rightarrow> sw_flag set \<Rightarrow> 'w ksys \<Rightarrow> 'w ksys"
  ke_cpu_switch :: "cpuid \<Rightarrow> tid \<Rightarrow> tid \<Rightarrow> 'w ksys \<Rightarrow> cpuid \<times> 'w ksys"
  ke_others :: "nat \<Rightarrow> 'w ksys \<Rightarrow> 'w ksys"

subsection \<open>Reading and writing it\<close>

definition upd_thread :: "tid \<Rightarrow> (thread \<Rightarrow> thread) \<Rightarrow> ('w::len) ksys \<Rightarrow> 'w ksys" where
  "upd_thread td f s = s\<lparr>k_threads := (k_threads s)(td := f (k_threads s td))\<rparr>"

definition upd_sched :: "tid \<Rightarrow> (td_sched \<Rightarrow> td_sched) \<Rightarrow> ('w::len) ksys \<Rightarrow> 'w ksys" where
  "upd_sched td f s = s\<lparr>k_sched := (k_sched s)(td := f (k_sched s td))\<rparr>"

definition upd_tdq :: "cpuid \<Rightarrow> (('w::len) tdq \<Rightarrow> 'w tdq) \<Rightarrow> 'w ksys \<Rightarrow> 'w ksys" where
  "upd_tdq c f s = s\<lparr>k_tdq := (k_tdq s)(c := f (k_tdq s c))\<rparr>"

text \<open>An operation of one thread queue, applied to the queue of processor \<open>c\<close>.\<close>

definition tdq_view :: "cpuid \<Rightarrow> ('w::len) ksys \<Rightarrow> 'w tdq_state" where
  "tdq_view c s = (k_threads s, k_sched s, k_tdq s c)"

definition tdq_put :: "cpuid \<Rightarrow> ('w::len) tdq_state \<Rightarrow> 'w ksys \<Rightarrow> 'w ksys" where
  "tdq_put c st s = (case st of (T, S, q) \<Rightarrow>
     s\<lparr>k_threads := T, k_sched := S, k_tdq := (k_tdq s)(c := q)\<rparr>)"

definition on_tdq :: "cpuid \<Rightarrow> (('w::len) tdq_state \<Rightarrow> 'w tdq_state) \<Rightarrow> 'w ksys \<Rightarrow> 'w ksys" where
  "on_tdq c f s = tdq_put c (f (tdq_view c s)) s"

text \<open>The other processors run for a while.\<close>

definition others_run :: "('w::len) kenv \<Rightarrow> 'w ksys \<Rightarrow> 'w ksys" where
  "others_run K s = (ke_others K (k_now s) s)\<lparr>k_now := Suc (k_now s)\<rparr>"

definition CPU_FILL :: "('w::len) kenv \<Rightarrow> cpuid set" where
  "CPU_FILL K = {0..<ke_CPU_SETSIZE K}"

definition cpu_sched_random :: "cpuid \<Rightarrow> ('w::len) ksys \<Rightarrow> u32 \<times> 'w ksys" where
  "cpu_sched_random self s =
     (let (rnd, r) = sched_random (k_random s self)
      in (r, s\<lparr>k_random := (k_random s)(self := rnd)\<rparr>))"

definition find_highest ::
  "cpuid \<Rightarrow> cpu_group \<Rightarrow> cpuid set \<Rightarrow> int \<Rightarrow> ('w::len) ksys \<Rightarrow> cpuid option \<times> 'w ksys" where
  "find_highest self cg msk minload s =
     (let (cpu, rnd) = sched_highest (k_tdq s) (k_random s self) cg msk minload
      in (cpu, s\<lparr>k_random := (k_random s)(self := rnd)\<rparr>))"

definition find_lowest ::
  "cpuid \<Rightarrow> cpu_group \<Rightarrow> cpuid set \<Rightarrow> int \<Rightarrow> int \<Rightarrow> cpuid option \<Rightarrow> ('w::len) ksys \<Rightarrow>
   cpuid option \<times> 'w ksys" where
  "find_lowest self cg msk pri maxload prefer s =
     (let (cpu, rnd) = sched_lowest (k_tdq s) (k_random s self) cg msk pri maxload prefer
      in (cpu, s\<lparr>k_random := (k_random s)(self := rnd)\<rparr>))"

end
