(* ===== verification/Ule_Smp.thy ===== *)
theory Ule_Smp
  imports Kernel
begin

section \<open>ULE: moving threads between processors\<close>

text \<open>
  Removing and adding on the queue of any processor, moving a thread, notifying a processor of
  new work, the long-term balancer and the two ways in which a processor that runs out of work
  steals from another. A function that holds no lock while it searches lets the other
  processors run at that point (\<open>others_run\<close>).
\<close>

subsection \<open>Removing, adding, moving and notifying\<close>

definition kern_sched_rem :: "('w::len) kenv \<Rightarrow> tid \<Rightarrow> 'w ksys \<Rightarrow> 'w ksys" where
  "kern_sched_rem K td s =
     (let c = ts_cpu (k_sched s td)
      in on_tdq c (\<lambda>st. sched_rem (ke_rq K) st td (k_curthread s c)) s)"

definition kern_runq_add ::
  "('w::len) kenv \<Rightarrow> cpuid \<Rightarrow> tid \<Rightarrow> srq_flag set \<Rightarrow> 'w ksys \<Rightarrow> 'w ksys" where
  "kern_runq_add K c td flags s =
     on_tdq c (\<lambda>st. tdq_runq_add (ke_rq K) (ke_pri K) c st td flags) s"

definition kern_tdq_add :: "('w::len) kenv \<Rightarrow> cpuid \<Rightarrow> tid \<Rightarrow> srq_flag set \<Rightarrow> 'w ksys \<Rightarrow> 'w ksys" where
  "kern_tdq_add K c td flags s =
     on_tdq c (\<lambda>st. tdq_add (ke_rq K) (ke_pri K) c st td flags) s"

definition kern_load_add :: "cpuid \<Rightarrow> tid \<Rightarrow> ('w::len) ksys \<Rightarrow> 'w ksys" where
  "kern_load_add c td s = upd_tdq c (\<lambda>q. tdq_load_add (k_threads s) q td) s"

definition kern_load_rem :: "cpuid \<Rightarrow> tid \<Rightarrow> ('w::len) ksys \<Rightarrow> 'w ksys" where
  "kern_load_rem c td s = upd_tdq c (\<lambda>q. tdq_load_rem (k_threads s) q td) s"

definition kern_setlowpri :: "('w::len) kenv \<Rightarrow> cpuid \<Rightarrow> tid option \<Rightarrow> 'w ksys \<Rightarrow> 'w ksys" where
  "kern_setlowpri K c ctd s =
     upd_tdq c (\<lambda>q. tdq_setlowpri (ke_rq K) (k_threads s) q ctd (k_curthread s c)) s"

definition tdq_move :: "('w::len) kenv \<Rightarrow> cpuid \<Rightarrow> cpuid \<Rightarrow> 'w ksys \<Rightarrow> tid option \<times> 'w ksys" where
  "tdq_move K from to s =
     (case tdq_steal (ke_rq K) (k_threads s) (k_tdq s from) to of
        None \<Rightarrow> (None, s)
      | Some td \<Rightarrow>
          (let s = kern_sched_rem K td s;
               s = upd_sched td (ts_cpu_update (\<lambda>_. to)) s;
               s = kern_tdq_add K to td {SRQ_YIELDING} s
           in (Some td, s)))"

definition tdq_notify :: "('w::len) kenv \<Rightarrow> cpuid \<Rightarrow> tid \<Rightarrow> 'w ksys \<Rightarrow> 'w ksys" where
  "tdq_notify K c td s =
     (if tdq_ipipending (k_tdq s c) then s
      else
        (let cpu = ts_cpu (k_sched s td);
             pri = uint (td_priority (k_threads s td));
             ctd = k_curthread s cpu
         in if \<not> sched_shouldpreempt (ke_pri K) (ke_conf K) pri
                  (uint (td_priority (k_threads s ctd))) True
            then s
            else if TD_IS_IDLETHREAD (k_threads s) ctd \<and>
                    (\<not> tdq_cpu_idle (k_tdq s c) \<or> ke_idle_wakeup K s cpu)
            then s
            else (upd_tdq c (tdq_ipipending_update (\<lambda>_. True)) s)
                   \<lparr>k_ipis := k_ipis s @ [cpu]\<rparr>))"

subsection \<open>The long-term balancer\<close>

definition sched_balance_pair ::
  "('w::len) kenv \<Rightarrow> cpuid \<Rightarrow> cpuid \<Rightarrow> cpuid \<Rightarrow> 'w ksys \<Rightarrow> bool \<times> 'w ksys" where
  "sched_balance_pair K self high low s =
     (if tdq_transferable (k_tdq s high) \<noteq> 0 \<and> tdq_load (k_tdq s high) > tdq_load (k_tdq s low)
      then (case tdq_move K high low s of
              (None, s) \<Rightarrow> (False, s)
            | (Some td, s) \<Rightarrow> (True, if low \<noteq> self then tdq_notify K low td s else s))
      else (False, s))"

text \<open>
  The loop from the label \<^verbatim>\<open>nextlow\<close>: \<open>None\<close> is the end of the balancer, \<open>Some\<close> the set of
  donors with which the outer loop goes on.
\<close>

partial_function (option) balance_nextlow ::
  "('w::len) kenv \<Rightarrow> cpuid \<Rightarrow> cpu_group \<Rightarrow> cpuid \<Rightarrow> cpuid set \<Rightarrow> cpuid set \<Rightarrow> bool \<Rightarrow> 'w ksys \<Rightarrow>
   (cpuid set option \<times> 'w ksys) option" where
  "balance_nextlow K self cg high hmask lmask anylow s =
     (let s = others_run K s;
          (low, s) = find_lowest self cg lmask (- 1) (tdq_load (k_tdq s high) - 1) (Some high) s
      in case low of
           None \<Rightarrow> Some (if anylow then None else Some hmask, s)
         | Some low \<Rightarrow>
             (let (moved, s) = sched_balance_pair K self high low (others_run K s)
              in if moved then Some (Some (hmask - {low}), s)
                 else balance_nextlow K self cg high hmask (lmask - {low}) False s))"

partial_function (option) balance_loop ::
  "('w::len) kenv \<Rightarrow> cpuid \<Rightarrow> cpu_group \<Rightarrow> cpuid set \<Rightarrow> 'w ksys \<Rightarrow> 'w ksys option" where
  "balance_loop K self cg hmask s =
     (let (high, s) = find_highest self cg hmask 2 (others_run K s)
      in case high of
           None \<Rightarrow> Some s
         | Some high \<Rightarrow>
             (let hmask = hmask - {high}
              in if hmask = {} then Some s
                 else do {
                   (r, s) \<leftarrow> balance_nextlow K self cg high hmask hmask True s;
                   (case r of
                      None \<Rightarrow> Some s
                    | Some hmask \<Rightarrow> balance_loop K self cg hmask s)
                 }))"

definition sched_balance_group ::
  "('w::len) kenv \<Rightarrow> cpuid \<Rightarrow> cpu_group \<Rightarrow> 'w ksys \<Rightarrow> 'w ksys option" where
  "sched_balance_group K self cg s = balance_loop K self cg (CPU_FILL K) s"

text \<open>\<open>max\<close> is the one of \<^verbatim>\<open>u_int\<close>, and the remainder is taken on \<^verbatim>\<open>uint32_t\<close>.\<close>

definition sched_balance :: "('w::len) kenv \<Rightarrow> cpuid \<Rightarrow> 'w ksys \<Rightarrow> 'w ksys option" where
  "sched_balance K self s =
     (let (r, s) = cpu_sched_random self s;
          interval = (word_of_int (balance_interval (ke_conf K)) :: u32);
          half = (word_of_int (balance_interval (ke_conf K) sdiv 2) :: u32)
      in if interval = 0 then None
         else sched_balance_group K self (ke_cpu_top K)
                (s\<lparr>k_balance_ticks := max half 1 + r mod interval\<rparr>))"

subsection \<open>Stealing when a processor runs out of work\<close>

definition switch_count :: "('w::len) tdq \<Rightarrow> int" where
  "switch_count q = sint (tdq_switchcnt q) + sint (tdq_oldswitchcnt q)"

definition steal_stale :: "('w::len) kenv \<Rightarrow> 'w tdq \<Rightarrow> bool" where
  "steal_stale K steal \<longleftrightarrow>
     tdq_load steal < steal_thresh (ke_conf K) \<or> tdq_transferable steal = 0"

text \<open>
  \<open>tdq_idled\<close>: the result is the number returned, as \<open>True\<close> for 1. \<open>cgs\<close> is the group \<^verbatim>\<open>cg\<close> and
  its ancestors. A \<^verbatim>\<open>goto restart\<close> reads the switch counts and the groups again.
\<close>

partial_function (option) tdq_idled_loop ::
  "('w::len) kenv \<Rightarrow> cpuid \<Rightarrow> cpuid set \<Rightarrow> int \<Rightarrow> cpu_group list \<Rightarrow> 'w ksys \<Rightarrow>
   (bool \<times> 'w ksys) option" where
  "tdq_idled_loop K self msk switchcnt cgs s =
     (case cgs of
        [] \<Rightarrow> Some (True, s)
      | cg # parents \<Rightarrow>
          (let (cpu, s) = find_highest self cg msk (steal_thresh (ke_conf K)) (others_run K s)
           in if tdq_load (k_tdq s self) \<noteq> 0 then Some (False, s)
              else case cpu of
                None \<Rightarrow> tdq_idled_loop K self msk switchcnt parents s
              | Some cpu \<Rightarrow>
                  (let s = others_run K s
                   in if steal_stale K (k_tdq s cpu)
                      then tdq_idled_loop K self msk (switch_count (k_tdq s self))
                             (tdq_cg (k_tdq s self)) s
                      else
                        (let s = others_run K s
                         in if tdq_load (k_tdq s self) \<noteq> 0
                            then Some (False, ke_mi_switch K self {SW_VOL, SWT_IDLE} s)
                            else if steal_stale K (k_tdq s cpu) \<or>
                                    switchcnt \<noteq> switch_count (k_tdq s self)
                            then tdq_idled_loop K self msk (switch_count (k_tdq s self))
                                   (tdq_cg (k_tdq s self)) s
                            else (case tdq_move K cpu self s of
                                    (Some td, s) \<Rightarrow>
                                      Some (False, ke_mi_switch K self {SW_VOL, SWT_IDLE} s)
                                  | (None, s) \<Rightarrow>
                                      tdq_idled_loop K self (msk - {cpu}) switchcnt
                                        (cg # parents) s)))))"

definition tdq_idled :: "('w::len) kenv \<Rightarrow> cpuid \<Rightarrow> 'w ksys \<Rightarrow> (bool \<times> 'w ksys) option" where
  "tdq_idled K self s =
     (if \<not> k_smp_started s \<or> \<not> steal_idle (ke_conf K) \<or> tdq_cg (k_tdq s self) = []
      then Some (True, s)
      else tdq_idled_loop K self (CPU_FILL K - {self}) (switch_count (k_tdq s self))
             (tdq_cg (k_tdq s self)) s)"

text \<open>\<open>tdq_trysteal\<close>: a stale result of the search only repeats the search.\<close>

partial_function (option) tdq_trysteal_loop ::
  "('w::len) kenv \<Rightarrow> cpuid \<Rightarrow> cpuid set \<Rightarrow> int \<Rightarrow> cpu_group \<Rightarrow> cpu_group list \<Rightarrow> 'w ksys \<Rightarrow>
   'w ksys option" where
  "tdq_trysteal_loop K self msk i cg parents s =
     (let (cpu, s) = find_highest self cg msk (steal_thresh (ke_conf K)) (others_run K s)
      in if tdq_load (k_tdq s self) > 0 then Some s
         else case cpu of
           None \<Rightarrow>
             (case parents of
                [] \<Rightarrow> Some s
              | cg # parents \<Rightarrow>
                  (if i + 1 > trysteal_limit (ke_conf K) then Some s
                   else tdq_trysteal_loop K self msk (i + 1) cg parents s))
         | Some cpu \<Rightarrow>
             (let s = others_run K s
              in if steal_stale K (k_tdq s cpu)
                 then tdq_trysteal_loop K self msk i cg parents s
                 else
                   (let s = others_run K s
                    in if tdq_load (k_tdq s self) > 0 then Some s
                       else if steal_stale K (k_tdq s cpu) then Some s
                       else Some (snd (tdq_move K cpu self s)))))"

definition tdq_trysteal :: "('w::len) kenv \<Rightarrow> cpuid \<Rightarrow> 'w ksys \<Rightarrow> 'w ksys option" where
  "tdq_trysteal K self s =
     (if \<not> k_smp_started s \<or> trysteal_limit (ke_conf K) = 0 then Some s
      else case tdq_cg (k_tdq s self) of
             [] \<Rightarrow> Some s
           | cg # parents \<Rightarrow> tdq_trysteal_loop K self (CPU_FILL K - {self}) 1 cg parents s)"

end
