(* ===== verification/Kernel_Inv.thy ===== *)
theory Kernel_Inv
  imports Ule_Smp
begin

section \<open>The invariant of the queues of all processors\<close>

text \<open>
  Every thread queue keeps its invariant, a queued thread is on the queue of the processor
  \<^verbatim>\<open>ts_cpu\<close>, so on one queue only, and \<^verbatim>\<open>TSF_XFERABLE\<close> is clear on the threads that are not
  queued. The lemmas say what a step does to the queues: nothing (\<open>queues_kept\<close>), add one thread,
  or remove one.
\<close>

definition queued :: "('w::len) ksys \<Rightarrow> cpuid \<Rightarrow> tid set" where
  "queued s c = tdq_elems (k_tdq s c)"

definition on_some_queue :: "('w::len) ksys \<Rightarrow> tid \<Rightarrow> bool" where
  "on_some_queue s td \<longleftrightarrow> (\<exists>c. td \<in> queued s c)"

definition ksys_inv :: "('w::len) kenv \<Rightarrow> 'w ksys \<Rightarrow> bool" where
  "ksys_inv K s \<longleftrightarrow>
     (\<forall>c. tdq_inv (ke_rq K) c (tdq_view c s)) \<and>
     (\<forall>c. \<forall>td\<in>queued s c. ts_cpu (k_sched s td) = c) \<and>
     (\<forall>td. \<not> on_some_queue s td \<longrightarrow> TSF_XFERABLE \<notin> ts_flags (k_sched s td))"

lemma ksys_invD:
  assumes "ksys_inv K s"
  shows ksys_inv_tdq: "tdq_inv (ke_rq K) c (k_threads s, k_sched s, k_tdq s c)"
    and ksys_inv_cpu: "td \<in> queued s c \<Longrightarrow> ts_cpu (k_sched s td) = c"
    and ksys_inv_xfer: "\<not> on_some_queue s td \<Longrightarrow> TSF_XFERABLE \<notin> ts_flags (k_sched s td)"
  using assms by (auto simp: ksys_inv_def tdq_view_def)

lemma queued_once: "ksys_inv K s \<Longrightarrow> td \<in> queued s c \<Longrightarrow> td \<in> queued s d \<longleftrightarrow> d = c"
  using ksys_inv_cpu by metis

lemma queued_state: "ksys_inv K s \<Longrightarrow> td \<in> queued s c \<Longrightarrow> td_state (k_threads s td) = TDS_RUNQ"
  using tdq_inv_state [OF ksys_inv_tdq] by (auto simp: queued_def tdq_elems_def)

lemma not_queued_state: "ksys_inv K s \<Longrightarrow> td_state (k_threads s td) \<noteq> TDS_RUNQ \<Longrightarrow> \<not> on_some_queue s td"
  using queued_state by (auto simp: on_some_queue_def)

subsection \<open>Steps that leave the queues alone\<close>

definition same_queues :: "('w::len) tdq \<Rightarrow> 'w tdq \<Rightarrow> bool" where
  "same_queues q q' \<longleftrightarrow> (\<forall>n. tdq_rq q' n = tdq_rq q n) \<and> tdq_transferable q' = tdq_transferable q \<and>
     tdq_idx q' = tdq_idx q \<and> tdq_ridx q' = tdq_ridx q"

lemma same_queues_elems: "same_queues q q' \<Longrightarrow> tdq_elems q' = tdq_elems q"
  by (simp add: same_queues_def tdq_elems_def)

lemma same_queues_refl [simp]: "same_queues q q"
  by (simp add: same_queues_def)

lemma same_queues_simps [simp]:
  "same_queues q (q\<lparr>tdq_load := x\<rparr>)" "same_queues q (q\<lparr>tdq_sysload := x\<rparr>)"
  "same_queues q (q\<lparr>tdq_lowpri := y\<rparr>)" "same_queues q (q\<lparr>tdq_ipipending := b\<rparr>)"
  "same_queues q (q\<lparr>tdq_cpu_idle := b\<rparr>)" "same_queues q (q\<lparr>tdq_switchcnt := z\<rparr>)"
  "same_queues q (q\<lparr>tdq_oldswitchcnt := z\<rparr>)"
  by (simp_all add: same_queues_def tdq_rq_def split: rq_name.splits)

definition sched_same :: "td_sched \<Rightarrow> td_sched \<Rightarrow> bool" where
  "sched_same ts ts' \<longleftrightarrow> ts_runq ts' = ts_runq ts \<and> ts_cpu ts' = ts_cpu ts \<and>
     (TSF_XFERABLE \<in> ts_flags ts' \<longleftrightarrow> TSF_XFERABLE \<in> ts_flags ts)"

definition thread_same :: "thread \<Rightarrow> thread \<Rightarrow> bool" where
  "thread_same t t' \<longleftrightarrow> td_state t' = td_state t \<and> td_rqindex t' = td_rqindex t"

definition queues_kept :: "('w::len) ksys \<Rightarrow> 'w ksys \<Rightarrow> bool" where
  "queues_kept s s' \<longleftrightarrow>
     (\<forall>c. same_queues (k_tdq s c) (k_tdq s' c)) \<and>
     (\<forall>td. (on_some_queue s td \<longrightarrow>
        thread_same (k_threads s td) (k_threads s' td) \<and> sched_same (k_sched s td) (k_sched s' td)) \<and>
        (TSF_XFERABLE \<in> ts_flags (k_sched s' td) \<longleftrightarrow> TSF_XFERABLE \<in> ts_flags (k_sched s td)))"

lemma tdq_inv_cong:
  assumes inv: "tdq_inv E c (T, S, q)" and q: "same_queues q q'"
    and td: "\<And>td. td \<in> tdq_elems q \<Longrightarrow> thread_same (T td) (T' td) \<and> ts_runq (S' td) = ts_runq (S td) \<and>
      (TSF_XFERABLE \<in> ts_flags (S' td) \<longleftrightarrow> TSF_XFERABLE \<in> ts_flags (S td))"
  shows "tdq_inv E c (T', S', q')"
proof -
  have el: "td \<in> tdq_elems q" if "td \<in> rq_elems (tdq_rq q n)" for td n
    using that by (auto simp: tdq_elems_def)
  have rq: "tdq_rq q' = tdq_rq q" using q by (auto simp: same_queues_def)
  have 1: "rq_inv E T' (tdq_rq q n)" for n
    using tdq_inv_rq [OF inv] by (rule rq_inv_threads) (use td el in \<open>auto simp: thread_same_def\<close>)
  have 2: "ts_runq (S' td) = Some (c, n) \<and> td_state (T' td) = TDS_RUNQ" if "td \<in> rq_elems (tdq_rq q n)" for td n
    using tdq_inv_runq [OF inv that] tdq_inv_state [OF inv that] td [OF el [OF that]]
    by (auto simp: thread_same_def)
  have "tdq_xfer S' q' = tdq_xfer S q"
    using td same_queues_elems [OF q] by (auto simp: tdq_xfer_def)
  with 1 2 show ?thesis
    using q tdq_inv_xfer [OF inv] tdq_inv_idx [OF inv] by (simp add: tdq_inv_def rq same_queues_def)
qed

lemma queues_kept_queued: "queues_kept s s' \<Longrightarrow> queued s' = queued s"
  by (auto simp: queues_kept_def queued_def fun_eq_iff dest: same_queues_elems)

lemma queues_kept_inv:
  assumes "ksys_inv K s" and "queues_kept s s'"
  shows "ksys_inv K s'"
proof -
  note q = queues_kept_queued [OF assms(2)]
  have on: "on_some_queue s' = on_some_queue s" using q by (simp add: on_some_queue_def fun_eq_iff)
  have el: "on_some_queue s td" if "td \<in> tdq_elems (k_tdq s c)" for td c
    using that by (auto simp: on_some_queue_def queued_def)
  have 1: "tdq_inv (ke_rq K) c (k_threads s', k_sched s', k_tdq s' c)" for c
    by (rule tdq_inv_cong [OF ksys_inv_tdq [OF assms(1)]])
      (use assms(2) el in \<open>auto simp: queues_kept_def sched_same_def\<close>)
  have 2: "ts_cpu (k_sched s' td) = c" if "td \<in> queued s c" for td c
    using that assms(2) ksys_inv_cpu [OF assms(1) that]
    by (auto simp: queues_kept_def sched_same_def on_some_queue_def)
  have 3: "TSF_XFERABLE \<notin> ts_flags (k_sched s' td)" if "\<not> on_some_queue s td" for td
    using ksys_inv_xfer [OF assms(1) that] assms(2) by (simp add: queues_kept_def)
  show ?thesis using 1 2 3 by (simp add: ksys_inv_def tdq_view_def q on)
qed

lemma queues_kept_refl [simp]: "queues_kept s s"
  by (simp add: queues_kept_def thread_same_def sched_same_def)

lemma queues_kept_trans [trans]: "queues_kept s s' \<Longrightarrow> queues_kept s' s'' \<Longrightarrow> queues_kept s s''"
proof -
  assume a: "queues_kept s s'" "queues_kept s' s''"
  have "on_some_queue s' = on_some_queue s"
    using queues_kept_queued [OF a(1)] by (simp add: on_some_queue_def fun_eq_iff)
  with a show ?thesis
    by (simp add: queues_kept_def same_queues_def thread_same_def sched_same_def)
qed

named_theorems kept_intros \<open>steps that keep the queues\<close>

lemma queues_kept_upd_thread [kept_intros]:
  "(on_some_queue s td \<Longrightarrow> thread_same (k_threads s td) (f (k_threads s td))) \<Longrightarrow>
   queues_kept s (upd_thread td f s)"
  by (auto simp: queues_kept_def upd_thread_def thread_same_def sched_same_def)

lemma queues_kept_upd_sched [kept_intros]:
  "(on_some_queue s td \<Longrightarrow> sched_same (k_sched s td) (f (k_sched s td))) \<Longrightarrow>
   (TSF_XFERABLE \<in> ts_flags (f (k_sched s td)) \<longleftrightarrow> TSF_XFERABLE \<in> ts_flags (k_sched s td)) \<Longrightarrow>
   queues_kept s (upd_sched td f s)"
  by (auto simp: queues_kept_def upd_sched_def thread_same_def sched_same_def)

lemma queues_kept_upd_tdq [kept_intros]:
  "same_queues (k_tdq s c) (f (k_tdq s c)) \<Longrightarrow> queues_kept s (upd_tdq c f s)"
  by (auto simp: queues_kept_def upd_tdq_def thread_same_def sched_same_def)

lemma queues_kept_fields:
  "k_threads s' = k_threads s \<Longrightarrow> k_sched s' = k_sched s \<Longrightarrow> k_tdq s' = k_tdq s \<Longrightarrow> queues_kept s s'"
  by (simp add: queues_kept_def thread_same_def sched_same_def)

subsection \<open>Steps that change one queue\<close>

text \<open>
  An operation on one thread queue writes only the state and the queue index of its thread, and
  only its flags and its run queue among the scheduler fields.
\<close>

definition only_queue_fields :: "tid \<Rightarrow> threads \<Rightarrow> tscheds \<Rightarrow> threads \<Rightarrow> tscheds \<Rightarrow> bool" where
  "only_queue_fields td T S T' S' \<longleftrightarrow>
     (\<exists>st i. T' = T(td := (T td)\<lparr>td_state := st, td_rqindex := i\<rparr>)) \<and>
     (\<exists>fl r. S' = S(td := (S td)\<lparr>ts_flags := fl, ts_runq := r\<rparr>))"

lemma only_queue_fieldsD:
  assumes "only_queue_fields td T S T' S'"
  shows "t \<noteq> td \<Longrightarrow> T' t = T t" "t \<noteq> td \<Longrightarrow> S' t = S t"
    "ts_cpu (S' t) = ts_cpu (S t)" "td_priority (T' t) = td_priority (T t)"
    "td_cpuset (T' t) = td_cpuset (T t)" "td_pinned (T' t) = td_pinned (T t)"
    "td_flags (T' t) = td_flags (T t)" "td_proc (T' t) = td_proc (T t)"
  using assms by (auto simp: only_queue_fields_def split: if_split_asm)

lemma only_queue_fields_trans:
  assumes "only_queue_fields td T S T' S'" "only_queue_fields td T' S' T'' S''"
  shows "only_queue_fields td T S T'' S''"
proof -
  obtain st i fl r where a: "T' = T(td := (T td)\<lparr>td_state := st, td_rqindex := i\<rparr>)"
    "S' = S(td := (S td)\<lparr>ts_flags := fl, ts_runq := r\<rparr>)"
    using assms(1) by (auto simp: only_queue_fields_def)
  obtain st' i' fl' r' where b: "T'' = T'(td := (T' td)\<lparr>td_state := st', td_rqindex := i'\<rparr>)"
    "S'' = S'(td := (S' td)\<lparr>ts_flags := fl', ts_runq := r'\<rparr>)"
    using assms(2) by (auto simp: only_queue_fields_def)
  have "T'' = T(td := (T td)\<lparr>td_state := st', td_rqindex := i'\<rparr>)"
    "S'' = S(td := (S td)\<lparr>ts_flags := fl', ts_runq := r'\<rparr>)"
    by (simp_all add: a b fun_eq_iff)
  then show ?thesis unfolding only_queue_fields_def by blast
qed

lemma tdq_put_inv:
  assumes inv: "ksys_inv K s" and st: "tdq_inv (ke_rq K) c (T', S', q')"
    and only: "only_queue_fields td (k_threads s) (k_sched s) T' S'"
    and others: "\<And>d. d \<noteq> c \<Longrightarrow> td \<notin> queued s d"
    and elems: "tdq_elems q' - {td} = queued s c - {td}"
    and cpu: "td \<in> tdq_elems q' \<Longrightarrow> ts_cpu (k_sched s td) = c"
    and flag: "td \<notin> tdq_elems q' \<Longrightarrow> TSF_XFERABLE \<notin> ts_flags (S' td)"
  shows "ksys_inv K (tdq_put c (T', S', q') s)"
    and "queued (tdq_put c (T', S', q') s) = (queued s)(c := tdq_elems q')"
proof -
  let ?s = "tdq_put c (T', S', q') s"
  have k: "k_threads ?s = T'" "k_sched ?s = S'" "k_tdq ?s = (k_tdq s)(c := q')"
    by (simp_all add: tdq_put_def)
  show q: "queued ?s = (queued s)(c := tdq_elems q')" by (auto simp: queued_def k fun_eq_iff)
  note o = only_queue_fieldsD [OF only]
  have ne: "t \<noteq> td" if "d \<noteq> c" "t \<in> tdq_elems (k_tdq s d)" for t d
    using others [OF that(1)] that(2) by (auto simp: queued_def)
  have 1: "tdq_inv (ke_rq K) d (T', S', k_tdq s d)" if "d \<noteq> c" for d
    by (rule tdq_inv_cong [OF ksys_inv_tdq [OF inv] same_queues_refl])
      (simp add: o(1,2) [OF ne [OF that]] thread_same_def)
  have 2: "ts_cpu (S' t) = d" if "t \<in> queued ?s d" for t d
    using that ksys_inv_cpu [OF inv, of t d] ksys_inv_cpu [OF inv, of t c] cpu elems o(3)
    unfolding q by (cases "t = td"; cases "d = c") auto
  have 3: "TSF_XFERABLE \<notin> ts_flags (S' t)" if n: "\<not> on_some_queue ?s t" for t
  proof (cases "t = td")
    case True
    have "td \<notin> tdq_elems q'" using n True unfolding on_some_queue_def q by (metis fun_upd_same)
    with flag True show ?thesis by simp
  next
    case False
    then have "t \<in> tdq_elems q' \<longleftrightarrow> t \<in> queued s c" using elems by auto
    with n have "\<not> on_some_queue s t" unfolding on_some_queue_def q by (metis fun_upd_apply)
    with False show ?thesis using ksys_inv_xfer [OF inv] o(2) by simp
  qed
  show "ksys_inv K ?s"
    using 1 2 3 st by (simp add: ksys_inv_def tdq_view_def k)
qed

lemma tdq_runq_add_only:
  assumes "tdq_runq_add E P c (T, S, q) td flags = (T', S', q')"
  shows "only_queue_fields td T S T' S'" "tdq_load q' = tdq_load q" "tdq_lowpri q' = tdq_lowpri q"
    "td_state (T' td) = TDS_RUNQ"
proof -
  obtain n i rq' where "rq_enqueue E (TD_SET_RUNQ T td) (tdq_rq q n) td i (T', rq')"
    and S': "S' = xfer_added T S c n td"
    and q': "q' = tdq_set_rq n rq' (q\<lparr>tdq_transferable := tdq_transferable q + of_bool (THREAD_CAN_MIGRATE T td)\<rparr>)"
    using tdq_runq_add_added [of E c T S q td P flags] by (auto simp: assms tdq_added_def)
  then have T': "T' = set_rqindex (TD_SET_RUNQ T td) td i" by (simp add: rq_enqueue_def)
  show "only_queue_fields td T S T' S'"
    unfolding only_queue_fields_def
  proof (intro conjI)
    show "\<exists>st i. T' = T(td := (T td)\<lparr>td_state := st, td_rqindex := i\<rparr>)"
      by (rule exI [of _ TDS_RUNQ], rule exI [of _ "of_nat i"])
        (simp add: T' set_rqindex_def TD_SET_STATE_def)
    show "\<exists>fl r. S' = S(td := (S td)\<lparr>ts_flags := fl, ts_runq := r\<rparr>)"
      unfolding S' xfer_added_def by blast
  qed
  show "tdq_load q' = tdq_load q" "tdq_lowpri q' = tdq_lowpri q" by (simp_all add: q')
  show "td_state (T' td) = TDS_RUNQ" by (simp add: T' set_rqindex_def frame_simps)
qed

lemma tdq_runq_rem_only:
  assumes "tdq_runq_rem E (T, S, q) td = (T', S', q')"
  shows "only_queue_fields td T S T' S'" "tdq_load q' = tdq_load q" "tdq_lowpri q' = tdq_lowpri q" "T' = T"
proof -
  have 1: "T' = T" and 2: "S' = xfer_removed S td"
    and 3: "tdq_load q' = tdq_load q" "tdq_lowpri q' = tdq_lowpri q"
    using assms by (auto simp: tdq_runq_rem_def Let_def xfer_removed_def
        split: option.splits prod.splits rq_name.splits if_splits)
  have "\<exists>st i. T' = T(td := (T td)\<lparr>td_state := st, td_rqindex := i\<rparr>)"
    by (rule exI [of _ "td_state (T td)"], rule exI [of _ "td_rqindex (T td)"]) (simp add: 1)
  moreover have "\<exists>fl r. S' = S(td := (S td)\<lparr>ts_flags := fl, ts_runq := r\<rparr>)"
    by (rule exI [of _ "ts_flags (S td) - {TSF_XFERABLE}"], rule exI [of _ "ts_runq (S td)"])
      (auto simp: 2 xfer_removed_def)
  ultimately show "only_queue_fields td T S T' S'" by (simp add: only_queue_fields_def)
  show "tdq_load q' = tdq_load q" "tdq_lowpri q' = tdq_lowpri q" "T' = T" using 1 3 by simp_all
qed

text \<open>What a step keeps beside the threads and the queues.\<close>

definition same_rest :: "('w::len) ksys \<Rightarrow> 'w ksys \<Rightarrow> bool" where
  "same_rest s s' \<longleftrightarrow>
     k_procs s' = k_procs s \<and> k_curthread s' = k_curthread s \<and> k_idlethread s' = k_idlethread s \<and>
     k_ticks s' = k_ticks s \<and> k_random s' = k_random s \<and> k_balance_ticks s' = k_balance_ticks s \<and>
     k_balance_tdq s' = k_balance_tdq s \<and> k_smp_started s' = k_smp_started s \<and>
     k_panicstr s' = k_panicstr s \<and> k_cold s' = k_cold s \<and> k_ipis s' = k_ipis s \<and> k_now s' = k_now s"

lemma same_restD:
  assumes "same_rest s s'"
  shows "k_procs s' = k_procs s" "k_curthread s' = k_curthread s" "k_idlethread s' = k_idlethread s"
    "k_ticks s' = k_ticks s" "k_random s' = k_random s" "k_balance_ticks s' = k_balance_ticks s"
    "k_balance_tdq s' = k_balance_tdq s" "k_smp_started s' = k_smp_started s"
    "k_panicstr s' = k_panicstr s" "k_cold s' = k_cold s" "k_ipis s' = k_ipis s" "k_now s' = k_now s"
  using assms by (simp_all add: same_rest_def)

lemma same_rest_put: "same_rest s (tdq_put c st s)"
  by (cases st) (simp add: same_rest_def tdq_put_def)

lemma tdq_put_simps [simp]:
  "k_threads (tdq_put c (T, S, q) s) = T" "k_sched (tdq_put c (T, S, q) s) = S"
  "k_tdq (tdq_put c (T, S, q) s) = (k_tdq s)(c := q)"
  by (simp_all add: tdq_put_def)

lemma same_queues_trans: "same_queues a b \<Longrightarrow> same_queues b c \<Longrightarrow> same_queues a c"
  by (simp add: same_queues_def)

lemma tdq_load_add_queues: "same_queues q (tdq_load_add T q td)" "tdq_load (tdq_load_add T q td) = tdq_load q + 1"
  "tdq_lowpri (tdq_load_add T q td) = tdq_lowpri q"
  by (simp_all add: tdq_load_add_def Let_def same_queues_def tdq_rq_def split: rq_name.splits)

lemma tdq_load_rem_queues: "same_queues q (tdq_load_rem T q td)" "tdq_load (tdq_load_rem T q td) = tdq_load q - 1"
  "tdq_lowpri (tdq_load_rem T q td) = tdq_lowpri q"
  by (simp_all add: tdq_load_rem_def Let_def same_queues_def tdq_rq_def split: rq_name.splits)

lemma tdq_setlowpri_queues: "same_queues q (tdq_setlowpri E T q ctd curtd)"
  "tdq_load (tdq_setlowpri E T q ctd curtd) = tdq_load q"
  by (simp_all add: tdq_setlowpri_def Let_def split: option.splits)

subsection \<open>Queueing and removing a thread on any processor\<close>

lemma kern_runq_add_effect:
  assumes E: "rqenv_ok (ke_rq K)" and inv: "ksys_inv K s" and new: "\<not> on_some_queue s td"
    and cpu: "ts_cpu (k_sched s td) = c"
    and s': "s' = kern_runq_add K c td flags s"
  shows "ksys_inv K s'" "queued s' = (queued s)(c := insert td (queued s c))"
    "only_queue_fields td (k_threads s) (k_sched s) (k_threads s') (k_sched s')"
    "tdq_load (k_tdq s' c) = tdq_load (k_tdq s c)" "tdq_lowpri (k_tdq s' c) = tdq_lowpri (k_tdq s c)"
    "\<And>d. d \<noteq> c \<Longrightarrow> k_tdq s' d = k_tdq s d" "same_rest s s'" "td_state (k_threads s' td) = TDS_RUNQ"
proof -
  obtain T' S' q' where r: "tdq_runq_add (ke_rq K) (ke_pri K) c (tdq_view c s) td flags = (T', S', q')"
    by (cases "tdq_runq_add (ke_rq K) (ke_pri K) c (tdq_view c s) td flags")
  have eq: "s' = tdq_put c (T', S', q') s" by (simp add: s' kern_runq_add_def on_tdq_def r)
  have out: "td \<notin> queued s d" for d using new by (auto simp: on_some_queue_def)
  then have new': "td \<notin> tdq_elems (k_tdq s c)" by (simp add: queued_def)
  note r = r [unfolded tdq_view_def]
  note a = tdq_runq_add_inv [OF E ksys_inv_tdq [OF inv] new' ksys_inv_xfer [OF inv new] r]
  note o = tdq_runq_add_only [OF r]
  have x: "tdq_elems q' - {td} = queued s c - {td}" by (simp add: a(2) queued_def)
  note p = tdq_put_inv [OF inv a(1) o(1) out x]
  show "ksys_inv K s'" unfolding eq by (rule p(1)) (use cpu a(2) in simp_all)
  have "queued s' = (queued s)(c := tdq_elems q')" unfolding eq by (rule p(2)) (use cpu a(2) in simp_all)
  then show "queued s' = (queued s)(c := insert td (queued s c))" by (simp add: a(2) queued_def)
  show "only_queue_fields td (k_threads s) (k_sched s) (k_threads s') (k_sched s')"
    "tdq_load (k_tdq s' c) = tdq_load (k_tdq s c)" "tdq_lowpri (k_tdq s' c) = tdq_lowpri (k_tdq s c)"
    "\<And>d. d \<noteq> c \<Longrightarrow> k_tdq s' d = k_tdq s d" "td_state (k_threads s' td) = TDS_RUNQ"
    using o by (simp_all add: eq)
  show "same_rest s s'" unfolding eq by (rule same_rest_put)
qed

definition kern_runq_rem :: "('w::len) kenv \<Rightarrow> cpuid \<Rightarrow> tid \<Rightarrow> 'w ksys \<Rightarrow> 'w ksys" where
  "kern_runq_rem K c td s = on_tdq c (\<lambda>st. tdq_runq_rem (ke_rq K) st td) s"

lemma kern_runq_rem_effect:
  assumes E: "rqenv_ok (ke_rq K)" and inv: "ksys_inv K s" and td: "td \<in> queued s c"
    and s': "s' = kern_runq_rem K c td s"
  shows "ksys_inv K s'" "queued s' = (queued s)(c := queued s c - {td})"
    "only_queue_fields td (k_threads s) (k_sched s) (k_threads s') (k_sched s')"
    "tdq_load (k_tdq s' c) = tdq_load (k_tdq s c)" "tdq_lowpri (k_tdq s' c) = tdq_lowpri (k_tdq s c)"
    "\<And>d. d \<noteq> c \<Longrightarrow> k_tdq s' d = k_tdq s d" "same_rest s s'" "k_threads s' = k_threads s"
proof -
  obtain T' S' q' where r: "tdq_runq_rem (ke_rq K) (tdq_view c s) td = (T', S', q')"
    by (cases "tdq_runq_rem (ke_rq K) (tdq_view c s) td")
  have eq: "s' = tdq_put c (T', S', q') s" by (simp add: s' kern_runq_rem_def on_tdq_def r)
  have td': "td \<in> tdq_elems (k_tdq s c)" using td by (simp add: queued_def)
  note r = r [unfolded tdq_view_def]
  note a = tdq_runq_rem_inv [OF E ksys_inv_tdq [OF inv] td' r]
  note o = tdq_runq_rem_only [OF r]
  have out: "td \<notin> queued s d" if "d \<noteq> c" for d using queued_once [OF inv td] that by blast
  have x: "tdq_elems q' - {td} = queued s c - {td}" by (simp add: a(2) queued_def)
  note p = tdq_put_inv [OF inv a(1) o(1) out x]
  show "ksys_inv K s'" unfolding eq by (rule p(1)) (use a(2,4) in simp_all)
  have "queued s' = (queued s)(c := tdq_elems q')" unfolding eq by (rule p(2)) (use a(2,4) in simp_all)
  then show "queued s' = (queued s)(c := queued s c - {td})" by (simp add: a(2) queued_def)
  show "only_queue_fields td (k_threads s) (k_sched s) (k_threads s') (k_sched s')"
    "tdq_load (k_tdq s' c) = tdq_load (k_tdq s c)" "tdq_lowpri (k_tdq s' c) = tdq_lowpri (k_tdq s c)"
    "\<And>d. d \<noteq> c \<Longrightarrow> k_tdq s' d = k_tdq s d" "k_threads s' = k_threads s"
    using o by (simp_all add: eq)
  show "same_rest s s'" unfolding eq by (rule same_rest_put)
qed

text \<open>The operations of a processor's queue are sequences of these steps.\<close>

definition raise_lowpri :: "u8 \<Rightarrow> ('w::len) tdq \<Rightarrow> 'w tdq" where
  "raise_lowpri pri q = (if pri < tdq_lowpri q then q\<lparr>tdq_lowpri := pri\<rparr> else q)"

lemma kern_tdq_add_steps:
  "kern_tdq_add K c td flags s =
    kern_load_add c td (kern_runq_add K c td flags (upd_tdq c (raise_lowpri (td_priority (k_threads s td))) s))"
proof -
  let ?q = "raise_lowpri (td_priority (k_threads s td)) (k_tdq s c)"
  obtain T' S' q' where r: "tdq_runq_add (ke_rq K) (ke_pri K) c (k_threads s, k_sched s, ?q) td flags = (T', S', q')"
    by (cases "tdq_runq_add (ke_rq K) (ke_pri K) c (k_threads s, k_sched s, ?q) td flags")
  show ?thesis
    by (simp add: kern_tdq_add_def kern_load_add_def kern_runq_add_def on_tdq_def tdq_view_def tdq_add_def
        r [unfolded raise_lowpri_def] r upd_tdq_def tdq_put_def)
qed

lemma kern_sched_rem_steps:
  assumes "c = ts_cpu (k_sched s td)"
  shows "kern_sched_rem K td s =
    (let s = upd_thread td (td_state_update (\<lambda>_. TDS_CAN_RUN)) (kern_load_rem c td (kern_runq_rem K c td s))
     in if td_priority (k_threads s td) = tdq_lowpri (k_tdq s c) then kern_setlowpri K c None s else s)"
proof -
  obtain T' S' q' where r: "tdq_runq_rem (ke_rq K) (k_threads s, k_sched s, k_tdq s c) td = (T', S', q')"
    by (cases "tdq_runq_rem (ke_rq K) (k_threads s, k_sched s, k_tdq s c) td")
  show ?thesis
    by (simp add: kern_sched_rem_def kern_load_rem_def kern_runq_rem_def kern_setlowpri_def on_tdq_def
        tdq_view_def sched_rem_def r upd_tdq_def upd_thread_def tdq_put_def TD_SET_STATE_def Let_def assms [symmetric])
qed

lemma upd_simps [simp]:
  "k_threads (upd_tdq c f s) = k_threads s" "k_sched (upd_tdq c f s) = k_sched s"
  "k_tdq (upd_tdq c f s) = (k_tdq s)(c := f (k_tdq s c))"
  "k_threads (upd_thread td g s) = (k_threads s)(td := g (k_threads s td))"
  "k_sched (upd_thread td g s) = k_sched s" "k_tdq (upd_thread td g s) = k_tdq s"
  "k_threads (upd_sched td h s) = k_threads s"
  "k_sched (upd_sched td h s) = (k_sched s)(td := h (k_sched s td))"
  "k_tdq (upd_sched td h s) = k_tdq s"
  by (simp_all add: upd_tdq_def upd_thread_def upd_sched_def)

lemma same_rest_upd [simp]:
  "same_rest s (upd_tdq c f s)" "same_rest s (upd_thread td g s)" "same_rest s (upd_sched td h s)"
  by (simp_all add: upd_tdq_def upd_thread_def upd_sched_def same_rest_def)

lemma same_rest_refl [simp]: "same_rest s s"
  by (simp add: same_rest_def)

lemma same_rest_trans [trans]: "same_rest s s' \<Longrightarrow> same_rest s' s'' \<Longrightarrow> same_rest s s''"
  by (simp add: same_rest_def)

lemma raise_lowpri_queues: "same_queues q (raise_lowpri pri q)" "tdq_load (raise_lowpri pri q) = tdq_load q"
  "tdq_lowpri (raise_lowpri pri q) = min pri (tdq_lowpri q)"
  by (auto simp: raise_lowpri_def)

lemma kern_tdq_add_effect:
  assumes E: "rqenv_ok (ke_rq K)" and inv: "ksys_inv K s" and new: "\<not> on_some_queue s td"
    and cpu: "ts_cpu (k_sched s td) = c"
    and s': "s' = kern_tdq_add K c td flags s"
  shows "ksys_inv K s'" "queued s' = (queued s)(c := insert td (queued s c))"
    "only_queue_fields td (k_threads s) (k_sched s) (k_threads s') (k_sched s')"
    "tdq_load (k_tdq s' c) = tdq_load (k_tdq s c) + 1"
    "tdq_lowpri (k_tdq s' c) = min (td_priority (k_threads s td)) (tdq_lowpri (k_tdq s c))"
    "\<And>d. d \<noteq> c \<Longrightarrow> k_tdq s' d = k_tdq s d" "same_rest s s'" "td_state (k_threads s' td) = TDS_RUNQ"
proof -
  define s1 where "s1 = upd_tdq c (raise_lowpri (td_priority (k_threads s td))) s"
  define s2 where "s2 = kern_runq_add K c td flags s1"
  have s': "s' = kern_load_add c td s2" by (simp add: s' kern_tdq_add_steps s1_def s2_def)
  have k1: "queues_kept s s1" unfolding s1_def by (rule queues_kept_upd_tdq) (rule raise_lowpri_queues)
  have new1: "\<not> on_some_queue s1 td" using new queues_kept_queued [OF k1] by (simp add: on_some_queue_def)
  note e = kern_runq_add_effect [OF E queues_kept_inv [OF inv k1] new1 _ s2_def]
  have cpu1: "ts_cpu (k_sched s1 td) = c" using cpu by (simp add: s1_def)
  note e = e [OF cpu1]
  have k2: "queues_kept s2 s'"
    unfolding s' kern_load_add_def by (rule queues_kept_upd_tdq) (rule tdq_load_add_queues)
  show "ksys_inv K s'" by (rule queues_kept_inv [OF e(1) k2])
  show "queued s' = (queued s)(c := insert td (queued s c))"
    using e(2) queues_kept_queued [OF k1] queues_kept_queued [OF k2] by simp
  show "only_queue_fields td (k_threads s) (k_sched s) (k_threads s') (k_sched s')"
    using e(3) by (simp add: s' kern_load_add_def s1_def)
  show "tdq_load (k_tdq s' c) = tdq_load (k_tdq s c) + 1"
    "tdq_lowpri (k_tdq s' c) = min (td_priority (k_threads s td)) (tdq_lowpri (k_tdq s c))"
    "\<And>d. d \<noteq> c \<Longrightarrow> k_tdq s' d = k_tdq s d" "td_state (k_threads s' td) = TDS_RUNQ"
    using e(4-6,8) by (simp_all add: s' kern_load_add_def tdq_load_add_queues s1_def raise_lowpri_queues)
  have "same_rest s2 s'" "same_rest s s1" by (simp_all add: s' kern_load_add_def s1_def)
  with e(7) show "same_rest s s'" by (blast intro: same_rest_trans)
qed

lemma kern_sched_rem_effect:
  assumes E: "rqenv_ok (ke_rq K)" and inv: "ksys_inv K s" and td: "td \<in> queued s c"
    and s': "s' = kern_sched_rem K td s"
  shows "ksys_inv K s'" "queued s' = (queued s)(c := queued s c - {td})"
    "only_queue_fields td (k_threads s) (k_sched s) (k_threads s') (k_sched s')"
    "tdq_load (k_tdq s' c) = tdq_load (k_tdq s c) - 1"
    "\<And>d. d \<noteq> c \<Longrightarrow> k_tdq s' d = k_tdq s d" "same_rest s s'" "td_state (k_threads s' td) = TDS_CAN_RUN"
proof -
  define s1 where "s1 = kern_runq_rem K c td s"
  define s2 where "s2 = kern_load_rem c td s1"
  define s3 where "s3 = upd_thread td (td_state_update (\<lambda>_. TDS_CAN_RUN)) s2"
  have cpu: "c = ts_cpu (k_sched s td)" using ksys_inv_cpu [OF inv td] by simp
  have s': "s' = s3 \<or> s' = kern_setlowpri K c None s3"
    by (simp add: s' kern_sched_rem_steps [OF cpu] s1_def s2_def s3_def Let_def)
  note e = kern_runq_rem_effect [OF E inv td s1_def]
  have out: "\<not> on_some_queue s1 td"
    using queued_once [OF inv td] unfolding on_some_queue_def e(2) by auto
  have k2: "queues_kept s1 s2"
    unfolding s2_def kern_load_rem_def by (rule queues_kept_upd_tdq) (rule tdq_load_rem_queues)
  have out2: "\<not> on_some_queue s2 td" using out queues_kept_queued [OF k2] by (simp add: on_some_queue_def)
  have k3: "queues_kept s2 s3"
    unfolding s3_def by (rule queues_kept_upd_thread) (use out2 in simp)
  have k4: "queues_kept s3 s'"
    using s' by (auto simp: kern_setlowpri_def intro!: queues_kept_upd_tdq tdq_setlowpri_queues)
  have k: "queues_kept s1 s'" using k2 k3 k4 queues_kept_trans by blast
  show "ksys_inv K s'" by (rule queues_kept_inv [OF e(1) k])
  show "queued s' = (queued s)(c := queued s c - {td})" using e(2) queues_kept_queued [OF k] by simp
  have f: "k_threads s' = (k_threads s)(td := (k_threads s td)\<lparr>td_state := TDS_CAN_RUN\<rparr>)"
    "k_sched s' = k_sched s1" "\<And>d. d \<noteq> c \<Longrightarrow> k_tdq s' d = k_tdq s1 d"
    "tdq_load (k_tdq s' c) = tdq_load (k_tdq s1 c) - 1"
    using s' e(8) by (auto simp: s3_def s2_def kern_load_rem_def kern_setlowpri_def tdq_load_rem_queues
        tdq_setlowpri_queues)
  have "only_queue_fields td (k_threads s1) (k_sched s1) (k_threads s') (k_sched s')"
    unfolding only_queue_fields_def f(1,2) e(8)
    by (intro conjI exI [of _ TDS_CAN_RUN] exI [of _ "td_rqindex (k_threads s td)"]
        exI [of _ "ts_flags (k_sched s1 td)"] exI [of _ "ts_runq (k_sched s1 td)"]) simp_all
  with e(3) show "only_queue_fields td (k_threads s) (k_sched s) (k_threads s') (k_sched s')"
    by (rule only_queue_fields_trans)
  show "tdq_load (k_tdq s' c) = tdq_load (k_tdq s c) - 1" "\<And>d. d \<noteq> c \<Longrightarrow> k_tdq s' d = k_tdq s d"
    "td_state (k_threads s' td) = TDS_CAN_RUN"
    using f e(4,6) by simp_all
  have "same_rest s1 s2" "same_rest s2 s3" "same_rest s3 s'"
    using s' by (auto simp: s3_def s2_def kern_load_rem_def kern_setlowpri_def)
  with e(7) show "same_rest s s'" by (blast intro: same_rest_trans)
qed

end
