(* ===== verification/Kernel_Example.thy ===== *)
theory Kernel_Example
  imports Kernel_Inv
begin

section \<open>A machine with two processors\<close>

text \<open>
  The concrete environment and states that the examples of the scheduler's properties use: two
  processors in one group, threads that may run on both, the threads 130 (interactive) and 160
  (timeshare) queued on processor 0.
\<close>

definition topology2 :: cpu_group where
  "topology2 = CPU_GROUP [0, 1] 0 [] []"

definition kenv0 :: "64 kenv" where
  "kenv0 = \<lparr>ke_rq = amd64_env, ke_pri = freebsd_pri, ke_conf = conf0, ke_cpus = [0, 1],
     ke_mp_maxid = 1, ke_CPU_SETSIZE = 2, ke_CG_SHARE_L2 = 2, ke_cpu_top = topology2,
     ke_topo_find = (\<lambda>cg _. [cg]), ke_idle_wakeup = (\<lambda>_ _. False), ke_cpu_idle = (\<lambda>_ _ s. s),
     ke_turnstile_adjust = (\<lambda>_ _ s. s), ke_mi_switch = (\<lambda>_ _ s. s),
     ke_cpu_switch = (\<lambda>c _ _ s. (c, s)), ke_others = (\<lambda>_ s. s)\<rparr>"

definition threads01 :: threads where
  "threads01 td = (threads0 td)\<lparr>td_cpuset := {0, 1}\<rparr>"

definition ksys0 :: "64 ksys" where
  "ksys0 = \<lparr>k_threads = threads01, k_sched = (\<lambda>_. td_sched0),
     k_procs = (\<lambda>_. \<lparr>p_flag = {P_SYSTEM}, p_nice = 0, p_threads = []\<rparr>),
     k_tdq = (\<lambda>_. tdq0\<lparr>tdq_cg := [topology2]\<rparr>), k_curthread = (\<lambda>c. 1000 + c),
     k_idlethread = (\<lambda>c. 1000 + c), k_ticks = 0, k_random = (\<lambda>_. 7), k_balance_ticks = 5,
     k_balance_tdq = 0, k_smp_started = True, k_panicstr = False, k_cold = False, k_ipis = [], k_now = 0\<rparr>"

definition ksys2 :: "64 ksys" where
  "ksys2 = kern_tdq_add kenv0 0 130 {} (kern_tdq_add kenv0 0 160 {} ksys0)"

lemma kenv0_simps [simp]:
  "ke_rq kenv0 = amd64_env" "ke_pri kenv0 = freebsd_pri" "ke_conf kenv0 = conf0"
  "ke_CPU_SETSIZE kenv0 = 2" "ke_cpu_top kenv0 = topology2" "ke_others kenv0 = (\<lambda>_ s. s)"
  "ke_mp_maxid kenv0 = 1" "ke_cpus kenv0 = [0, 1]"
  by (simp_all add: kenv0_def)

lemma topology2_cpus [simp]: "group_cpus topology2 = [0, 1]"
  by (simp add: topology2_def own_cpus_def)

lemma tdq0_rq: "tdq_rq (tdq0\<lparr>tdq_cg := x\<rparr>) n = runq_init amd64_env"
  by (cases n) (simp_all add: tdq0_def tdq_setup_def)

lemma ksys0_queued: "queued ksys0 = (\<lambda>_. {})"
  by (simp add: queued_def fun_eq_iff ksys0_def tdq_elems_def tdq0_rq rq_elems_init)

lemma ksys0_inv: "ksys_inv kenv0 ksys0"
proof -
  have q: "tdq_elems (k_tdq ksys0 c) = {}" for c
    using ksys0_queued by (simp add: queued_def fun_eq_iff)
  have f: "tdq_transferable (k_tdq ksys0 c) = 0" "tdq_idx (k_tdq ksys0 c) = 1" "tdq_ridx (k_tdq ksys0 c) = 0" for c
    by (simp_all add: ksys0_def tdq0_def tdq_setup_def)
  have "tdq_inv amd64_env c (k_threads ksys0, k_sched ksys0, k_tdq ksys0 c)" for c
    using q f by (simp add: tdq_inv_def tdq_xfer_def)
      (simp add: ksys0_def tdq0_rq rq_inv_init [OF rqenv_ok_amd64] rq_elems_init)
  then show ?thesis
    by (simp add: ksys_inv_def tdq_view_def ksys0_queued) (simp add: ksys0_def td_sched0_def)
qed

lemma ksys2:
  "ksys_inv kenv0 ksys2" "queued ksys2 = (\<lambda>_. {})(0 := {130, 160})"
  "same_rest ksys0 ksys2" "tdq_load (k_tdq ksys2 0) = 2" "k_tdq ksys2 1 = k_tdq ksys0 1"
  "k_threads ksys2 td = (threads01 td)\<lparr>td_state := td_state (k_threads ksys2 td),
     td_rqindex := td_rqindex (k_threads ksys2 td)\<rparr>"
proof -
  define s1 where "s1 = kern_tdq_add kenv0 0 160 {} ksys0"
  have E: "rqenv_ok (ke_rq kenv0)" by (simp add: rqenv_ok_amd64)
  have "\<not> on_some_queue ksys0 160" by (simp add: on_some_queue_def ksys0_queued)
  note a = kern_tdq_add_effect [OF E ksys0_inv this _ s1_def]
  have cpu0: "ts_cpu (k_sched ksys0 td) = 0" for td by (simp add: ksys0_def td_sched0_def)
  note a = a [OF cpu0]
  have "\<not> on_some_queue s1 130" by (simp add: on_some_queue_def a(2) ksys0_queued)
  note b = kern_tdq_add_effect [OF E a(1) this _ ksys2_def [folded s1_def]]
  have "ts_cpu (k_sched s1 130) = 0" by (simp add: only_queue_fieldsD(3) [OF a(3)] cpu0)
  note b = b [OF this]
  show "ksys_inv kenv0 ksys2" by (rule b(1))
  show "queued ksys2 = (\<lambda>_. {})(0 := {130, 160})" by (auto simp: b(2) a(2) ksys0_queued fun_eq_iff)
  show "same_rest ksys0 ksys2" using a(7) b(7) by (rule same_rest_trans)
  have "tdq_load (k_tdq ksys0 0) = 0" by (simp add: ksys0_def tdq0_def tdq_setup_def)
  then show "tdq_load (k_tdq ksys2 0) = 2" by (simp add: b(4) a(4))
  show "k_tdq ksys2 1 = k_tdq ksys0 1" by (simp add: b(6) a(6))
  have "k_threads ksys0 = threads01" by (simp add: ksys0_def)
  then show "k_threads ksys2 td = (threads01 td)\<lparr>td_state := td_state (k_threads ksys2 td),
     td_rqindex := td_rqindex (k_threads ksys2 td)\<rparr>"
    using a(3) b(3) by (auto simp: only_queue_fields_def)
qed

lemma ksys2_threads [simp]:
  "td_cpuset (k_threads ksys2 td) = {0, 1}" "td_pinned (k_threads ksys2 td) = 0"
  "td_priority (k_threads ksys2 td) = of_nat (td mod 256)" "td_flags (k_threads ksys2 td) = {}"
  by (subst ksys2(6), simp add: threads01_def threads0_def thread0_def)+

lemma ksys2_idle [simp]: "k_tdq ksys2 (Suc 0) = tdq0\<lparr>tdq_cg := [topology2]\<rparr>"
  unfolding One_nat_def [symmetric] ksys2(5) by (simp add: ksys0_def)

lemma tdq0_fields [simp]:
  "tdq_load tdq0 = 0" "tdq_transferable tdq0 = 0" "tdq_lowpri tdq0 = 255" "tdq_idx tdq0 = 1" "tdq_ridx tdq0 = 0"
  by (simp_all add: tdq0_def tdq_setup_def)

lemma tdq_runq_add_cg:
  "tdq_runq_add E P c (T, S, q) td flags = (T', S', q') \<Longrightarrow> tdq_cg q' = tdq_cg q"
  by (auto simp: tdq_runq_add_def Let_def split: prod.splits if_splits)

lemma kern_tdq_add_cg: "tdq_cg (k_tdq (kern_tdq_add K c td flags s) d) = tdq_cg (k_tdq s d)"
  by (auto simp: kern_tdq_add_steps kern_load_add_def kern_runq_add_def on_tdq_def tdq_view_def
      tdq_put_def tdq_load_add_def raise_lowpri_def Let_def dest: tdq_runq_add_cg split: prod.splits)

lemma ksys2_cg [simp]: "tdq_cg (k_tdq ksys2 c) = [topology2]"
  unfolding ksys2_def kern_tdq_add_cg by (simp add: ksys0_def)

lemma ksys2_rest [simp]:
  "k_smp_started ksys2" "k_curthread ksys2 = (\<lambda>c. 1000 + c)" "k_idlethread ksys2 = (\<lambda>c. 1000 + c)"
  "\<not> k_panicstr ksys2" "k_ticks ksys2 = 0"
  by (simp_all add: same_restD [OF ksys2(3)]) (simp_all add: ksys0_def)

lemma ksys2_sched:
  "td \<noteq> 130 \<Longrightarrow> td \<noteq> 160 \<Longrightarrow> k_sched ksys2 td = td_sched0"
  "tick_window (k_sched ksys2 td) = 0" "ts_cpu (k_sched ksys2 td) = 0"
proof -
  define s1 where "s1 = kern_tdq_add kenv0 0 160 {} ksys0"
  have E: "rqenv_ok (ke_rq kenv0)" by (simp add: rqenv_ok_amd64)
  have "\<not> on_some_queue ksys0 160" by (simp add: on_some_queue_def ksys0_queued)
  note a = kern_tdq_add_effect [OF E ksys0_inv this _ s1_def]
  have cpu0: "ts_cpu (k_sched ksys0 td) = 0" for td by (simp add: ksys0_def td_sched0_def)
  note a = a [OF cpu0]
  have "\<not> on_some_queue s1 130" by (simp add: on_some_queue_def a(2) ksys0_queued)
  note b = kern_tdq_add_effect [OF E a(1) this _ ksys2_def [folded s1_def]]
  have "ts_cpu (k_sched s1 130) = 0" by (simp add: only_queue_fieldsD(3) [OF a(3)] cpu0)
  note b = b [OF this]
  have s0: "k_sched ksys0 = (\<lambda>_. td_sched0)" by (simp add: ksys0_def)
  show "td \<noteq> 130 \<Longrightarrow> td \<noteq> 160 \<Longrightarrow> k_sched ksys2 td = td_sched0"
    "tick_window (k_sched ksys2 td) = 0" "ts_cpu (k_sched ksys2 td) = 0"
    using a(3) b(3) by (auto simp: only_queue_fields_def s0 tick_window_def td_sched0_def)
qed

end
