(* ===== verification/Search_Sound.thy ===== *)
theory Search_Sound
  imports Cpu_Search
begin

section \<open>The searches are sound whatever the loads\<close>

text \<open>
  A candidate qualifies and is one of the processors \<open>A\<close>; this needs no bound on the loads.
\<close>

definition cand_ok :: "(cpuid \<Rightarrow> bool) \<Rightarrow> cpu_search_s \<Rightarrow> cpu_search_s \<Rightarrow> bool" where
  "cand_ok good l0 l \<longleftrightarrow> low_static l0 l \<and> (\<forall>cpu. cs_cpu l = Some cpu \<longrightarrow> good cpu)"

definition sound_inv ::
  "(cpuid \<Rightarrow> ('w::len) tdq) \<Rightarrow> cpuid set \<Rightarrow> cpu_search_s \<Rightarrow> cpu_search_s \<Rightarrow> search_state \<Rightarrow> bool" where
  "sound_inv tdqs A low high st \<longleftrightarrow>
     (\<forall>l\<in>{ss_low st, ss_lgroup st}. cand_ok (\<lambda>cpu. cpu \<in> A \<and> qualifies_low tdqs low cpu) low l) \<and>
     (\<forall>h\<in>{ss_high st, ss_hgroup st}. cand_ok (\<lambda>cpu. cpu \<in> A \<and> qualifies_high tdqs high cpu) high h)"

lemma sound_compare: "sound_inv tdqs A low high st \<Longrightarrow> sound_inv tdqs A low high (search_compare m load st)"
  by (auto simp: sound_inv_def cand_ok_def low_static_def search_compare_def Let_def)

lemma sound_reset: "sound_inv tdqs A low high st \<Longrightarrow> sound_inv tdqs A low high (search_reset m st)"
  by (auto simp: sound_inv_def cand_ok_def low_static_def search_reset_def)

lemma sound_cpu:
  assumes "sound_inv tdqs A low high st" "cpu \<in> A"
  shows "sound_inv tdqs A low high (search_cpu tdqs m cpu st)"
  unfolding search_cpu_def Let_def prod.case_eq_if
  by (rule sound_compare)
    (use sound_reset [OF assms(1), of m] assms(2) in
      \<open>auto simp: sound_inv_def cand_ok_def low_static_def qualifies_low_def qualifies_high_def\<close>)

lemma sound_cpus:
  "sound_inv tdqs A low high st \<Longrightarrow> set cpus \<subseteq> A \<Longrightarrow> sound_inv tdqs A low high (search_cpus tdqs m cpus st)"
  by (induction tdqs m cpus st rule: search_cpus.induct) (simp_all add: sound_cpu)

lemma qualifies_static:
  "low_static low l \<Longrightarrow> qualifies_low tdqs l = qualifies_low tdqs low \<and> qualifies_high tdqs l = qualifies_high tdqs low"
  by (simp add: low_static_def qualifies_low_def qualifies_high_def fun_eq_iff)

lemma sound_search:
  "cand_ok (\<lambda>cpu. cpu \<in> A \<and> qualifies_low tdqs low cpu) low low \<Longrightarrow>
   cand_ok (\<lambda>cpu. cpu \<in> A \<and> qualifies_high tdqs high cpu) high high \<Longrightarrow>
   set (group_cpus cg) \<subseteq> A \<Longrightarrow> sound_inv tdqs A low high (cpu_search tdqs m cg low high rnd)"
  "sound_inv tdqs A l h st \<Longrightarrow> set (children_cpus cgs) \<subseteq> A \<Longrightarrow>
   sound_inv tdqs A l h (search_children tdqs m cgs st)"
proof (induction tdqs m cg low high rnd and tdqs m cgs st arbitrary: and l h
    rule: cpu_search_search_children.induct)
  case (1 tdqs m cmask lvl flgs children low high rnd)
  have "sound_inv tdqs A low high (search_start low high rnd)"
    using 1(2,3) by (simp add: sound_inv_def search_start_def)
  with 1(1,4) show ?case by (simp add: sound_cpus)
next
  case (2 tdqs m st)
  then show ?case by simp
next
  case (3 tdqs m child before st)
  let ?st = "search_reset m (search_children tdqs m before st)"
  let ?r = "cpu_search tdqs m child (ss_lgroup ?st) (ss_hgroup ?st) (ss_rnd ?st)"
  have inv: "sound_inv tdqs A l h ?st" using 3(1,3,4) by (simp add: sound_reset)
  then have st: "low_static l (ss_lgroup ?st)" "low_static h (ss_hgroup ?st)"
    by (simp_all add: sound_inv_def cand_ok_def)
  note q = qualifies_static [OF st(1), of tdqs] qualifies_static [OF st(2), of tdqs]
  have "sound_inv tdqs A (ss_lgroup ?st) (ss_hgroup ?st) ?r"
    by (rule 3(2) [OF refl]) (use inv 3(4) q in \<open>auto simp: sound_inv_def cand_ok_def low_static_def\<close>)
  then have "sound_inv tdqs A l h (?st\<lparr>ss_lgroup := ss_low ?r, ss_hgroup := ss_high ?r, ss_rnd := ss_rnd ?r\<rparr>)"
    using inv st q by (simp add: sound_inv_def cand_ok_def low_static_def)
  then show ?case by (simp add: Let_def sound_compare)
qed

lemma sched_lowest_sound:
  assumes "fst (sched_lowest tdqs rnd cg msk pri maxload pref) = Some cpu"
  shows "cpu \<in> set (group_cpus cg)" "pri < uint (tdq_lowpri (tdqs cpu))" "tdq_load (tdqs cpu) \<le> maxload" "cpu \<in> msk"
proof -
  define low where "low = \<lparr>cs_mask = msk, cs_prefer = pref, cs_pri = pri, cs_limit = maxload,
    cs_cpu = None, cs_load = 0\<rparr>"
  have "sound_inv tdqs (set (group_cpus cg)) low no_search (cpu_search tdqs low_match cg low no_search rnd)"
    by (rule sound_search(1)) (simp_all add: cand_ok_def low_static_def low_def no_search_def)
  with assms show "cpu \<in> set (group_cpus cg)" "pri < uint (tdq_lowpri (tdqs cpu))"
    "tdq_load (tdqs cpu) \<le> maxload" "cpu \<in> msk"
    by (simp_all add: sched_lowest_def low_def [symmetric] sound_inv_def cand_ok_def qualifies_low_def Let_def,
        simp_all add: low_def)
qed

lemma sched_highest_sound:
  assumes "fst (sched_highest tdqs rnd cg msk minload) = Some cpu"
  shows "cpu \<in> set (group_cpus cg)" "minload \<le> tdq_load (tdqs cpu)" "tdq_transferable (tdqs cpu) \<noteq> 0" "cpu \<in> msk"
proof -
  define high where "high = \<lparr>cs_mask = msk, cs_prefer = None, cs_pri = 0, cs_limit = minload,
    cs_cpu = None, cs_load = 0\<rparr>"
  have "sound_inv tdqs (set (group_cpus cg)) no_search high (cpu_search tdqs high_match cg no_search high rnd)"
    by (rule sound_search(1)) (simp_all add: cand_ok_def low_static_def high_def no_search_def)
  with assms show "cpu \<in> set (group_cpus cg)" "minload \<le> tdq_load (tdqs cpu)"
    "tdq_transferable (tdqs cpu) \<noteq> 0" "cpu \<in> msk"
    by (simp_all add: sched_highest_def high_def [symmetric] sound_inv_def cand_ok_def qualifies_high_def Let_def,
        simp_all add: high_def)
qed

end
