(* ===== verification/Ule_Smp_Props.thy ===== *)
theory Ule_Smp_Props
  imports Kernel_Example Search_Sound
begin

section \<open>Properties of load balancing\<close>

text \<open>
  Moving a thread, the long-term balancer, the notification of a processor and stealing by an
  idle processor. What the other processors do meanwhile is any behaviour that keeps the
  invariant (\<open>others_ok\<close>).
\<close>

subsection \<open>Moving a thread\<close>

lemma tdq_steal_Some:
  assumes E: "rqenv_ok E" and inv: "tdq_inv E c (T, S, q)" and td: "tdq_steal E T q cpu = Some td"
  shows "td \<in> tdq_elems q" "can_steal T cpu td"
proof -
  note rq = tdq_inv_rq [OF inv]
  have lin: "td \<in> rq_elems rq \<and> can_steal T cpu td" if "rq_inv E T rq" "runq_steal E T rq cpu = Some td" for rq
    using that(2) find_in unfolding runq_steal_find [OF E that(1)] rq_elems_def by fastforce
  have ts: "td \<in> rq_elems (tdq_timeshare q) \<and> can_steal T cpu td"
    if td: "runq_steal_from E T (tdq_timeshare q) cpu (tdq_ridx q) = Some td"
    using steal_visited_mem [OF td [unfolded runq_steal_from_eq [OF E
        rq [of RQ_TIMESHARE, unfolded tdq_rq_simps] tdq_inv_idx(2) [OF inv]]]]
    by (auto simp: rq_elems_def dest: in_set_dropD split: if_splits)
  have "td \<in> tdq_elems q \<and> can_steal T cpu td"
    using td lin [OF rq [of RQ_REALTIME]] lin [OF rq [of RQ_IDLE]] ts
    by (auto simp: tdq_steal_def tdq_elems_names split: option.splits)
  then show "td \<in> tdq_elems q" "can_steal T cpu td" by auto
qed

text \<open>What a successful move does, for the proofs below.\<close>

lemma tdq_move_None: "tdq_move K from to s = (None, s') \<Longrightarrow> s' = s"
  by (auto simp: tdq_move_def Let_def split: option.splits)

lemma tdq_move_Some:
  assumes E: "rqenv_ok (ke_rq K)" and inv: "ksys_inv K s" and ne: "from \<noteq> to"
    and move: "tdq_move K from to s = (Some td, s')"
  shows "td \<in> queued s from" "can_steal (k_threads s) to td" "ksys_inv K s'"
    "queued s' = (queued s)(from := queued s from - {td}, to := insert td (queued s to))"
    "ts_cpu (k_sched s' td) = to" "same_rest s s'"
    "tdq_load (k_tdq s' from) = tdq_load (k_tdq s from) - 1"
    "tdq_load (k_tdq s' to) = tdq_load (k_tdq s to) + 1"
    "\<And>c. c \<noteq> from \<Longrightarrow> c \<noteq> to \<Longrightarrow> k_tdq s' c = k_tdq s c"
    "tdq_lowpri (k_tdq s' to) \<le> td_priority (k_threads s' td)"
proof -
  define s1 where "s1 = kern_sched_rem K td s"
  define s2 where "s2 = upd_sched td (ts_cpu_update (\<lambda>_. to)) s1"
  have st: "tdq_steal (ke_rq K) (k_threads s) (k_tdq s from) to = Some td"
    and s': "s' = kern_tdq_add K to td {SRQ_YIELDING} s2"
    using move by (auto simp: tdq_move_def s1_def s2_def Let_def split: option.splits)
  note steal = tdq_steal_Some [OF E ksys_inv_tdq [OF inv] st]
  then show q: "td \<in> queued s from" and "can_steal (k_threads s) to td" by (simp_all add: queued_def)
  note r = kern_sched_rem_effect [OF E inv q s1_def]
  have out1: "\<not> on_some_queue s1 td"
    using queued_once [OF inv q] unfolding on_some_queue_def r(2) by auto
  have k: "queues_kept s1 s2"
    unfolding s2_def by (rule queues_kept_upd_sched) (use out1 in simp_all)
  note q2 = queues_kept_queued [OF k]
  have out2: "\<not> on_some_queue s2 td" using out1 q2 by (simp add: on_some_queue_def)
  have cpu2: "ts_cpu (k_sched s2 td) = to" by (simp add: s2_def)
  note a = kern_tdq_add_effect [OF E queues_kept_inv [OF r(1) k] out2 cpu2 s']
  note o = only_queue_fieldsD [OF a(3)]
  show "ksys_inv K s'" by (rule a(1))
  show "queued s' = (queued s)(from := queued s from - {td}, to := insert td (queued s to))"
    unfolding a(2) q2 r(2) using ne by auto
  show "ts_cpu (k_sched s' td) = to" by (simp add: o(3) cpu2)
  have "same_rest s1 s2" by (simp add: s2_def)
  then show "same_rest s s'" using r(6) a(7) same_rest_trans by blast
  have t2: "k_tdq s2 = k_tdq s1" by (simp add: s2_def)
  show "tdq_load (k_tdq s' from) = tdq_load (k_tdq s from) - 1"
    "tdq_load (k_tdq s' to) = tdq_load (k_tdq s to) + 1"
    using r(4,5) a(4,6) ne by (simp_all add: t2)
  show "k_tdq s' c = k_tdq s c" if "c \<noteq> from" "c \<noteq> to" for c
    using r(5) a(6) that by (simp add: t2)
  show "tdq_lowpri (k_tdq s' to) \<le> td_priority (k_threads s' td)"
    by (simp add: a(5) o(4))
qed

text \<open>
  C4. \<open>tdq_move\<close> moves at most one thread and loses none. If it returns a thread, that thread
  was queued on the donor, is neither pinned nor barred from the receiver, is queued on the
  receiver afterwards and nowhere else, the load of one thread changes sides, the receiver's
  lowest priority is at least as good as the thread's, and every queue keeps its invariant; if
  it returns \<^verbatim>\<open>NULL\<close> nothing has changed.
\<close>

theorem tdq_move_transfers:
  assumes "rqenv_ok (ke_rq K)" and "ksys_inv K s" and "from \<noteq> to"
  shows "case tdq_move K from to s of
      (None, s') \<Rightarrow> s' = s
    | (Some td, s') \<Rightarrow>
        td \<in> queued s from \<and> td_pinned (k_threads s td) = 0 \<and> to \<in> td_cpuset (k_threads s td) \<and>
        ksys_inv K s' \<and> td \<in> queued s' to \<and> (\<forall>c. c \<noteq> to \<longrightarrow> td \<notin> queued s' c) \<and>
        (\<Union>c. queued s' c) = (\<Union>c. queued s c) \<and>
        tdq_load (k_tdq s' from) + 1 = tdq_load (k_tdq s from) \<and>
        tdq_load (k_tdq s' to) = tdq_load (k_tdq s to) + 1 \<and>
        tdq_lowpri (k_tdq s' to) \<le> td_priority (k_threads s' td)"
proof (cases "tdq_move K from to s")
  case (Pair r s')
  show ?thesis
  proof (cases r)
    case None
    with Pair show ?thesis using tdq_move_None by fastforce
  next
    case (Some td)
    note m = tdq_move_Some [OF assms Pair [unfolded Some]]
    have "td \<in> queued s' to" by (simp add: m(4))
    moreover from this have "\<forall>c. c \<noteq> to \<longrightarrow> td \<notin> queued s' c" using queued_once [OF m(3)] by blast
    moreover have "(\<Union>c. queued s' c) = (\<Union>c. queued s c)"
      using m(1) assms(3) unfolding m(4) by (auto split: if_splits)
    ultimately show ?thesis using m by (simp add: Pair Some can_steal_def)
  qed
qed

theorem tdq_move_transfers_witness:
  "case tdq_move kenv0 0 1 ksys2 of
     (None, s') \<Rightarrow> s' = ksys2
   | (Some td, s') \<Rightarrow> td \<in> {130, 160} \<and> td \<in> queued s' 1 \<and> tdq_load (k_tdq s' 1) = 1"
  using tdq_move_transfers [of kenv0 ksys2 0 1] ksys2(1,2) rqenv_ok_amd64
  by (auto split: prod.splits option.splits)

subsection \<open>What the searches and the notification leave alone\<close>

lemma find_highest_same:
  assumes "find_highest self cg msk minload s = (r, s')"
  shows "k_threads s' = k_threads s" "k_sched s' = k_sched s" "k_tdq s' = k_tdq s" "k_now s' = k_now s"
    "r = fst (sched_highest (k_tdq s) (k_random s self) cg msk minload)"
  using assms by (auto simp: find_highest_def Let_def split: prod.splits)

lemma find_lowest_same:
  assumes "find_lowest self cg msk pri maxload pref s = (r, s')"
  shows "k_threads s' = k_threads s" "k_sched s' = k_sched s" "k_tdq s' = k_tdq s"
    "r = fst (sched_lowest (k_tdq s) (k_random s self) cg msk pri maxload pref)"
    "same_rest (s\<lparr>k_random := k_random s'\<rparr>) s'"
  using assms by (auto simp: find_lowest_def Let_def same_rest_def split: prod.splits)

lemma find_highest_kept: "find_highest self cg msk minload s = (r, s') \<Longrightarrow> queues_kept s s'"
  by (rule queues_kept_fields) (auto dest: find_highest_same)

lemma find_lowest_kept: "find_lowest self cg msk pri maxload pref s = (r, s') \<Longrightarrow> queues_kept s s'"
  by (rule queues_kept_fields) (auto dest: find_lowest_same)

lemma tdq_notify_kept: "queues_kept s (tdq_notify K c td s)"
proof -
  let ?s = "upd_tdq c (tdq_ipipending_update (\<lambda>_. True)) s"
  have "queues_kept s ?s" by (rule queues_kept_upd_tdq) simp
  moreover have "queues_kept ?s (?s\<lparr>k_ipis := x\<rparr>)" for x by (rule queues_kept_fields) simp_all
  ultimately have "queues_kept s (?s\<lparr>k_ipis := x\<rparr>)" for x by (rule queues_kept_trans)
  then show ?thesis by (simp add: tdq_notify_def Let_def)
qed

subsection \<open>An invariant that every processor keeps\<close>

locale kernel_invariant =
  fixes K :: "('w::len) kenv" and ok :: "'w ksys \<Rightarrow> bool"
  assumes kenv_headers: "rqenv_ok (ke_rq K)"
    and ok_inv: "ok s \<Longrightarrow> ksys_inv K s"
    and ok_others: "ok s \<Longrightarrow> ok (ke_others K n s)"
    and ok_kept: "ok s \<Longrightarrow> queues_kept s s' \<Longrightarrow> ok s'"
    and ok_move: "ok s \<Longrightarrow> from \<noteq> to \<Longrightarrow> tdq_move K from to s = (Some td, s') \<Longrightarrow> ok s'"
begin

lemma ok_others_run: "ok s \<Longrightarrow> ok (others_run K s)"
  unfolding others_run_def by (rule ok_kept [OF ok_others]) (auto intro: queues_kept_fields)

lemma ok_find:
  "ok s \<Longrightarrow> find_highest self cg msk minload s = (r, s') \<Longrightarrow> ok s'"
  "ok s \<Longrightarrow> find_lowest self cg msk pri maxload pref s = (r, s') \<Longrightarrow> ok s'"
  using ok_kept find_highest_kept find_lowest_kept by blast+

lemma ok_balance_pair:
  assumes "ok s" "high \<noteq> low" "sched_balance_pair K self high low s = (r, s')"
  shows "ok s'"
proof (cases "tdq_move K high low s")
  case (Pair t s1)
  show ?thesis
  proof (cases t)
    case None
    with Pair have "s1 = s" using tdq_move_None by fastforce
    then show ?thesis using assms Pair None by (auto simp: sched_balance_pair_def split: if_splits)
  next
    case (Some td)
    have "ok s1" by (rule ok_move [OF assms(1,2) Pair [unfolded Some]])
    then show ?thesis
      using assms Pair Some ok_kept [OF _ tdq_notify_kept]
      by (auto simp: sched_balance_pair_def split: if_splits)
  qed
qed

lemma nextlow_returns:
  assumes "finite lmask" "high \<notin> lmask" "ok s"
  shows "\<exists>r s'. balance_nextlow K self cg high hmask lmask anylow s = Some (r, s') \<and> ok s' \<and>
    (\<forall>h. r = Some h \<longrightarrow> h \<subseteq> hmask)"
  using assms
proof (induction "card lmask" arbitrary: lmask anylow s rule: less_induct)
  case less
  obtain low s1 where f: "find_lowest self cg lmask (- 1) (tdq_load (k_tdq (others_run K s) high) - 1)
      (Some high) (others_run K s) = (low, s1)" by fastforce
  have ok1: "ok s1" by (rule ok_find(2) [OF ok_others_run [OF less.prems(3)] f])
  show ?case
  proof (cases low)
    case None
    then show ?thesis using f ok1 by (subst balance_nextlow.simps) (simp add: Let_def)
  next
    case (Some l)
    have l: "l \<in> lmask" using f Some by (metis find_lowest_same(4) sched_lowest_sound(4))
    with less.prems have "high \<noteq> l" by auto
    obtain moved s2 where p: "sched_balance_pair K self high l (others_run K s1) = (moved, s2)" by fastforce
    have ok2: "ok s2" by (rule ok_balance_pair [OF ok_others_run [OF ok1] \<open>high \<noteq> l\<close> p])
    have "card (lmask - {l}) < card lmask" using l less.prems(1) by (rule card_Diff1_less [rotated])
    moreover have "finite (lmask - {l})" "high \<notin> lmask - {l}" using less.prems by auto
    ultimately have "\<exists>r s'. balance_nextlow K self cg high hmask (lmask - {l}) False s2 = Some (r, s') \<and>
        ok s' \<and> (\<forall>h. r = Some h \<longrightarrow> h \<subseteq> hmask)"
      by (rule less.hyps [OF _ _ _ ok2])
    then show ?thesis
      using f p Some ok2 by (subst balance_nextlow.simps) (simp add: Let_def Diff_subset)
  qed
qed

lemma balance_loop_returns:
  assumes "finite hmask" "ok s"
  shows "\<exists>s'. balance_loop K self cg hmask s = Some s' \<and> ok s'"
  using assms
proof (induction "card hmask" arbitrary: hmask s rule: less_induct)
  case less
  obtain high s1 where f: "find_highest self cg hmask 2 (others_run K s) = (high, s1)" by fastforce
  have ok1: "ok s1" by (rule ok_find(1) [OF ok_others_run [OF less.prems(2)] f])
  show ?case
  proof (cases high)
    case None
    then show ?thesis using f ok1 by (subst balance_loop.simps) (simp add: Let_def)
  next
    case (Some h)
    have h: "h \<in> hmask" using f Some by (metis find_highest_same(5) sched_highest_sound(4))
    have fin: "finite (hmask - {h})" "h \<notin> hmask - {h}" using less.prems(1) by auto
    obtain r s2 where n: "balance_nextlow K self cg h (hmask - {h}) (hmask - {h}) True s1 = Some (r, s2)"
      "ok s2" "\<forall>m. r = Some m \<longrightarrow> m \<subseteq> hmask - {h}"
      using nextlow_returns [OF fin ok1] by blast
    have "\<exists>s'. balance_loop K self cg m s2 = Some s' \<and> ok s'" if "r = Some m" for m
    proof (rule less.hyps [OF _ _ n(2)])
      have m: "m \<subseteq> hmask - {h}" using n(3) that by simp
      then show "finite m" using fin(1) by (rule finite_subset)
      show "card m < card hmask"
        using card_mono [OF fin(1) m] card_Diff1_less [OF less.prems(1) h] by linarith
    qed
    then obtain s' where rec: "\<And>m. r = Some m \<Longrightarrow> balance_loop K self cg m s2 = Some s' \<and> ok s'"
      by (cases r) auto
    show ?thesis
    proof (cases "hmask - {h} = {}")
      case True
      then show ?thesis using f Some ok1 by (subst balance_loop.simps) (simp add: Let_def)
    next
      case False
      then have "balance_loop K self cg hmask s =
          (case r of None \<Rightarrow> Some s2 | Some m \<Rightarrow> balance_loop K self cg m s2)"
        using f Some n(1) by (subst balance_loop.simps) (simp add: Let_def)
      then show ?thesis using rec n(2) by (cases r) simp_all
    qed
  qed
qed

lemma balance_group_returns: "ok s \<Longrightarrow> \<exists>s'. sched_balance_group K self cg s = Some s' \<and> ok s'"
  unfolding sched_balance_group_def by (rule balance_loop_returns) (simp_all add: CPU_FILL_def)

end

text \<open>All the threads that are queued somewhere.\<close>

definition all_queued :: "('w::len) ksys \<Rightarrow> tid set" where
  "all_queued s = (\<Union>c. queued s c)"

lemma all_queued_kept: "queues_kept s s' \<Longrightarrow> all_queued s' = all_queued s"
  by (simp add: all_queued_def queues_kept_queued)

lemma all_queued_move:
  assumes "rqenv_ok (ke_rq K)" "ksys_inv K s" "from \<noteq> to" "tdq_move K from to s = (Some td, s')"
  shows "ksys_inv K s'" "all_queued s' = all_queued s"
  using tdq_move_Some [OF assms] assms(3) by (auto simp: all_queued_def split: if_splits)

text \<open>
  The other processors keep the invariant; beyond that they may queue, run and move any threads.
  \<open>others_change\<close> is what one run of theirs makes of the set of queued threads.
\<close>

definition others_keep :: "('w::len) kenv \<Rightarrow> bool" where
  "others_keep K \<longleftrightarrow> (\<forall>n s. ksys_inv K s \<longrightarrow> ksys_inv K (ke_others K n s))"

definition others_change :: "('w::len) kenv \<Rightarrow> tid set \<Rightarrow> tid set \<Rightarrow> bool" where
  "others_change K X Y \<longleftrightarrow> (\<exists>n s. ksys_inv K s \<and> X = all_queued s \<and> Y = all_queued (ke_others K n s))"

lemma kernel_invariant_queued:
  fixes K :: "('w::len) kenv"
  assumes "rqenv_ok (ke_rq K)" "others_keep K"
  shows "kernel_invariant K (\<lambda>s. ksys_inv K s \<and> (others_change K)\<^sup>*\<^sup>* X (all_queued s))"
proof
  show "rqenv_ok (ke_rq K)" by (rule assms(1))
  fix s s' :: "'w ksys" and n c d td
  assume s: "ksys_inv K s \<and> (others_change K)\<^sup>*\<^sup>* X (all_queued s)"
  then show "ksys_inv K s" ..
  have "others_change K (all_queued s) (all_queued (ke_others K n s))" using s unfolding others_change_def by blast
  then show "ksys_inv K (ke_others K n s) \<and> (others_change K)\<^sup>*\<^sup>* X (all_queued (ke_others K n s))"
    using assms(2) s unfolding others_keep_def by (blast intro: rtranclp.rtrancl_into_rtrancl)
  show "queues_kept s s' \<Longrightarrow> ksys_inv K s' \<and> (others_change K)\<^sup>*\<^sup>* X (all_queued s')"
    using s by (auto simp: all_queued_kept intro: queues_kept_inv)
  show "c \<noteq> d \<Longrightarrow> tdq_move K c d s = (Some td, s') \<Longrightarrow> ksys_inv K s' \<and> (others_change K)\<^sup>*\<^sup>* X (all_queued s')"
    using all_queued_move [OF assms(1)] s by metis
qed

text \<open>
  C16. The long-term balancer always comes to an end, whatever the other processors do while it
  searches, as long as they keep the invariant of the queues: \<open>sched_balance_group\<close> returns, the
  invariant holds again, by which every thread is on one queue at most, and the balancer itself adds
  and removes none: the set of queued threads is what the runs of the other processors have made of it.
\<close>

theorem sched_balance_group_returns:
  assumes "rqenv_ok (ke_rq K)" and "ksys_inv K s" and "others_keep K"
  shows "\<exists>s'. sched_balance_group K self cg s = Some s' \<and> ksys_inv K s' \<and>
    (\<forall>c d. c \<noteq> d \<longrightarrow> queued s' c \<inter> queued s' d = {}) \<and> (others_change K)\<^sup>*\<^sup>* (all_queued s) (all_queued s')"
proof -
  obtain s' where s': "sched_balance_group K self cg s = Some s'" "ksys_inv K s'"
    "(others_change K)\<^sup>*\<^sup>* (all_queued s) (all_queued s')"
    using kernel_invariant.balance_group_returns [OF kernel_invariant_queued [OF assms(1,3), of "all_queued s"]] assms(2) by blast
  have "queued s' c \<inter> queued s' d = {}" if "c \<noteq> d" for c d
    using queued_once [OF s'(2)] that by blast
  with s' show ?thesis by blast
qed

text \<open>Two processors, of which the other one runs thread 130 away whenever it finds it on queue 0.\<close>

definition kenv_run130 :: "64 kenv" where
  "kenv_run130 = kenv0\<lparr>ke_others := (\<lambda>_ s. if 130 \<in> queued s 0 then kern_sched_rem kenv0 130 s else s)\<rparr>"

lemma kenv_run130 [simp]:
  "ke_rq kenv_run130 = ke_rq kenv0" "ksys_inv kenv_run130 s = ksys_inv kenv0 s"
  "ke_others kenv_run130 n s = (if 130 \<in> queued s 0 then kern_sched_rem kenv0 130 s else s)"
  by (simp_all add: kenv_run130_def ksys_inv_def)

lemma run130_effect:
  assumes "ksys_inv kenv0 s"
  shows "ksys_inv kenv0 (ke_others kenv_run130 n s)" "all_queued (ke_others kenv_run130 n s) \<subseteq> all_queued s"
proof -
  have E: "rqenv_ok (ke_rq kenv0)" by (simp add: rqenv_ok_amd64)
  note r = kern_sched_rem_effect [OF E assms _ refl, of 130 0]
  show "ksys_inv kenv0 (ke_others kenv_run130 n s)" using assms r(1) by simp
  show "all_queued (ke_others kenv_run130 n s) \<subseteq> all_queued s" using r(2) by (auto simp: all_queued_def split: if_splits)
qed

lemma others_keep130: "others_keep kenv_run130"
  using run130_effect(1) by (simp add: others_keep_def)

interpretation machine0: kernel_invariant kenv_run130
    "\<lambda>s. ksys_inv kenv_run130 s \<and> (others_change kenv_run130)\<^sup>*\<^sup>* {130, 160} (all_queued s)"
  by (rule kernel_invariant_queued) (simp_all add: rqenv_ok_amd64 others_keep130 del: kenv_run130(2,3))

theorem sched_balance_group_returns_witness:
  "\<exists>s'. sched_balance_group kenv_run130 1 topology2 ksys2 = Some s' \<and> all_queued s' \<subseteq> {130, 160}"
proof -
  have "all_queued ksys2 = {130, 160}" by (auto simp: all_queued_def ksys2(2) split: if_splits)
  moreover have "Y \<subseteq> X" if "(others_change kenv_run130)\<^sup>*\<^sup>* X Y" for X Y
    using that run130_effect(2) by (induction rule: rtranclp_induct) (auto simp: others_change_def simp del: kenv_run130(3))
  ultimately show ?thesis
    using sched_balance_group_returns [of kenv_run130 ksys2 1 topology2] ksys2(1) others_keep130 rqenv_ok_amd64
    by fastforce
qed

subsection \<open>Stealing by an idle processor\<close>

text \<open>The same threads and queues, with other counters.\<close>

definition same_threads :: "('w::len) ksys \<Rightarrow> 'w ksys \<Rightarrow> bool" where
  "same_threads s s' \<longleftrightarrow> k_threads s' = k_threads s \<and> k_sched s' = k_sched s \<and> k_tdq s' = k_tdq s"

lemma same_threads_kept: "same_threads s s' \<Longrightarrow> queues_kept s s'"
  by (rule queues_kept_fields) (simp_all add: same_threads_def)

definition donor :: "('w::len) kenv \<Rightarrow> 'w ksys \<Rightarrow> cpuid \<Rightarrow> bool" where
  "donor K s cpu \<longleftrightarrow> tdq_load (k_tdq s cpu) \<ge> steal_thresh (ke_conf K) \<and> tdq_transferable (k_tdq s cpu) \<noteq> 0"

definition nothing_to_steal :: "('w::len) kenv \<Rightarrow> 'w ksys \<Rightarrow> cpuid \<Rightarrow> cpuid \<Rightarrow> bool" where
  "nothing_to_steal K s self cpu \<longleftrightarrow> tdq_steal (ke_rq K) (k_threads s) (k_tdq s cpu) self = None"

definition quiet :: "('w::len) kenv \<Rightarrow> bool" where
  "quiet K \<longleftrightarrow> (\<forall>n s. ke_others K n s = s)"

lemma quiet_run: "quiet K \<Longrightarrow> same_threads s (others_run K s)"
  by (simp add: quiet_def others_run_def same_threads_def)

text \<open>
  What the loop returns when no other processor interferes: either it has stolen a thread and
  switched, or every donor of the last group was tried in vain.
\<close>

definition idled_result ::
  "('w::len) kenv \<Rightarrow> 'w ksys \<Rightarrow> cpuid \<Rightarrow> cpuid set \<Rightarrow> cpu_group list \<Rightarrow> bool \<Rightarrow> 'w ksys \<Rightarrow> bool" where
  "idled_result K s self msk cgs r s' \<longleftrightarrow>
     (if r then same_threads s s' \<and> (cgs \<noteq> [] \<longrightarrow>
          (\<forall>cpu\<in>set (group_cpus (last cgs)) \<inter> msk. donor K s cpu \<longrightarrow> nothing_to_steal K s self cpu))
      else \<exists>cpu\<in>msk. \<exists>td s1 s2. donor K s cpu \<and> same_threads s s1 \<and>
          tdq_move K cpu self s1 = (Some td, s2) \<and> s' = ke_mi_switch K self {SW_VOL, SWT_IDLE} s2)"

lemma idled_result_mask:
  assumes "idled_result K s self (msk - {cpu}) cgs r s'" "nothing_to_steal K s self cpu"
  shows "idled_result K s self msk cgs r s'"
  using assms by (auto simp: idled_result_def split: if_splits)

lemma idled_result_parents:
  assumes "idled_result K s self msk parents r s'"
    and "\<And>cpu. cpu \<in> set (group_cpus cg) \<inter> msk \<Longrightarrow> \<not> donor K s cpu"
  shows "idled_result K s self msk (cg # parents) r s'"
  using assms by (auto simp: idled_result_def)

lemma idled_result_same:
  assumes "same_threads s0 s" "idled_result K s self msk cgs r s'"
  shows "idled_result K s0 self msk cgs r s'"
  using assms by (auto simp: idled_result_def same_threads_def donor_def nothing_to_steal_def)

lemma find_highest_quiet:
  assumes "find_highest self cg msk minload s = (r, s')"
  shows "same_threads s s'" "r = Some cpu \<Longrightarrow> cpu \<in> msk \<and> minload \<le> tdq_load (k_tdq s cpu) \<and> tdq_transferable (k_tdq s cpu) \<noteq> 0"
    "r = None \<Longrightarrow> loads_ok (k_tdq s) (group_cpus cg) \<Longrightarrow> c \<in> set (group_cpus cg) \<inter> msk \<Longrightarrow>
      \<not> (minload \<le> tdq_load (k_tdq s c) \<and> tdq_transferable (k_tdq s c) \<noteq> 0)"
proof -
  note f = find_highest_same [OF assms]
  show "same_threads s s'" using f by (simp add: same_threads_def)
  show "r = Some cpu \<Longrightarrow> cpu \<in> msk \<and> minload \<le> tdq_load (k_tdq s cpu) \<and> tdq_transferable (k_tdq s cpu) \<noteq> 0"
    using sched_highest_sound f(5) by metis
  show "r = None \<Longrightarrow> loads_ok (k_tdq s) (group_cpus cg) \<Longrightarrow> c \<in> set (group_cpus cg) \<inter> msk \<Longrightarrow>
      \<not> (minload \<le> tdq_load (k_tdq s c) \<and> tdq_transferable (k_tdq s c) \<noteq> 0)"
    using sched_highest_spec [of "k_tdq s" cg, where rnd = "k_random s self" and msk = msk and minload = minload] f(5)
    by auto
qed

lemma idled_loop_quiet:
  assumes "quiet K" "finite msk" "tdq_load (k_tdq s self) = 0" "n = switch_count (k_tdq s self)"
    and "\<forall>cg\<in>set cgs. loads_ok (k_tdq s) (group_cpus cg)"
  shows "\<exists>r s'. tdq_idled_loop K self msk n cgs s = Some (r, s') \<and> idled_result K s self msk cgs r s'"
  using assms(2-)
proof (induction "card msk + length cgs" arbitrary: msk cgs s rule: less_induct)
  case less
  show ?case
  proof (cases cgs)
    case Nil
    then show ?thesis
      by (intro exI [of _ True] exI [of _ s], subst tdq_idled_loop.simps)
        (simp add: idled_result_def same_threads_def)
  next
    case (Cons cg parents)
    obtain r s1 where f: "find_highest self cg msk (steal_thresh (ke_conf K)) (others_run K s) = (r, s1)" by fastforce
    note q = quiet_run [OF assms(1)]
    have s01: "same_threads s (others_run K s)" "same_threads s s1"
      using find_highest_quiet(1) [OF f] q by (auto simp: same_threads_def)
    have load1: "tdq_load (k_tdq s1 self) = 0" using s01 less.prems(2) by (simp add: same_threads_def)
    show ?thesis
    proof (cases r)
      case None
      have "\<exists>r s'. tdq_idled_loop K self msk n parents s1 = Some (r, s') \<and> idled_result K s1 self msk parents r s'"
        by (rule less.hyps) (use Cons less.prems s01 in \<open>auto simp: same_threads_def\<close>)
      then obtain r' s' where rec: "tdq_idled_loop K self msk n parents s1 = Some (r', s')"
        "idled_result K s1 self msk parents r' s'" by blast
      have "\<not> donor K s c" if "c \<in> set (group_cpus cg) \<inter> msk" for c
        using find_highest_quiet(3) [OF f None _ that] less.prems(4) s01(1)
        by (simp add: Cons donor_def same_threads_def)
      from idled_result_parents [OF idled_result_same [OF s01(2) rec(2)] this]
      show ?thesis using f None load1 rec(1) by (subst tdq_idled_loop.simps) (simp add: Cons Let_def)
    next
      case (Some cpu)
      define s2 where "s2 = others_run K (others_run K s1)"
      have s2: "same_threads s s2" "same_threads s (others_run K s1)"
        using s01(2) q [of s1] q [of "others_run K s1"] by (simp_all add: same_threads_def s2_def)
      have cpu: "cpu \<in> msk" "donor K s cpu"
        using find_highest_quiet(2) [OF f Some] s01(1) by (auto simp: donor_def same_threads_def)
      have fresh: "\<not> steal_stale K (k_tdq s cpu)" using cpu(2) by (auto simp: donor_def steal_stale_def)
      note tdqs = s2 [unfolded same_threads_def]
      obtain t s3 where m: "tdq_move K cpu self s2 = (t, s3)" by fastforce
      have step: "tdq_idled_loop K self msk n cgs s = (case t of
          Some td \<Rightarrow> Some (False, ke_mi_switch K self {SW_VOL, SWT_IDLE} s3)
        | None \<Rightarrow> tdq_idled_loop K self (msk - {cpu}) n (cg # parents) s3)"
        by (subst tdq_idled_loop.simps)
          (use f Some load1 fresh tdqs less.prems(2,3) m in \<open>simp add: Cons Let_def s2_def split: option.splits\<close>)
      show ?thesis
      proof (cases t)
        case None
        with m have [simp]: "s3 = s2" using tdq_move_None by fastforce
        have "nothing_to_steal K s2 self cpu"
          using m None by (auto simp: tdq_move_def nothing_to_steal_def Let_def split: option.splits)
        then have no: "nothing_to_steal K s self cpu" using s2(1) by (simp add: nothing_to_steal_def same_threads_def)
        have "card (msk - {cpu}) < card msk" using less.prems(1) cpu(1) by (rule card_Diff1_less)
        then have "\<exists>r s'. tdq_idled_loop K self (msk - {cpu}) n (cg # parents) s2 = Some (r, s') \<and>
            idled_result K s2 self (msk - {cpu}) (cg # parents) r s'"
          by (intro less.hyps) (use Cons less.prems s2(1) in \<open>simp_all add: same_threads_def\<close>)
        then obtain r' s' where rec: "tdq_idled_loop K self (msk - {cpu}) n (cg # parents) s2 = Some (r', s')"
          "idled_result K s2 self (msk - {cpu}) (cg # parents) r' s'" by blast
        have "idled_result K s self msk cgs r' s'"
          using idled_result_mask [OF idled_result_same [OF s2(1) rec(2)] no] by (simp add: Cons)
        with rec(1) show ?thesis by (simp add: step None)
      next
        case (Some td)
        have "idled_result K s self msk cgs False (ke_mi_switch K self {SW_VOL, SWT_IDLE} s3)"
          unfolding idled_result_def using cpu s2(1) m Some by auto
        then show ?thesis by (intro exI [of _ False]) (simp add: step Some)
      qed
    qed
  qed
qed

text \<open>
  C13. On a started machine with stealing enabled, whose other processors stand still, a processor
  without load (whose groups have loads in range) finds work if there is work to steal. \<open>tdq_idled\<close>
  returns; it returns 1, so that the processor goes to sleep, only if each other processor of the
  topmost group has a load below \<^verbatim>\<open>steal_thresh\<close>, or no transferable thread, or \<open>tdq_steal\<close> finds
  none on it that may run here; otherwise it has moved one thread from a processor with at least
  that load to its own queue and has called \<^verbatim>\<open>mi_switch\<close>.
\<close>

theorem tdq_idled_finds_work:
  assumes "quiet K" and "k_smp_started s" and "steal_idle (ke_conf K)" and "tdq_load (k_tdq s self) = 0"
    and "tdq_cg (k_tdq s self) = cgs" and "cgs \<noteq> []"
    and "\<forall>cg\<in>set cgs. loads_ok (k_tdq s) (group_cpus cg)"
  shows "\<exists>r s'. tdq_idled K self s = Some (r, s') \<and>
    (if r
     then \<forall>cpu\<in>set (group_cpus (last cgs)). cpu < ke_CPU_SETSIZE K \<and> cpu \<noteq> self \<longrightarrow>
       tdq_load (k_tdq s cpu) < steal_thresh (ke_conf K) \<or> tdq_transferable (k_tdq s cpu) = 0 \<or>
       tdq_steal (ke_rq K) (k_threads s) (k_tdq s cpu) self = None
     else \<exists>cpu td s1 s2. cpu \<noteq> self \<and> steal_thresh (ke_conf K) \<le> tdq_load (k_tdq s cpu) \<and>
       k_threads s1 = k_threads s \<and> k_sched s1 = k_sched s \<and> k_tdq s1 = k_tdq s \<and>
       tdq_move K cpu self s1 = (Some td, s2) \<and> s' = ke_mi_switch K self {SW_VOL, SWT_IDLE} s2)"
proof -
  have "finite (CPU_FILL K - {self})" by (simp add: CPU_FILL_def)
  from idled_loop_quiet [OF assms(1) this assms(4) refl assms(7)] assms(2,3,5,6)
  obtain r s' where *: "tdq_idled K self s = Some (r, s')" "idled_result K s self (CPU_FILL K - {self}) cgs r s'"
    by (auto simp: tdq_idled_def)
  show ?thesis
  proof (cases r)
    case True
    have "tdq_load (k_tdq s cpu) < steal_thresh (ke_conf K) \<or> tdq_transferable (k_tdq s cpu) = 0 \<or>
        tdq_steal (ke_rq K) (k_threads s) (k_tdq s cpu) self = None"
      if "cpu \<in> set (group_cpus (last cgs))" "cpu < ke_CPU_SETSIZE K" "cpu \<noteq> self" for cpu
    proof -
      have "cpu \<in> set (group_cpus (last cgs)) \<inter> (CPU_FILL K - {self})" using that by (simp add: CPU_FILL_def)
      then have "donor K s cpu \<longrightarrow> nothing_to_steal K s self cpu"
        using *(2) True assms(6) unfolding idled_result_def by meson
      then show ?thesis by (auto simp: donor_def nothing_to_steal_def not_le)
    qed
    with *(1) True show ?thesis by auto
  next
    case False
    with * show ?thesis by (auto simp: idled_result_def donor_def same_threads_def)
  qed
qed

theorem tdq_idled_finds_work_witness:
  "\<exists>r s'. tdq_idled kenv0 1 ksys2 = Some (r, s') \<and>
    (r \<longrightarrow> tdq_transferable (k_tdq ksys2 0) = 0 \<or>
      tdq_steal amd64_env (k_threads ksys2) (k_tdq ksys2 0) 1 = None)"
proof -
  have "k_smp_started ksys2" by simp
  moreover have "loads_ok (k_tdq ksys2) (group_cpus topology2)"
    by (simp add: loads_ok_def ksys2(4) INT_MAX_def)
  ultimately show ?thesis
    using tdq_idled_finds_work [of kenv0 ksys2 1 "[topology2]"] ksys2(4)
    by (auto simp: quiet_def conf0_def split: if_splits)
qed

end
