(* ===== verification/Switch.thy ===== *)
theory Switch
  imports Ule_Smp
begin

section \<open>Choosing the thread to run\<close>

text \<open>
  The upper half of \<^verbatim>\<open>kern_switch_orig.c\<close>: \<open>choosethread\<close> with its loop during a panic, the
  preemption at the end of a critical section, and the handler that resets the switch statistics.
\<close>

definition kern_sched_choose :: "('w::len) kenv \<Rightarrow> cpuid \<Rightarrow> 'w ksys \<Rightarrow> tid \<times> 'w ksys" where
  "kern_sched_choose K self s =
     (let (td, st) = sched_choose (ke_rq K) (ke_pri K) (k_idlethread s self) (tdq_view self s)
      in (td, tdq_put self st s))"

definition panic_may_run :: "('w::len) ksys \<Rightarrow> tid \<Rightarrow> bool" where
  "panic_may_run s td \<longleftrightarrow>
     P_SYSTEM \<in> p_flag (k_procs s (td_proc (k_threads s td))) \<or> TDF_INPANIC \<in> td_flags (k_threads s td)"

partial_function (option) choosethread_panic ::
  "('w::len) kenv \<Rightarrow> cpuid \<Rightarrow> tid \<Rightarrow> 'w ksys \<Rightarrow> (tid \<times> 'w ksys) option" where
  "choosethread_panic K self td s =
     (if P_SYSTEM \<notin> p_flag (k_procs s (td_proc (k_threads s td))) \<and>
         TDF_INPANIC \<notin> td_flags (k_threads s td)
      then (let s = upd_thread td (td_state_update (\<lambda>_. TDS_CAN_RUN)) s;
                (td, s) = kern_sched_choose K self s
            in choosethread_panic K self td s)
      else Some (td, upd_thread td (td_state_update (\<lambda>_. TDS_RUNNING)) s))"

definition choosethread :: "('w::len) kenv \<Rightarrow> cpuid \<Rightarrow> 'w ksys \<Rightarrow> (tid \<times> 'w ksys) option" where
  "choosethread K self s =
     (let (td, s) = kern_sched_choose K self s
      in if k_panicstr s then choosethread_panic K self td s
         else Some (td, upd_thread td (td_state_update (\<lambda>_. TDS_RUNNING)) s))"

definition critical_exit_preempt :: "('w::len) kenv \<Rightarrow> cpuid \<Rightarrow> bool \<Rightarrow> 'w ksys \<Rightarrow> 'w ksys" where
  "critical_exit_preempt K self kdb_active s =
     (let td = k_curthread s self
      in if td_critnest (k_threads s td) \<noteq> 0 then s
         else if kdb_active then s
         else
           (let s = upd_thread td (td_critnest_update (\<lambda>_. 1)) s;
                s = others_run K s;
                s = upd_thread td (td_critnest_update (\<lambda>n. n - 1)) s;
                flags = {SW_INVOL, SW_PREEMPT};
                flags = insert (if TD_IS_IDLETHREAD (k_threads s) td then SWT_IDLE else SWT_OWEPREEMPT) flags
            in ke_mi_switch K self flags s))"

text \<open>
  The children of the statistics node are the oids with their counters; \<open>oid\<close> is the handler's
  own. \<^verbatim>\<open>sysctl_handle_int\<close> is the argument \<open>handle\<close>: the error and the value that was read.
\<close>

record sysctl_oid =
  oid_number :: nat
  oid_arg1 :: "nat option"

definition reset_counter :: "cpuid list \<Rightarrow> nat \<Rightarrow> (cpuid \<Rightarrow> nat \<Rightarrow> int) \<Rightarrow> cpuid \<Rightarrow> nat \<Rightarrow> int" where
  "reset_counter cpus counter = fold (\<lambda>i mem. mem(i := (mem i)(counter := 0))) cpus"

definition sysctl_stats_reset ::
  "cpuid list \<Rightarrow> sysctl_oid \<Rightarrow> sysctl_oid list \<Rightarrow> int \<times> int \<Rightarrow> bool \<Rightarrow> (cpuid \<Rightarrow> nat \<Rightarrow> int) \<Rightarrow>
   int \<times> (cpuid \<Rightarrow> nat \<Rightarrow> int)" where
  "sysctl_stats_reset cpus oid children handle newptr mem =
     (let (error, val) = handle
      in if error \<noteq> 0 \<or> \<not> newptr then (error, mem)
         else if val = 0 then (0, mem)
         else (0, fold (\<lambda>p mem.
                 case oid_arg1 p of
                   None \<Rightarrow> mem
                 | Some counter \<Rightarrow>
                     (if oid_number p = oid_number oid then mem else reset_counter cpus counter mem))
               children mem))"

end
