(* ===== verification/Ule_Sched.thy ===== *)
theory Ule_Sched
  imports Switch
begin

section \<open>ULE: the scheduler interface\<close>

text \<open>
  The functions of \<^verbatim>\<open>sched_ule.c\<close> that the rest of the kernel calls: choosing a processor and
  adding a thread, changing priorities, switching, sleep and wakeup, fork and exit, the clock,
  affinity and binding, the idle thread, and the tunables. The functions whose body is one
  assignment to a field that the model does not have (locks, names) are left out.
\<close>

subsection \<open>The arithmetic on a thread of the state\<close>

definition kern_sched_priority :: "('w::len) kenv \<Rightarrow> tid \<Rightarrow> 'w ksys \<Rightarrow> 'w ksys option" where
  "kern_sched_priority K td s =
     map_option (\<lambda>t. upd_thread td (\<lambda>_. t) s)
       (sched_priority (ke_pri K) (ke_conf K) (k_procs s) (k_sched s td) (k_threads s td))"

definition kern_pctcpu_update :: "('w::len) kenv \<Rightarrow> tid \<Rightarrow> bool \<Rightarrow> 'w ksys \<Rightarrow> 'w ksys option" where
  "kern_pctcpu_update K td run s =
     map_option (\<lambda>ts. upd_sched td (\<lambda>_. ts) s)
       (sched_pctcpu_update (ke_conf K) (k_ticks s) (k_sched s td) run)"

definition kern_interact_update :: "('w::len) kenv \<Rightarrow> tid \<Rightarrow> 'w ksys \<Rightarrow> 'w ksys" where
  "kern_interact_update K td s = upd_sched td (sched_interact_update (ke_conf K)) s"

definition charge_runtime :: "tid \<Rightarrow> u32 \<Rightarrow> ('w::len) ksys \<Rightarrow> 'w ksys" where
  "charge_runtime td n s = upd_sched td (ts_runtime_update (\<lambda>r. r + n)) s"

definition set_td_flags :: "tid \<Rightarrow> td_flag set \<Rightarrow> ('w::len) ksys \<Rightarrow> 'w ksys" where
  "set_td_flags td flags s = upd_thread td (td_flags_update (\<lambda>f. f \<union> flags)) s"

definition clear_td_flags :: "tid \<Rightarrow> td_flag set \<Rightarrow> ('w::len) ksys \<Rightarrow> 'w ksys" where
  "clear_td_flags td flags s = upd_thread td (td_flags_update (\<lambda>f. f - flags)) s"

subsection \<open>Setting up\<close>

definition schedinit :: "cpuid \<Rightarrow> tid \<Rightarrow> ('w::len) ksys \<Rightarrow> 'w ksys" where
  "schedinit curcpu td0 s =
     upd_sched td0 (\<lambda>ts. ts\<lparr>ts_ltick := k_ticks s, ts_ftick := k_ticks s, ts_slice := 0,
                                ts_cpu := curcpu\<rparr>) s"

text \<open>\<open>None\<close> is the panic for a processor that the topology does not have.\<close>

fun sched_setup_cpus :: "('w::len) kenv \<Rightarrow> cpuid list \<Rightarrow> 'w ksys \<Rightarrow> 'w ksys option" where
  "sched_setup_cpus K [] s = Some s"
| "sched_setup_cpus K (i # cpus) s =
     (let cg = ke_topo_find K (ke_cpu_top K) i;
          s = upd_tdq i (\<lambda>q. (Tdq.tdq_setup (ke_rq K) q)\<lparr>tdq_cg := cg\<rparr>) s
      in if cg = [] then None else sched_setup_cpus K cpus s)"

definition sched_setup_smp :: "('w::len) kenv \<Rightarrow> cpuid \<Rightarrow> 'w ksys \<Rightarrow> 'w ksys option" where
  "sched_setup_smp K self s =
     map_option (k_balance_tdq_update (\<lambda>_. self)) (sched_setup_cpus K (ke_cpus K) s)"

definition sched_setup :: "('w::len) kenv \<Rightarrow> cpuid \<Rightarrow> tid \<Rightarrow> 'w ksys \<Rightarrow> 'w ksys option" where
  "sched_setup K self td0 s =
     map_option
       (\<lambda>s. upd_tdq self (tdq_lowpri_update (\<lambda>_. td_priority (k_threads s td0)))
              (kern_load_add self td0 s))
       (sched_setup_smp K self s)"

subsection \<open>Choosing a processor\<close>

definition SCHED_AFFINITY :: "('w::len) kenv \<Rightarrow> 'w ksys \<Rightarrow> td_sched \<Rightarrow> nat \<Rightarrow> bool" where
  "SCHED_AFFINITY K s ts t \<longleftrightarrow>
     sint (ts_rltick ts) > sint (k_ticks s - of_nat t * word_of_int (affinity (ke_conf K)) :: u32)"

definition CG_FLAG_THREAD :: "cpu_group \<Rightarrow> bool" where
  "CG_FLAG_THREAD cg \<longleftrightarrow> CG_FLAG_HTT \<in> set (cg_flags cg) \<or> CG_FLAG_SMT \<in> set (cg_flags cg)"

definition group_busy_cpu :: "('w::len) kenv \<Rightarrow> 'w ksys \<Rightarrow> cpu_group \<Rightarrow> cpuid option" where
  "group_busy_cpu K s cg =
     find (\<lambda>cpu. cpu \<in> set (cg_mask cg) \<and> uint (tdq_lowpri (k_tdq s cpu)) < PRI_MIN_IDLE (ke_pri K))
       [0..<Suc (ke_mp_maxid K)]"

fun pick_group ::
  "('w::len) kenv \<Rightarrow> 'w ksys \<Rightarrow> td_sched \<Rightarrow> cpu_group option \<Rightarrow> cpu_group list \<Rightarrow> cpu_group option" where
  "pick_group K s ts ccg [] = ccg"
| "pick_group K s ts ccg (cg # parents) =
     pick_group K s ts
       (if CG_FLAG_THREAD cg then ccg
        else if \<not> SCHED_AFFINITY K s ts (cg_level cg) then ccg
        else Some cg)
       parents"

text \<open>
  The three searches. A group with the mask of \<^verbatim>\<open>cpu_top\<close> is skipped, which covers the test
  whether it is \<^verbatim>\<open>cpu_top\<close> itself.
\<close>

definition pick_lowest ::
  "('w::len) kenv \<Rightarrow> cpuid \<Rightarrow> tid \<Rightarrow> cpu_group option \<Rightarrow> 'w ksys \<Rightarrow> cpuid option \<times> 'w ksys" where
  "pick_lowest K self td cg s =
     (let msk = td_cpuset (k_threads s td);
          pri = uint (td_priority (k_threads s td));
          prefer = Some (ts_cpu (k_sched s td));
          top = ke_cpu_top K;
          (cpu, s) = (case cg of
                        None \<Rightarrow> (None, s)
                      | Some cg \<Rightarrow>
                          (if set (cg_mask cg) \<noteq> set (cg_mask top)
                           then find_lowest self cg msk (max pri (PRI_MAX_TIMESHARE (ke_pri K)))
                                  INT_MAX prefer s
                           else (None, s)));
          (cpu, s) = (case cpu of None \<Rightarrow> find_lowest self top msk pri INT_MAX prefer s
                      | Some cpu \<Rightarrow> (Some cpu, s))
      in case cpu of None \<Rightarrow> find_lowest self top msk (- 1) INT_MAX prefer s
         | Some cpu \<Rightarrow> (Some cpu, s))"

definition sched_pickcpu ::
  "('w::len) kenv \<Rightarrow> cpuid \<Rightarrow> tid \<Rightarrow> srq_flag set \<Rightarrow> 'w ksys \<Rightarrow> (cpuid \<times> 'w ksys) option" where
  "sched_pickcpu K self td flags s =
     (let T = k_threads s;
          c = ts_cpu (k_sched s td);
          pri = uint (td_priority (T td));
          intr = (pri \<le> PRI_MAX_ITHD (ke_pri K) \<and> THREAD_CAN_SCHED T td self \<and>
                  td_intr_nesting_level (T (k_curthread s self)) \<noteq> 0 \<and> c \<noteq> self)
      in if \<not> k_smp_started s then Some (self, s)
         else if SRQ_OURSELF \<in> flags \<or> \<not> THREAD_CAN_MIGRATE T td then Some (c, s)
         else
           (let s = (if intr then upd_sched td (ts_cpu_update (\<lambda>_. self)) s else s);
                ts = k_sched s td;
                cgs = tdq_cg (k_tdq s (ts_cpu ts));
                idle = (THREAD_CAN_SCHED T td (ts_cpu ts) \<and>
                        uint (tdq_lowpri (k_tdq s (ts_cpu ts))) \<ge> PRI_MIN_IDLE (ke_pri K) \<and>
                        SCHED_AFFINITY K s ts (ke_CG_SHARE_L2 K))
            in if intr \<and> uint (tdq_lowpri (k_tdq s self)) > pri then Some (self, s)
               else if idle \<and> cgs = [] then None
               else if idle \<and> (CG_FLAG_THREAD (hd cgs) \<longrightarrow> group_busy_cpu K s (hd cgs) = None)
               then Some (ts_cpu ts, s)
               else
                 (let (cpu, s) = pick_lowest K self td (pick_group K s ts None cgs) s
                  in case cpu of
                       None \<Rightarrow> None
                     | Some cpu \<Rightarrow>
                         (if THREAD_CAN_SCHED T td self \<and> uint (tdq_lowpri (k_tdq s self)) > pri \<and>
                             uint (tdq_lowpri (k_tdq s cpu)) < PRI_MIN_IDLE (ke_pri K) \<and>
                             tdq_load (k_tdq s self) \<le> tdq_load (k_tdq s cpu) + 1
                          then Some (self, s) else Some (cpu, s)))))"

subsection \<open>Adding a thread\<close>

definition sched_setcpu :: "tid \<Rightarrow> cpuid \<Rightarrow> ('w::len) ksys \<Rightarrow> 'w ksys" where
  "sched_setcpu td cpu s = upd_sched td (ts_cpu_update (\<lambda>_. cpu)) s"

definition sched_setpreempt :: "('w::len) kenv \<Rightarrow> cpuid \<Rightarrow> tid \<Rightarrow> 'w ksys \<Rightarrow> 'w ksys" where
  "sched_setpreempt K self td s =
     (let ctd = k_curthread s self;
          pri = td_priority (k_threads s td);
          cpri = td_priority (k_threads s ctd);
          s = (if pri < cpri then set_td_flags ctd {TDF_NEEDRESCHED} s else s)
      in if k_panicstr s \<or> pri \<ge> cpri \<or> k_cold s \<or> TD_IS_INHIBITED (k_threads s) ctd then s
         else if \<not> sched_shouldpreempt (ke_pri K) (ke_conf K) (uint pri) (uint cpri) False then s
         else upd_thread ctd (td_owepreempt_update (\<lambda>_. True)) s)"

definition kern_sched_add ::
  "('w::len) kenv \<Rightarrow> cpuid \<Rightarrow> tid \<Rightarrow> srq_flag set \<Rightarrow> 'w ksys \<Rightarrow> 'w ksys option" where
  "kern_sched_add K self td flags s = do {
     s \<leftarrow> (if fst (td_pri_class (k_threads s td)) = PRI_TIMESHARE then kern_sched_priority K td s
           else Some s);
     (cpu, s) \<leftarrow> sched_pickcpu K self td flags s;
     let s = kern_tdq_add K cpu td flags (sched_setcpu td cpu s);
     Some (if cpu \<noteq> self then tdq_notify K cpu td s
           else if SRQ_YIELDING \<notin> flags then sched_setpreempt K self td s
           else s)
   }"

subsection \<open>Priorities\<close>

definition sched_thread_priority ::
  "('w::len) kenv \<Rightarrow> cpuid \<Rightarrow> tid \<Rightarrow> u8 \<Rightarrow> 'w ksys \<Rightarrow> 'w ksys option" where
  "sched_thread_priority K self td prio s =
     (let T = k_threads s;
          set_prio = upd_thread td (td_priority_update (\<lambda>_. prio));
          c = ts_cpu (k_sched s td);
          oldpri = td_priority (T td)
      in if oldpri = prio then Some s
         else if TD_ON_RUNQ T td \<and> prio < oldpri
         then kern_sched_add K self td {SRQ_BORROWING} (set_prio (kern_sched_rem K td s))
         else if TD_IS_RUNNING T td
         then (let s = set_prio s
               in Some (if prio < tdq_lowpri (k_tdq s c)
                        then upd_tdq c (tdq_lowpri_update (\<lambda>_. prio)) s
                        else if tdq_lowpri (k_tdq s c) = oldpri then kern_setlowpri K c (Some td) s
                        else s))
         else Some (set_prio s))"

definition sched_lend_prio :: "('w::len) kenv \<Rightarrow> cpuid \<Rightarrow> tid \<Rightarrow> u8 \<Rightarrow> 'w ksys \<Rightarrow> 'w ksys option" where
  "sched_lend_prio K self td prio s =
     sched_thread_priority K self td prio (set_td_flags td {TDF_BORROWING} s)"

definition sched_unlend_prio :: "('w::len) kenv \<Rightarrow> cpuid \<Rightarrow> tid \<Rightarrow> u8 \<Rightarrow> 'w ksys \<Rightarrow> 'w ksys option" where
  "sched_unlend_prio K self td prio s =
     (let t = k_threads s td;
          base_pri = (if uint (td_base_pri t) \<ge> PRI_MIN_TIMESHARE (ke_pri K) \<and>
                         uint (td_base_pri t) \<le> PRI_MAX_TIMESHARE (ke_pri K)
                      then td_user_pri t else td_base_pri t)
      in if prio \<ge> base_pri
         then sched_thread_priority K self td base_pri (clear_td_flags td {TDF_BORROWING} s)
         else sched_lend_prio K self td prio s)"

definition sched_prio :: "('w::len) kenv \<Rightarrow> cpuid \<Rightarrow> tid \<Rightarrow> u8 \<Rightarrow> 'w ksys \<Rightarrow> 'w ksys option" where
  "sched_prio K self td prio s =
     (let s = upd_thread td (td_base_pri_update (\<lambda>_. prio)) s;
          oldprio = td_priority (k_threads s td)
      in if TDF_BORROWING \<in> td_flags (k_threads s td) \<and> oldprio < prio then Some s
         else do {
           s \<leftarrow> sched_thread_priority K self td prio s;
           Some (if TD_ON_LOCK (k_threads s) td \<and> oldprio \<noteq> prio
                 then ke_turnstile_adjust K td oldprio s else s)
         })"

definition sched_lend_user_prio :: "('w::len) kenv \<Rightarrow> cpuid \<Rightarrow> tid \<Rightarrow> u8 \<Rightarrow> 'w ksys \<Rightarrow> 'w ksys option" where
  "sched_lend_user_prio K self td prio s =
     (let s = upd_thread td (\<lambda>t. t\<lparr>td_lend_user_pri := prio,
                                  td_user_pri := min prio (td_base_user_pri t)\<rparr>) s;
          t = k_threads s td
      in if td_priority t > td_user_pri t then sched_prio K self td (td_user_pri t) s
         else if td_priority t \<noteq> td_user_pri t then Some (set_td_flags td {TDF_NEEDRESCHED} s)
         else Some s)"

fun sched_nice_threads :: "('w::len) kenv \<Rightarrow> cpuid \<Rightarrow> tid list \<Rightarrow> 'w ksys \<Rightarrow> 'w ksys option" where
  "sched_nice_threads K self [] s = Some s"
| "sched_nice_threads K self (td # tds) s = do {
     s \<leftarrow> kern_sched_priority K td s;
     s \<leftarrow> sched_prio K self td (td_base_user_pri (k_threads s td)) s;
     sched_nice_threads K self tds s
   }"

definition sched_nice :: "('w::len) kenv \<Rightarrow> cpuid \<Rightarrow> pid \<Rightarrow> int \<Rightarrow> 'w ksys \<Rightarrow> 'w ksys option" where
  "sched_nice K self p nice s =
     (let s = s\<lparr>k_procs := (k_procs s)(p := (k_procs s p)\<lparr>p_nice := nice\<rparr>)\<rparr>
      in sched_nice_threads K self (p_threads (k_procs s p)) s)"

subsection \<open>Switching\<close>

definition sched_switch_migrate ::
  "('w::len) kenv \<Rightarrow> cpuid \<Rightarrow> tid \<Rightarrow> srq_flag set \<Rightarrow> 'w ksys \<Rightarrow> 'w ksys" where
  "sched_switch_migrate K c td flags s =
     (let tdn = ts_cpu (k_sched s td);
          s = others_run K (kern_load_rem c td s)
      in tdq_notify K tdn td (kern_tdq_add K tdn td flags s))"

text \<open>What becomes of the thread that gives up the processor.\<close>

definition switch_requeue ::
  "('w::len) kenv \<Rightarrow> cpuid \<Rightarrow> tid \<Rightarrow> bool \<Rightarrow> 'w ksys \<Rightarrow> 'w ksys option" where
  "switch_requeue K self td preempted s =
     (if TD_IS_IDLETHREAD (k_threads s) td
      then Some (upd_thread td (td_state_update (\<lambda>_. TDS_CAN_RUN)) s)
      else if TD_IS_RUNNING (k_threads s) td
      then do {
        let srqflag = {SRQ_OURSELF, SRQ_YIELDING} \<union> (if preempted then {SRQ_PREEMPTED} else {});
        s \<leftarrow> (if THREAD_CAN_MIGRATE (k_threads s) td \<and>
                \<not> THREAD_CAN_SCHED (k_threads s) td (ts_cpu (k_sched s td))
             then do { (cpu, s) \<leftarrow> sched_pickcpu K self td {} s;
                       Some (upd_sched td (ts_cpu_update (\<lambda>_. cpu)) s) }
             else Some s);
        Some (if ts_cpu (k_sched s td) = self then kern_runq_add K self td srqflag s
              else sched_switch_migrate K self td srqflag s)
      }
      else (let s = kern_load_rem self td s
            in if tdq_load (k_tdq s self) = 0 then tdq_trysteal K self s else Some s))"

text \<open>\<open>sched_switch\<close> up to the choice of the next thread, and the whole function.\<close>

definition sched_switch_out ::
  "('w::len) kenv \<Rightarrow> cpuid \<Rightarrow> tid \<Rightarrow> sw_flag set \<Rightarrow> 'w ksys \<Rightarrow> (tid \<times> 'w ksys) option" where
  "sched_switch_out K self td flags s = do {
     s \<leftarrow> kern_pctcpu_update K td True s;
     let s = upd_sched td (ts_rltick_update (\<lambda>_. k_ticks s)) s;
     let s = upd_thread td (\<lambda>t. t\<lparr>td_lastcpu := td_oncpu t, td_oncpu := None\<rparr>) s;
     let preempted = (TDF_SLICEEND \<notin> td_flags (k_threads s td) \<and> SW_PREEMPT \<in> flags);
     let s = clear_td_flags td {TDF_NEEDRESCHED, TDF_SLICEEND} s;
     let s = upd_thread td (td_owepreempt_update (\<lambda>_. False)) s;
     let s = (if \<not> TD_IS_IDLETHREAD (k_threads s) td
              then upd_tdq self (tdq_switchcnt_update (\<lambda>n. n + 1)) s else s);
     s \<leftarrow> switch_requeue K self td preempted s;
     choosethread K self s
   }"

definition sched_switch ::
  "('w::len) kenv \<Rightarrow> cpuid \<Rightarrow> tid \<Rightarrow> sw_flag set \<Rightarrow> 'w ksys \<Rightarrow> 'w ksys option" where
  "sched_switch K self td flags s = do {
     (newtd, s) \<leftarrow> sched_switch_out K self td flags s;
     if td \<noteq> newtd
     then do {
       s \<leftarrow> kern_pctcpu_update K newtd False s;
       let (cpuid, s) = ke_cpu_switch K self td newtd s;
       Some (upd_thread td (td_oncpu_update (\<lambda>_. Some cpuid)) s)
     }
     else Some (upd_thread td (td_oncpu_update (\<lambda>_. Some self)) s)
   }"

subsection \<open>Sleep and wakeup\<close>

definition sched_sleep :: "('w::len) kenv \<Rightarrow> cpuid \<Rightarrow> tid \<Rightarrow> int \<Rightarrow> 'w ksys \<Rightarrow> 'w ksys option" where
  "sched_sleep K self td prio s =
     (let s = upd_thread td (td_slptick_update (\<lambda>_. k_ticks s)) s;
          s = (if TD_IS_SUSPENDED (k_threads s) td \<or> prio \<ge> PSOCK (ke_pri K)
               then set_td_flags td {TDF_CANSWAP} s else s);
          boost = static_boost (ke_conf K)
      in if fst (td_pri_class (k_threads s td)) \<noteq> PRI_TIMESHARE then Some s
         else if boost = 1 \<and> prio \<noteq> 0 then sched_prio K self td (word_of_int prio) s
         else if boost \<noteq> 0 \<and> uint (td_priority (k_threads s td)) > boost
         then sched_prio K self td (word_of_int boost) s
         else Some s)"

definition sched_wakeup :: "('w::len) kenv \<Rightarrow> cpuid \<Rightarrow> tid \<Rightarrow> 'w ksys \<Rightarrow> 'w ksys option" where
  "sched_wakeup K self td s = do {
     let s = clear_td_flags td {TDF_CANSWAP} s;
     let slptick = td_slptick (k_threads s td);
     let s = upd_thread td (td_slptick_update (\<lambda>_. 0)) s;
     s \<leftarrow> (if slptick \<noteq> 0 \<and> slptick \<noteq> k_ticks s
          then (let s = upd_sched td (ts_slptime_update
                          (\<lambda>n. n + push_bit SCHED_TICK_SHIFT (k_ticks s - slptick))) s
                in kern_pctcpu_update K td False (kern_interact_update K td s))
          else Some s);
     let s = upd_sched td (ts_slice_update (\<lambda>_. 0)) s;
     kern_sched_add K self td SRQ_BORING s
   }"

subsection \<open>Fork and exit\<close>

definition sched_fork_thread :: "('w::len) kenv \<Rightarrow> cpuid \<Rightarrow> tid \<Rightarrow> tid \<Rightarrow> 'w ksys \<Rightarrow> 'w ksys" where
  "sched_fork_thread K self td child s =
     (let ts = k_sched s td;
          s = upd_thread child (\<lambda>t. t\<lparr>td_oncpu := None, td_lastcpu := None,
                td_cpuset := td_cpuset (k_threads s td)\<rparr>) s;
          s = upd_sched child (\<lambda>ts2. ts2\<lparr>ts_cpu := ts_cpu ts, ts_flags := {}\<rparr>) s;
          s = upd_sched child (\<lambda>ts2. ts2\<lparr>ts_ticks := ts_ticks ts, ts_ltick := ts_ltick ts,
                ts_ftick := ts_ftick ts\<rparr>) s;
          s = upd_thread child (\<lambda>t. t\<lparr>td_priority := td_base_pri t\<rparr>) s;
          s = upd_sched child (\<lambda>ts2. ts2\<lparr>ts_slptime := ts_slptime ts, ts_runtime := ts_runtime ts\<rparr>) s
      in upd_sched child
           (ts_slice_update (\<lambda>_. tdq_slice (ke_conf K) (k_tdq s self) - sched_slice_min (ke_conf K))) s)"

definition sched_fork :: "('w::len) kenv \<Rightarrow> cpuid \<Rightarrow> tid \<Rightarrow> tid \<Rightarrow> 'w ksys \<Rightarrow> 'w ksys option" where
  "sched_fork K self td child s = do {
     s \<leftarrow> kern_pctcpu_update K td True s;
     let s = sched_fork_thread K self td child s;
     let s = upd_sched child (sched_interact_fork (ke_conf K)) s;
     s \<leftarrow> kern_sched_priority K child s;
     let s = charge_runtime td (word_of_int (tickincr (ke_conf K))) s;
     let s = kern_interact_update K td s;
     kern_sched_priority K td s
   }"

definition sched_class :: "tid \<Rightarrow> pri_base \<times> bool \<Rightarrow> ('w::len) ksys \<Rightarrow> 'w ksys" where
  "sched_class td cls s =
     (if td_pri_class (k_threads s td) = cls then s
      else upd_thread td (td_pri_class_update (\<lambda>_. cls)) s)"

definition sched_exit_thread :: "('w::len) kenv \<Rightarrow> tid \<Rightarrow> tid \<Rightarrow> 'w ksys \<Rightarrow> 'w ksys option" where
  "sched_exit_thread K td child s =
     (let s = charge_runtime td (ts_runtime (k_sched s child)) s
      in kern_sched_priority K td (kern_interact_update K td s))"

definition sched_exit :: "('w::len) kenv \<Rightarrow> pid \<Rightarrow> tid \<Rightarrow> 'w ksys \<Rightarrow> 'w ksys option" where
  "sched_exit K p child s = do {
     td \<leftarrow> TAILQ_FIRST (p_threads (k_procs s p));
     sched_exit_thread K td child s
   }"

text \<open>\<open>sched_throw\<close> returns the thread it switches to; \<^verbatim>\<open>cpu_throw\<close> does not return.\<close>

definition sched_throw :: "('w::len) kenv \<Rightarrow> cpuid \<Rightarrow> tid option \<Rightarrow> 'w ksys \<Rightarrow> (tid \<times> 'w ksys) option" where
  "sched_throw K self td s =
     choosethread K self
       (case td of
          None \<Rightarrow> s
        | Some td \<Rightarrow>
            upd_thread td (\<lambda>t. t\<lparr>td_lastcpu := td_oncpu t, td_oncpu := None\<rparr>) (kern_load_rem self td s))"

definition sched_fork_exit :: "cpuid \<Rightarrow> tid \<Rightarrow> ('w::len) ksys \<Rightarrow> 'w ksys" where
  "sched_fork_exit self td s = upd_thread td (td_oncpu_update (\<lambda>_. Some self)) s"

subsection \<open>Preemption, the clock and accounting\<close>

definition sched_preempt :: "('w::len) kenv \<Rightarrow> cpuid \<Rightarrow> tid \<Rightarrow> 'w ksys \<Rightarrow> 'w ksys" where
  "sched_preempt K self td s =
     (let s = upd_tdq self (tdq_ipipending_update (\<lambda>_. False)) s;
          flags = {SW_INVOL, SW_PREEMPT}
      in if td_priority (k_threads s td) > tdq_lowpri (k_tdq s self)
         then (if td_critnest (k_threads s td) > 1
               then upd_thread td (td_owepreempt_update (\<lambda>_. True)) s
               else if TD_IS_IDLETHREAD (k_threads s) td
               then ke_mi_switch K self (insert SWT_REMOTEWAKEIDLE flags) s
               else ke_mi_switch K self (insert SWT_REMOTEPREEMPT flags) s)
         else s)"

definition sched_userret_slowpath :: "('w::len) kenv \<Rightarrow> cpuid \<Rightarrow> tid \<Rightarrow> 'w ksys \<Rightarrow> 'w ksys" where
  "sched_userret_slowpath K self td s =
     kern_setlowpri K self (Some td)
       (upd_thread td (\<lambda>t. t\<lparr>td_priority := td_user_pri t, td_base_pri := td_user_pri t\<rparr>) s)"

text \<open>The insert index of the calendar moves when the removal index has caught up with it.\<close>

definition clock_calendar :: "('w::len) rqenv \<Rightarrow> 'w tdq \<Rightarrow> 'w tdq" where
  "clock_calendar E q =
     (if tdq_idx q = tdq_ridx q
      then (let q = q\<lparr>tdq_idx := of_nat ((unat (tdq_idx q) + 1) mod RQ_NQS E)\<rparr>
            in if TAILQ_EMPTY (rq_queues (tdq_timeshare q) ! unat (tdq_ridx q))
               then q\<lparr>tdq_ridx := tdq_idx q\<rparr> else q)
      else q)"

definition clock_balance :: "('w::len) kenv \<Rightarrow> cpuid \<Rightarrow> 'w ksys \<Rightarrow> 'w ksys option" where
  "clock_balance K self s =
     (if k_balance_tdq s = self \<and> k_smp_started s \<and> rebalance (ke_conf K)
      then (if k_balance_ticks s \<noteq> 0
            then (let s = s\<lparr>k_balance_ticks := k_balance_ticks s - 1\<rparr>
                  in if k_balance_ticks s = 0 then sched_balance K self s else Some s)
            else Some s)
      else Some s)"

definition sched_clock :: "('w::len) kenv \<Rightarrow> cpuid \<Rightarrow> tid \<Rightarrow> 'w ksys \<Rightarrow> 'w ksys option" where
  "sched_clock K self td s = do {
     s \<leftarrow> clock_balance K self s;
     let s = upd_tdq self (\<lambda>q. q\<lparr>tdq_oldswitchcnt := tdq_switchcnt q,
                                tdq_switchcnt := word_of_int (tdq_load q)\<rparr>) s;
     let s = upd_tdq self (clock_calendar (ke_rq K)) s;
     s \<leftarrow> kern_pctcpu_update K td True s;
     if snd (td_pri_class (k_threads s td)) then Some s
     else do {
       s \<leftarrow> (if fst (td_pri_class (k_threads s td)) = PRI_TIMESHARE
            then kern_sched_priority K td
                   (kern_interact_update K td
                     (charge_runtime td (word_of_int (tickincr (ke_conf K))) s))
            else Some s);
       if TD_IS_IDLETHREAD (k_threads s) td then Some s
       else (let s = upd_sched td (ts_slice_update (\<lambda>n. n + 1)) s
             in if ts_slice (k_sched s td) \<ge> tdq_slice (ke_conf K) (k_tdq s self)
                then Some (set_td_flags td {TDF_NEEDRESCHED, TDF_SLICEEND}
                             (upd_sched td (ts_slice_update (\<lambda>_. 0)) s))
                else Some s)
     }
   }"

definition sched_estcpu :: "tid \<Rightarrow> u32" where
  "sched_estcpu td = 0"

definition sched_runnable :: "cpuid \<Rightarrow> ('w::len) ksys \<Rightarrow> bool" where
  "sched_runnable self s =
     (let load = tdq_load (k_tdq s self)
      in if TDF_IDLETD \<in> td_flags (k_threads s (k_curthread s self)) then load > 0
         else load - 1 > 0)"

text \<open>\<open>FSHIFT\<close> is the shift of the kernel's fixed point numbers, a parameter.\<close>

definition sched_pctcpu :: "nat \<Rightarrow> ('w::len) kenv \<Rightarrow> tid \<Rightarrow> 'w ksys \<Rightarrow> (u32 \<times> 'w ksys) option" where
  "sched_pctcpu FSHIFT K td s = do {
     s \<leftarrow> kern_pctcpu_update K td (TD_IS_RUNNING (k_threads s) td) s;
     let ts = k_sched s td;
     let hzw = (word_of_int (hz (ke_conf K)) :: u32);
     if ts_ticks ts \<noteq> 0
     then (let rtick = min (int_div (signed_drop_bit SCHED_TICK_SHIFT (ts_ticks ts)) 10) hzw
           in if hzw = 0 then None
              else Some (signed_drop_bit FSHIFT
                           (push_bit FSHIFT 1 * int_div (push_bit FSHIFT 1 * rtick) hzw), s))
     else Some (0, s)
   }"

definition sched_load :: "('w::len) kenv \<Rightarrow> 'w ksys \<Rightarrow> int" where
  "sched_load K s = fold (\<lambda>i total. total + tdq_sysload (k_tdq s i)) (ke_cpus K) 0"

subsection \<open>Affinity and binding\<close>

definition sched_affinity :: "('w::len) kenv \<Rightarrow> cpuid \<Rightarrow> tid \<Rightarrow> 'w ksys \<Rightarrow> 'w ksys option" where
  "sched_affinity K self td s =
     (let c = ts_cpu (k_sched s td)
      in if THREAD_CAN_SCHED (k_threads s) td c then Some s
         else if TD_ON_RUNQ (k_threads s) td
         then kern_sched_add K self td SRQ_BORING (kern_sched_rem K td s)
         else if \<not> TD_IS_RUNNING (k_threads s) td then Some s
         else (let s = set_td_flags td {TDF_NEEDRESCHED} s
               in Some (if td \<noteq> k_curthread s self then s\<lparr>k_ipis := k_ipis s @ [c]\<rparr> else s)))"

definition sched_unbind :: "tid \<Rightarrow> ('w::len) ksys \<Rightarrow> 'w ksys" where
  "sched_unbind td s =
     (if TSF_BOUND \<notin> ts_flags (k_sched s td) then s
      else upd_thread td (td_pinned_update (\<lambda>n. n - 1))
             (upd_sched td (ts_flags_update (\<lambda>f. f - {TSF_BOUND})) s))"

definition sched_bind :: "('w::len) kenv \<Rightarrow> cpuid \<Rightarrow> tid \<Rightarrow> cpuid \<Rightarrow> 'w ksys \<Rightarrow> 'w ksys" where
  "sched_bind K self td cpu s =
     (let s = (if TSF_BOUND \<in> ts_flags (k_sched s td) then sched_unbind td s else s);
          s = upd_sched td (ts_flags_update (insert TSF_BOUND)) s;
          s = upd_thread td (td_pinned_update (\<lambda>n. n + 1)) s
      in if self = cpu then s
         else ke_mi_switch K self {SW_VOL} (upd_sched td (ts_cpu_update (\<lambda>_. cpu)) s))"

definition sched_is_bound :: "tid \<Rightarrow> ('w::len) ksys \<Rightarrow> bool" where
  "sched_is_bound td s \<longleftrightarrow> TSF_BOUND \<in> ts_flags (k_sched s td)"

definition sched_relinquish :: "('w::len) kenv \<Rightarrow> cpuid \<Rightarrow> 'w ksys \<Rightarrow> 'w ksys" where
  "sched_relinquish K self s = ke_mi_switch K self {SW_VOL, SWT_RELINQUISH} s"

subsection \<open>The idle thread\<close>

definition TDQ_IDLESPIN :: "('w::len) tdq \<Rightarrow> bool" where
  "TDQ_IDLESPIN q \<longleftrightarrow> (case tdq_cg q of [] \<Rightarrow> False | cg # _ \<Rightarrow> \<not> CG_FLAG_THREAD cg)"

fun idle_spin :: "('w::len) kenv \<Rightarrow> cpuid \<Rightarrow> nat \<Rightarrow> 'w ksys \<Rightarrow> 'w ksys" where
  "idle_spin K self 0 s = s"
| "idle_spin K self (Suc n) s =
     (if tdq_load (k_tdq s self) \<noteq> 0 then s else idle_spin K self n (others_run K s))"

text \<open>
  One pass of the loop of \<open>sched_idletd\<close>, from and to the value of \<^verbatim>\<open>oldswitchcnt\<close>: first up to
  the idle handler (\<open>Inl\<close> is a \<^verbatim>\<open>continue\<close>), then the handler itself. The idle thread holds no
  lock, so the other processors run between its steps.
\<close>

definition idletd_steal ::
  "('w::len) kenv \<Rightarrow> cpuid \<Rightarrow> int \<Rightarrow> 'w ksys \<Rightarrow> (bool \<times> int \<times> 'w ksys) option" where
  "idletd_steal K self oldswitchcnt s =
     (let s = (if tdq_load (k_tdq s self) \<noteq> 0 then ke_mi_switch K self {SW_VOL, SWT_IDLE} s else s);
          s = others_run K s;
          switchcnt = switch_count (k_tdq s self)
      in if always_steal (ke_conf K) \<or> switchcnt \<noteq> oldswitchcnt
         then map_option (\<lambda>(r, s). (\<not> r, switchcnt, s)) (tdq_idled K self s)
         else Some (False, oldswitchcnt, s))"

definition idletd_wait :: "('w::len) kenv \<Rightarrow> cpuid \<Rightarrow> int \<Rightarrow> 'w ksys \<Rightarrow> int \<times> 'w ksys" where
  "idletd_wait K self oldswitchcnt s =
     (let thresh = sched_idlespinthresh (ke_conf K);
          s = (if TDQ_IDLESPIN (k_tdq s self) \<and> switch_count (k_tdq s self) > thresh
               then idle_spin K self (nat (sched_idlespins (ke_conf K))) s else s);
          switchcnt = switch_count (k_tdq s self)
      in if tdq_load (k_tdq s self) \<noteq> 0 \<or> switchcnt \<noteq> oldswitchcnt then (oldswitchcnt, s)
         else
           (let s = others_run K (upd_tdq self (tdq_cpu_idle_update (\<lambda>_. True)) s)
            in if tdq_load (k_tdq s self) \<noteq> 0
               then (oldswitchcnt, upd_tdq self (tdq_cpu_idle_update (\<lambda>_. False)) s)
               else
                 (let s = ke_cpu_idle K self (switchcnt * 4 > thresh) s;
                      s = upd_tdq self (tdq_cpu_idle_update (\<lambda>_. False)) s
                  in if switch_count (k_tdq s self) \<noteq> oldswitchcnt then (oldswitchcnt, s)
                     else (oldswitchcnt + 1, upd_tdq self (tdq_switchcnt_update (\<lambda>n. n + 1)) s))))"

definition sched_idletd :: "('w::len) kenv \<Rightarrow> cpuid \<Rightarrow> int \<Rightarrow> 'w ksys \<Rightarrow> (int \<times> 'w ksys) option" where
  "sched_idletd K self oldswitchcnt s = do {
     (again, oldswitchcnt, s) \<leftarrow> idletd_steal K self oldswitchcnt s;
     Some (if again then (oldswitchcnt, s) else idletd_wait K self oldswitchcnt s)
   }"

subsection \<open>The quantum\<close>

text \<open>
  \<open>sysctl_kern_quantum\<close>: \<open>handle old\<close> is \<^verbatim>\<open>sysctl_handle_int\<close>, the error and the new value for the
  old one. The result is the error number, 0 for none; \<open>None\<close> is a division by zero. The
  multiplication and the sums are made on \<^verbatim>\<open>int\<close>, whose overflow is undefined; \<^verbatim>\<open>sdiv\<close> rounds
  as C does.
\<close>

definition sysctl_kern_quantum ::
  "int \<Rightarrow> (int \<Rightarrow> int \<times> int) \<Rightarrow> bool \<Rightarrow> ule_conf \<Rightarrow> (int \<times> ule_conf) option" where
  "sysctl_kern_quantum EINVAL handle newptr C =
     (if realstathz C = 0 then None
      else
        (let period = 1000000 sdiv realstathz C;
             (error, new_val) = handle (period * sched_slice C)
         in if error \<noteq> 0 \<or> \<not> newptr then Some (error, C)
            else if new_val \<le> 0 then Some (EINVAL, C)
            else if period = 0 then None
            else
              (let slice = max 1 ((new_val + period sdiv 2) sdiv period)
               in Some (0, C\<lparr>sched_slice := slice,
                             sched_slice_min := slice sdiv SCHED_SLICE_MIN_DIVISOR,
                             hogticks := max 1 ((2 * hz C * slice + realstathz C sdiv 2) sdiv realstathz C)\<rparr>))))"

end
