(* ===== verification/Ule_Sched_Props.thy ===== *)
theory Ule_Sched_Props
  imports Ule_Sched Ule_Smp_Props
begin

section \<open>Properties of the scheduler interface\<close>

text \<open>
  Choosing a processor, adding a thread, choosing the thread to run and switching to it on the
  state of all processors; the idle thread; binding; the quantum.
\<close>

subsection \<open>The arithmetic never fails on a running system\<close>

definition kenv_ok :: "('w::len) kenv \<Rightarrow> bool" where
  "kenv_ok K \<longleftrightarrow> rqenv_ok (ke_rq K) \<and> pri_env_ok (ke_pri K) \<and> 0 < hz (ke_conf K) \<and> hz (ke_conf K) < 10000000"

definition window_ok :: "('w::len) kenv \<Rightarrow> 'w ksys \<Rightarrow> tid \<Rightarrow> bool" where
  "window_ok K s td \<longleftrightarrow> int (tick_window (k_sched s td)) < SCHED_TICK_MAX (ke_conf K)"

lemma kern_sched_priority_Some:
  assumes "kenv_ok K" "window_ok K s td"
  shows "\<exists>f. kern_sched_priority K td s = Some (upd_thread td f s) \<and>
    (\<forall>t. td_priority (f t) = td_priority t \<and> thread_same t (f t) \<and> td_cpuset (f t) = td_cpuset t \<and>
      td_pinned (f t) = td_pinned t \<and> td_flags (f t) = td_flags t \<and> td_pri_class (f t) = td_pri_class t)"
proof (cases "fst (td_pri_class (k_threads s td)) = PRI_TIMESHARE")
  case False
  then show ?thesis
    by (intro exI [of _ id]) (simp add: kern_sched_priority_def sched_priority_def upd_thread_def thread_same_def)
next
  case True
  have "tick_window (k_sched s td) < 2147483648" "hz (ke_conf K) < 2147483648"
    using assms by (simp_all add: kenv_ok_def window_ok_def sched_consts)
  from SCHED_PRI_TICKS_defined [OF _ _ this(2,1), of "ke_pri K"] assms(1)
  obtain n where "SCHED_PRI_TICKS (ke_pri K) (ke_conf K) (k_sched s td) = Some n"
    by (auto simp: kenv_ok_def)
  then have "sched_priority_pri (ke_pri K) (ke_conf K) (k_sched s td)
      (p_nice (k_procs s (td_proc (k_threads s td)))) \<noteq> None"
    by (simp add: sched_priority_pri_def Let_def)
  then obtain pri where "sched_priority_pri (ke_pri K) (ke_conf K) (k_sched s td)
      (p_nice (k_procs s (td_proc (k_threads s td)))) = Some pri" by blast
  then have "kern_sched_priority K td s =
      Some (upd_thread td (\<lambda>t. sched_user_prio t (word_of_int pri)) s)"
    using True by (simp add: kern_sched_priority_def sched_priority_def upd_thread_def)
  then show ?thesis
    by (intro exI [of _ "\<lambda>t. sched_user_prio t (word_of_int pri)"])
      (simp add: sched_user_prio_def thread_same_def Let_def)
qed

lemma kern_pctcpu_update_Some:
  assumes "kenv_ok K" "window_ok K s td"
  shows "\<exists>ts. kern_pctcpu_update K td run s = Some (upd_sched td (\<lambda>_. ts) s) \<and>
    sched_same (k_sched s td) ts \<and> int (tick_window ts) < SCHED_TICK_MAX (ke_conf K)"
proof -
  obtain ts where ts: "sched_pctcpu_update (ke_conf K) (k_ticks s) (k_sched s td) run = Some ts"
    "int (tick_window ts) < SCHED_TICK_MAX (ke_conf K)"
    using pctcpu_window [of "ke_conf K" "k_sched s td" "k_ticks s" run] assms
    by (auto simp: kenv_ok_def window_ok_def)
  have "sched_same (k_sched s td) ts"
    using ts(1) by (auto simp: sched_pctcpu_update_def sched_same_def Let_def split: if_splits)
  with ts show ?thesis by (intro exI [of _ ts]) (simp add: kern_pctcpu_update_def)
qed

subsection \<open>Choosing a processor\<close>

lemma find_lowest_any:
  assumes "loads_ok (k_tdq s) (group_cpus cg)" "set (group_cpus cg) \<inter> msk \<noteq> {}"
    and "find_lowest self cg msk (- 1) INT_MAX pref s = (r, s')"
  shows "\<exists>cpu. r = Some cpu"
proof (cases r)
  case None
  obtain cpu where cpu: "cpu \<in> set (group_cpus cg)" "cpu \<in> msk" using assms(2) by auto
  have load: "\<forall>c\<in>set (group_cpus cg). 0 \<le> tdq_load (k_tdq s c)"
    "(\<Sum>c\<leftarrow>group_cpus cg. tdq_load (k_tdq s c) * 256 + 64) < INT_MAX"
    using assms(1) by (simp_all add: loads_ok_def)
  have "tdq_load (k_tdq s cpu) * 256 + 64 \<le> (\<Sum>c\<leftarrow>group_cpus cg. tdq_load (k_tdq s c) * 256 + 64)"
    using cpu(1) load(1) by (intro member_le_sum_list) auto
  then have "tdq_load (k_tdq s cpu) \<le> INT_MAX" using load cpu(1) by force
  moreover have "(- 1 :: int) < uint (tdq_lowpri (k_tdq s cpu))"
    using uint_ge_0 [of "tdq_lowpri (k_tdq s cpu)"] by linarith
  ultimately show ?thesis
    using sched_lowest_spec [OF assms(1), where rnd = "k_random s self" and msk = msk and pri = "- 1"
        and maxload = INT_MAX and pref = pref]
      find_lowest_same(4) [OF assms(3)] None cpu by auto
qed simp

text \<open>A search changes only the random state of the searching processor.\<close>

definition only_random :: "('w::len) ksys \<Rightarrow> 'w ksys \<Rightarrow> bool" where
  "only_random s s' \<longleftrightarrow> (\<exists>r. s' = s\<lparr>k_random := r\<rparr>)"

lemma only_random_fields:
  "only_random s s' \<Longrightarrow> k_threads s' = k_threads s \<and> k_sched s' = k_sched s \<and> k_tdq s' = k_tdq s \<and>
    k_curthread s' = k_curthread s \<and> k_ipis s' = k_ipis s \<and> k_panicstr s' = k_panicstr s \<and> k_cold s' = k_cold s \<and>
    k_idlethread s' = k_idlethread s \<and> k_procs s' = k_procs s \<and> k_smp_started s' = k_smp_started s"
  by (auto simp: only_random_def)

lemma only_random_trans: "only_random s s' \<Longrightarrow> only_random s' s'' \<Longrightarrow> only_random s s''"
  by (auto simp: only_random_def)

lemma only_random_refl [simp]: "only_random s s"
  unfolding only_random_def by (rule exI [of _ "k_random s"]) simp

lemma find_lowest_effect:
  assumes "find_lowest self cg msk pri maxload pref s = (r, s')"
  shows "only_random s s' \<and> (\<forall>c. r = Some c \<longrightarrow> c \<in> msk)"
proof
  show "only_random s s'"
    using assms by (auto simp: find_lowest_def only_random_def Let_def split: prod.splits)
  show "\<forall>c. r = Some c \<longrightarrow> c \<in> msk"
    using find_lowest_same(4) [OF assms] sched_lowest_sound(4) by metis
qed

lemma pick_lowest_effect:
  assumes "loads_ok (k_tdq s) (group_cpus (ke_cpu_top K))"
    and "set (group_cpus (ke_cpu_top K)) \<inter> td_cpuset (k_threads s td) \<noteq> {}"
  shows "\<exists>cpu s'. pick_lowest K self td cg s = (Some cpu, s') \<and> cpu \<in> td_cpuset (k_threads s td) \<and> only_random s s'"
proof -
  let ?msk = "td_cpuset (k_threads s td)" and ?pri = "uint (td_priority (k_threads s td))"
  let ?p = "Some (ts_cpu (k_sched s td))" and ?top = "ke_cpu_top K"
  obtain r1 s1 where 1: "(case cg of None \<Rightarrow> (None, s) | Some cg \<Rightarrow>
      (if set (cg_mask cg) \<noteq> set (cg_mask ?top)
       then find_lowest self cg ?msk (max ?pri (PRI_MAX_TIMESHARE (ke_pri K))) INT_MAX ?p s
       else (None, s))) = (r1, s1)" by fastforce
  have o1: "only_random s s1 \<and> (\<forall>c. r1 = Some c \<longrightarrow> c \<in> ?msk)"
    using 1 by (auto split: option.splits if_splits dest!: find_lowest_effect)
  obtain r2 s2 where 2: "(case r1 of None \<Rightarrow> find_lowest self ?top ?msk ?pri INT_MAX ?p s1
      | Some c \<Rightarrow> (Some c, s1)) = (r2, s2)" by fastforce
  have o2: "only_random s1 s2 \<and> (\<forall>c. r2 = Some c \<longrightarrow> c \<in> ?msk)"
    using 2 o1 by (auto split: option.splits dest!: find_lowest_effect)
  obtain r3 s3 where 3: "(case r2 of None \<Rightarrow> find_lowest self ?top ?msk (- 1) INT_MAX ?p s2
      | Some c \<Rightarrow> (Some c, s2)) = (r3, s3)" by fastforce
  have "only_random s s2" using o1 o2 only_random_trans by blast
  then have "k_tdq s2 = k_tdq s" by (simp add: only_random_fields)
  then have ok: "loads_ok (k_tdq s2) (group_cpus ?top)" using assms(1) by simp
  have o3: "only_random s2 s3 \<and> (\<exists>c. r3 = Some c \<and> c \<in> ?msk)"
  proof (cases r2)
    case None
    then have f: "find_lowest self ?top ?msk (- 1) INT_MAX ?p s2 = (r3, s3)" using 3 by simp
    from find_lowest_any [OF ok assms(2) f] find_lowest_effect [OF f] show ?thesis by blast
  next
    case (Some c)
    then show ?thesis using 3 o2 by auto
  qed
  have "pick_lowest K self td cg s = (r3, s3)"
    by (simp add: pick_lowest_def Let_def 1 2 3)
  then show ?thesis using o3 \<open>only_random s s2\<close> only_random_trans by blast
qed

text \<open>
  A system on which threads are placed: several processors run, every processor belongs to a
  group, the loads stay far from the bounds of \<^verbatim>\<open>int\<close>, and the thread may run somewhere.
\<close>

definition placeable :: "('w::len) kenv \<Rightarrow> 'w ksys \<Rightarrow> tid \<Rightarrow> bool" where
  "placeable K s td \<longleftrightarrow> k_smp_started s \<and> (\<forall>c. tdq_cg (k_tdq s c) \<noteq> []) \<and>
     loads_ok (k_tdq s) (group_cpus (ke_cpu_top K)) \<and> td_pinned (k_threads s td) = 0 \<and>
     set (group_cpus (ke_cpu_top K)) \<inter> td_cpuset (k_threads s td) \<noteq> {}"

text \<open>The state after a choice: the random state, and \<^verbatim>\<open>ts_cpu\<close> if the thread is bound to its interrupt.\<close>

definition picked :: "cpuid \<Rightarrow> tid \<Rightarrow> ('w::len) ksys \<Rightarrow> 'w ksys \<Rightarrow> bool" where
  "picked self td s s' \<longleftrightarrow> only_random s s' \<or> only_random (upd_sched td (ts_cpu_update (\<lambda>_. self)) s) s'"

lemma picked_fields:
  assumes "picked self td s1 s2" "\<not> on_some_queue s1 td"
  shows "k_threads s2 = k_threads s1" "k_tdq s2 = k_tdq s1" "k_curthread s2 = k_curthread s1" "queues_kept s1 s2"
    "k_ipis s2 = k_ipis s1" "k_panicstr s2 = k_panicstr s1" "k_cold s2 = k_cold s1"
proof -
  have "queues_kept s1 (upd_sched td (ts_cpu_update (\<lambda>_. self)) s1)"
    by (rule queues_kept_upd_sched) (use assms(2) in simp_all)
  moreover have "queues_kept a b" if "only_random a b" for a b :: "'a ksys"
    using only_random_fields [OF that] by (intro queues_kept_fields) auto
  ultimately show "queues_kept s1 s2" using assms(1) queues_kept_trans unfolding picked_def by blast
  show "k_threads s2 = k_threads s1" "k_tdq s2 = k_tdq s1" "k_curthread s2 = k_curthread s1"
    "k_ipis s2 = k_ipis s1" "k_panicstr s2 = k_panicstr s1" "k_cold s2 = k_cold s1"
    using assms(1) by (auto simp: picked_def upd_sched_def dest!: only_random_fields)
qed

lemma sched_pickcpu_effect:
  assumes "placeable K s td" and "SRQ_OURSELF \<notin> flags"
  shows "\<exists>cpu s'. sched_pickcpu K self td flags s = Some (cpu, s') \<and>
    cpu \<in> td_cpuset (k_threads s td) \<and> picked self td s s'"
proof -
  let ?T = "k_threads s" and ?pri = "uint (td_priority (k_threads s td))"
  define intr where "intr \<longleftrightarrow> ?pri \<le> PRI_MAX_ITHD (ke_pri K) \<and> THREAD_CAN_SCHED ?T td self \<and>
    td_intr_nesting_level (?T (k_curthread s self)) \<noteq> 0 \<and> ts_cpu (k_sched s td) \<noteq> self"
  define s1 where "s1 = (if intr then upd_sched td (ts_cpu_update (\<lambda>_. self)) s else s)"
  define ts where "ts = k_sched s1 td"
  define cgs where "cgs = tdq_cg (k_tdq s1 (ts_cpu ts))"
  define idle where "idle \<longleftrightarrow> THREAD_CAN_SCHED ?T td (ts_cpu ts) \<and>
    uint (tdq_lowpri (k_tdq s1 (ts_cpu ts))) \<ge> PRI_MIN_IDLE (ke_pri K) \<and>
    SCHED_AFFINITY K s1 ts (ke_CG_SHARE_L2 K)"
  note p = assms(1) [unfolded placeable_def]
  have s1: "k_threads s1 = ?T" "k_tdq s1 = k_tdq s" by (simp_all add: s1_def)
  have cgs: "cgs \<noteq> []" using p s1 by (simp add: cgs_def)
  obtain cpu s2 where pl: "pick_lowest K self td (pick_group K s1 ts None cgs) s1 = (Some cpu, s2)"
    "cpu \<in> td_cpuset (?T td)" "only_random s1 s2"
    using pick_lowest_effect [of s1 K td self "pick_group K s1 ts None cgs"] p by (auto simp: s1)
  have eq: "sched_pickcpu K self td flags s =
     (if intr \<and> uint (tdq_lowpri (k_tdq s1 self)) > ?pri then Some (self, s1)
      else if idle \<and> (CG_FLAG_THREAD (hd cgs) \<longrightarrow> group_busy_cpu K s1 (hd cgs) = None) then Some (ts_cpu ts, s1)
      else if THREAD_CAN_SCHED ?T td self \<and> uint (tdq_lowpri (k_tdq s2 self)) > ?pri \<and>
         uint (tdq_lowpri (k_tdq s2 cpu)) < PRI_MIN_IDLE (ke_pri K) \<and>
         tdq_load (k_tdq s2 self) \<le> tdq_load (k_tdq s2 cpu) + 1 then Some (self, s2)
      else Some (cpu, s2))"
    using p assms(2) cgs pl(1)
    by (auto simp: sched_pickcpu_def Let_def intr_def [symmetric] s1_def [symmetric] ts_def [symmetric]
        cgs_def [symmetric] idle_def [symmetric])
  have "picked self td s s1" "picked self td s s2"
    using pl(3) by (cases intr; simp add: picked_def s1_def)+
  then show ?thesis unfolding eq using pl(2) by (auto simp: intr_def idle_def)
qed

text \<open>
  C23. \<open>sched_pickcpu\<close> never sends a thread to a processor it may not run on: once several
  processors run, an unpinned thread with a processor in its set gets one of its set, whether by
  interrupt, affinity or load, and neither the assertion on -1 nor a null group is reached; the
  queues are untouched.
\<close>

theorem sched_pickcpu_allowed:
  assumes "k_smp_started s" and "\<forall>c. tdq_cg (k_tdq s c) \<noteq> []"
    and "loads_ok (k_tdq s) (group_cpus (ke_cpu_top K))"
    and "td_pinned (k_threads s td) = 0" and "SRQ_OURSELF \<notin> flags"
    and "set (group_cpus (ke_cpu_top K)) \<inter> td_cpuset (k_threads s td) \<noteq> {}"
  shows "\<exists>cpu s'. sched_pickcpu K self td flags s = Some (cpu, s') \<and>
    cpu \<in> td_cpuset (k_threads s td) \<and> k_tdq s' = k_tdq s \<and> k_threads s' = k_threads s"
proof -
  have "placeable K s td" using assms by (simp add: placeable_def)
  from sched_pickcpu_effect [OF this assms(5), of self] show ?thesis
    by (auto simp: picked_def dest!: only_random_fields)
qed

theorem sched_pickcpu_allowed_witness:
  "\<exists>cpu s'. sched_pickcpu kenv0 1 200 {} ksys2 = Some (cpu, s') \<and> cpu \<in> {0, 1}"
proof -
  have "loads_ok (k_tdq ksys2) (group_cpus (ke_cpu_top kenv0))"
    by (simp add: loads_ok_def ksys2(4) INT_MAX_def)
  from sched_pickcpu_allowed [of ksys2 kenv0 200 "{}" 1, OF _ _ this] show ?thesis by auto
qed

subsection \<open>Adding a thread\<close>

lemma tdq_notify_effect:
  "k_threads (tdq_notify K c td s) = k_threads s" "k_sched (tdq_notify K c td s) = k_sched s"
  "tdq_lowpri (k_tdq (tdq_notify K c td s) d) = tdq_lowpri (k_tdq s d)"
  "tdq_load (k_tdq (tdq_notify K c td s) d) = tdq_load (k_tdq s d)"
  by (simp_all add: tdq_notify_def Let_def upd_tdq_def)

text \<open>A remote processor is told by an interrupt, unless it will look by itself.\<close>

lemma tdq_notify_pending:
  fixes K :: "('w::len) kenv" and s :: "'w ksys"
  assumes "ts_cpu (k_sched s td) = c"
  defines "s' \<equiv> tdq_notify K c td s" and "want \<equiv> sched_shouldpreempt (ke_pri K) (ke_conf K)
      (uint (td_priority (k_threads s td))) (uint (td_priority (k_threads s (k_curthread s c)))) True"
  shows "want \<Longrightarrow> tdq_ipipending (k_tdq s' c) \<or> TD_IS_IDLETHREAD (k_threads s) (k_curthread s c) \<and>
      (\<not> tdq_cpu_idle (k_tdq s c) \<or> ke_idle_wakeup K s' c)"
    "tdq_ipipending (k_tdq s' c) \<Longrightarrow> tdq_ipipending (k_tdq s c) \<or> want"
    "k_ipis s' = k_ipis s @ (if tdq_ipipending (k_tdq s' c) \<and> \<not> tdq_ipipending (k_tdq s c) then [c] else [])"
  using assms(1) by (auto simp: s'_def want_def tdq_notify_def Let_def upd_tdq_def split: if_splits)

text \<open>The running processor notes a reschedule, and preempts at once when it may.\<close>

lemma sched_setpreempt_flags:
  assumes "td_priority (k_threads s td) < td_priority (k_threads s (k_curthread s self))"
  shows "TDF_NEEDRESCHED \<in> td_flags (k_threads (sched_setpreempt K self td s) (k_curthread s self))"
    "\<not> k_panicstr s \<Longrightarrow> \<not> k_cold s \<Longrightarrow> \<not> TD_IS_INHIBITED (k_threads s) (k_curthread s self) \<Longrightarrow>
     sched_shouldpreempt (ke_pri K) (ke_conf K) (uint (td_priority (k_threads s td)))
       (uint (td_priority (k_threads s (k_curthread s self)))) False \<Longrightarrow>
     td_owepreempt (k_threads (sched_setpreempt K self td s) (k_curthread s self))"
  using assms by (auto simp: sched_setpreempt_def set_td_flags_def upd_thread_def Let_def)

lemma sched_setpreempt_effect:
  "queues_kept s (sched_setpreempt K self td s)" "k_tdq (sched_setpreempt K self td s) = k_tdq s"
  "k_sched (sched_setpreempt K self td s) = k_sched s"
  "td_priority (k_threads (sched_setpreempt K self td s) t) = td_priority (k_threads s t)"
  "td_state (k_threads (sched_setpreempt K self td s) t) = td_state (k_threads s t)"
proof -
  have flags: "queues_kept s (set_td_flags x fl s)" for x fl and s :: "'a ksys"
    unfolding set_td_flags_def by (rule queues_kept_upd_thread) (simp add: thread_same_def)
  have owe: "queues_kept s (upd_thread x (td_owepreempt_update (\<lambda>_. True)) s)" for x and s :: "'a ksys"
    by (rule queues_kept_upd_thread) (simp add: thread_same_def)
  show "queues_kept s (sched_setpreempt K self td s)"
    unfolding sched_setpreempt_def Let_def by (auto intro: flags owe queues_kept_trans)
  show "k_tdq (sched_setpreempt K self td s) = k_tdq s" "k_sched (sched_setpreempt K self td s) = k_sched s"
    "td_priority (k_threads (sched_setpreempt K self td s) t) = td_priority (k_threads s t)"
    "td_state (k_threads (sched_setpreempt K self td s) t) = td_state (k_threads s t)"
    by (simp_all add: sched_setpreempt_def set_td_flags_def Let_def)
qed

lemma tdq_runq_add_idle:
  assumes "tdq_runq_add E P c (T, S, q) td flags = (T', S', q')"
  shows "tdq_ipipending q' = tdq_ipipending q" "tdq_cpu_idle q' = tdq_cpu_idle q"
  using assms by (auto simp: tdq_runq_add_def Let_def split: if_splits prod.splits)

lemma kern_tdq_add_idle:
  "tdq_ipipending (k_tdq (kern_tdq_add K c td flags s) d) = tdq_ipipending (k_tdq s d)"
  "tdq_cpu_idle (k_tdq (kern_tdq_add K c td flags s) d) = tdq_cpu_idle (k_tdq s d)"
proof -
  let ?q = "raise_lowpri (td_priority (k_threads s td)) (k_tdq s c)"
  obtain T S q where r: "tdq_runq_add (ke_rq K) (ke_pri K) c (k_threads s, k_sched s, ?q) td flags = (T, S, q)"
    by (metis prod_cases3)
  have v: "tdq_view c (upd_tdq c (raise_lowpri (td_priority (k_threads s td))) s) = (k_threads s, k_sched s, ?q)"
    by (simp add: tdq_view_def)
  have t: "tdq_ipipending (tdq_load_add T q td) = tdq_ipipending q" "tdq_cpu_idle (tdq_load_add T q td) = tdq_cpu_idle q"
    for T by (simp_all add: tdq_load_add_def Let_def)
  have w: "tdq_ipipending ?q = tdq_ipipending (k_tdq s c)" "tdq_cpu_idle ?q = tdq_cpu_idle (k_tdq s c)"
    by (simp_all add: raise_lowpri_def)
  show "tdq_ipipending (k_tdq (kern_tdq_add K c td flags s) d) = tdq_ipipending (k_tdq s d)"
    "tdq_cpu_idle (k_tdq (kern_tdq_add K c td flags s) d) = tdq_cpu_idle (k_tdq s d)"
    by (simp_all add: kern_tdq_add_steps kern_load_add_def kern_runq_add_def on_tdq_def v r tdq_put_def
      t tdq_runq_add_idle [OF r] w)
qed

text \<open>The thread is queued, on one processor it may run on; then that processor is told.\<close>

lemma sched_add_queues:
  assumes "kenv_ok K" and "ksys_inv K s" and "placeable K s td" and "window_ok K s td"
    and "\<not> on_some_queue s td" and "SRQ_OURSELF \<notin> flags"
  obtains cpu s4 where
    "kern_sched_add K self td flags s = Some (if cpu \<noteq> self then tdq_notify K cpu td s4
       else if SRQ_YIELDING \<notin> flags then sched_setpreempt K self td s4 else s4)"
    "cpu \<in> td_cpuset (k_threads s td)" "ksys_inv K s4" "queued s4 = (queued s)(cpu := insert td (queued s cpu))"
    "td_state (k_threads s4 td) = TDS_RUNQ" "tdq_lowpri (k_tdq s4 cpu) \<le> td_priority (k_threads s td)"
    "ts_cpu (k_sched s4 td) = cpu" "k_curthread s4 = k_curthread s" "k_ipis s4 = k_ipis s" "k_panicstr s4 = k_panicstr s"
    "k_cold s4 = k_cold s" "\<And>t. td_priority (k_threads s4 t) = td_priority (k_threads s t)"
    "\<And>t. td_flags (k_threads s4 t) = td_flags (k_threads s t)"
    "\<And>t. t \<noteq> td \<Longrightarrow> k_threads s4 t = k_threads s t"
    "tdq_ipipending (k_tdq s4 cpu) = tdq_ipipending (k_tdq s cpu)" "tdq_cpu_idle (k_tdq s4 cpu) = tdq_cpu_idle (k_tdq s cpu)"
proof -
  obtain f where f: "kern_sched_priority K td s = Some (upd_thread td f s)"
    "\<And>t. td_priority (f t) = td_priority t" "\<And>t. thread_same t (f t)" "\<And>t. td_cpuset (f t) = td_cpuset t"
    "\<And>t. td_pinned (f t) = td_pinned t" "\<And>t. td_flags (f t) = td_flags t"
    using kern_sched_priority_Some [OF assms(1,4)] by blast
  define s1 where "s1 = (if fst (td_pri_class (k_threads s td)) = PRI_TIMESHARE then upd_thread td f s else s)"
  have k1: "queues_kept s s1" unfolding s1_def using f(3) by (simp add: queues_kept_upd_thread)
  have t1: "td_priority (k_threads s1 t) = td_priority (k_threads s t)" "td_flags (k_threads s1 t) = td_flags (k_threads s t)"
    "td_cpuset (k_threads s1 t) = td_cpuset (k_threads s t)" "t \<noteq> td \<Longrightarrow> k_threads s1 t = k_threads s t" for t
    using f by (simp_all add: s1_def)
  have r1: "same_rest s s1" "k_sched s1 = k_sched s" "k_tdq s1 = k_tdq s" by (simp_all add: s1_def)
  have "placeable K s1 td"
    using assms(3) f t1 r1 by (simp add: placeable_def same_restD) (simp add: s1_def)
  from sched_pickcpu_effect [OF this assms(6), of self] obtain cpu s2
    where p: "sched_pickcpu K self td flags s1 = Some (cpu, s2)" "cpu \<in> td_cpuset (k_threads s td)"
      "picked self td s1 s2" by (auto simp: t1)
  define s3 where "s3 = sched_setcpu td cpu s2"
  define s4 where "s4 = kern_tdq_add K cpu td flags s3"
  have out1: "\<not> on_some_queue s1 td"
    using assms(5) queues_kept_queued [OF k1] by (simp add: on_some_queue_def)
  note s2 = picked_fields [OF p(3) out1]
  have out2: "\<not> on_some_queue s2 td"
    using out1 queues_kept_queued [OF s2(4)] by (simp add: on_some_queue_def)
  have k3: "queues_kept s2 s3"
    unfolding s3_def sched_setcpu_def by (rule queues_kept_upd_sched) (use out2 in simp_all)
  have k13: "queues_kept s s3" using k1 s2(4) k3 queues_kept_trans by blast
  have out3: "\<not> on_some_queue s3 td"
    using out2 queues_kept_queued [OF k3] by (simp add: on_some_queue_def)
  have cpu3: "ts_cpu (k_sched s3 td) = cpu" by (simp add: s3_def sched_setcpu_def)
  have E: "rqenv_ok (ke_rq K)" using assms(1) by (simp add: kenv_ok_def)
  note a = kern_tdq_add_effect [OF E queues_kept_inv [OF assms(2) k13] out3 cpu3 s4_def]
  note o = only_queue_fieldsD [OF a(3)]
  have t3: "k_threads s3 = k_threads s1" "k_tdq s3 = k_tdq s" "k_curthread s3 = k_curthread s" "k_ipis s3 = k_ipis s"
    "k_panicstr s3 = k_panicstr s" "k_cold s3 = k_cold s"
    using s2 r1 by (simp_all add: s3_def sched_setcpu_def upd_sched_def same_restD)
  have "(if fst (td_pri_class (k_threads s td)) = PRI_TIMESHARE then kern_sched_priority K td s else Some s) = Some s1"
    by (simp add: f(1) s1_def)
  then have res: "kern_sched_add K self td flags s = Some (if cpu \<noteq> self then tdq_notify K cpu td s4
       else if SRQ_YIELDING \<notin> flags then sched_setpreempt K self td s4 else s4)"
    by (simp add: kern_sched_add_def p(1) s4_def s3_def Let_def del: if_split_eq1)
  show thesis
    by (rule that [OF res p(2) a(1)])
      (use a queues_kept_queued [OF k13] o t1 t3 cpu3 same_restD [OF a(7)] kern_tdq_add_idle [of K cpu td flags s3] in
        \<open>simp_all add: s4_def\<close>)
qed

text \<open>
  What the chosen processor is told. A remote one whose running thread should be preempted has an
  interrupt pending, unless it is idle and polling or woken by \<^verbatim>\<open>cpu_idle_wakeup\<close>; the interrupts sent
  are those newly pending. On this processor, a better priority marks the running thread for
  rescheduling, and a preemption is owed if nothing forbids it.
\<close>

definition cpu_told :: "('w::len) kenv \<Rightarrow> cpuid \<Rightarrow> tid \<Rightarrow> srq_flag set \<Rightarrow> cpuid \<Rightarrow> 'w ksys \<Rightarrow> 'w ksys \<Rightarrow> bool" where
  "cpu_told K self td flags cpu s s' \<longleftrightarrow>
    (let ctd = k_curthread s cpu; pri = td_priority (k_threads s td); cpri = td_priority (k_threads s ctd);
         preempts = sched_shouldpreempt (ke_pri K) (ke_conf K) (uint pri) (uint cpri)
     in if cpu \<noteq> self
        then (preempts True \<longrightarrow> tdq_ipipending (k_tdq s' cpu) \<or>
                TD_IS_IDLETHREAD (k_threads s) ctd \<and> (\<not> tdq_cpu_idle (k_tdq s cpu) \<or> ke_idle_wakeup K s' cpu)) \<and>
             (tdq_ipipending (k_tdq s' cpu) \<longrightarrow> tdq_ipipending (k_tdq s cpu) \<or> preempts True) \<and>
             k_ipis s' = k_ipis s @
               (if tdq_ipipending (k_tdq s' cpu) \<and> \<not> tdq_ipipending (k_tdq s cpu) then [cpu] else [])
        else k_ipis s' = k_ipis s \<and> (SRQ_YIELDING \<notin> flags \<longrightarrow> pri < cpri \<longrightarrow>
               TDF_NEEDRESCHED \<in> td_flags (k_threads s' ctd) \<and>
               (preempts False \<and> \<not> k_panicstr s \<and> \<not> k_cold s \<and> \<not> TD_IS_INHIBITED (k_threads s) ctd \<longrightarrow>
                  td_owepreempt (k_threads s' ctd))))"

text \<open>
  C12. \<open>sched_add\<close> makes a thread runnable on one processor that it may run on, and tells that
  processor. It returns, the thread is queued there and only there, the queues keep their invariant,
  and the processor's lowest priority is no worse than the thread's. If that is another processor
  whose running thread should be preempted, an interrupt is pending on it afterwards, unless it is
  idle and polling or woken by \<^verbatim>\<open>cpu_idle_wakeup\<close>; the interrupts sent are those newly pending. If it
  is this processor and the thread is not yielding, a better priority marks the running thread for
  rescheduling, and a preemption is owed if \<open>sched_shouldpreempt\<close> says so and no panic, cold boot or
  inhibited thread forbids it. The thread is on no queue yet, not pinned and not bound to the caller's
  processor by \<^verbatim>\<open>SRQ_OURSELF\<close>; several processors run, one of the topology is in its set, and the
  loads and its ticks are in range (\<open>placeable\<close>, \<open>window_ok\<close>).
\<close>

theorem sched_add_places:
  assumes "kenv_ok K" and "ksys_inv K s" and "placeable K s td" and "window_ok K s td"
    and "\<not> on_some_queue s td" and "SRQ_OURSELF \<notin> flags"
  shows "\<exists>s' cpu. kern_sched_add K self td flags s = Some s' \<and> ksys_inv K s' \<and>
    cpu \<in> td_cpuset (k_threads s td) \<and> queued s' = (queued s)(cpu := insert td (queued s cpu)) \<and>
    td_state (k_threads s' td) = TDS_RUNQ \<and>
    tdq_lowpri (k_tdq s' cpu) \<le> td_priority (k_threads s' td) \<and>
    cpu_told K self td flags cpu s s'"
proof -
  obtain cpu s4 where q: "kern_sched_add K self td flags s = Some (if cpu \<noteq> self then tdq_notify K cpu td s4
       else if SRQ_YIELDING \<notin> flags then sched_setpreempt K self td s4 else s4)"
    "cpu \<in> td_cpuset (k_threads s td)" "ksys_inv K s4" "queued s4 = (queued s)(cpu := insert td (queued s cpu))"
    "td_state (k_threads s4 td) = TDS_RUNQ" "tdq_lowpri (k_tdq s4 cpu) \<le> td_priority (k_threads s td)"
    and c: "ts_cpu (k_sched s4 td) = cpu"
    and f: "k_curthread s4 = k_curthread s" "k_ipis s4 = k_ipis s" "k_panicstr s4 = k_panicstr s"
    "k_cold s4 = k_cold s" "\<And>t. td_priority (k_threads s4 t) = td_priority (k_threads s t)"
    "\<And>t. td_flags (k_threads s4 t) = td_flags (k_threads s t)"
    and t: "\<And>t. t \<noteq> td \<Longrightarrow> k_threads s4 t = k_threads s t"
    and i: "tdq_ipipending (k_tdq s4 cpu) = tdq_ipipending (k_tdq s cpu)" "tdq_cpu_idle (k_tdq s4 cpu) = tdq_cpu_idle (k_tdq s cpu)"
    by (rule sched_add_queues [OF assms, of self]) blast
  define s' where "s' = (if cpu \<noteq> self then tdq_notify K cpu td s4
    else if SRQ_YIELDING \<notin> flags then sched_setpreempt K self td s4 else s4)"
  let ?ctd = "k_curthread s cpu"
  have idle: "TD_IS_IDLETHREAD (k_threads s4) ?ctd = TD_IS_IDLETHREAD (k_threads s) ?ctd"
    by (simp add: f)
  have inh: "TD_IS_INHIBITED (k_threads s4) ?ctd = TD_IS_INHIBITED (k_threads s) ?ctd"
    if "td_priority (k_threads s td) < td_priority (k_threads s ?ctd)"
    using that t [of ?ctd] by (cases "?ctd = td") simp_all
  have k4: "queues_kept s4 s'" by (simp add: s'_def tdq_notify_kept sched_setpreempt_effect)
  have "k_ipis (sched_setpreempt K self td s4) = k_ipis s4"
    by (simp add: sched_setpreempt_def set_td_flags_def upd_thread_def Let_def)
  note local = sched_setpreempt_flags [of s4 td self K] this
  have remote: "cpu \<noteq> self \<Longrightarrow> s' = tdq_notify K cpu td s4" by (simp add: s'_def)
  have here: "cpu = self \<Longrightarrow> s' = (if SRQ_YIELDING \<notin> flags then sched_setpreempt K self td s4 else s4)" by (simp add: s'_def)
  have told: "cpu_told K self td flags cpu s s'"
  proof (cases "cpu = self")
    case True
    with here [OF True] local inh show ?thesis by (auto simp: cpu_told_def Let_def f)
  next
    case False
    note n = tdq_notify_pending [OF c, of K, folded remote [OF False], unfolded f i idle]
    show ?thesis unfolding cpu_told_def Let_def if_P [OF False] using n by blast
  qed
  have "queued s' = (queued s)(cpu := insert td (queued s cpu))" using queues_kept_queued [OF k4] q(4) by simp
  moreover have "td_state (k_threads s' td) = TDS_RUNQ" "tdq_lowpri (k_tdq s' cpu) \<le> td_priority (k_threads s' td)"
    using q(5,6) by (auto simp: s'_def tdq_notify_effect sched_setpreempt_effect f)
  ultimately show ?thesis
    using q(1) [folded s'_def] q(2) queues_kept_inv [OF q(3) k4] told by blast
qed

theorem sched_add_places_witness:
  "\<exists>s' cpu. kern_sched_add kenv0 1 200 {} ksys2 = Some s' \<and> cpu \<in> {0, 1} \<and> 200 \<in> queued s' cpu"
proof -
  have ok: "kenv_ok kenv0" by (simp add: kenv_ok_def rqenv_ok_amd64 pri_env_ok_freebsd conf0_def)
  have "loads_ok (k_tdq ksys2) (group_cpus (ke_cpu_top kenv0))"
    by (simp add: loads_ok_def ksys2(4) INT_MAX_def)
  then have pl: "placeable kenv0 ksys2 200" by (simp add: placeable_def)
  have out: "\<not> on_some_queue ksys2 200" by (simp add: on_some_queue_def ksys2(2))
  have "window_ok kenv0 ksys2 200" by (simp add: window_ok_def ksys2_sched(2) conf0_def sched_consts del: of_nat_less_iff)
  from sched_add_places [OF ok ksys2(1) pl this out, of "{}" 1] obtain s' cpu
    where "kern_sched_add kenv0 1 200 {} ksys2 = Some s'" "cpu \<in> td_cpuset (k_threads ksys2 200)"
      "queued s' = (queued ksys2)(cpu := insert 200 (queued ksys2 cpu))" by blast
  then show ?thesis by (intro exI [of _ s'] exI [of _ cpu]) simp
qed

end
