(* ===== verification/Switch_Props.thy ===== *)
theory Switch_Props
  imports Ule_Sched_Props
begin

section \<open>Properties of choosing the thread to run and of switching\<close>

text \<open>
  What taking the best thread off a queue, the loop of \<open>choosethread\<close> during a panic and
  \<open>sched_switch\<close> do to the queues of all processors.
\<close>

subsection \<open>Taking the best thread off the queue of the processor\<close>

lemma kern_sched_choose_steps:
  "kern_sched_choose K self s =
    (case tdq_choose (ke_rq K) (k_tdq s self) of
       Some td \<Rightarrow> (td, upd_tdq self (tdq_lowpri_update (\<lambda>_. td_priority (k_threads s td))) (kern_runq_rem K self td s))
     | None \<Rightarrow> (k_idlethread s self, upd_tdq self (tdq_lowpri_update (\<lambda>_. word_of_int (PRI_MAX_IDLE (ke_pri K)))) s))"
proof (cases "tdq_choose (ke_rq K) (k_tdq s self)")
  case None
  then show ?thesis
    by (simp add: kern_sched_choose_def sched_choose_def tdq_view_def tdq_put_def upd_tdq_def)
next
  case (Some td)
  obtain T' S' q' where r: "tdq_runq_rem (ke_rq K) (k_threads s, k_sched s, k_tdq s self) td = (T', S', q')"
    by (cases "tdq_runq_rem (ke_rq K) (k_threads s, k_sched s, k_tdq s self) td")
  note t = tdq_runq_rem_only(4) [OF r]
  show ?thesis
    using Some r by (simp add: kern_sched_choose_def sched_choose_def tdq_view_def tdq_put_def upd_tdq_def
        kern_runq_rem_def on_tdq_def t)
qed

lemma kern_sched_choose_effect:
  assumes E: "rqenv_ok (ke_rq K)" and inv: "ksys_inv K s" and r: "kern_sched_choose K self s = (td, s')"
  shows "ksys_inv K s'" "same_rest s s'" "k_threads s' = k_threads s"
    "tdq_load (k_tdq s' c) = tdq_load (k_tdq s c)"
    "queued s self = {} \<Longrightarrow> td = k_idlethread s self \<and> queued s' = queued s"
    "queued s self \<noteq> {} \<Longrightarrow> td \<in> queued s self \<and> queued s' = (queued s)(self := queued s self - {td}) \<and>
      \<not> on_some_queue s' td"
proof -
  note ch = tdq_choose_None [OF E ksys_inv_tdq [OF inv, of self]]
  have low: "queues_kept a (upd_tdq self (tdq_lowpri_update (\<lambda>_. x)) a)" for a :: "'a ksys" and x
    by (rule queues_kept_upd_tdq) simp
  have *: "ksys_inv K s' \<and> same_rest s s' \<and> k_threads s' = k_threads s \<and>
    tdq_load (k_tdq s' c) = tdq_load (k_tdq s c) \<and>
    (queued s self = {} \<longrightarrow> td = k_idlethread s self \<and> queued s' = queued s) \<and>
    (queued s self \<noteq> {} \<longrightarrow> td \<in> queued s self \<and> queued s' = (queued s)(self := queued s self - {td}) \<and>
      \<not> on_some_queue s' td)"
  proof (cases "tdq_choose (ke_rq K) (k_tdq s self)")
    case None
    then have e: "queued s self = {}" using ch(1) by (simp add: queued_def)
    have s': "td = k_idlethread s self" "s' = upd_tdq self (tdq_lowpri_update (\<lambda>_. word_of_int (PRI_MAX_IDLE (ke_pri K)))) s"
      using r None by (simp_all add: kern_sched_choose_steps)
    note k = low [of s "word_of_int (PRI_MAX_IDLE (ke_pri K))", folded s'(2)]
    show ?thesis
      using queues_kept_inv [OF inv k] queues_kept_queued [OF k] e s' by simp
  next
    case (Some t)
    define s1 where "s1 = kern_runq_rem K self t s"
    have s': "td = t" "s' = upd_tdq self (tdq_lowpri_update (\<lambda>_. td_priority (k_threads s t))) s1"
      using r Some by (auto simp: kern_sched_choose_steps s1_def)
    have t: "t \<in> queued s self" using ch(2) [OF Some] by (simp add: queued_def)
    note rem = kern_runq_rem_effect [OF E inv t s1_def]
    note k = low [of s1 "td_priority (k_threads s t)", folded s'(2)]
    have "same_rest s1 s'" by (simp add: s'(2))
    then have 1: "same_rest s s'" using rem(7) same_rest_trans by blast
    have 2: "queued s' = (queued s)(self := queued s self - {t})"
      using queues_kept_queued [OF k] rem(2) by simp
    have 3: "\<not> on_some_queue s' t" using queued_once [OF inv t] unfolding on_some_queue_def 2 by auto
    have 4: "tdq_load (k_tdq s' c) = tdq_load (k_tdq s c)"
      using rem(4,6) by (cases "c = self") (simp_all add: s'(2))
    show ?thesis
      using queues_kept_inv [OF rem(1) k] 1 2 3 4 t s' rem(8) by auto
  qed
  then show "ksys_inv K s'" "same_rest s s'" "k_threads s' = k_threads s"
    "tdq_load (k_tdq s' c) = tdq_load (k_tdq s c)"
    "queued s self = {} \<Longrightarrow> td = k_idlethread s self \<and> queued s' = queued s"
    "queued s self \<noteq> {} \<Longrightarrow> td \<in> queued s self \<and> queued s' = (queued s)(self := queued s self - {td}) \<and>
      \<not> on_some_queue s' td"
    by blast+
qed

lemma queued_finite [simp]: "finite (queued s c)"
  by (simp add: queued_def)

subsection \<open>The loop during a panic\<close>

lemma panic_may_run_same:
  assumes "same_rest s s'" "\<And>t. td_flags (k_threads s' t) = td_flags (k_threads s t)"
    and "\<And>t. td_proc (k_threads s' t) = td_proc (k_threads s t)"
  shows "panic_may_run s' td = panic_may_run s td"
  using assms by (simp add: panic_may_run_def same_restD)

lemma choosethread_panic_returns:
  assumes "rqenv_ok (ke_rq K)" "ksys_inv K s" "\<not> on_some_queue s td"
    and "panic_may_run s (k_idlethread s self)" "\<not> on_some_queue s (k_idlethread s self)"
  shows "\<exists>td' s'. choosethread_panic K self td s = Some (td', s') \<and> panic_may_run s td' \<and>
    td_state (k_threads s' td') = TDS_RUNNING \<and> ksys_inv K s' \<and> \<not> on_some_queue s' td' \<and>
    (\<forall>c. c \<noteq> self \<longrightarrow> queued s' c = queued s c) \<and>
    (\<forall>t\<in>queued s self - queued s' self. t = td' \<or> \<not> panic_may_run s t) \<and>
    queued s' self \<subseteq> queued s self"
  using assms(2-)
proof (induction "card (queued s self)" arbitrary: s td rule: less_induct)
  case less
  show ?case
  proof (cases "panic_may_run s td")
    case True
    define s' where "s' = upd_thread td (td_state_update (\<lambda>_. TDS_RUNNING)) s"
    have eq: "choosethread_panic K self td s = Some (td, s')"
      using True by (subst choosethread_panic.simps) (auto simp: panic_may_run_def s'_def)
    have k: "queues_kept s s'" unfolding s'_def by (rule queues_kept_upd_thread) (use less.prems(2) in simp)
    have "\<not> on_some_queue s' td" using less.prems(2) queues_kept_queued [OF k] by (simp add: on_some_queue_def)
    then show ?thesis
      using eq True queues_kept_inv [OF less.prems(1) k] queues_kept_queued [OF k] by (simp add: s'_def)
  next
    case False
    define s1 where "s1 = upd_thread td (td_state_update (\<lambda>_. TDS_CAN_RUN)) s"
    obtain t s2 where c: "kern_sched_choose K self s1 = (t, s2)" by fastforce
    have eq: "choosethread_panic K self td s = choosethread_panic K self t s2"
      using False c by (subst choosethread_panic.simps) (simp add: panic_may_run_def s1_def)
    have k: "queues_kept s s1" unfolding s1_def by (rule queues_kept_upd_thread) (use less.prems(2) in simp)
    note inv1 = queues_kept_inv [OF less.prems(1) k] and q1 = queues_kept_queued [OF k]
    note ch = kern_sched_choose_effect [OF assms(1) inv1 c]
    have "same_rest s s1" by (simp add: s1_def)
    then have rest: "same_rest s s2" using ch(2) same_rest_trans by blast
    have may: "panic_may_run s2 x = panic_may_run s x" for x
      by (rule panic_may_run_same [OF rest]) (simp_all add: ch(3) s1_def)
    have idle: "k_idlethread s2 self = k_idlethread s self" "k_idlethread s1 self = k_idlethread s self"
      using rest by (simp_all add: same_restD s1_def upd_thread_def)
    show ?thesis
    proof (cases "queued s self = {}")
      case True
      then have t: "t = k_idlethread s self" "queued s2 = queued s" using ch(5) q1 idle by auto
      define s' where "s' = upd_thread t (td_state_update (\<lambda>_. TDS_RUNNING)) s2"
      have "choosethread_panic K self t s2 = Some (t, s')"
        using may less.prems(3) t(1) by (subst choosethread_panic.simps) (auto simp: panic_may_run_def s'_def)
      moreover have out: "\<not> on_some_queue s2 t" using less.prems(4) t by (simp add: on_some_queue_def)
      moreover have k': "queues_kept s2 s'" unfolding s'_def by (rule queues_kept_upd_thread) (use out in simp)
      ultimately show ?thesis
        using eq t less.prems(3) queues_kept_inv [OF ch(1) k'] queues_kept_queued [OF k']
        by (simp add: s'_def on_some_queue_def)
    next
      case False
      then have t: "t \<in> queued s self" "queued s2 = (queued s)(self := queued s self - {t})" "\<not> on_some_queue s2 t"
        using ch(6) q1 by auto
      have "card (queued s2 self) < card (queued s self)" 
        using card_Diff1_less [OF queued_finite t(1)] t(2) by simp
      moreover have "panic_may_run s2 (k_idlethread s2 self)" "\<not> on_some_queue s2 (k_idlethread s2 self)"
        using may less.prems(3,4) idle t(2) by (auto simp: on_some_queue_def split: if_splits)
      ultimately obtain td' s' where r: "choosethread_panic K self t s2 = Some (td', s')" "panic_may_run s2 td'"
        "td_state (k_threads s' td') = TDS_RUNNING" "ksys_inv K s'" "\<not> on_some_queue s' td'"
        "\<forall>c. c \<noteq> self \<longrightarrow> queued s' c = queued s2 c"
        "\<forall>x\<in>queued s2 self - queued s' self. x = td' \<or> \<not> panic_may_run s2 x" "queued s' self \<subseteq> queued s2 self"
        using less.hyps [OF _ ch(1) t(3)] by blast
      have "x = td' \<or> \<not> panic_may_run s x" if x: "x \<in> queued s self - queued s' self" for x
      proof (cases "x = t")
        case True
        show ?thesis
        proof (cases "panic_may_run s t")
          case True
          then have "choosethread_panic K self t s2 = Some (t, upd_thread t (td_state_update (\<lambda>_. TDS_RUNNING)) s2)"
            using may by (subst choosethread_panic.simps) (auto simp: panic_may_run_def)
          with r(1) \<open>x = t\<close> show ?thesis by simp
        qed (use \<open>x = t\<close> in simp)
      next
        case False
        then show ?thesis using r(7) x t(2) may by auto
      qed
      then show ?thesis using r t(2) eq may by auto
    qed
  qed
qed

text \<open>
  C10. \<open>choosethread\<close> always returns a thread that it has set running and that is on no queue, and
  it takes from the other processors' queues nothing. In a panic, where the code skips threads
  until it finds one that may run, the loop ends because the idle thread may run, the thread
  returned may run in a panic, and every other thread it has dropped from the queue may not.
\<close>

theorem choosethread_returns:
  assumes "rqenv_ok (ke_rq K)" and "ksys_inv K s"
    and "panic_may_run s (k_idlethread s self)" and "\<not> on_some_queue s (k_idlethread s self)"
  shows "\<exists>td s'. choosethread K self s = Some (td, s') \<and> td_state (k_threads s' td) = TDS_RUNNING \<and>
    ksys_inv K s' \<and> \<not> on_some_queue s' td \<and> (\<forall>c. c \<noteq> self \<longrightarrow> queued s' c = queued s c) \<and>
    (if k_panicstr s
     then panic_may_run s td \<and> (\<forall>t\<in>queued s self - queued s' self. t = td \<or> \<not> panic_may_run s t)
     else if queued s self = {} then td = k_idlethread s self \<and> queued s' self = {}
     else td \<in> queued s self \<and> queued s' self = queued s self - {td})"
proof -
  obtain td s1 where c: "kern_sched_choose K self s = (td, s1)" by fastforce
  note ch = kern_sched_choose_effect [OF assms(1,2) c]
  have out: "\<not> on_some_queue s1 td"
  proof (cases "queued s self = {}")
    case True
    then show ?thesis using ch(5) assms(4) by (auto simp: on_some_queue_def)
  qed (use ch(6) in blast)
  have q: "queued s1 c = queued s c" if "c \<noteq> self" for c
    using ch(5,6) that by (cases "queued s self = {}") auto
  have may: "panic_may_run s1 t = panic_may_run s t" for t
    by (rule panic_may_run_same [OF ch(2)]) (simp_all add: ch(3))
  show ?thesis
  proof (cases "k_panicstr s")
    case True
    have idle: "panic_may_run s1 (k_idlethread s1 self)" "\<not> on_some_queue s1 (k_idlethread s1 self)"
      using may assms(3,4) ch(5,6) by (cases "queued s self = {}";
        auto simp: same_restD [OF ch(2)] on_some_queue_def split: if_splits)+
    obtain td' s' where r: "choosethread_panic K self td s1 = Some (td', s')" "panic_may_run s1 td'"
      "td_state (k_threads s' td') = TDS_RUNNING" "ksys_inv K s'" "\<not> on_some_queue s' td'"
      "\<forall>c. c \<noteq> self \<longrightarrow> queued s' c = queued s1 c"
      "\<forall>t\<in>queued s1 self - queued s' self. t = td' \<or> \<not> panic_may_run s1 t"
      using choosethread_panic_returns [OF assms(1) ch(1) out idle] by blast
    have first: "td = td' \<or> \<not> panic_may_run s td"
    proof (cases "panic_may_run s td")
      case True
      then have "choosethread_panic K self td s1 = Some (td, upd_thread td (td_state_update (\<lambda>_. TDS_RUNNING)) s1)"
        using may by (subst choosethread_panic.simps) (auto simp: panic_may_run_def)
      with r(1) show ?thesis by simp
    qed simp
    have "t = td' \<or> \<not> panic_may_run s t" if "t \<in> queued s self - queued s' self" for t
      using that r(7) first ch(5,6) may by (cases "t = td"; cases "queued s self = {}") auto
    moreover have "choosethread K self s = Some (td', s')"
      using c r(1) True by (simp add: choosethread_def same_restD [OF ch(2)])
    ultimately show ?thesis using r q may True by auto
  next
    case False
    define s' where "s' = upd_thread td (td_state_update (\<lambda>_. TDS_RUNNING)) s1"
    have k: "queues_kept s1 s'" unfolding s'_def by (rule queues_kept_upd_thread) (use out in simp)
    have "choosethread K self s = Some (td, s')"
      using c False by (simp add: choosethread_def same_restD [OF ch(2)] s'_def)
    moreover have "td_state (k_threads s' td) = TDS_RUNNING" by (simp add: s'_def)
    moreover have "\<not> on_some_queue s' td" using out queues_kept_queued [OF k] by (simp add: on_some_queue_def)
    ultimately show ?thesis
      using queues_kept_inv [OF ch(1) k] queues_kept_queued [OF k] q ch(5,6) False
      by (cases "queued s self = {}") auto
  qed
qed

theorem choosethread_returns_witness:
  "\<exists>td s'. choosethread kenv0 0 (ksys2\<lparr>k_panicstr := True\<rparr>) = Some (td, s') \<and> td_state (k_threads s' td) = TDS_RUNNING"
proof -
  let ?s = "ksys2\<lparr>k_panicstr := True\<rparr>"
  have k: "queues_kept ksys2 ?s" by (rule queues_kept_fields) simp_all
  have q: "queued ?s = queued ksys2" by (rule queues_kept_queued [OF k])
  have "panic_may_run ?s (k_idlethread ?s 0)"
    by (simp add: panic_may_run_def same_restD [OF ksys2(3)]) (simp add: ksys0_def)
  moreover have "\<not> on_some_queue ?s (k_idlethread ?s 0)" by (simp add: on_some_queue_def q ksys2(2))
  ultimately show ?thesis
    using choosethread_returns [of kenv0 ?s 0] queues_kept_inv [OF ksys2(1) k] rqenv_ok_amd64 by auto
qed

subsection \<open>Switching\<close>

text \<open>
  C1. \<open>sched_switch\<close> loses no thread: when a running thread that may stay on its processor gives
  it up, the switch returns, the thread chosen was queued there or is the thread itself, which is
  queued there unless chosen, every other queue and every load is as before, and the queues keep
  their invariant.
\<close>

theorem sched_switch_keeps_threads:
  assumes "kenv_ok K" and "ksys_inv K s" and "window_ok K s td"
    and "td_state (k_threads s td) = TDS_RUNNING" and "\<not> TD_IS_IDLETHREAD (k_threads s) td"
    and "ts_cpu (k_sched s td) = self" and "self \<in> td_cpuset (k_threads s td)" and "\<not> k_panicstr s"
  shows "\<exists>newtd s'. sched_switch_out K self td flags s = Some (newtd, s') \<and> ksys_inv K s' \<and>
    newtd \<in> insert td (queued s self) \<and>
    queued s' = (queued s)(self := insert td (queued s self) - {newtd}) \<and>
    td_state (k_threads s' newtd) = TDS_RUNNING \<and>
    (newtd \<noteq> td \<longrightarrow> td_state (k_threads s' td) = TDS_RUNQ) \<and>
    (\<forall>c. tdq_load (k_tdq s' c) = tdq_load (k_tdq s c))"
proof -
  have E: "rqenv_ok (ke_rq K)" using assms(1) by (simp add: kenv_ok_def)
  have out: "\<not> on_some_queue s td" by (rule not_queued_state [OF assms(2)]) (simp add: assms(4))
  obtain ts where ts: "kern_pctcpu_update K td True s = Some (upd_sched td (\<lambda>_. ts) s)" "sched_same (k_sched s td) ts"
    using kern_pctcpu_update_Some [OF assms(1,3)] by blast
  define s1 where "s1 = upd_sched td (ts_rltick_update (\<lambda>_. k_ticks s)) (upd_sched td (\<lambda>_. ts) s)"
  define s2 where "s2 = upd_thread td (td_owepreempt_update (\<lambda>_. False))
    (clear_td_flags td {TDF_NEEDRESCHED, TDF_SLICEEND} (upd_thread td (\<lambda>t. t\<lparr>td_lastcpu := td_oncpu t, td_oncpu := None\<rparr>) s1))"
  define s3 where "s3 = upd_tdq self (tdq_switchcnt_update (\<lambda>n. n + 1)) s2"
  define pre where "pre \<longleftrightarrow> TDF_SLICEEND \<notin> td_flags (k_threads s td) \<and> SW_PREEMPT \<in> flags"
  define fl where "fl = {SRQ_OURSELF, SRQ_YIELDING} \<union> (if pre then {SRQ_PREEMPTED} else {})"
  define s4 where "s4 = kern_runq_add K self td fl s3"
  have k12: "queues_kept s s1" "queues_kept s1 s2" "queues_kept s2 s3"
  proof -
    have "queues_kept s (upd_sched td (\<lambda>_. ts) s)"
      by (rule queues_kept_upd_sched) (use ts(2) in \<open>simp_all add: sched_same_def\<close>)
    moreover have "queues_kept (upd_sched td (\<lambda>_. ts) s) s1"
      unfolding s1_def by (rule queues_kept_upd_sched) (simp_all add: sched_same_def)
    ultimately show "queues_kept s s1" by (rule queues_kept_trans)
    have u: "queues_kept a (upd_thread td f a)" if "\<And>t. thread_same t (f t)" for f and a :: "'a ksys"
      using that by (intro queues_kept_upd_thread)
    show "queues_kept s1 s2"
      unfolding s2_def clear_td_flags_def
      by (rule queues_kept_trans [OF queues_kept_trans [OF u u] u]) (simp_all add: thread_same_def)
    show "queues_kept s2 s3" unfolding s3_def
      by (rule queues_kept_upd_tdq) (simp add: same_queues_def tdq_rq_def split: rq_name.splits)
  qed
  then have k: "queues_kept s s3" using queues_kept_trans by blast
  note inv3 = queues_kept_inv [OF assms(2) k] and q3 = queues_kept_queued [OF k]
  have out3: "\<not> on_some_queue s3 td" using out q3 by (simp add: on_some_queue_def)
  have f3: "ts_cpu (k_sched s3 td) = self" "td_state (k_threads s3 td) = TDS_RUNNING"
    "td_cpuset (k_threads s3 td) = td_cpuset (k_threads s td)" "TDF_IDLETD \<notin> td_flags (k_threads s3 td)"
    "\<And>c. tdq_load (k_tdq s3 c) = tdq_load (k_tdq s c)" "same_rest s s3"
    using assms(4-6) ts(2) by (simp_all add: s3_def s2_def s1_def clear_td_flags_def sched_same_def same_rest_def
        upd_sched_def upd_thread_def upd_tdq_def)
  note a = kern_runq_add_effect [OF E inv3 out3 f3(1) s4_def]
  obtain newtd s5 where c: "kern_sched_choose K self s4 = (newtd, s5)" by fastforce
  note ch = kern_sched_choose_effect [OF E a(1) c]
  have new: "newtd \<in> queued s4 self" "queued s5 = (queued s4)(self := queued s4 self - {newtd})" "\<not> on_some_queue s5 newtd"
    using ch(6) a(2) by auto
  define s' where "s' = upd_thread newtd (td_state_update (\<lambda>_. TDS_RUNNING)) s5"
  have k': "queues_kept s5 s'" unfolding s'_def by (rule queues_kept_upd_thread) (use new(3) in simp)
  have "\<not> k_panicstr s5" using assms(8) same_restD(9) [OF ch(2)] same_restD(9) [OF a(7)] same_restD(9) [OF f3(6)] by simp
  then have cho: "choosethread K self s4 = Some (newtd, s')" by (simp add: choosethread_def c s'_def)
  have idle2: "TDF_IDLETD \<notin> td_flags (k_threads s2 td)"
    using assms(5) by (simp add: s2_def s1_def clear_td_flags_def)
  have requeue: "switch_requeue K self td pre s3 = Some s4"
    using f3 assms(7) by (simp add: switch_requeue_def s4_def fl_def Let_def)
  have ticks: "k_ticks (upd_sched td h s) = k_ticks s" for h by (simp add: upd_sched_def)
  have res: "sched_switch_out K self td flags s = Some (newtd, s')"
    using requeue cho idle2 assms(5)
    by (simp add: sched_switch_out_def ts(1) Let_def s1_def s2_def s3_def pre_def ticks)
  have "queued s' = (queued s)(self := insert td (queued s self) - {newtd})"
    using queues_kept_queued [OF k'] new(2) a(2) q3 by simp
  moreover have "newtd \<in> insert td (queued s self)" using new(1) a(2) q3 by simp
  moreover have "tdq_load (k_tdq s' c) = tdq_load (k_tdq s c)" for c
    using ch(4) a(4,6) f3(5) by (cases "c = self") (simp_all add: s'_def)
  moreover have "newtd \<noteq> td \<longrightarrow> td_state (k_threads s' td) = TDS_RUNQ"
    using ch(3) a(8) by (simp add: s'_def)
  moreover have "td_state (k_threads s' newtd) = TDS_RUNNING" by (simp add: s'_def)
  ultimately show ?thesis using res queues_kept_inv [OF ch(1) k'] by blast
qed

lemma kenv_ok0: "kenv_ok kenv0"
  by (simp add: kenv_ok_def rqenv_ok_amd64 pri_env_ok_freebsd conf0_def)

lemma window_ok2: "window_ok kenv0 (upd_thread t f ksys2) td" "window_ok kenv0 ksys2 td"
  by (simp_all add: window_ok_def ksys2_sched(2) conf0_def sched_consts del: of_nat_less_iff)

theorem sched_switch_keeps_threads_witness:
  "\<exists>newtd s'. sched_switch_out kenv0 0 200 {SW_VOL} (upd_thread 200 (td_state_update (\<lambda>_. TDS_RUNNING)) ksys2) =
     Some (newtd, s') \<and> newtd \<in> {130, 160, 200} \<and> queued s' 0 = {130, 160, 200} - {newtd}"
proof -
  let ?s = "upd_thread 200 (td_state_update (\<lambda>_. TDS_RUNNING)) ksys2"
  have k: "queues_kept ksys2 ?s"
    by (rule queues_kept_upd_thread) (simp add: on_some_queue_def ksys2(2) split: if_splits)
  have q: "queued ?s = queued ksys2" by (rule queues_kept_queued [OF k])
  have "\<not> k_panicstr ?s" "ts_cpu (k_sched ?s 200) = 0"
    by (simp_all add: upd_thread_def) (simp add: ksys2_sched(3))
  with sched_switch_keeps_threads [OF kenv_ok0 queues_kept_inv [OF ksys2(1) k] window_ok2(1), of 200 0 "{SW_VOL}"]
  obtain newtd s' where "sched_switch_out kenv0 0 200 {SW_VOL} ?s = Some (newtd, s')"
    "newtd \<in> insert 200 (queued ?s 0)" "queued s' = (queued ?s)(0 := insert 200 (queued ?s 0) - {newtd})"
    by auto
  then show ?thesis by (intro exI [of _ newtd] exI [of _ s']) (auto simp: q ksys2(2))
qed

end
