(* ===== verification/Idle_Clock_Props.thy ===== *)
theory Idle_Clock_Props
  imports Ule_Sched Kernel_Example
begin

section \<open>Properties of the clock, the idle thread and the quantum\<close>

subsection \<open>The calendar of timeshare threads\<close>

text \<open>
  The thread queue of a processor as a state machine: threads are added, taken off, and the
  clock moves the insert index.
\<close>

inductive tdq_reach :: "('w::len) rqenv \<Rightarrow> pri_env \<Rightarrow> cpuid \<Rightarrow> 'w tdq_state \<Rightarrow> bool"
  for E P c where
  tdq_reach_setup: "tdq_transferable q = 0 \<Longrightarrow> tdq_idx q = 0 \<Longrightarrow> tdq_ridx q = 0 \<Longrightarrow>
    (\<And>td. TSF_XFERABLE \<notin> ts_flags (S td)) \<Longrightarrow> tdq_reach E P c (T, S, tdq_setup E q)"
| tdq_reach_add: "tdq_reach E P c s \<Longrightarrow> td \<notin> tdq_set s \<Longrightarrow> tdq_reach E P c (tdq_runq_add E P c s td flags)"
| tdq_reach_rem: "tdq_reach E P c s \<Longrightarrow> td \<in> tdq_set s \<Longrightarrow> tdq_reach E P c (tdq_runq_rem E s td)"
| tdq_reach_clock: "tdq_reach E P c (T, S, q) \<Longrightarrow> tdq_reach E P c (T, S, clock_calendar E q)"

text \<open>
  The removal index has caught up with the insert index, or is one behind it on a slot that
  still holds threads.
\<close>

definition calendar_ok :: "('w::len) rqenv \<Rightarrow> 'w tdq \<Rightarrow> bool" where
  "calendar_ok E q \<longleftrightarrow> tdq_idx q = tdq_ridx q \<or>
     (unat (tdq_idx q) = (unat (tdq_ridx q) + 1) mod RQ_NQS E \<and>
      rq_queues (tdq_timeshare q) ! unat (tdq_ridx q) \<noteq> [])"

lemma unat_mod_NQS:
  assumes "rqenv_ok E"
  shows "unat (of_nat (n mod RQ_NQS E) :: u8) = n mod RQ_NQS E" "n mod RQ_NQS E < RQ_NQS E"
proof -
  have pos: "0 < RQ_NQS E" using rqenv_prio [OF assms, of 0] by linarith
  show less: "n mod RQ_NQS E < RQ_NQS E" by (rule mod_less_divisor [OF pos])
  then have "n mod RQ_NQS E < 256" using rqenv_NQS_le [OF assms] by linarith
  then show "unat (of_nat (n mod RQ_NQS E) :: u8) = n mod RQ_NQS E" by simp
qed

lemma clock_calendar_ok:
  assumes E: "rqenv_ok E" and inv: "tdq_inv E c (T, S, q)" and cal: "calendar_ok E q"
  shows "tdq_inv E c (T, S, clock_calendar E q)" "tdq_elems (clock_calendar E q) = tdq_elems q"
    "calendar_ok E (clock_calendar E q)"
proof -
  note u = unat_mod_NQS [OF E, of "unat (tdq_idx q) + 1"] unat_mod_NQS [OF E, of "unat (tdq_ridx q) + 1"]
  have rq: "tdq_rq (clock_calendar E q) n = tdq_rq q n" for n
    by (simp add: clock_calendar_def Let_def)
  show elems: "tdq_elems (clock_calendar E q) = tdq_elems q" by (simp add: tdq_elems_def rq)
  have idx: "unat (tdq_idx (clock_calendar E q)) < RQ_NQS E" "unat (tdq_ridx (clock_calendar E q)) < RQ_NQS E"
    using tdq_inv_idx [OF inv] u by (simp_all add: clock_calendar_def Let_def)
  have "tdq_transferable (clock_calendar E q) = tdq_transferable q"
    by (simp add: clock_calendar_def Let_def)
  then show "tdq_inv E c (T, S, clock_calendar E q)"
    using inv idx by (simp add: tdq_inv_def rq tdq_xfer_def elems)
  show "calendar_ok E (clock_calendar E q)"
    using cal u(1) by (auto simp: clock_calendar_def calendar_ok_def Let_def)
qed

lemma add_calendar_ok:
  assumes E: "rqenv_ok E" and inv: "tdq_inv E c (T, S, q)" and cal: "calendar_ok E q"
    and r: "tdq_runq_add E P c (T, S, q) td flags = (T', S', q')"
  shows "calendar_ok E q'"
proof -
  obtain n i rq' where enq: "rq_enqueue E (TD_SET_RUNQ T td) (tdq_rq q n) td i (T', rq')"
    and q': "q' = tdq_set_rq n rq' (q\<lparr>tdq_transferable := tdq_transferable q + of_bool (THREAD_CAN_MIGRATE T td)\<rparr>)"
    using tdq_runq_add_added [of E c T S q td P flags] by (auto simp: r tdq_added_def)
  obtain l where "inserted td (rq_queues (tdq_rq q n) ! i) l" "rq' = rq_link (runq_setbit E (tdq_rq q n) i) i (\<lambda>_. l)"
    using enq by (auto simp: rq_enqueue_def)
  then have "rq_queues rq' = (rq_queues (tdq_rq q n))[i := l]" "l \<noteq> []"
    by (auto simp: rq_link_def runq_setbit_def dest: inserted_not_Nil)
  then have "rq_queues (tdq_timeshare q') ! j \<noteq> []" if "rq_queues (tdq_timeshare q) ! j \<noteq> []" for j
    using that by (cases n; cases "j = i"; cases "i < length (rq_queues (tdq_timeshare q))")
      (simp_all add: q' tdq_set_rq_def list_update_beyond)
  then show ?thesis using cal by (auto simp: calendar_ok_def q')
qed

lemma tdq_runq_rem_fields:
  fixes E :: "('w::len) rqenv"
  defines "q1 \<equiv> \<lambda>x S td. if TSF_XFERABLE \<in> ts_flags (S td)
    then x\<lparr>tdq_transferable := tdq_transferable x - 1\<rparr> else (x :: 'w tdq)"
  shows "ts_runq (S td) = Some (c, RQ_TIMESHARE) \<Longrightarrow> tdq_idx q = tdq_ridx q \<Longrightarrow>
      snd (snd (tdq_runq_rem E (T, S, q) td)) =
        (q1 q S td)\<lparr>tdq_timeshare := fst (runq_remove_idx E T (tdq_timeshare q) td None)\<rparr>"
    and "ts_runq (S td) = Some (c, RQ_TIMESHARE) \<Longrightarrow> tdq_idx q \<noteq> tdq_ridx q \<Longrightarrow>
      runq_remove_idx E T (tdq_timeshare q) td (Some (tdq_ridx q)) = (x, z) \<Longrightarrow>
      snd (snd (tdq_runq_rem E (T, S, q) td)) =
        (q1 q S td)\<lparr>tdq_timeshare := x, tdq_ridx := (case z of None \<Rightarrow> tdq_ridx q | Some i \<Rightarrow> i)\<rparr>"
    and "ts_runq (S td) = Some (c, RQ_REALTIME) \<Longrightarrow>
      snd (snd (tdq_runq_rem E (T, S, q) td)) =
        (q1 q S td)\<lparr>tdq_realtime := runq_remove E T (tdq_realtime q) td\<rparr>"
    and "ts_runq (S td) = Some (c, RQ_IDLE) \<Longrightarrow>
      snd (snd (tdq_runq_rem E (T, S, q) td)) = (q1 q S td)\<lparr>tdq_idle := runq_remove E T (tdq_idle q) td\<rparr>"
  unfolding q1_def
  by (simp_all add: tdq_runq_rem_def Let_def split_def split: option.split)

lemma rem_calendar_ok:
  assumes E: "rqenv_ok E" and inv: "tdq_inv E c (T, S, q)" and cal: "calendar_ok E q"
    and td: "td \<in> tdq_elems q" and r: "tdq_runq_rem E (T, S, q) td = (T', S', q')"
  shows "calendar_ok E q'"
proof -
  obtain n where n: "ts_runq (S td) = Some (c, n)" "td \<in> rq_elems (tdq_rq q n)"
    using tdq_inv_elems [OF inv td] by blast
  show ?thesis
  proof (cases "n = RQ_TIMESHARE")
    case False
    then have "tdq_timeshare q' = tdq_timeshare q \<and> tdq_idx q' = tdq_idx q \<and> tdq_ridx q' = tdq_ridx q"
      using tdq_runq_rem_fields(3,4) [of S td c E T q, unfolded r snd_conv] n(1)
      by (cases n) (simp_all split: if_splits)
    then show ?thesis using cal by (simp add: calendar_ok_def)
  next
    case True
    let ?rq = "tdq_timeshare q" and ?i = "td_rqindex (T td)"
    have i: "unat ?i < length (rq_queues ?rq)"
      using rq_elems_queue(1) [OF tdq_inv_rq [OF inv] n(2)] rq_inv_length [OF tdq_inv_rq [OF inv, of RQ_TIMESHARE]]
      by (simp add: True)
    have q: "rq_queues (fst (runq_remove_idx E T ?rq td x)) = (rq_queues ?rq)[unat ?i := remove1 td (rq_queues ?rq ! unat ?i)]" for x
      by (simp add: runq_remove_eq frame_simps)
    obtain x z where y: "runq_remove_idx E T ?rq td (Some (tdq_ridx q)) = (x, z)" by fastforce
    note qs = q [of None] q [of "Some (tdq_ridx q)", unfolded y fst_conv]
    define q1 where "q1 = (if TSF_XFERABLE \<in> ts_flags (S td)
      then q\<lparr>tdq_transferable := tdq_transferable q - 1\<rparr> else q)"
    have q1: "tdq_idx q1 = tdq_idx q" "tdq_ridx q1 = tdq_ridx q" "tdq_timeshare q1 = ?rq"
      by (simp_all add: q1_def)
    have q': "q' = (if tdq_idx q = tdq_ridx q then q1\<lparr>tdq_timeshare := fst (runq_remove_idx E T ?rq td None)\<rparr>
      else q1\<lparr>tdq_timeshare := x, tdq_ridx := (case z of None \<Rightarrow> tdq_ridx q | Some i \<Rightarrow> i)\<rparr>)"
      using tdq_runq_rem_fields(1) [of S td c q E T, OF n(1) [unfolded True]]
        tdq_runq_rem_fields(2) [of S td c q E T x z, OF n(1) [unfolded True] _ y] unfolding r snd_conv q1_def by metis
    have idx: "tdq_idx q' = tdq_idx q" and same: "tdq_idx q = tdq_ridx q \<Longrightarrow> tdq_ridx q' = tdq_ridx q"
      and ts: "rq_queues (tdq_timeshare q') = (rq_queues ?rq)[unat ?i := remove1 td (rq_queues ?rq ! unat ?i)]"
      and ridx: "tdq_idx q \<noteq> tdq_ridx q \<Longrightarrow> tdq_ridx q' = (case z of None \<Rightarrow> tdq_ridx q | Some i \<Rightarrow> i)"
      by (simp_all add: q' q1 qs)
    show ?thesis
    proof (cases "tdq_idx q = tdq_ridx q")
      case True
      then show ?thesis using idx same by (simp add: calendar_ok_def)
    next
      case False
      with cal have c: "unat (tdq_idx q) = (unat (tdq_ridx q) + 1) mod RQ_NQS E"
        "rq_queues ?rq ! unat (tdq_ridx q) \<noteq> []" by (simp_all add: calendar_ok_def)
      have e: "tdq_ridx q' = (if remove1 td (rq_queues ?rq ! unat ?i) = [] \<and> tdq_ridx q = ?i
          then of_nat ((unat ?i + 1) mod RQ_NQS E) else tdq_ridx q)"
        using ridx [OF False] i y by (auto simp: runq_remove_idx_def rq_link_def Let_def split: if_splits)
      show ?thesis
      proof (cases "remove1 td (rq_queues ?rq ! unat ?i) = [] \<and> tdq_ridx q = ?i")
        case True
        then have "tdq_ridx q' = tdq_idx q"
          using e c(1) unat_mod_NQS(1) [OF E, of "unat ?i + 1"] by (simp add: word_unat_eq_iff)
        then show ?thesis by (simp add: calendar_ok_def idx)
      next
        case False
        then have r': "tdq_ridx q' = tdq_ridx q" unfolding e by (rule if_not_P)
        have "rq_queues (tdq_timeshare q') ! unat (tdq_ridx q) \<noteq> []"
          using c(2) False i by (cases "tdq_ridx q = ?i") (auto simp: ts word_unat_eq_iff)
        then show ?thesis using c(1) by (simp add: calendar_ok_def idx r')
      qed
    qed
  qed
qed

text \<open>
  C22. The calendar of timeshare threads never falls behind. In every state of a thread queue that
  additions, removals and clock ticks can reach, the queue's invariant holds, and the removal
  index equals the insert index or is the slot just before it with threads still waiting there:
  it never rests on an empty slot while the insert index has moved on, so the threads of the
  current slot are served before those of the next.
\<close>

theorem tdq_reach_calendar:
  assumes "rqenv_ok E" and "tdq_reach E P c s"
  shows "tdq_ok E c s \<and> calendar_ok E (snd (snd s))"
  using assms(2)
proof (induction rule: tdq_reach.induct)
  case (tdq_reach_setup q S T)
  have rq: "tdq_rq (tdq_setup E q) n = runq_init E" for n by (cases n) (simp_all add: tdq_setup_def)
  have e: "tdq_elems (tdq_setup E q) = {}" by (simp add: tdq_elems_def rq rq_elems_init)
  have f: "tdq_transferable (tdq_setup E q) = 0" "tdq_idx (tdq_setup E q) = 0" "tdq_ridx (tdq_setup E q) = 0"
    using tdq_reach_setup by (simp_all add: tdq_setup_def)
  have pos: "0 < RQ_NQS E" using rqenv_prio [OF assms(1), of 0] by linarith
  show ?case
    using tdq_reach_setup(4) e f pos
    by (simp add: tdq_ok_def tdq_inv_def rq rq_inv_init [OF assms(1)] rq_elems_init tdq_xfer_def calendar_ok_def)
next
  case (tdq_reach_add s td flags)
  obtain T S q where s: "s = (T, S, q)" by (cases s)
  obtain T' S' q' where r: "tdq_runq_add E P c (T, S, q) td flags = (T', S', q')"
    by (cases "tdq_runq_add E P c (T, S, q) td flags")
  have inv: "tdq_inv E c (T, S, q)" using tdq_reach_add.IH by (simp add: s tdq_ok_def)
  show ?case
    using tdq_runq_add_ok [OF assms(1), of c s td P flags] add_calendar_ok [OF assms(1) inv _ r] tdq_reach_add
    by (simp add: s r)
next
  case (tdq_reach_rem s td)
  obtain T S q where s: "s = (T, S, q)" by (cases s)
  obtain T' S' q' where r: "tdq_runq_rem E (T, S, q) td = (T', S', q')"
    by (cases "tdq_runq_rem E (T, S, q) td")
  have inv: "tdq_inv E c (T, S, q)" using tdq_reach_rem.IH by (simp add: s tdq_ok_def)
  show ?case
    using tdq_runq_rem_ok [OF assms(1), of c s td] rem_calendar_ok [OF assms(1) inv _ _ r] tdq_reach_rem
    by (simp add: s r)
next
  case (tdq_reach_clock T S q)
  then show ?case
    using clock_calendar_ok [OF assms(1), of c T S q] by (auto simp: tdq_ok_def)
qed

theorem tdq_reach_calendar_witness:
  "calendar_ok amd64_env (snd (snd (tdq_runq_add amd64_env freebsd_pri 0
     (threads0, \<lambda>_. td_sched0, clock_calendar amd64_env (tdq_setup amd64_env (tdq0\<lparr>tdq_idx := 0\<rparr>))) 160 {})))"
proof -
  let ?q = "tdq_setup amd64_env (tdq0\<lparr>tdq_idx := 0\<rparr>)"
  have "tdq_reach amd64_env freebsd_pri 0 (threads0, \<lambda>_. td_sched0, ?q)"
    by (rule tdq_reach_setup) (simp_all add: td_sched0_def)
  then have c: "tdq_reach amd64_env freebsd_pri 0 (threads0, \<lambda>_. td_sched0, clock_calendar amd64_env ?q)"
    by (rule tdq_reach_clock)
  have "tdq_rq (clock_calendar amd64_env ?q) n = runq_init amd64_env" for n
    by (cases n) (simp_all add: tdq_setup_def clock_calendar_def Let_def)
  then have "tdq_elems (clock_calendar amd64_env ?q) = {}" by (simp add: tdq_elems_def rq_elems_init)
  then have "160 \<notin> tdq_set (threads0, \<lambda>_. td_sched0, clock_calendar amd64_env ?q)" by simp
  from tdq_reach_calendar [OF rqenv_ok_amd64 tdq_reach_add [OF c this]] show ?thesis by blast
qed

subsection \<open>The idle thread\<close>

lemma idle_spin_flag:
  assumes "\<And>n s. tdq_cpu_idle (k_tdq (ke_others K n s) self) = tdq_cpu_idle (k_tdq s self)"
  shows "idle_spin (K\<lparr>ke_cpu_idle := f\<rparr>) self n s = idle_spin K self n s"
  by (induction n arbitrary: s) (simp_all add: others_run_def)

text \<open>
  The idle thread never waits while there is work: the idle handler of the machine is only
  entered with an empty thread queue and with \<^verbatim>\<open>tdq_cpu_idle\<close> set, the order that lets
  \<open>tdq_notify\<close> skip the interrupt. Two handlers that agree on such states give the same run,
  whatever the other processors do in between to everything but that flag.
\<close>

theorem idle_handler_only_without_load:
  assumes "\<And>n s. tdq_cpu_idle (k_tdq (ke_others K n s) self) = tdq_cpu_idle (k_tdq s self)"
    and "\<And>s b. tdq_load (k_tdq s self) = 0 \<Longrightarrow> tdq_cpu_idle (k_tdq s self) \<Longrightarrow> f self b s = ke_cpu_idle K self b s"
  shows "idletd_wait (K\<lparr>ke_cpu_idle := f\<rparr>) self oldcnt s = idletd_wait K self oldcnt s"
proof -
  note spin = idle_spin_flag [OF assms(1), where f = f]
  have run: "others_run (K\<lparr>ke_cpu_idle := f\<rparr>) a = others_run K a" for a by (simp add: others_run_def)
  have conf: "ke_conf (K\<lparr>ke_cpu_idle := f\<rparr>) = ke_conf K" "ke_cpu_idle (K\<lparr>ke_cpu_idle := f\<rparr>) = f" by simp_all
  have flag: "tdq_cpu_idle (k_tdq (others_run K (upd_tdq self (tdq_cpu_idle_update (\<lambda>_. True)) a)) self)" for a
    by (simp add: others_run_def assms(1))
  have same: "f self b (others_run K (upd_tdq self (tdq_cpu_idle_update (\<lambda>_. True)) a)) =
      ke_cpu_idle K self b (others_run K (upd_tdq self (tdq_cpu_idle_update (\<lambda>_. True)) a))"
    if "tdq_load (k_tdq (others_run K (upd_tdq self (tdq_cpu_idle_update (\<lambda>_. True)) a)) self) = 0" for a b
    using assms(2) [OF that flag] .
  show ?thesis
    unfolding idletd_wait_def Let_def run spin conf
    by (intro if_cong refl) (simp_all only: same not_not)
qed

theorem idle_handler_only_without_load_witness:
  "idletd_wait (kenv0\<lparr>ke_cpu_idle := \<lambda>c b s. if tdq_load (k_tdq s c) = 0 then s else undefined\<rparr>) 1 0 ksys2 =
   idletd_wait kenv0 1 0 ksys2"
  by (rule idle_handler_only_without_load) (simp_all, simp add: kenv0_def)

subsection \<open>The quantum\<close>

text \<open>
  Writing and reading the quantum agree to half a period. For a clock of up to one million
  ticks a second, \<open>sysctl_kern_quantum\<close> accepts every positive value and rejects the others
  without a change; a multiple of the period is read back exactly, any other value as a quantum
  at most half a period away or the smallest one, and the slice is never zero.
\<close>

theorem sysctl_kern_quantum_roundtrip:
  assumes "0 < realstathz C" and "realstathz C \<le> 1000000"
  shows "case sysctl_kern_quantum einval (\<lambda>_. (0, v)) True C of
      None \<Rightarrow> False
    | Some (e, C') \<Rightarrow>
        (if v \<le> 0 then e = einval \<and> C' = C
         else e = 0 \<and> 1 \<le> sched_slice C' \<and> 0 \<le> sched_slice_min C' \<and> sched_slice_min C' \<le> sched_slice C' \<and>
           (let period = 1000000 div realstathz C; r = period * sched_slice C'
            in (period dvd v \<longrightarrow> r = v) \<and> (2 * \<bar>r - v\<bar> \<le> period \<or> (sched_slice C' = 1 \<and> v < period))))"
proof -
  define p where "p = 1000000 div realstathz C"
  have p: "1 \<le> p" unfolding p_def using assms by (simp add: pos_imp_zdiv_pos_iff int_one_le_iff_zero_less)
  have sd: "1000000 sdiv realstathz C = p" using assms by (simp add: p_def signed_divide_int_def sgn_if)
  have half: "p sdiv 2 = p div 2" using p by (simp add: signed_divide_int_def sgn_if)
  show ?thesis
  proof (cases "v \<le> 0")
    case True
    then show ?thesis using assms by (simp add: sysctl_kern_quantum_def)
  next
    case False
    define k where "k = (v + p div 2) div p"
    have kd: "(v + p sdiv 2) sdiv p = k" using p False by (simp add: k_def half signed_divide_int_def sgn_if)
    define n where "n = max 1 k"
    have m: "n sdiv 6 = n div 6" by (simp add: n_def signed_divide_int_def sgn_if)
    have b: "p * k \<le> v + p div 2" "v + p div 2 < p * k + p"
      unfolding k_def using p mult_div_mod_eq [of p "v + p div 2"] pos_mod_bound [of p "v + p div 2"]
        pos_mod_sign [of p "v + p div 2"] by linarith+
    have close: "2 * \<bar>p * n - v\<bar> \<le> p \<or> (n = 1 \<and> v < p)"
    proof (cases "1 \<le> k")
      case True
      then have "n = k" by (simp add: n_def)
      moreover have "2 * (p div 2) \<le> p" "p \<le> 2 * (p div 2) + 1" by presburger+
      then have "2 * \<bar>p * k - v\<bar> \<le> p" using b unfolding abs_if by (cases "p * k - v < 0") simp_all
      ultimately show ?thesis by simp
    next
      case False
      then have "k \<le> 0" by simp
      then have "p * k \<le> 0" "n = 1" using p by (simp_all add: n_def mult_nonneg_nonpos)
      moreover have "0 \<le> p div 2" using p by simp
      ultimately show ?thesis using b(2) by linarith
    qed
    have exact: "p * n = v" if d: "p dvd v"
    proof -
      obtain j where j: "v = p * j" using d by auto
      have "1 \<le> j" using False p j by (smt (verit) mult_nonneg_nonpos)
      have "k = j" unfolding k_def j using p by (simp add: div_pos_pos_trivial)
      with \<open>1 \<le> j\<close> show ?thesis by (simp add: n_def j)
    qed
    have "sysctl_kern_quantum einval (\<lambda>_. (0, v)) True C =
        Some (0, C\<lparr>sched_slice := n, sched_slice_min := n div 6,
          hogticks := max 1 ((2 * hz C * n + realstathz C sdiv 2) sdiv realstathz C)\<rparr>)"
      using False assms p by (simp add: sysctl_kern_quantum_def Let_def sd kd n_def [symmetric] m sched_consts)
    moreover have "1 \<le> n" "0 \<le> n div 6" "n div 6 \<le> n" by (auto simp: n_def)
    ultimately show ?thesis using False close exact by (simp add: Let_def p_def [symmetric])
  qed
qed

theorem sysctl_kern_quantum_roundtrip_witness:
  "\<exists>C'. sysctl_kern_quantum 22 (\<lambda>_. (0, 94488)) True conf0 = Some (0, C') \<and> 7874 * sched_slice C' = 94488"
proof -
  have "0 < realstathz conf0" "realstathz conf0 \<le> 1000000" by (simp_all add: conf0_def)
  from sysctl_kern_quantum_roundtrip [OF this, where einval = 22 and v = 94488] show ?thesis
    by (auto simp: conf0_def Let_def split: option.splits)
qed

end
