(* ===== verification/Pageout.thy ===== *)
theory Pageout
  imports Ule_Sched
begin

section \<open>The page daemon: pages, queues and its environment\<close>

text \<open>
  The state the page daemon (\<^verbatim>\<open>misc-code/vm_pageout.c\<close>) works on. Pages, objects, vnodes and mounts
  are shared by pointer, so a pointer is a number and the fields the code reads or writes live in a
  store; a tail queue of pages is the list of its pages, the placeholder pages included. The state
  of the scheduler and of the processes (\<open>v_k\<close>) is the one of \<open>Kernel\<close>, because the
  daemon reads the states of threads and calls \<open>sched_nice\<close>.

  What \<^verbatim>\<open>vm_page.h\<close>, \<^verbatim>\<open>vm_pagequeue.h\<close>, \<^verbatim>\<open>vm_object.h\<close>, the pager, the pmap layer and the vnode
  layer provide is not in the repository and is a field of the environment \<^verbatim>\<open>venv\<close>. A field that
  takes a lock returns the state in which the lock is held: what other threads did while the daemon
  waited for it is part of it. Releasing a lock changes nothing the model sees. \<^verbatim>\<open>KASSERT\<close>,
  probes and event tracing are left out. A result \<open>None\<close> means that the code divides by
  zero, panics or does not return.
\<close>

subsection \<open>Data\<close>

type_synonym pgid = nat
type_synonym objid = nat
type_synonym vnid = nat
type_synonym domid = nat

datatype pqueue = PQ_INACTIVE | PQ_ACTIVE | PQ_LAUNDRY | PQ_UNSWAPPABLE

datatype pga_flag = PGA_WRITEABLE | PGA_REFERENCED | PGA_ENQUEUED | PGA_REQUEUE | PGA_REQUEUE_HEAD | PGA_DEQUEUE

datatype objtype = OBJT_DEFAULT | OBJT_SWAP | OBJT_VNODE | OBJT_PHYS | OBJT_OTHER

datatype pager_status =
  VM_PAGER_OK | VM_PAGER_BAD | VM_PAGER_FAIL | VM_PAGER_PEND | VM_PAGER_ERROR | VM_PAGER_AGAIN

datatype laundry_request = VM_LAUNDRY_IDLE | VM_LAUNDRY_BACKGROUND | VM_LAUNDRY_SHORTFALL

datatype vm_error = EDEADLK | ENOENT | ENXIO | EBUSY | EIO

text \<open>\<^verbatim>\<open>pg_marker\<close> is the flag \<^verbatim>\<open>PG_MARKER\<close>; the queue \<open>None\<close> is \<^verbatim>\<open>PQ_NONE\<close>.\<close>

record vm_page =
  pg_marker :: bool
  pg_aflags :: "pga_flag set"
  pg_queue :: "pqueue option"
  pg_object :: objid
  pg_pindex :: nat
  pg_hold_count :: int
  pg_wire_count :: int
  pg_valid :: nat
  pg_dirty :: nat
  pg_act_count :: u8

record vm_object =
  ob_type :: objtype
  ob_ref_count :: int
  ob_dead :: bool
  ob_size :: nat
  ob_resident_page_count :: int
  ob_handle :: vnid

record vm_pagequeue =
  pq_pl :: "pgid list"
  pq_cnt :: int
  pq_pdpages :: int

record vm_domain =
  vmd_pagequeues :: "pqueue \<Rightarrow> vm_pagequeue"
  vmd_markers :: "pqueue \<Rightarrow> pgid"
  vmd_clock0 :: pgid
  vmd_clock1 :: pgid
  vmd_inacthead :: pgid
  vmd_empty :: bool
  vmd_page_count :: u32
  vmd_free_count :: u32
  vmd_interrupt_free_min :: u32
  vmd_free_min :: u32
  vmd_pageout_free_min :: u32
  vmd_free_reserved :: u32
  vmd_free_severe :: u32
  vmd_free_target :: u32
  vmd_inactive_target :: u32
  vmd_pageout_wakeup_thresh :: u32
  vmd_background_launder_target :: u32
  vmd_pageout_deficit :: u32
  vmd_clean_pages_freed :: u32
  vmd_laundry_request :: laundry_request
  vmd_pageout_wanted :: int
  vmd_last_active_scan :: int
  vmd_oom :: bool
  vmd_oom_seq :: int

text \<open>What the out-of-memory killer reads of a process and of its address space.\<close>

record vm_map_entry =
  me_sub_map :: bool
  me_needs_copy :: bool
  me_object :: "objid option"

record vm_proc =
  vp_normal :: bool
  vp_killed :: bool
  vp_pid :: int

record vm_counters =
  v_page_count :: u32
  v_free_reserved :: u32
  v_free_target :: u32
  v_free_min :: u32
  v_inactive_target :: u32
  v_pageout_free_min :: u32
  v_interrupt_free_min :: u32
  v_free_severe :: u32
  v_reactivated :: int
  v_dfree :: int
  v_pdshortfalls :: int
  v_pdwakeups :: int

record (overloaded) ('w::len) vm =
  v_pages :: "pgid \<Rightarrow> vm_page"
  v_objects :: "objid \<Rightarrow> vm_object"
  v_domains :: "domid \<Rightarrow> vm_domain"
  v_cnt :: vm_counters
  v_proc :: "Threads.pid \<Rightarrow> vm_proc"
  v_allproc :: "Threads.pid list"
  v_k :: "'w ksys"
  v_ticks :: int
  v_pageout_oom_seq :: int
  v_pageout_update_period :: int
  v_disable_swap_pageouts :: bool
  v_lowmem_period :: int
  v_lowmem_ticks :: int
  v_swapdev_enabled :: bool
  v_panic_on_oom :: bool
  v_pageout_lock_miss :: int
  v_act_scan_laundry_weight :: int
  v_background_launder_rate :: u32
  v_background_launder_max :: u32
  v_pageout_page_count :: nat
  v_page_max_wired :: int
  v_pageout_oom_vote :: int

subsection \<open>The environment\<close>

text \<open>The operations on one page that the rest of the kernel provides.\<close>

datatype page_op =
    vm_page_requeue | vm_page_dequeue_deferred | vm_page_activate | vm_page_deactivate
  | vm_page_deactivate_noreuse | vm_page_launder | vm_page_unswappable | vm_page_free
  | vm_page_test_dirty | vm_page_undirty | vm_page_sbusy | vm_page_sunbusy
  | pmap_remove_all | pmap_remove_write

datatype vm_lock = Page_lock pgid | Object_lock objid | Queue_lock domid pqueue | Pageout_lock domid

datatype kthread = Pageout_worker | Laundry_worker | Uma_reclaim_worker

record (overloaded) ('w::len) venv =
  ve_kenv :: "'w kenv"
  ve_self :: cpuid
  ve_ndomains :: nat
  ve_hz :: int
  ve_PAGE_SIZE :: u32
  ve_MAXBSIZE :: u32
  ve_VM_BATCHQUEUE_SIZE :: nat
  ve_ACT_ADVANCE :: u8
  ve_ACT_DECLINE :: u8
  ve_ACT_MAX :: u8
  ve_PRIO_MIN :: int
  ve_op :: "page_op \<Rightarrow> pgid \<Rightarrow> 'w vm \<Rightarrow> 'w vm"
  ve_lock :: "vm_lock \<Rightarrow> 'w vm \<Rightarrow> 'w vm"
  ve_trywlock :: "objid \<Rightarrow> 'w vm \<Rightarrow> bool \<times> 'w vm"
  ve_bq_insert :: "pgid \<Rightarrow> pgid list \<Rightarrow> bool \<times> pgid list"
  ve_bq_pop :: "pgid list \<Rightarrow> pgid option \<times> pgid list"
  ve_page_queue :: "'w vm \<Rightarrow> pgid \<Rightarrow> pqueue option"
  ve_page_in_laundry :: "'w vm \<Rightarrow> pgid \<Rightarrow> bool"
  ve_page_busied :: "'w vm \<Rightarrow> pgid \<Rightarrow> bool"
  ve_page_held :: "'w vm \<Rightarrow> pgid \<Rightarrow> bool"
  ve_page_prev :: "'w vm \<Rightarrow> pgid \<Rightarrow> pgid option"
  ve_page_next :: "'w vm \<Rightarrow> pgid \<Rightarrow> pgid option"
  ve_page_domain :: "'w vm \<Rightarrow> pgid \<Rightarrow> domid"
  ve_ts_referenced :: "pgid \<Rightarrow> 'w vm \<Rightarrow> int \<times> 'w vm"
  ve_pip_add :: "objid \<Rightarrow> int \<Rightarrow> 'w vm \<Rightarrow> 'w vm"
  ve_pip_wakeup :: "objid \<Rightarrow> 'w vm \<Rightarrow> 'w vm"
  ve_put_pages :: "objid \<Rightarrow> pgid list \<Rightarrow> nat \<Rightarrow> 'w vm \<Rightarrow> pager_status list \<times> 'w vm"
  ve_PUT_NOREUSE :: nat
  ve_v_regular :: "'w vm \<Rightarrow> vnid \<Rightarrow> bool"
  ve_v_object :: "'w vm \<Rightarrow> vnid \<Rightarrow> objid option"
  ve_shared_writes :: "'w vm \<Rightarrow> vnid \<Rightarrow> bool"
  ve_vn_start_write :: "vnid \<Rightarrow> 'w vm \<Rightarrow> bool \<times> nat option \<times> 'w vm"
  ve_vn_finished_write :: "nat \<Rightarrow> 'w vm \<Rightarrow> 'w vm"
  ve_vget :: "vnid \<Rightarrow> bool \<Rightarrow> 'w vm \<Rightarrow> bool \<times> 'w vm"
  ve_vput :: "vnid \<Rightarrow> 'w vm \<Rightarrow> 'w vm"
  ve_object_reference :: "objid \<Rightarrow> 'w vm \<Rightarrow> 'w vm"
  ve_object_deallocate :: "objid \<Rightarrow> 'w vm \<Rightarrow> 'w vm"
  ve_speedup_syncer :: "'w vm \<Rightarrow> 'w vm"
  ve_swapout_run :: "'w vm \<Rightarrow> 'w vm"
  ve_swapout_run_idle :: "'w vm \<Rightarrow> 'w vm"
  ve_nswapdev :: "'w vm \<Rightarrow> int"
  ve_swap_pager_avail :: "'w vm \<Rightarrow> int"
  ve_vmspace :: "'w vm \<Rightarrow> Threads.pid \<Rightarrow> vm_map_entry list option"
  ve_map_trylock_read :: "'w vm \<Rightarrow> Threads.pid \<Rightarrow> bool"
  ve_swap_count :: "'w vm \<Rightarrow> Threads.pid \<Rightarrow> int"
  ve_killproc :: "Threads.pid \<Rightarrow> 'w vm \<Rightarrow> 'w vm"
  ve_vm_lowmem :: "'w vm \<Rightarrow> 'w vm"
  ve_uma_reclaim :: "'w vm \<Rightarrow> 'w vm"
  ve_laundry_target :: "'w vm \<Rightarrow> domid \<Rightarrow> int"
  ve_paging_target :: "'w vm \<Rightarrow> domid \<Rightarrow> int"
  ve_paging_needed :: "'w vm \<Rightarrow> domid \<Rightarrow> u32 \<Rightarrow> bool"
  ve_pidctrl_daemon :: "domid \<Rightarrow> u32 \<Rightarrow> 'w vm \<Rightarrow> int \<times> 'w vm"
  ve_pidctrl_init :: "domid \<Rightarrow> int \<Rightarrow> u32 \<Rightarrow> 'w vm \<Rightarrow> 'w vm"
  ve_pause :: "int \<Rightarrow> 'w vm \<Rightarrow> 'w vm"
  ve_sleep_laundry :: "domid \<Rightarrow> 'w vm \<Rightarrow> 'w vm"
  ve_sleep_wanted :: "domid \<Rightarrow> int \<Rightarrow> 'w vm \<Rightarrow> int \<times> 'w vm"
  ve_wakeup_laundry :: "domid \<Rightarrow> 'w vm \<Rightarrow> 'w vm"
  ve_wakeup_wanted :: "domid \<Rightarrow> 'w vm \<Rightarrow> 'w vm"
  ve_kthread_add :: "kthread \<Rightarrow> domid option \<Rightarrow> 'w vm \<Rightarrow> int \<times> 'w vm"
  ve_swap_pager_init :: "'w vm \<Rightarrow> 'w vm"
  ve_fcmpset :: "int \<Rightarrow> 'w vm \<Rightarrow> bool \<times> int \<times> 'w vm"

subsection \<open>Reading and writing the state\<close>

definition upd_page :: "pgid \<Rightarrow> (vm_page \<Rightarrow> vm_page) \<Rightarrow> ('w::len) vm \<Rightarrow> 'w vm" where
  "upd_page m f s = s\<lparr>v_pages := (v_pages s)(m := f (v_pages s m))\<rparr>"

definition upd_domain :: "domid \<Rightarrow> (vm_domain \<Rightarrow> vm_domain) \<Rightarrow> ('w::len) vm \<Rightarrow> 'w vm" where
  "upd_domain d f s = s\<lparr>v_domains := (v_domains s)(d := f (v_domains s d))\<rparr>"

definition upd_cnt :: "(vm_counters \<Rightarrow> vm_counters) \<Rightarrow> ('w::len) vm \<Rightarrow> 'w vm" where
  "upd_cnt f s = s\<lparr>v_cnt := f (v_cnt s)\<rparr>"

definition the_pq :: "('w::len) vm \<Rightarrow> domid \<Rightarrow> pqueue \<Rightarrow> vm_pagequeue" where
  "the_pq s d q = vmd_pagequeues (v_domains s d) q"

definition upd_pq :: "domid \<Rightarrow> pqueue \<Rightarrow> (vm_pagequeue \<Rightarrow> vm_pagequeue) \<Rightarrow> ('w::len) vm \<Rightarrow> 'w vm" where
  "upd_pq d q f s = upd_domain d (\<lambda>v. v\<lparr>vmd_pagequeues := (vmd_pagequeues v)(q := f (vmd_pagequeues v q))\<rparr>) s"

definition upd_pl :: "domid \<Rightarrow> pqueue \<Rightarrow> (pgid list \<Rightarrow> pgid list) \<Rightarrow> ('w::len) vm \<Rightarrow> 'w vm" where
  "upd_pl d q f s = upd_pq d q (\<lambda>p. p\<lparr>pq_pl := f (pq_pl p)\<rparr>) s"

definition vm_page_aflag_set :: "pgid \<Rightarrow> pga_flag set \<Rightarrow> ('w::len) vm \<Rightarrow> 'w vm" where
  "vm_page_aflag_set m fs s = upd_page m (\<lambda>p. p\<lparr>pg_aflags := pg_aflags p \<union> fs\<rparr>) s"

definition vm_page_aflag_clear :: "pgid \<Rightarrow> pga_flag set \<Rightarrow> ('w::len) vm \<Rightarrow> 'w vm" where
  "vm_page_aflag_clear m fs s = upd_page m (\<lambda>p. p\<lparr>pg_aflags := pg_aflags p - fs\<rparr>) s"

text \<open>The C conversion of an unsigned result to \<^verbatim>\<open>int\<close>.\<close>

definition to_int :: "u32 \<Rightarrow> int" where
  "to_int x = sint x"

lemma vm_upd_simps [simp]:
  "v_pages (upd_page m f s) = (v_pages s)(m := f (v_pages s m))"
  "v_objects (upd_page m f s) = v_objects s" "v_domains (upd_page m f s) = v_domains s"
  "v_pages (upd_domain d g s) = v_pages s" "v_objects (upd_domain d g s) = v_objects s"
  "v_domains (upd_domain d g s) = (v_domains s)(d := g (v_domains s d))"
  "v_pages (upd_cnt h s) = v_pages s" "v_objects (upd_cnt h s) = v_objects s"
  "v_domains (upd_cnt h s) = v_domains s" "v_cnt (upd_cnt h s) = h (v_cnt s)"
  by (simp_all add: upd_page_def upd_domain_def upd_cnt_def)

lemma upd_rest [simp]:
  "v_k (upd_page m f s) = v_k s" "v_k (upd_domain d g s) = v_k s" "v_k (upd_cnt h s) = v_k s"
  "v_proc (upd_domain d g s) = v_proc s" "v_cnt (upd_domain d g s) = v_cnt s"
  "v_pageout_oom_vote (upd_domain d g s) = v_pageout_oom_vote s"
  "v_pageout_oom_seq (upd_domain d g s) = v_pageout_oom_seq s"
  "v_pageout_page_count (upd_domain d g s) = v_pageout_page_count s"
  by (simp_all add: upd_page_def upd_domain_def upd_cnt_def)

lemma the_pq_simps [simp]:
  "the_pq (upd_page m f s) d q = the_pq s d q" "the_pq (upd_cnt h s) d q = the_pq s d q"
  "the_pq (upd_pq d' q' g s) d q = (if d = d' \<and> q = q' then g (the_pq s d q) else the_pq s d q)"
  "pq_pl (the_pq (upd_pl d' q' k s) d q) = (if d = d' \<and> q = q' then k (pq_pl (the_pq s d q)) else pq_pl (the_pq s d q))"
  "pq_cnt (the_pq (upd_pl d' q' k s) d q) = pq_cnt (the_pq s d q)"
  "pq_pdpages (the_pq (upd_pl d' q' k s) d q) = pq_pdpages (the_pq s d q)"
  "v_pages (upd_pq d' q' g s) = v_pages s" "v_pages (upd_pl d' q' k s) = v_pages s"
  "v_objects (upd_pq d' q' g s) = v_objects s" "v_objects (upd_pl d' q' k s) = v_objects s"
  by (auto simp: the_pq_def upd_pq_def upd_pl_def)

subsection \<open>Tail queues with a neighbour\<close>

fun TAILQ_INSERT_AFTER :: "'a list \<Rightarrow> 'a \<Rightarrow> 'a \<Rightarrow> 'a list" where
  "TAILQ_INSERT_AFTER [] a x = []"
| "TAILQ_INSERT_AFTER (y # ys) a x = (if y = a then y # x # ys else y # TAILQ_INSERT_AFTER ys a x)"

fun TAILQ_INSERT_BEFORE :: "'a list \<Rightarrow> 'a \<Rightarrow> 'a \<Rightarrow> 'a list" where
  "TAILQ_INSERT_BEFORE [] a x = []"
| "TAILQ_INSERT_BEFORE (y # ys) a x = (if y = a then x # y # ys else y # TAILQ_INSERT_BEFORE ys a x)"

text \<open>The elements after one: what a walk with \<^verbatim>\<open>TAILQ_NEXT\<close> from it visits.\<close>

fun TAILQ_REST :: "'a list \<Rightarrow> 'a \<Rightarrow> 'a list" where
  "TAILQ_REST [] a = []"
| "TAILQ_REST (y # ys) a = (if y = a then ys else TAILQ_REST ys a)"

lemma TAILQ_split [simp]:
  assumes "a \<notin> set xs"
  shows "TAILQ_INSERT_AFTER (xs @ a # ys) a x = xs @ a # x # ys"
    "TAILQ_INSERT_BEFORE (xs @ a # ys) a x = xs @ x # a # ys"
    "TAILQ_REST (xs @ a # ys) a = ys" "remove1 a (xs @ a # ys) = xs @ ys"
  using assms by (induction xs) auto

end
