(* ===== verification/Pageout_Oom.thy ===== *)
theory Pageout_Oom
  imports Pageout
begin

section \<open>The page daemon: low memory and the out-of-memory killer\<close>

text \<open>
  \<^verbatim>\<open>vm_pageout_mightbe_oom\<close>, \<^verbatim>\<open>vm_pageout_oom_pagecount\<close>, \<^verbatim>\<open>vm_pageout_oom\<close> and \<^verbatim>\<open>vm_pageout_lowmem\<close>
  of \<^verbatim>\<open>misc-code/vm_pageout.c\<close>. The killer walks the list of processes as it stands when it is
  called; the reference counts it takes and drops on processes and address spaces are not modelled.
\<close>

subsection \<open>The size of a process\<close>

definition entry_pages :: "('w::len) vm \<Rightarrow> vm_map_entry \<Rightarrow> int" where
  "entry_pages s e =
     (if me_sub_map e then 0
      else case me_object e of
        None \<Rightarrow> 0
      | Some obj \<Rightarrow>
          (if me_needs_copy e \<and> ob_ref_count (v_objects s obj) \<noteq> 1 then 0
           else if ob_type (v_objects s obj) \<in> {OBJT_DEFAULT, OBJT_SWAP, OBJT_PHYS, OBJT_VNODE}
           then ob_resident_page_count (v_objects s obj) else 0))"

fun oom_pagecount_loop :: "('w::len) vm \<Rightarrow> vm_map_entry list \<Rightarrow> int \<Rightarrow> int" where
  "oom_pagecount_loop s [] res = res"
| "oom_pagecount_loop s (e # es) res = oom_pagecount_loop s es (res + entry_pages s e)"

definition vm_pageout_oom_pagecount :: "('w::len) vm \<Rightarrow> vm_map_entry list \<Rightarrow> int" where
  "vm_pageout_oom_pagecount s es = oom_pagecount_loop s es 0"

subsection \<open>Choosing the victim\<close>

datatype oom_shortage = VM_OOM_MEM | VM_OOM_SWAPZ

abbreviation "TD_IS_SLEEPING T td \<equiv> TDI_SLEEPING \<in> td_inhibitors (T td)"
abbreviation "TD_IS_SWAPPED T td \<equiv> TDI_SWAPPED \<in> td_inhibitors (T td)"

text \<open>System, protected and dying processes are spared, \<^verbatim>\<open>init\<close> too, early ones while there is swap.\<close>

definition oom_protected :: "('w::len) venv \<Rightarrow> 'w vm \<Rightarrow> Threads.pid \<Rightarrow> bool" where
  "oom_protected V s p \<longleftrightarrow>
     \<not> vp_normal (v_proc s p) \<or>
     p_flag (k_procs (v_k s) p) \<inter> {P_INEXEC, P_PROTECTED, P_SYSTEM, P_WEXIT} \<noteq> {} \<or>
     vp_pid (v_proc s p) = 1 \<or> vp_killed (v_proc s p) \<or>
     (vp_pid (v_proc s p) < 48 \<and> ve_swap_pager_avail V s \<noteq> 0)"

definition oom_breakout :: "('w::len) vm \<Rightarrow> Threads.pid \<Rightarrow> bool" where
  "oom_breakout s p \<longleftrightarrow>
     (let T = k_threads (v_k s)
      in \<exists>td\<in>set (p_threads (k_procs (v_k s) p)).
           \<not> TD_ON_RUNQ T td \<and> \<not> TD_IS_RUNNING T td \<and> \<not> TD_IS_SLEEPING T td \<and>
           \<not> TD_IS_SUSPENDED T td \<and> \<not> TD_IS_SWAPPED T td)"

text \<open>The size of a process that may be killed; \<open>None\<close> if the walk skips it.\<close>

definition oom_size :: "('w::len) venv \<Rightarrow> oom_shortage \<Rightarrow> 'w vm \<Rightarrow> Threads.pid \<Rightarrow> int option" where
  "oom_size V shortage s p =
     (if oom_protected V s p \<or> oom_breakout s p then None
      else case ve_vmspace V s p of
        None \<Rightarrow> None
      | Some vm \<Rightarrow>
          (if \<not> ve_map_trylock_read V s p then None
           else Some (ve_swap_count V s p +
             (if shortage = VM_OOM_MEM then vm_pageout_oom_pagecount s vm else 0))))"

fun oom_select ::
  "('w::len) venv \<Rightarrow> oom_shortage \<Rightarrow> 'w vm \<Rightarrow> Threads.pid list \<Rightarrow> Threads.pid option \<Rightarrow> int \<Rightarrow>
   Threads.pid option" where
  "oom_select V shortage s [] bigproc bigsize = bigproc"
| "oom_select V shortage s (p # ps) bigproc bigsize =
     (case oom_size V shortage s p of
        None \<Rightarrow> oom_select V shortage s ps bigproc bigsize
      | Some sz \<Rightarrow>
          (if sz > bigsize then oom_select V shortage s ps (Some p) sz
           else oom_select V shortage s ps bigproc bigsize))"

definition vm_pageout_oom :: "('w::len) venv \<Rightarrow> oom_shortage \<Rightarrow> 'w vm \<Rightarrow> 'w vm option" where
  "vm_pageout_oom V shortage s =
     (case oom_select V shortage s (v_allproc s) None 0 of
        None \<Rightarrow> Some s
      | Some bigproc \<Rightarrow>
          (if v_panic_on_oom s then None
           else do {
             let s = ve_killproc V bigproc s;
             k \<leftarrow> sched_nice (ve_kenv V) (ve_self V) bigproc (ve_PRIO_MIN V) (v_k s);
             Some (s\<lparr>v_k := k\<rparr>)
           }))"

subsection \<open>The vote of the page daemons\<close>

definition oom_count :: "domid \<Rightarrow> int \<Rightarrow> int \<Rightarrow> ('w::len) vm \<Rightarrow> 'w vm" where
  "oom_count d page_shortage starting_page_shortage s =
     upd_domain d (\<lambda>v. v\<lparr>vmd_oom_seq :=
       (if starting_page_shortage \<le> 0 \<or> starting_page_shortage \<noteq> page_shortage then 0
        else vmd_oom_seq v + 1)\<rparr>) s"

text \<open>Setting \<^verbatim>\<open>vmd_oom\<close> and casting a vote, or taking both back.\<close>

definition oom_cast :: "domid \<Rightarrow> bool \<Rightarrow> ('w::len) vm \<Rightarrow> 'w vm" where
  "oom_cast d b s = (upd_domain d (\<lambda>v. v\<lparr>vmd_oom := b\<rparr>) s)
     \<lparr>v_pageout_oom_vote := v_pageout_oom_vote s + (if b then 1 else - 1)\<rparr>"

text \<open>The last daemon to vote runs the killer.\<close>

definition oom_vote :: "('w::len) venv \<Rightarrow> domid \<Rightarrow> 'w vm \<Rightarrow> 'w vm option" where
  "oom_vote V d s =
     (let old_vote = v_pageout_oom_vote s; s = oom_cast d True s
      in if old_vote \<noteq> int (ve_ndomains V) - 1 then Some s
         else do { s \<leftarrow> vm_pageout_oom V VM_OOM_MEM s; Some (oom_cast d False s) })"

definition vm_pageout_mightbe_oom ::
  "('w::len) venv \<Rightarrow> domid \<Rightarrow> int \<Rightarrow> int \<Rightarrow> 'w vm \<Rightarrow> 'w vm option" where
  "vm_pageout_mightbe_oom V d page_shortage starting_page_shortage s =
     (let s = oom_count d page_shortage starting_page_shortage s
      in if vmd_oom_seq (v_domains s d) < v_pageout_oom_seq s
         then Some (if vmd_oom (v_domains s d) then oom_cast d False s else s)
         else let s = upd_domain d (\<lambda>v. v\<lparr>vmd_oom_seq := 0\<rparr>) s
              in if vmd_oom (v_domains s d) then Some s else oom_vote V d s)"

subsection \<open>Draining the caches\<close>

text \<open>\<open>ve_fcmpset last\<close> is \<^verbatim>\<open>atomic_fcmpset_int(&lowmem_ticks, &last, ticks)\<close>.\<close>

partial_function (option) lowmem_loop :: "('w::len) venv \<Rightarrow> int \<Rightarrow> 'w vm \<Rightarrow> (bool \<times> 'w vm) option" where
  "lowmem_loop V lst s =
     (if ve_hz V = 0 then None
      else if (word_of_int (v_ticks s - lst) :: u32) div word_of_int (ve_hz V) \<ge> word_of_int (v_lowmem_period s)
      then (case ve_fcmpset V lst s of
              (ok, lst, s) \<Rightarrow>
                (if \<not> ok then lowmem_loop V lst s
                 else Some (True, ve_uma_reclaim V (ve_vm_lowmem V s))))
      else Some (False, s))"

definition vm_pageout_lowmem :: "('w::len) venv \<Rightarrow> 'w vm \<Rightarrow> (bool \<times> 'w vm) option" where
  "vm_pageout_lowmem V s = lowmem_loop V (v_lowmem_ticks s) s"

end
