(* ===== verification/Pageout_Scan.thy ===== *)
theory Pageout_Scan
  imports Pageout_Oom
begin

section \<open>The page daemon: scans of the page queues\<close>

text \<open>
  The scans of \<^verbatim>\<open>misc-code/vm_pageout.c\<close>: a scan puts a marker page into the queue, takes batches
  of pages behind it while it holds the lock of the queue, and moves the marker past them. The
  page queue \<^verbatim>\<open>pq\<close> is the domain and the name of the queue. A page lock (\<^verbatim>\<open>vm_page_change_lock\<close>)
  is a point where other threads may have run; whether the daemon already holds the lock of the
  next page is not modelled, so they may run at every page.
\<close>

subsection \<open>Batches\<close>

record scan_state =
  ss_bq :: "pgid list"
  ss_dom :: domid
  ss_pq :: pqueue
  ss_marker :: pgid
  ss_maxscan :: int
  ss_scanned :: int

definition vm_pageout_init_scan ::
  "domid \<Rightarrow> pqueue \<Rightarrow> pgid \<Rightarrow> pgid option \<Rightarrow> int \<Rightarrow> ('w::len) vm \<Rightarrow> scan_state \<times> 'w vm" where
  "vm_pageout_init_scan d q marker aft maxscan s =
     (let s = upd_pl d q (\<lambda>l. case aft of None \<Rightarrow> TAILQ_INSERT_HEAD l marker
                                 | Some a \<Rightarrow> TAILQ_INSERT_AFTER l a marker) s;
          s = vm_page_aflag_set marker {PGA_ENQUEUED} s
      in (\<lparr>ss_bq = [], ss_dom = d, ss_pq = q, ss_marker = marker, ss_maxscan = maxscan, ss_scanned = 0\<rparr>, s))"

definition vm_pageout_end_scan :: "scan_state \<Rightarrow> ('w::len) vm \<Rightarrow> 'w vm" where
  "vm_pageout_end_scan ss s =
     (let s = upd_pl (ss_dom ss) (ss_pq ss) (\<lambda>l. TAILQ_REMOVE l (ss_marker ss)) s;
          s = vm_page_aflag_clear (ss_marker ss) {PGA_ENQUEUED} s
      in upd_pq (ss_dom ss) (ss_pq ss) (\<lambda>p. p\<lparr>pq_pdpages := pq_pdpages p + ss_scanned ss\<rparr>) s)"

text \<open>The loop over the pages behind the marker; its first result is the page it stops at.\<close>

fun collect_loop ::
  "('w::len) venv \<Rightarrow> bool \<Rightarrow> pgid list \<Rightarrow> scan_state \<Rightarrow> 'w vm \<Rightarrow> pgid option \<times> scan_state \<times> 'w vm" where
  "collect_loop V dequeue [] ss s = (None, ss, s)"
| "collect_loop V dequeue (m # ms) ss s =
     (if ss_scanned ss < ss_maxscan ss \<and> length (ss_bq ss) < ve_VM_BATCHQUEUE_SIZE V
      then (if pg_marker (v_pages s m) \<and> dequeue
            then collect_loop V dequeue ms (ss\<lparr>ss_scanned := ss_scanned ss + 1\<rparr>) s
            else let ss = ss\<lparr>ss_bq := snd (ve_bq_insert V m (ss_bq ss))\<rparr>;
                     s = (if dequeue
                          then vm_page_aflag_clear m {PGA_ENQUEUED}
                                 (upd_pl (ss_dom ss) (ss_pq ss) (\<lambda>l. TAILQ_REMOVE l m) s)
                          else s)
                 in collect_loop V dequeue ms (ss\<lparr>ss_scanned := ss_scanned ss + 1\<rparr>) s)
      else (Some m, ss, s))"

definition vm_pageout_collect_batch ::
  "('w::len) venv \<Rightarrow> bool \<Rightarrow> scan_state \<Rightarrow> 'w vm \<Rightarrow> scan_state \<times> 'w vm" where
  "vm_pageout_collect_batch V dequeue ss s =
     (let marker = ss_marker ss; d = ss_dom ss; q = ss_pq ss;
          s = ve_lock V (Queue_lock d q) s;
          (m, ss, s) = collect_loop V dequeue (TAILQ_REST (pq_pl (the_pq s d q)) marker) ss s;
          s = upd_pl d q (\<lambda>l. TAILQ_REMOVE l marker) s;
          s = upd_pl d q (\<lambda>l. case m of Some m \<Rightarrow> TAILQ_INSERT_BEFORE l m marker
                                   | None \<Rightarrow> TAILQ_INSERT_TAIL l marker) s;
          s = (if dequeue then upd_pq d q (\<lambda>p. p\<lparr>pq_cnt := pq_cnt p - int (length (ss_bq ss))\<rparr>) s else s)
      in (ss, s))"

definition vm_pageout_next ::
  "('w::len) venv \<Rightarrow> bool \<Rightarrow> scan_state \<Rightarrow> 'w vm \<Rightarrow> pgid option \<times> scan_state \<times> 'w vm" where
  "vm_pageout_next V dequeue ss s =
     (let (ss, s) = (if ss_bq ss = [] then vm_pageout_collect_batch V dequeue ss s else (ss, s));
          (m, bq) = ve_bq_pop V (ss_bq ss)
      in (m, ss\<lparr>ss_bq := bq\<rparr>, s))"

subsection \<open>Putting pages back on the inactive queue\<close>

definition vm_pageout_reinsert_inactive_page ::
  "('w::len) venv \<Rightarrow> scan_state \<Rightarrow> pgid \<Rightarrow> 'w vm \<Rightarrow> int \<times> 'w vm" where
  "vm_pageout_reinsert_inactive_page V ss m s =
     (if pg_queue (v_pages s m) \<noteq> Some PQ_INACTIVE \<or> PGA_ENQUEUED \<in> pg_aflags (v_pages s m) then (0, s)
      else let s = vm_page_aflag_set m {PGA_ENQUEUED} s
           in if PGA_REQUEUE_HEAD \<in> pg_aflags (v_pages s m)
              then let vmd = ve_page_domain V s m;
                       s = upd_pl vmd PQ_INACTIVE
                             (\<lambda>l. TAILQ_INSERT_BEFORE l (vmd_inacthead (v_domains s vmd)) m) s
                   in (1, vm_page_aflag_clear m {PGA_REQUEUE, PGA_REQUEUE_HEAD} s)
              else if PGA_REQUEUE \<in> pg_aflags (v_pages s m)
              then let s = upd_pl (ss_dom ss) (ss_pq ss) (\<lambda>l. TAILQ_INSERT_TAIL l m) s
                   in (1, vm_page_aflag_clear m {PGA_REQUEUE, PGA_REQUEUE_HEAD} s)
              else (1, upd_pl (ss_dom ss) (ss_pq ss) (\<lambda>l. TAILQ_INSERT_BEFORE l (ss_marker ss) m) s))"

partial_function (option) reinsert_loop ::
  "('w::len) venv \<Rightarrow> scan_state \<Rightarrow> pgid list \<Rightarrow> int \<Rightarrow> 'w vm \<Rightarrow> (int \<times> 'w vm) option" where
  "reinsert_loop V ss bq delta s =
     (case ve_bq_pop V bq of
        (None, bq) \<Rightarrow> Some (delta, s)
      | (Some m, bq) \<Rightarrow>
          (case vm_pageout_reinsert_inactive_page V ss m s of
             (n, s) \<Rightarrow> reinsert_loop V ss bq (delta + n) s))"

text \<open>The batch \<^verbatim>\<open>bq\<close> is returned; the last line of the code empties it.\<close>

definition vm_pageout_reinsert_inactive ::
  "('w::len) venv \<Rightarrow> scan_state \<Rightarrow> pgid list \<Rightarrow> pgid option \<Rightarrow> 'w vm \<Rightarrow> (pgid list \<times> 'w vm) option" where
  "vm_pageout_reinsert_inactive V ss bq m s =
     (let (ins, bq') = (case m of Some m \<Rightarrow> ve_bq_insert V m bq | None \<Rightarrow> (False, bq))
      in if ins then Some (bq', s)
         else do {
           let s = ve_lock V (Queue_lock (ss_dom ss) (ss_pq ss)) s;
           let (delta, s) = (case m of Some m \<Rightarrow> vm_pageout_reinsert_inactive_page V ss m s | None \<Rightarrow> (0, s));
           (delta, s) \<leftarrow> reinsert_loop V ss bq' delta s;
           Some ([], upd_pq (ss_dom ss) (ss_pq ss) (\<lambda>p. p\<lparr>pq_cnt := pq_cnt p + delta\<rparr>) s)
         })"

subsection \<open>The lock of the object of a page\<close>

text \<open>
  The inactive scan and the laundry scan check the page, then lock its object; where the object is
  locked by somebody else they drop the page lock, wait and check the page again (\<^verbatim>\<open>recheck\<close>).
  \<open>check\<close> is what they check: its result is a reason to be done with the page. \<open>object\<close> and
  \<open>locked\<close> are the object they hold on to from page to page.
\<close>

partial_function (option) page_object_lock ::
  "('w::len) venv \<Rightarrow> ('w vm \<Rightarrow> 'f option \<times> 'w vm) \<Rightarrow> pgid \<Rightarrow> objid option \<Rightarrow> bool \<Rightarrow> 'w vm \<Rightarrow>
   ('f option \<times> objid option \<times> bool \<times> 'w vm) option" where
  "page_object_lock V check m object locked s =
     (case check s of
        (Some f, s) \<Rightarrow> Some (Some f, object, locked, s)
      | (None, s) \<Rightarrow>
          (if locked \<and> object = Some (pg_object (v_pages s m)) then Some (None, object, True, s)
           else (case ve_trywlock V (pg_object (v_pages s m)) s of
                   (ok, s') \<Rightarrow>
                     (if ok then Some (None, Some (pg_object (v_pages s m)), True, s')
                      else page_object_lock V check m (Some (pg_object (v_pages s m))) True
                             (ve_lock V (Page_lock m) (ve_lock V (Object_lock (pg_object (v_pages s m))) s'))))))"

text \<open>What both scans do with the references to a page, and with the mappings of a clean one.\<close>

definition page_references :: "('w::len) venv \<Rightarrow> objid \<Rightarrow> pgid \<Rightarrow> 'w vm \<Rightarrow> int \<times> 'w vm" where
  "page_references V object m s =
     (let (act_delta, s) = (if ob_ref_count (v_objects s object) \<noteq> 0 then ve_ts_referenced V m s else (0, s))
      in if PGA_REFERENCED \<in> pg_aflags (v_pages s m)
         then (act_delta + 1, vm_page_aflag_clear m {PGA_REFERENCED} s) else (act_delta, s))"

definition page_reactivate :: "('w::len) venv \<Rightarrow> pgid \<Rightarrow> int \<Rightarrow> 'w vm \<Rightarrow> 'w vm" where
  "page_reactivate V m act_delta s =
     (let s = upd_cnt (\<lambda>c. c\<lparr>v_reactivated := v_reactivated c + 1\<rparr>) s;
          s = ve_op V vm_page_activate m s
      in upd_page m (\<lambda>p. p\<lparr>pg_act_count := pg_act_count p + (word_of_int act_delta + ve_ACT_ADVANCE V)\<rparr>) s)"

definition page_test_mappings :: "('w::len) venv \<Rightarrow> objid \<Rightarrow> pgid \<Rightarrow> 'w vm \<Rightarrow> 'w vm" where
  "page_test_mappings V object m s =
     (if ob_ref_count (v_objects s object) \<noteq> 0
      then let s = ve_op V vm_page_test_dirty m s
           in if pg_dirty (v_pages s m) = 0 then ve_op V pmap_remove_all m s else s
      else s)"

subsection \<open>The inactive queue\<close>

text \<open>
  Why the scan is done with a page: whether the page counts as stuck, and whether it goes back to
  the queue.
\<close>

definition inact_check ::
  "('w::len) venv \<Rightarrow> pgid \<Rightarrow> 'w vm \<Rightarrow> (bool \<times> bool) option \<times> 'w vm" where
  "inact_check V m s =
     (if ve_page_queue V s m \<noteq> Some PQ_INACTIVE then (Some (True, False), s)
      else if pg_aflags (v_pages s m) \<inter> {PGA_ENQUEUED, PGA_REQUEUE, PGA_REQUEUE_HEAD} \<noteq> {}
      then (Some (False, True), s)
      else if pg_hold_count (v_pages s m) \<noteq> 0 then (Some (True, True), s)
      else if pg_wire_count (v_pages s m) \<noteq> 0
      then (Some (False, False), ve_op V vm_page_dequeue_deferred m s)
      else (None, s))"

definition inact_free :: "('w::len) venv \<Rightarrow> pgid \<Rightarrow> 'w vm \<Rightarrow> 'w vm" where
  "inact_free V m s = ve_op V vm_page_free m (upd_page m (\<lambda>p. p\<lparr>pg_queue := None\<rparr>) s)"

text \<open>The rest of the loop body, with the object locked: stuck, back to the queue, freed.\<close>

definition inact_reclaim ::
  "('w::len) venv \<Rightarrow> pgid \<Rightarrow> objid \<Rightarrow> 'w vm \<Rightarrow> (bool \<times> bool \<times> bool) \<times> 'w vm" where
  "inact_reclaim V m object s =
     (if ve_page_busied V s m then ((True, True, False), s)
      else if pg_valid (v_pages s m) = 0 then ((False, False, True), inact_free V m s)
      else let (act_delta, s) = page_references V object m s
           in if act_delta \<noteq> 0 \<and> ob_ref_count (v_objects s object) \<noteq> 0
              then ((False, False, False), page_reactivate V m act_delta s)
              else if act_delta \<noteq> 0 \<and> \<not> ob_dead (v_objects s object)
              then ((False, True, False), vm_page_aflag_set m {PGA_REQUEUE} s)
              else let s = page_test_mappings V object m s
                   in if pg_dirty (v_pages s m) = 0 then ((False, False, True), inact_free V m s)
                      else if \<not> ob_dead (v_objects s object)
                      then ((False, False, False), ve_op V vm_page_launder m s)
                      else ((False, False, False), s))"

definition inact_page ::
  "('w::len) venv \<Rightarrow> pgid \<Rightarrow> objid option \<Rightarrow> bool \<Rightarrow> 'w vm \<Rightarrow>
   ((bool \<times> bool \<times> bool) \<times> objid option \<times> bool \<times> 'w vm) option" where
  "inact_page V m object locked s = do {
     (f, object, locked, s) \<leftarrow> page_object_lock V (inact_check V m) m object locked s;
     case f of
       Some (stuck, re) \<Rightarrow> Some ((stuck, re, False), object, locked, s)
     | None \<Rightarrow> (case object of
                  None \<Rightarrow> None
                | Some obj \<Rightarrow> (case inact_reclaim V m obj s of (r, s) \<Rightarrow> Some (r, object, locked, s)))
   }"

partial_function (option) inact_loop ::
  "('w::len) venv \<Rightarrow> int \<Rightarrow> int \<Rightarrow> objid option \<Rightarrow> bool \<Rightarrow> pgid list \<Rightarrow> scan_state \<Rightarrow> 'w vm \<Rightarrow>
   (int \<times> int \<times> pgid list \<times> scan_state \<times> 'w vm) option" where
  "inact_loop V page_shortage addl object locked rq ss s =
     (if page_shortage > 0
      then (case vm_pageout_next V True ss s of
              (None, ss, s) \<Rightarrow> Some (page_shortage, addl, rq, ss, s)
            | (Some m, ss, s) \<Rightarrow> do {
                ((stuck, re, freed), object, locked, s) \<leftarrow>
                  inact_page V m object locked (ve_lock V (Page_lock m) s);
                (rq, s) \<leftarrow> (if re then vm_pageout_reinsert_inactive V ss rq (Some m) s else Some (rq, s));
                inact_loop V (page_shortage - of_bool freed) (addl + of_bool stuck) object locked rq ss s
              })
      else Some (page_shortage, addl, rq, ss, s))"

text \<open>Waking the laundry thread.\<close>

definition request_laundry ::
  "('w::len) venv \<Rightarrow> domid \<Rightarrow> int \<Rightarrow> int \<Rightarrow> 'w vm \<Rightarrow> 'w vm" where
  "request_laundry V d starting page_shortage s =
     (let s = ve_lock V (Queue_lock d PQ_LAUNDRY) s;
          s = (if vmd_laundry_request (v_domains s d) = VM_LAUNDRY_IDLE \<and>
                  (pq_cnt (the_pq s d PQ_LAUNDRY) > 0 \<or> v_swapdev_enabled s)
               then ve_wakeup_laundry V d
                      (if page_shortage > 0
                       then upd_cnt (\<lambda>c. c\<lparr>v_pdshortfalls := v_pdshortfalls c + 1\<rparr>)
                              (upd_domain d (\<lambda>v. v\<lparr>vmd_laundry_request := VM_LAUNDRY_SHORTFALL\<rparr>) s)
                       else if vmd_laundry_request (v_domains s d) \<noteq> VM_LAUNDRY_SHORTFALL
                       then upd_domain d (\<lambda>v. v\<lparr>vmd_laundry_request := VM_LAUNDRY_BACKGROUND\<rparr>) s
                       else s)
               else s)
      in upd_domain d (\<lambda>v. v\<lparr>vmd_clean_pages_freed :=
           vmd_clean_pages_freed v + word_of_int (starting - page_shortage)\<rparr>) s)"

definition vm_pageout_scan_inactive ::
  "('w::len) venv \<Rightarrow> domid \<Rightarrow> int \<Rightarrow> 'w vm \<Rightarrow> (bool \<times> int \<times> 'w vm) option" where
  "vm_pageout_scan_inactive V d shortage s =
     (let deficit = to_int (vmd_pageout_deficit (v_domains s d));
          s = upd_domain d (\<lambda>v. v\<lparr>vmd_pageout_deficit := 0\<rparr>) s;
          starting = shortage + deficit;
          marker = vmd_markers (v_domains s d) PQ_INACTIVE;
          s = ve_lock V (Queue_lock d PQ_INACTIVE) s;
          (ss, s) = vm_pageout_init_scan d PQ_INACTIVE marker None (pq_cnt (the_pq s d PQ_INACTIVE)) s
      in do {
        (page_shortage, addl, rq, ss, s) \<leftarrow> inact_loop V starting 0 None False [] ss s;
        (rq, s) \<leftarrow> vm_pageout_reinsert_inactive V ss rq None s;
        (bq, s) \<leftarrow> vm_pageout_reinsert_inactive V ss (ss_bq ss) None s;
        let s = vm_pageout_end_scan (ss\<lparr>ss_bq := bq\<rparr>) (ve_lock V (Queue_lock d PQ_INACTIVE) s);
        let s = upd_cnt (\<lambda>c. c\<lparr>v_dfree := v_dfree c + (starting - page_shortage)\<rparr>) s;
        let s = (if starting > 0 then request_laundry V d starting page_shortage s else s);
        let s = (if page_shortage > 0 then ve_swapout_run V s else s);
        s \<leftarrow> vm_pageout_mightbe_oom V d page_shortage starting s;
        let s = ve_swapout_run_idle V s;
        Some (page_shortage \<le> 0, addl + deficit, s)
      })"

subsection \<open>The active queue\<close>

definition vm_pageout_active_target :: "('w::len) venv \<Rightarrow> domid \<Rightarrow> 'w vm \<Rightarrow> int option" where
  "vm_pageout_active_target V d s =
     (let v = v_domains s d; weight = v_act_scan_laundry_weight s
      in if weight = 0 then None
         else Some (to_int (vmd_inactive_target v + word_of_int (ve_paging_target V s d) -
                word_of_int (pq_cnt (the_pq s d PQ_INACTIVE) + pq_cnt (the_pq s d PQ_LAUNDRY) sdiv weight)) * weight))"

text \<open>The activation count of a page that has been referenced \<open>act_delta\<close> times.\<close>

definition act_count_update :: "('w::len) venv \<Rightarrow> int \<Rightarrow> u8 \<Rightarrow> u8" where
  "act_count_update V act_delta a =
     (if act_delta \<noteq> 0
      then let a = a + (ve_ACT_ADVANCE V + word_of_int act_delta)
           in if a > ve_ACT_MAX V then ve_ACT_MAX V else a
      else a - min a (ve_ACT_DECLINE V))"

definition act_page :: "('w::len) venv \<Rightarrow> pgid \<Rightarrow> int \<Rightarrow> 'w vm \<Rightarrow> int \<times> 'w vm" where
  "act_page V m page_shortage s =
     (if ve_page_queue V s m \<noteq> Some PQ_ACTIVE then (page_shortage, s)
      else if pg_wire_count (v_pages s m) \<noteq> 0 then (page_shortage, ve_op V vm_page_dequeue_deferred m s)
      else let (act_delta, s) = page_references V (pg_object (v_pages s m)) m s;
               s = upd_page m (\<lambda>p. p\<lparr>pg_act_count := act_count_update V act_delta (pg_act_count p)\<rparr>) s
           in if pg_act_count (v_pages s m) \<noteq> 0 then (page_shortage, s)
              else if page_shortage \<le> 0 then (page_shortage, ve_op V vm_page_deactivate m s)
              else if pg_dirty (v_pages s m) = 0
              then (page_shortage - v_act_scan_laundry_weight s, ve_op V vm_page_deactivate m s)
              else (page_shortage - 1, ve_op V vm_page_launder m s))"

text \<open>The two hands have met: they go back to the two ends of the queue.\<close>

definition act_rewind :: "domid \<Rightarrow> ('w::len) vm \<Rightarrow> 'w vm" where
  "act_rewind d s =
     (let c0 = vmd_clock0 (v_domains s d); c1 = vmd_clock1 (v_domains s d)
      in upd_pl d PQ_ACTIVE (\<lambda>l. TAILQ_INSERT_TAIL (TAILQ_INSERT_HEAD (TAILQ_REMOVE (TAILQ_REMOVE l c0) c1) c0) c1) s)"

partial_function (option) act_loop ::
  "('w::len) venv \<Rightarrow> domid \<Rightarrow> pgid \<Rightarrow> int \<Rightarrow> int \<Rightarrow> scan_state \<Rightarrow> 'w vm \<Rightarrow> (scan_state \<times> 'w vm) option" where
  "act_loop V d marker max_scan page_shortage ss s =
     (case vm_pageout_next V False ss s of
        (None, ss, s) \<Rightarrow> Some (ss, s)
      | (Some m, ss, s) \<Rightarrow>
          (if m = vmd_clock1 (v_domains s d)
           then let s = act_rewind d (ve_lock V (Queue_lock d PQ_ACTIVE) s);
                    max_scan = max_scan - ss_scanned ss;
                    s = vm_pageout_end_scan ss s;
                    (ss, s) = vm_pageout_init_scan d PQ_ACTIVE marker (Some (vmd_clock0 (v_domains s d))) max_scan s
                in act_loop V d marker max_scan page_shortage ss s
           else if pg_marker (v_pages s m) then act_loop V d marker max_scan page_shortage ss s
           else (case act_page V m page_shortage (ve_lock V (Page_lock m) s) of
                   (page_shortage, s) \<Rightarrow> act_loop V d marker max_scan page_shortage ss s)))"

text \<open>\<^verbatim>\<open>min_scan\<close> is a \<^verbatim>\<open>long\<close>; it is narrowed to \<^verbatim>\<open>int\<close> where it becomes the limit of the scan.\<close>

definition act_min_scan :: "('w::len) venv \<Rightarrow> domid \<Rightarrow> 'w vm \<Rightarrow> int option" where
  "act_min_scan V d s =
     (if v_pageout_update_period s = 0 then Some 0
      else if ve_hz V * v_pageout_update_period s = 0 then None
      else Some (pq_cnt (the_pq s d PQ_ACTIVE) * (v_ticks s - vmd_last_active_scan (v_domains s d))
                 sdiv (ve_hz V * v_pageout_update_period s)))"

definition vm_pageout_scan_active :: "('w::len) venv \<Rightarrow> domid \<Rightarrow> int \<Rightarrow> 'w vm \<Rightarrow> 'w vm option" where
  "vm_pageout_scan_active V d page_shortage s = do {
     let marker = vmd_markers (v_domains s d) PQ_ACTIVE;
     let s = ve_lock V (Queue_lock d PQ_ACTIVE) s;
     min_scan \<leftarrow> act_min_scan V d s;
     let cnt = pq_cnt (the_pq s d PQ_ACTIVE);
     let s = (if min_scan > 0 \<or> (page_shortage > 0 \<and> cnt > 0)
              then upd_domain d (\<lambda>v. v\<lparr>vmd_last_active_scan := v_ticks s\<rparr>) s else s);
     let max_scan = (if page_shortage > 0 then cnt else to_int (word_of_int min_scan));
     let (ss, s) = vm_pageout_init_scan d PQ_ACTIVE marker (Some (vmd_clock0 (v_domains s d))) max_scan s;
     (ss, s) \<leftarrow> act_loop V d marker max_scan page_shortage ss s;
     let s = ve_lock V (Queue_lock d PQ_ACTIVE) s;
     let c0 = vmd_clock0 (v_domains s d);
     let s = upd_pl d PQ_ACTIVE (\<lambda>l. TAILQ_INSERT_AFTER (TAILQ_REMOVE l c0) marker c0) s;
     Some (vm_pageout_end_scan ss s)
   }"

end
