(* ===== verification/Pageout_Clean.thy ===== *)
theory Pageout_Clean
  imports Pageout_Scan
begin

section \<open>The page daemon: laundering dirty pages\<close>

text \<open>
  \<^verbatim>\<open>vm_pageout_cluster\<close>, \<^verbatim>\<open>vm_pageout_flush\<close>, \<^verbatim>\<open>vm_pageout_clean\<close> and \<^verbatim>\<open>vm_pageout_launder\<close> of
  \<^verbatim>\<open>misc-code/vm_pageout.c\<close>. The array \<^verbatim>\<open>mc\<close> of a cluster is the list of its pages with the index
  \<^verbatim>\<open>page_base\<close> of the first; its length is \<^verbatim>\<open>pageout_count\<close>.
\<close>

subsection \<open>Forming a cluster\<close>

text \<open>Whether a neighbour joins the cluster; if it does it is made read-only.\<close>

definition cluster_take :: "('w::len) venv \<Rightarrow> pgid \<Rightarrow> 'w vm \<Rightarrow> bool \<times> 'w vm" where
  "cluster_take V p s =
     (if ve_page_busied V s p then (False, s)
      else let s = ve_op V vm_page_test_dirty p s
           in if pg_dirty (v_pages s p) = 0 then (False, s)
              else let s = ve_lock V (Page_lock p) s
                   in if ve_page_held V s p \<or> \<not> ve_page_in_laundry V s p then (False, s)
                      else (True, ve_op V pmap_remove_write p s))"

function cluster_back ::
  "('w::len) venv \<Rightarrow> nat \<Rightarrow> nat \<Rightarrow> nat \<Rightarrow> pgid \<Rightarrow> int \<Rightarrow> pgid list \<Rightarrow> 'w vm \<Rightarrow>
   nat \<times> pgid \<times> int \<times> pgid list \<times> 'w vm" where
  "cluster_back V pc pindex ib pb page_base mc s =
     (if ib \<noteq> 0 \<and> length mc < pc
      then if ib > pindex then (0, pb, page_base, mc, s)
           else case ve_page_prev V s pb of
                  None \<Rightarrow> (0, pb, page_base, mc, s)
                | Some p \<Rightarrow>
                    (case cluster_take V p s of
                       (ok, s) \<Rightarrow>
                         (if \<not> ok then (0, pb, page_base, mc, s)
                          else if (pindex - (Suc ib - 1)) mod pc = 0
                          then (Suc ib, p, page_base - 1, p # mc, s)
                          else cluster_back V pc pindex (Suc ib) p (page_base - 1) (p # mc) s))
      else (ib, pb, page_base, mc, s))"
  by pat_completeness auto
termination by (relation "measure (\<lambda>(V, pc, pindex, ib, pb, b, mc, s). pc - length mc)") auto

function cluster_forward ::
  "('w::len) venv \<Rightarrow> nat \<Rightarrow> objid \<Rightarrow> nat \<Rightarrow> nat \<Rightarrow> pgid \<Rightarrow> pgid list \<Rightarrow> 'w vm \<Rightarrow>
   nat \<times> pgid \<times> pgid list \<times> 'w vm" where
  "cluster_forward V pc object pindex is ps mc s =
     (if length mc < pc \<and> pindex + is < ob_size (v_objects s object)
      then case ve_page_next V s ps of
             None \<Rightarrow> (is, ps, mc, s)
           | Some p \<Rightarrow>
               (case cluster_take V p s of
                  (ok, s) \<Rightarrow>
                    (if \<not> ok then (is, ps, mc, s)
                     else cluster_forward V pc object pindex (Suc is) p (mc @ [p]) s))
      else (is, ps, mc, s))"
  by pat_completeness auto
termination by (relation "measure (\<lambda>(V, pc, object, pindex, is, ps, mc, s). pc - length mc)") auto

declare cluster_back.simps [simp del] cluster_forward.simps [simp del]

lemma cluster_back_progress:
  assumes "cluster_back V pc pindex ib pb b mc s = (ib', pb', b', mc', s')"
  shows "length mc \<le> length mc'" "ib \<noteq> 0 \<Longrightarrow> length mc < pc \<Longrightarrow> ib' = 0 \<or> length mc < length mc'"
proof -
  have "length mc \<le> length mc' \<and> (ib \<noteq> 0 \<longrightarrow> length mc < pc \<longrightarrow> ib' = 0 \<or> length mc < length mc')"
    using assms
  proof (induction V pc pindex ib pb b mc s arbitrary: ib' pb' b' mc' s' rule: cluster_back.induct)
    case (1 V pc pindex ib pb b mc s)
    show ?case
      using 1(2) 1(1) by (subst (asm) cluster_back.simps) (fastforce split: if_splits option.splits prod.splits)
  qed
  then show "length mc \<le> length mc'" "ib \<noteq> 0 \<Longrightarrow> length mc < pc \<Longrightarrow> ib' = 0 \<or> length mc < length mc'" by auto
qed

lemma cluster_forward_progress:
  "cluster_forward V pc object pindex is ps mc s = (is', ps', mc', s') \<Longrightarrow> length mc \<le> length mc'"
proof (induction V pc object pindex "is" ps mc s arbitrary: is' ps' mc' s' rule: cluster_forward.induct)
  case (1 V pc object pindex i ps mc s)
  show ?case
    using 1(2) 1(1) by (subst (asm) cluster_forward.simps) (fastforce split: if_splits option.splits prod.splits)
qed

text \<open>Back to the alignment boundary, forward, and back again past it (\<^verbatim>\<open>goto more\<close>).\<close>

function cluster_more ::
  "('w::len) venv \<Rightarrow> nat \<Rightarrow> objid \<Rightarrow> nat \<Rightarrow> nat \<Rightarrow> nat \<Rightarrow> pgid \<Rightarrow> pgid \<Rightarrow> int \<Rightarrow> pgid list \<Rightarrow> 'w vm \<Rightarrow>
   int \<times> pgid list \<times> 'w vm" where
  "cluster_more V pc object pindex ib is pb ps page_base mc s =
     (case cluster_back V pc pindex ib pb page_base mc s of
        (ib', pb', page_base', mc', s') \<Rightarrow>
          (case cluster_forward V pc object pindex is ps mc' s' of
             (is'', ps'', mc'', s'') \<Rightarrow>
               (if ib' \<noteq> 0 \<and> length mc'' < pc
                then cluster_more V pc object pindex ib' is'' pb' ps'' page_base' mc'' s''
                else (page_base', mc'', s''))))"
  by pat_completeness auto
termination
proof (relation "measure (\<lambda>(V, pc, object, pindex, ib, is, pb, ps, b, mc, s). pc - length mc)", goal_cases)
  case (2 V pc object pindex ib i pb ps b mc s)
  have less: "pc - length mc'' < pc - length mc"
    if "cluster_back V pc pindex ib pb b mc s = (ib', pb', b', mc', s')"
      "cluster_forward V pc object pindex i ps mc' s' = (i'', ps'', mc'', s'')" "ib' \<noteq> 0" "length mc'' < pc"
    for ib' pb' b' mc' s' i'' ps'' mc'' s''
    using cluster_back_progress [OF that(1)] cluster_forward_progress [OF that(2)] that
    by (cases "ib = 0") (auto simp: cluster_back.simps [of V pc pindex 0])
  from 2 show ?case by (auto dest!: sym [of "(_, _)"] intro!: less)
qed simp

declare cluster_more.simps [simp del]

subsection \<open>Writing a cluster out\<close>

text \<open>
  The result of one page: how many pages count as written, the length of the run without
  \<^verbatim>\<open>VM_PAGER_AGAIN\<close>, whether there was an error in it.
\<close>

definition flush_page ::
  "('w::len) venv \<Rightarrow> objid \<Rightarrow> int \<Rightarrow> int \<Rightarrow> pgid \<Rightarrow> pager_status \<Rightarrow> int \<times> int \<times> bool \<times> 'w vm \<Rightarrow>
   int \<times> int \<times> bool \<times> 'w vm" where
  "flush_page V object mreq i mt st r =
     (let (n, runlen, eio, s) = r;
          deact = (\<lambda>s. let s = ve_lock V (Page_lock mt) s
                       in if ve_page_in_laundry V s mt then ve_op V vm_page_deactivate_noreuse mt s else s);
          inrun = (mreq \<le> i \<and> i - mreq < runlen);
          (n, runlen, eio, s) =
            (case st of
               VM_PAGER_OK \<Rightarrow> (n + 1, runlen, eio, deact s)
             | VM_PAGER_PEND \<Rightarrow> (n + 1, runlen, eio, s)
             | VM_PAGER_BAD \<Rightarrow> (n, runlen, eio, deact (ve_op V vm_page_undirty mt s))
             | VM_PAGER_AGAIN \<Rightarrow> (n, (if inrun then i - mreq else runlen), eio, s)
             | _ \<Rightarrow>
                 (let s = ve_lock V (Page_lock mt) s
                  in if ob_type (v_objects s object) = OBJT_SWAP \<and> st = VM_PAGER_FAIL
                     then (n + 1, runlen, eio \<or> inrun, ve_op V vm_page_unswappable mt s)
                     else (n, runlen, eio \<or> inrun, ve_op V vm_page_activate mt s)))
      in if st \<noteq> VM_PAGER_PEND
         then (n, runlen, eio, ve_op V vm_page_sunbusy mt (ve_pip_wakeup V object s))
         else (n, runlen, eio, s))"

fun flush_loop ::
  "('w::len) venv \<Rightarrow> objid \<Rightarrow> int \<Rightarrow> int \<Rightarrow> (pgid \<times> pager_status) list \<Rightarrow> int \<times> int \<times> bool \<times> 'w vm \<Rightarrow>
   int \<times> int \<times> bool \<times> 'w vm" where
  "flush_loop V object mreq i [] r = r"
| "flush_loop V object mreq i ((mt, st) # ms) r =
     flush_loop V object mreq (i + 1) ms (flush_page V object mreq i mt st r)"

text \<open>
  The result is \<^verbatim>\<open>numpagedout\<close> with \<^verbatim>\<open>*prunlen\<close> and \<^verbatim>\<open>*eio\<close>, which a caller that passes
  \<^verbatim>\<open>NULL\<close> ignores. \<^verbatim>\<open>mc\<close> is not empty.
\<close>

definition vm_pageout_flush ::
  "('w::len) venv \<Rightarrow> pgid list \<Rightarrow> nat \<Rightarrow> int \<Rightarrow> 'w vm \<Rightarrow> int \<times> int \<times> bool \<times> 'w vm" where
  "vm_pageout_flush V mc flags mreq s =
     (let object = pg_object (v_pages s (hd mc));
          count = int (length mc);
          s = fold (ve_op V vm_page_sbusy) mc s;
          s = ve_pip_add V object count s;
          (pageout_status, s) = ve_put_pages V object mc flags s
      in flush_loop V object mreq 0 (zip mc pageout_status) (0, count - mreq, False, s))"

definition vm_pageout_cluster :: "('w::len) venv \<Rightarrow> pgid \<Rightarrow> 'w vm \<Rightarrow> int \<times> 'w vm" where
  "vm_pageout_cluster V m s =
     (let object = pg_object (v_pages s m); pindex = pg_pindex (v_pages s m);
          s = ve_op V pmap_remove_write m s;
          pc = v_pageout_page_count s;
          (page_base, mc, s) = cluster_more V pc object pindex 1 1 m m (int pc) [m] s;
          (numpagedout, runlen, eio, s) = vm_pageout_flush V mc (ve_PUT_NOREUSE V) 0 s
      in (numpagedout, s))"

subsection \<open>Cleaning a page\<close>

text \<open>The end of \<^verbatim>\<open>vm_pageout_clean\<close> from \<^verbatim>\<open>unlock_mp\<close> on.\<close>

definition clean_unlock_mp ::
  "('w::len) venv \<Rightarrow> objid \<Rightarrow> nat option \<Rightarrow> vnid option \<Rightarrow> 'w vm \<Rightarrow> 'w vm" where
  "clean_unlock_mp V object mp vp s =
     (case mp of
        None \<Rightarrow> s
      | Some mp \<Rightarrow>
          (let s = (case vp of Some vp \<Rightarrow> ve_vput V vp s | None \<Rightarrow> s);
               s = ve_object_deallocate V object s
           in ve_vn_finished_write V mp s))"

text \<open>
  The locks of a page of a file: the error on which the page is skipped, if any, the mount and the
  vnode to release.
\<close>

definition clean_vnode_lock ::
  "('w::len) venv \<Rightarrow> pgid \<Rightarrow> objid \<Rightarrow> 'w vm \<Rightarrow> vm_error option \<times> nat option \<times> vnid option \<times> 'w vm" where
  "clean_vnode_lock V m object s =
     (let vp = ob_handle (v_objects s object);
          (failed, mp, s) = (if ve_v_regular V s vp then ve_vn_start_write V vp s else (False, None, s))
      in if failed then (Some EDEADLK, None, Some vp, s)
         else
           let s = ve_object_reference V object s;
               pindex = pg_pindex (v_pages s m);
               (failed, s) = ve_vget V vp (ve_shared_writes V s vp) s
           in if failed then (Some EDEADLK, mp, None, s)
              else
                let s = ve_lock V (Object_lock object) s
                in if ve_v_object V s vp \<noteq> Some object then (Some ENOENT, mp, Some vp, s)
                   else
                     let s = ve_lock V (Page_lock m) s
                     in if \<not> ve_page_in_laundry V s m \<or> pg_object (v_pages s m) \<noteq> object \<or>
                           pg_pindex (v_pages s m) \<noteq> pindex \<or> pg_dirty (v_pages s m) = 0
                        then (Some ENXIO, mp, Some vp, s)
                        else if ve_page_busied V s m \<or> ve_page_held V s m
                        then (Some EBUSY, mp, Some vp, s)
                        else (None, mp, Some vp, s))"

text \<open>
  The result is the error, \<open>None\<close> for 0, and \<^verbatim>\<open>*numpagedout\<close>, which is set only if the
  cluster is formed.
\<close>

definition vm_pageout_clean :: "('w::len) venv \<Rightarrow> pgid \<Rightarrow> 'w vm \<Rightarrow> vm_error option \<times> int option \<times> 'w vm" where
  "vm_pageout_clean V m s =
     (let object = pg_object (v_pages s m);
          (error, mp, vp, s) =
            (if ob_type (v_objects s object) = OBJT_VNODE then clean_vnode_lock V m object s
             else (None, None, None, s))
      in case error of
           Some e \<Rightarrow> (Some e, None, clean_unlock_mp V object mp vp s)
         | None \<Rightarrow>
             (let (numpagedout, s) = vm_pageout_cluster V m s
              in (if numpagedout = 0 then Some EIO else None, Some numpagedout,
                  clean_unlock_mp V object mp vp s)))"

subsection \<open>The laundry queues\<close>

definition laundry_check ::
  "('w::len) venv \<Rightarrow> pqueue \<Rightarrow> pgid \<Rightarrow> 'w vm \<Rightarrow> unit option \<times> 'w vm" where
  "laundry_check V q m s =
     (if ve_page_queue V s m \<noteq> Some q then (Some (), s)
      else if PGA_REQUEUE \<in> pg_aflags (v_pages s m) then (Some (), ve_op V vm_page_requeue m s)
      else if pg_hold_count (v_pages s m) \<noteq> 0 then (Some (), s)
      else if pg_wire_count (v_pages s m) \<noteq> 0 then (Some (), ve_op V vm_page_dequeue_deferred m s)
      else (None, s))"

definition laundry_free :: "('w::len) venv \<Rightarrow> pgid \<Rightarrow> 'w vm \<Rightarrow> 'w vm" where
  "laundry_free V m s = upd_cnt (\<lambda>c. c\<lparr>v_dfree := v_dfree c + 1\<rparr>) (ve_op V vm_page_free m s)"

text \<open>
  The rest of the loop body, with the object locked. The result: by how much \<^verbatim>\<open>launder\<close> goes down
  and \<^verbatim>\<open>ss.scanned\<close> up, whether a vnode was skipped, whether the object is still locked.
\<close>

definition laundry_page ::
  "('w::len) venv \<Rightarrow> bool \<Rightarrow> pgid \<Rightarrow> objid \<Rightarrow> 'w vm \<Rightarrow> (int \<times> int \<times> bool \<times> bool) \<times> 'w vm" where
  "laundry_page V in_shortfall m object s =
     (if ve_page_busied V s m then ((0, 0, False, True), s)
      else if pg_valid (v_pages s m) = 0 then ((0, 0, False, True), laundry_free V m s)
      else let (act_delta, s) = page_references V object m s
           in if act_delta \<noteq> 0 \<and> ob_ref_count (v_objects s object) \<noteq> 0
              then ((of_bool (\<not> in_shortfall), 0, False, True), page_reactivate V m act_delta s)
              else if act_delta \<noteq> 0 \<and> \<not> ob_dead (v_objects s object)
              then ((0, 0, False, True), ve_op V vm_page_requeue m s)
              else let s = page_test_mappings V object m s
                   in if pg_dirty (v_pages s m) = 0 then ((0, 0, False, True), laundry_free V m s)
                      else if ob_dead (v_objects s object) then ((0, 0, False, True), s)
                      else if ob_type (v_objects s object) \<in> {OBJT_SWAP, OBJT_DEFAULT} \<and> v_disable_swap_pageouts s
                      then ((0, 0, False, True), ve_op V vm_page_requeue m s)
                      else (case vm_pageout_clean V m s of
                              (None, n, s) \<Rightarrow> ((the n, the n, False, False), s)
                            | (Some EDEADLK, n, s) \<Rightarrow>
                                ((0, 0, True, False), s\<lparr>v_pageout_lock_miss := v_pageout_lock_miss s + 1\<rparr>)
                            | (Some e, n, s) \<Rightarrow> ((0, 0, False, False), s)))"

partial_function (option) laundry_loop ::
  "('w::len) venv \<Rightarrow> pqueue \<Rightarrow> bool \<Rightarrow> int \<Rightarrow> int \<Rightarrow> objid option \<Rightarrow> bool \<Rightarrow> scan_state \<Rightarrow> 'w vm \<Rightarrow>
   (int \<times> int \<times> scan_state \<times> 'w vm) option" where
  "laundry_loop V q in_shortfall launder skipped object locked ss s =
     (if launder > 0
      then (case vm_pageout_next V False ss s of
              (None, ss, s) \<Rightarrow> Some (launder, skipped, ss, s)
            | (Some m, ss, s) \<Rightarrow>
                (if pg_marker (v_pages s m)
                 then laundry_loop V q in_shortfall launder skipped object locked ss s
                 else do {
                   (f, object, locked, s) \<leftarrow>
                     page_object_lock V (laundry_check V q m) m object locked (ve_lock V (Page_lock m) s);
                   (case f of
                      Some u \<Rightarrow> laundry_loop V q in_shortfall launder skipped object locked ss s
                    | None \<Rightarrow>
                        (case laundry_page V in_shortfall m (the object) s of
                           ((n, k, skip, locked), s) \<Rightarrow>
                             laundry_loop V q in_shortfall (launder - n) (skipped + of_bool skip) object locked
                               (ss\<lparr>ss_scanned := ss_scanned ss + k\<rparr>) s))
                 }))
      else Some (launder, skipped, ss, s))"

definition laundry_scan ::
  "('w::len) venv \<Rightarrow> domid \<Rightarrow> pqueue \<Rightarrow> bool \<Rightarrow> int \<Rightarrow> int \<Rightarrow> 'w vm \<Rightarrow> (int \<times> int \<times> 'w vm) option" where
  "laundry_scan V d q in_shortfall launder skipped s = do {
     let marker = vmd_markers (v_domains s d) q;
     let s = ve_lock V (Queue_lock d q) s;
     let (ss, s) = vm_pageout_init_scan d q marker None (pq_cnt (the_pq s d q)) s;
     (launder, skipped, ss, s) \<leftarrow> laundry_loop V q in_shortfall launder skipped None False ss s;
     Some (launder, skipped, vm_pageout_end_scan ss (ve_lock V (Queue_lock d q) s))
   }"

definition vm_pageout_launder ::
  "('w::len) venv \<Rightarrow> domid \<Rightarrow> int \<Rightarrow> bool \<Rightarrow> 'w vm \<Rightarrow> (int \<times> 'w vm) option" where
  "vm_pageout_launder V d launder in_shortfall s = do {
     let starting_target = launder;
     (launder, skipped, s) \<leftarrow>
       (if v_swapdev_enabled s
        then do {
          (launder, skipped, s) \<leftarrow> laundry_scan V d PQ_UNSWAPPABLE in_shortfall launder 0 s;
          (if launder > 0 then laundry_scan V d PQ_LAUNDRY in_shortfall launder skipped s
           else Some (launder, skipped, s))
        }
        else laundry_scan V d PQ_LAUNDRY in_shortfall launder 0 s);
     let s = (if skipped > 0 \<and> launder > 0 then ve_speedup_syncer V s else s);
     Some (starting_target - launder, s)
   }"

end
