(* ===== verification/Pageout_Daemon.thy ===== *)
theory Pageout_Daemon
  imports Pageout_Clean
begin

section \<open>The page daemon: its threads and its settings\<close>

text \<open>
  The laundry thread, the page daemon itself, their start and their settings
  (\<^verbatim>\<open>misc-code/vm_pageout.c\<close>). The endless loops of the two threads are given by one round each,
  with the local variables that live from round to round in a record.
\<close>

subsection \<open>The integer square root\<close>

lemma unat_drop_bit_2_less: "b \<noteq> 0 \<Longrightarrow> unat (drop_bit 2 b :: u32) < unat b"
proof -
  assume "b \<noteq> 0"
  then have "0 < unat b" by (simp add: unat_gt_0)
  then have "unat b div 2 ^ 2 < unat b" by (intro div_less_dividend) simp_all
  then have "drop_bit 2 (unat b) < unat b" by (simp only: drop_bit_eq_div)
  then show ?thesis by (simp only: unat_drop_bit_eq)
qed

function isqrt_shift :: "u32 \<Rightarrow> u32 \<Rightarrow> u32" where
  "isqrt_shift num b = (if b > num then isqrt_shift num (drop_bit 2 b) else b)"
  by pat_completeness auto
termination by (relation "measure (\<lambda>(num, b). unat b)") (auto intro!: unat_drop_bit_2_less)

function isqrt_loop :: "u32 \<Rightarrow> u32 \<Rightarrow> u32 \<Rightarrow> u32" where
  "isqrt_loop num root b =
     (if b \<noteq> 0
      then let tmp = root + b; root = drop_bit 1 root
           in if num \<ge> tmp then isqrt_loop (num - tmp) (root + b) (drop_bit 2 b)
              else isqrt_loop num root (drop_bit 2 b)
      else root)"
  by pat_completeness auto
termination by (relation "measure (\<lambda>(num, root, b). unat b)") (auto intro!: unat_drop_bit_2_less)

declare isqrt_shift.simps [simp del] isqrt_loop.simps [simp del]

definition isqrt :: "u32 \<Rightarrow> u32" where
  "isqrt num = isqrt_loop num 0 (isqrt_shift num (push_bit 30 1))"

subsection \<open>Swap devices\<close>

definition vm_pageout_swapon :: "('w::len) vm \<Rightarrow> 'w vm" where
  "vm_pageout_swapon s = s\<lparr>v_swapdev_enabled := True\<rparr>"

definition vm_pageout_swapoff :: "('w::len) venv \<Rightarrow> 'w vm \<Rightarrow> 'w vm" where
  "vm_pageout_swapoff V s = (if ve_nswapdev V s = 1 then s\<lparr>v_swapdev_enabled := False\<rparr> else s)"

subsection \<open>The laundry thread\<close>

abbreviation VM_LAUNDER_RATE :: int where "VM_LAUNDER_RATE \<equiv> 10"
abbreviation VM_INACT_SCAN_RATE :: int where "VM_INACT_SCAN_RATE \<equiv> 10"

record laundry_locals =
  ll_last_target :: int
  ll_shortfall :: int
  ll_shortfall_cycle :: int
  ll_target :: int
  ll_in_shortfall :: bool
  ll_nfreed :: "64 word"

text \<open>\<^verbatim>\<open>last_target\<close> has no initial value in the code: it is an argument.\<close>

definition laundry_init :: "int \<Rightarrow> laundry_locals" where
  "laundry_init last_target =
     \<lparr>ll_last_target = last_target, ll_shortfall = 0, ll_shortfall_cycle = 0, ll_target = 0,
      ll_in_shortfall = False, ll_nfreed = 0\<rparr>"

text \<open>The test at \<^verbatim>\<open>trybackground\<close>, with the types of C: \<^verbatim>\<open>howmany\<close> and the product are 64 bits wide,
  the argument of \<open>isqrt\<close> is not.\<close>

definition background_needed :: "domid \<Rightarrow> 64 word \<Rightarrow> ('w::len) vm \<Rightarrow> bool option" where
  "background_needed d nfreed s =
     (let v = v_domains s d;
          nclean = ucast (vmd_free_count v + word_of_int (pq_cnt (the_pq s d PQ_INACTIVE))) :: 64 word;
          ndirty = word_of_int (pq_cnt (the_pq s d PQ_LAUNDRY)) :: 64 word;
          y = vmd_free_target v - vmd_free_min v
      in if y = 0 then None
         else let howmany = (nfreed + 1 + ucast (y - 1)) div ucast y
              in Some (ndirty * ucast (isqrt (ucast howmany)) \<ge> nclean))"

definition laundry_background ::
  "('w::len) venv \<Rightarrow> domid \<Rightarrow> laundry_locals \<Rightarrow> 'w vm \<Rightarrow> (int \<times> laundry_locals) option" where
  "laundry_background V d L s = do {
     needed \<leftarrow> (if ll_target L = 0 then background_needed d (ll_nfreed L) s else Some False);
     let L = (if needed then L\<lparr>ll_target := to_int (vmd_background_launder_target (v_domains s d))\<rparr> else L);
     if ll_target L > 0
     then let L = (if ll_nfreed L > 0
                   then L\<lparr>ll_nfreed := 0, ll_last_target := ll_target L\<rparr>
                   else if word_of_int (ll_last_target L - ll_target L) \<ge>
                           v_background_launder_max s * ve_PAGE_SIZE V div 1024
                   then L\<lparr>ll_target := 0\<rparr> else L);
              launder = to_int (v_background_launder_rate s * ve_PAGE_SIZE V div 1024) sdiv VM_LAUNDER_RATE
          in Some (if launder > ll_target L then ll_target L else launder, L)
     else Some (0, L)
   }"

text \<open>How many pages to launder in this round.\<close>

definition laundry_plan ::
  "('w::len) venv \<Rightarrow> domid \<Rightarrow> laundry_locals \<Rightarrow> 'w vm \<Rightarrow> (int \<times> laundry_locals) option" where
  "laundry_plan V d L s =
     (let go = (\<lambda>L. if ll_shortfall_cycle L = 0 then None
                    else Some (ll_target L sdiv ll_shortfall_cycle L,
                               L\<lparr>ll_shortfall_cycle := ll_shortfall_cycle L - 1\<rparr>))
      in if ll_shortfall L > 0
         then go (L\<lparr>ll_in_shortfall := True, ll_shortfall_cycle := VM_LAUNDER_RATE sdiv VM_INACT_SCAN_RATE,
                    ll_target := ll_shortfall L\<rparr>)
         else if \<not> ll_in_shortfall L then laundry_background V d L s
         else if ll_shortfall_cycle L = 0 \<or> ve_laundry_target V s d \<le> 0
         then laundry_background V d (L\<lparr>ll_in_shortfall := False, ll_target := 0\<rparr>) s
         else go L)"

text \<open>Sleeping until the page daemon asks for laundering, and reading its request.\<close>

definition laundry_request_wait ::
  "('w::len) venv \<Rightarrow> domid \<Rightarrow> laundry_locals \<Rightarrow> 'w vm \<Rightarrow> laundry_locals \<times> 'w vm" where
  "laundry_request_wait V d L s =
     (let s = ve_lock V (Queue_lock d PQ_LAUNDRY) s;
          s = (if ll_target L = 0 \<and> vmd_laundry_request (v_domains s d) = VM_LAUNDRY_IDLE
               then ve_sleep_laundry V d s else s);
          L = (if vmd_laundry_request (v_domains s d) = VM_LAUNDRY_SHORTFALL \<and>
                  (\<not> ll_in_shortfall L \<or> ll_shortfall_cycle L = 0)
               then L\<lparr>ll_shortfall := to_int (word_of_int (ve_laundry_target V s d) +
                        vmd_pageout_deficit (v_domains s d)), ll_target := 0\<rparr>
               else L\<lparr>ll_shortfall := 0\<rparr>);
          s = (if ll_target L = 0
               then upd_domain d (\<lambda>v. v\<lparr>vmd_laundry_request := VM_LAUNDRY_IDLE\<rparr>) s else s)
      in (L\<lparr>ll_nfreed := ll_nfreed L + ucast (vmd_clean_pages_freed (v_domains s d))\<rparr>,
          upd_domain d (\<lambda>v. v\<lparr>vmd_clean_pages_freed := 0\<rparr>) s))"

definition vm_pageout_laundry_worker ::
  "('w::len) venv \<Rightarrow> domid \<Rightarrow> laundry_locals \<Rightarrow> 'w vm \<Rightarrow> (laundry_locals \<times> 'w vm) option" where
  "vm_pageout_laundry_worker V d L s = do {
     (launder, L) \<leftarrow> laundry_plan V d L s;
     (L, s) \<leftarrow>
       (if launder > 0
        then do {
          (n, s) \<leftarrow> vm_pageout_launder V d launder (ll_in_shortfall L) s;
          let t = word_of_int (ll_target L);
          Some (L\<lparr>ll_target := to_int (t - min (word_of_int n) t)\<rparr>,
                ve_pause V (ve_hz V sdiv VM_LAUNDER_RATE) s)
        }
        else Some (L, s));
     Some (laundry_request_wait V d L s)
   }"

subsection \<open>The page daemon\<close>

text \<open>Until the domain may need pages: the first half of a round.\<close>

definition pageout_wait :: "('w::len) venv \<Rightarrow> domid \<Rightarrow> bool \<Rightarrow> 'w vm \<Rightarrow> 'w vm" where
  "pageout_wait V d target_met s =
     (let s = ve_lock V (Pageout_lock d) s;
          s = upd_domain d (\<lambda>v. v\<lparr>vmd_pageout_wanted := 0\<rparr>) s;
          s = (if ve_paging_needed V s d (vmd_free_count (v_domains s d))
               then (if \<not> target_met then ve_pause V (ve_hz V sdiv VM_INACT_SCAN_RATE) s else s)
               else (case ve_sleep_wanted V d (ve_hz V sdiv VM_INACT_SCAN_RATE) s of
                       (r, s) \<Rightarrow> if r = 0 then upd_cnt (\<lambda>c. c\<lparr>v_pdwakeups := v_pdwakeups c + 1\<rparr>) s else s))
      in upd_domain d (\<lambda>v. v\<lparr>vmd_pageout_wanted := 1\<rparr>) s)"

definition vm_pageout_worker :: "('w::len) venv \<Rightarrow> domid \<Rightarrow> bool \<Rightarrow> 'w vm \<Rightarrow> (bool \<times> 'w vm) option" where
  "vm_pageout_worker V d target_met s = do {
     let s = pageout_wait V d target_met s;
     let (shortage, s) = ve_pidctrl_daemon V d (vmd_free_count (v_domains s d)) s;
     (target_met, addl_shortage, s) \<leftarrow>
       (if shortage > 0
        then do {
          let ofree = vmd_free_count (v_domains s d);
          (low, s) \<leftarrow> vm_pageout_lowmem V s;
          let free = vmd_free_count (v_domains s d);
          let shortage = (if low \<and> free > ofree
                then to_int (word_of_int shortage - min (free - ofree) (word_of_int shortage)) else shortage);
          vm_pageout_scan_inactive V d shortage s
        }
        else Some (target_met, 0, s));
     target \<leftarrow> vm_pageout_active_target V d s;
     s \<leftarrow> vm_pageout_scan_active V d (target + addl_shortage) s;
     Some (target_met, s)
   }"

definition pagedaemon_wakeup :: "('w::len) venv \<Rightarrow> bool \<Rightarrow> domid \<Rightarrow> 'w vm \<Rightarrow> 'w vm" where
  "pagedaemon_wakeup V in_pageproc d s =
     (if in_pageproc then s
      else let wanted = vmd_pageout_wanted (v_domains s d);
               s = upd_domain d (\<lambda>v. v\<lparr>vmd_pageout_wanted := wanted + 1\<rparr>) s
           in if wanted \<noteq> 0 then s
              else let s = ve_lock V (Pageout_lock d) s;
                       s = upd_domain d (\<lambda>v. v\<lparr>vmd_pageout_wanted := 1\<rparr>) s
                   in ve_wakeup_wanted V d s)"

subsection \<open>Settings\<close>

text \<open>\<open>base\<close> is \<^verbatim>\<open>vmd_free_min\<close> before the reserve is added to it.\<close>

definition init_thresholds :: "('w::len) venv \<Rightarrow> nat \<Rightarrow> vm_domain \<Rightarrow> vm_domain" where
  "init_thresholds V page_count v =
     (let interrupt_free_min = 2;
          base = (if vmd_page_count v > 1024 then 4 + (vmd_page_count v - 1024) div 200 else 4);
          pageout_free_min = (2 * ve_MAXBSIZE V) div ve_PAGE_SIZE V + interrupt_free_min;
          free_reserved = of_nat page_count + pageout_free_min + vmd_page_count v div 768;
          free_target = 4 * base + free_reserved;
          free_min = base + free_reserved;
          inactive_target = (3 * free_target) div 2
      in v\<lparr>vmd_interrupt_free_min := interrupt_free_min,
           vmd_pageout_free_min := pageout_free_min,
           vmd_free_reserved := free_reserved,
           vmd_free_target := free_target,
           vmd_free_min := free_min,
           vmd_free_severe := base div 2 + free_reserved,
           vmd_inactive_target := (if inactive_target > vmd_free_count v div 3 then vmd_free_count v div 3
                                   else inactive_target),
           vmd_pageout_wakeup_thresh := (free_target div 10) * 9,
           vmd_background_launder_target := (free_target - free_min) div 10\<rparr>)"

definition vm_pageout_init_domain :: "('w::len) venv \<Rightarrow> domid \<Rightarrow> 'w vm \<Rightarrow> 'w vm" where
  "vm_pageout_init_domain V d s =
     (let s = upd_domain d (init_thresholds V (v_pageout_page_count s)) s
      in ve_pidctrl_init V d (ve_hz V sdiv VM_INACT_SCAN_RATE) (vmd_free_target (v_domains s d)) s)"

text \<open>The loop over the domains, with \<^verbatim>\<open>freecount\<close>.\<close>

fun init_domains :: "('w::len) venv \<Rightarrow> domid list \<Rightarrow> u32 \<Rightarrow> 'w vm \<Rightarrow> u32 \<times> 'w vm" where
  "init_domains V [] freecount s = (freecount, s)"
| "init_domains V (i # is) freecount s =
     (let s = vm_pageout_init_domain V i s;
          v = v_domains s i;
          s = upd_cnt (\<lambda>c. c\<lparr>v_free_reserved := v_free_reserved c + vmd_free_reserved v,
                v_free_target := v_free_target c + vmd_free_target v,
                v_free_min := v_free_min c + vmd_free_min v,
                v_inactive_target := v_inactive_target c + vmd_inactive_target v,
                v_pageout_free_min := v_pageout_free_min c + vmd_pageout_free_min v,
                v_interrupt_free_min := v_interrupt_free_min c + vmd_interrupt_free_min v,
                v_free_severe := v_free_severe c + vmd_free_severe v\<rparr>) s
      in init_domains V is (freecount + vmd_free_count v) s)"

definition vm_pageout_init :: "('w::len) venv \<Rightarrow> 'w vm \<Rightarrow> 'w vm" where
  "vm_pageout_init V s =
     (let s = (if v_page_count (v_cnt s) < 2000 then s\<lparr>v_pageout_page_count := 8\<rparr> else s);
          (freecount, s) = init_domains V [0..<ve_ndomains V] 0 s;
          s = (if v_pageout_update_period s = 0 then s\<lparr>v_pageout_update_period := 600\<rparr> else s)
      in if v_page_max_wired s = 0 then s\<lparr>v_page_max_wired := to_int (freecount div 3)\<rparr> else s)"

subsection \<open>Starting the threads\<close>

text \<open>
  One laundry thread for every domain that is not empty and one page daemon for every such domain
  but the first, which the calling thread serves; a thread that cannot be started is a panic. The
  result is the first domain, \<open>None\<close> standing for \<^verbatim>\<open>-1\<close>.
\<close>

fun start_domains :: "('w::len) venv \<Rightarrow> domid list \<Rightarrow> domid option \<Rightarrow> 'w vm \<Rightarrow> (domid option \<times> 'w vm) option" where
  "start_domains V [] first s = Some (first, s)"
| "start_domains V (i # is) first s =
     (if vmd_empty (v_domains s i) then start_domains V is first s
      else do {
        (first, s) \<leftarrow>
          (case first of
             None \<Rightarrow> Some (Some i, s)
           | Some f \<Rightarrow> (case ve_kthread_add V Pageout_worker (Some i) s of
                          (error, s) \<Rightarrow> if error \<noteq> 0 then None else Some (Some f, s)));
        let (error, s) = ve_kthread_add V Laundry_worker (Some i) s;
        if error \<noteq> 0 then None else start_domains V is first s
      })"

definition vm_pageout :: "('w::len) venv \<Rightarrow> 'w vm \<Rightarrow> (domid option \<times> 'w vm) option" where
  "vm_pageout V s = do {
     let s = ve_swap_pager_init V s;
     (first, s) \<leftarrow> start_domains V [0..<ve_ndomains V] None s;
     let (error, s) = ve_kthread_add V Uma_reclaim_worker None s;
     if error \<noteq> 0 then None else Some (first, s)
   }"

end
