(* ===== verification/Pageout_Example.thy ===== *)
theory Pageout_Example
  imports Pageout_Daemon Kernel_Example
begin

section \<open>A machine with one memory domain\<close>

text \<open>
  The concrete environment and state that the examples of the page daemon's properties use: nobody
  else runs, the batches are a stack of at most seven pages, the pages 10 to 13 are a run of dirty
  pages in the laundry, 20 and 21 are on the active queue between the two hands, 30 and 31 on the
  inactive queue, and the processes 100 and 101 may be killed.
\<close>

definition bq_insert0 :: "pgid \<Rightarrow> pgid list \<Rightarrow> bool \<times> pgid list" where
  "bq_insert0 m bq = (if length bq < 7 then (True, m # bq) else (False, bq))"

definition bq_pop0 :: "pgid list \<Rightarrow> pgid option \<times> pgid list" where
  "bq_pop0 bq = (case bq of [] \<Rightarrow> (None, []) | m # bq \<Rightarrow> (Some m, bq))"

definition adjacent :: "64 vm \<Rightarrow> pgid \<Rightarrow> pgid \<Rightarrow> bool" where
  "adjacent s m n \<longleftrightarrow> pg_object (v_pages s n) = pg_object (v_pages s m) \<and>
     pg_pindex (v_pages s n) = Suc (pg_pindex (v_pages s m))"

definition venv0 :: "64 venv" where
  "venv0 = \<lparr>ve_kenv = kenv0, ve_self = 0, ve_ndomains = 1, ve_hz = 1000, ve_PAGE_SIZE = 4096,
     ve_MAXBSIZE = 65536, ve_VM_BATCHQUEUE_SIZE = 7, ve_ACT_ADVANCE = 3, ve_ACT_DECLINE = 1,
     ve_ACT_MAX = 64, ve_PRIO_MIN = -20, ve_op = (\<lambda>_ _ s. s), ve_lock = (\<lambda>_ s. s),
     ve_trywlock = (\<lambda>_ s. (True, s)), ve_bq_insert = bq_insert0, ve_bq_pop = bq_pop0,
     ve_page_queue = (\<lambda>s m. pg_queue (v_pages s m)),
     ve_page_in_laundry = (\<lambda>s m. pg_queue (v_pages s m) \<in> {Some PQ_LAUNDRY, Some PQ_UNSWAPPABLE}),
     ve_page_busied = (\<lambda>_ _. False), ve_page_held = (\<lambda>s m. pg_hold_count (v_pages s m) \<noteq> 0),
     ve_page_prev = (\<lambda>s m. if m \<in> {11, 12, 13} \<and> adjacent s (m - 1) m then Some (m - 1) else None),
     ve_page_next = (\<lambda>s m. if m \<in> {10, 11, 12} \<and> adjacent s m (m + 1) then Some (m + 1) else None),
     ve_page_domain = (\<lambda>_ _. 0), ve_ts_referenced = (\<lambda>_ s. (0, s)), ve_pip_add = (\<lambda>_ _ s. s),
     ve_pip_wakeup = (\<lambda>_ s. s), ve_put_pages = (\<lambda>_ mc _ s. (map (\<lambda>_. VM_PAGER_OK) mc, s)),
     ve_PUT_NOREUSE = 8, ve_v_regular = (\<lambda>_ _. True), ve_v_object = (\<lambda>_ vp. Some vp),
     ve_shared_writes = (\<lambda>_ _. False), ve_vn_start_write = (\<lambda>_ s. (False, Some 0, s)),
     ve_vn_finished_write = (\<lambda>_ s. s), ve_vget = (\<lambda>_ _ s. (False, s)), ve_vput = (\<lambda>_ s. s),
     ve_object_reference = (\<lambda>_ s. s), ve_object_deallocate = (\<lambda>_ s. s), ve_speedup_syncer = (\<lambda>s. s),
     ve_swapout_run = (\<lambda>s. s), ve_swapout_run_idle = (\<lambda>s. s), ve_nswapdev = (\<lambda>_. 1),
     ve_swap_pager_avail = (\<lambda>_. 0), ve_vmspace = (\<lambda>_ _. Some []), ve_map_trylock_read = (\<lambda>_ _. True),
     ve_swap_count = (\<lambda>_ p. int p), ve_killproc = (\<lambda>_ s. s), ve_vm_lowmem = (\<lambda>s. s), ve_uma_reclaim = (\<lambda>s. s),
     ve_laundry_target = (\<lambda>_ _. 5), ve_paging_target = (\<lambda>_ _. 5), ve_paging_needed = (\<lambda>_ _ _. True),
     ve_pidctrl_daemon = (\<lambda>_ _ s. (3, s)), ve_pidctrl_init = (\<lambda>_ _ _ s. s), ve_pause = (\<lambda>_ s. s),
     ve_sleep_laundry = (\<lambda>_ s. s), ve_sleep_wanted = (\<lambda>_ _ s. (0, s)), ve_wakeup_laundry = (\<lambda>_ s. s),
     ve_wakeup_wanted = (\<lambda>_ s. s), ve_kthread_add = (\<lambda>_ _ s. (0, s)), ve_swap_pager_init = (\<lambda>s. s),
     ve_fcmpset = (\<lambda>lst s. if v_lowmem_ticks s = lst then (True, lst, s\<lparr>v_lowmem_ticks := v_ticks s\<rparr>)
                            else (False, v_lowmem_ticks s, s))\<rparr>"

definition page0 :: vm_page where
  "page0 = \<lparr>pg_marker = False, pg_aflags = {PGA_ENQUEUED}, pg_queue = None, pg_object = 5, pg_pindex = 0,
     pg_hold_count = 0, pg_wire_count = 0, pg_valid = 255, pg_dirty = 0, pg_act_count = 0\<rparr>"

definition pages0 :: "pgid \<Rightarrow> vm_page" where
  "pages0 m =
     (if m \<in> {10, 11, 12, 13} then page0\<lparr>pg_queue := Some PQ_LAUNDRY, pg_pindex := m, pg_dirty := 255\<rparr>
      else if m \<in> {20, 21} then page0\<lparr>pg_queue := Some PQ_ACTIVE, pg_pindex := m, pg_act_count := 1\<rparr>
      else if m \<in> {30, 31} then page0\<lparr>pg_queue := Some PQ_INACTIVE, pg_pindex := m\<rparr>
      else if m \<in> {900, 901, 905} then page0\<lparr>pg_marker := True\<rparr>
      else page0\<lparr>pg_marker := True, pg_aflags := {}\<rparr>)"

definition queue0 :: "pqueue \<Rightarrow> vm_pagequeue" where
  "queue0 q = (case q of
       PQ_ACTIVE \<Rightarrow> \<lparr>pq_pl = [900, 20, 21, 901], pq_cnt = 2, pq_pdpages = 0\<rparr>
     | PQ_INACTIVE \<Rightarrow> \<lparr>pq_pl = [30, 905, 31], pq_cnt = 2, pq_pdpages = 0\<rparr>
     | PQ_LAUNDRY \<Rightarrow> \<lparr>pq_pl = [12, 10, 11, 13], pq_cnt = 4, pq_pdpages = 0\<rparr>
     | PQ_UNSWAPPABLE \<Rightarrow> \<lparr>pq_pl = [], pq_cnt = 0, pq_pdpages = 0\<rparr>)"

definition domain0 :: vm_domain where
  "domain0 = \<lparr>vmd_pagequeues = queue0,
     vmd_markers = (\<lambda>q. case q of PQ_INACTIVE \<Rightarrow> 910 | PQ_ACTIVE \<Rightarrow> 911 | PQ_LAUNDRY \<Rightarrow> 912 | PQ_UNSWAPPABLE \<Rightarrow> 913),
     vmd_clock0 = 900, vmd_clock1 = 901, vmd_inacthead = 905, vmd_empty = False, vmd_page_count = 200000,
     vmd_free_count = 1000, vmd_interrupt_free_min = 2, vmd_free_min = 1300, vmd_pageout_free_min = 34,
     vmd_free_reserved = 326, vmd_free_severe = 800, vmd_free_target = 4300, vmd_inactive_target = 333,
     vmd_pageout_wakeup_thresh = 3870, vmd_background_launder_target = 300, vmd_pageout_deficit = 0,
     vmd_clean_pages_freed = 0, vmd_laundry_request = VM_LAUNDRY_IDLE, vmd_pageout_wanted = 0,
     vmd_last_active_scan = 0, vmd_oom = False, vmd_oom_seq = 0\<rparr>"

definition counters0 :: vm_counters where
  "counters0 = \<lparr>v_page_count = 200000, v_free_reserved = 0, v_free_target = 0, v_free_min = 0,
     v_inactive_target = 0, v_pageout_free_min = 0, v_interrupt_free_min = 0, v_free_severe = 0,
     v_reactivated = 0, v_dfree = 0, v_pdshortfalls = 0, v_pdwakeups = 0\<rparr>"

definition vm0 :: "64 vm" where
  "vm0 = \<lparr>v_pages = pages0,
     v_objects = (\<lambda>_. \<lparr>ob_type = OBJT_SWAP, ob_ref_count = 1, ob_dead = False, ob_size = 100,
       ob_resident_page_count = 8, ob_handle = 5\<rparr>),
     v_domains = (\<lambda>_. domain0), v_cnt = counters0,
     v_proc = (\<lambda>p. \<lparr>vp_normal = True, vp_killed = False, vp_pid = int p\<rparr>), v_allproc = [100, 101],
     v_k = ksys0\<lparr>k_procs := (\<lambda>_. \<lparr>p_flag = {}, p_nice = 0, p_threads = []\<rparr>)\<rparr>, v_ticks = 50000,
     v_pageout_oom_seq = 12, v_pageout_update_period = 600, v_disable_swap_pageouts = False,
     v_lowmem_period = 10, v_lowmem_ticks = 0, v_swapdev_enabled = False, v_panic_on_oom = False,
     v_pageout_lock_miss = 0, v_act_scan_laundry_weight = 3, v_background_launder_rate = 4096,
     v_background_launder_max = 20480, v_pageout_page_count = 32, v_page_max_wired = 0,
     v_pageout_oom_vote = 0\<rparr>"

lemma venv0_simps [simp]:
  "ve_op venv0 x m s = s" "ve_lock venv0 l s = s" "ve_VM_BATCHQUEUE_SIZE venv0 = 7"
  "ve_bq_insert venv0 = bq_insert0" "ve_bq_pop venv0 = bq_pop0" "ve_ndomains venv0 = 1"
  "ve_killproc venv0 p s = s" "ve_PAGE_SIZE venv0 = 4096" "ve_MAXBSIZE venv0 = 65536"
  "ve_trywlock venv0 obj s = (True, s)" "ve_page_busied venv0 s m = False"
  "ve_ts_referenced venv0 m s = (0, s)" "ve_page_queue venv0 s m = pg_queue (v_pages s m)"
  by (simp_all add: venv0_def)

lemma vm0_simps [simp]:
  "v_pages vm0 = pages0" "v_domains vm0 = (\<lambda>_. domain0)" "v_pageout_oom_vote vm0 = 0"
  "v_allproc vm0 = [100, 101]" "v_pageout_page_count vm0 = 32"
  by (simp_all add: vm0_def)

lemma domain0_simps [simp]:
  "vmd_pagequeues domain0 = queue0" "vmd_oom domain0 = False" "vmd_oom_seq domain0 = 0"
  "vmd_background_launder_target domain0 = 300" "vmd_free_target domain0 = 4300"
  "vmd_free_min domain0 = 1300" "vmd_page_count domain0 = 200000" "vmd_free_count domain0 = 1000"
  by (simp_all add: domain0_def)

end
