(* ===== verification/Pageout_Props.thy ===== *)
theory Pageout_Props
  imports Pageout_Example
begin

section \<open>Properties of the page daemon's threads\<close>

text \<open>
  The integer square root for every 32-bit number; what every round of the laundry thread keeps,
  however the rest of the kernel answers; the order of the thresholds for every amount of memory.
\<close>

subsection \<open>The integer square root\<close>

lemma unat_drop_bit_2: "unat (drop_bit 2 b :: u32) = unat b div 4"
  unfolding unat_drop_bit_eq by (simp only: drop_bit_eq_div) simp

lemma isqrt_shift_power:
  "unat b = 4 ^ k \<Longrightarrow> unat num \<noteq> 0 \<Longrightarrow> unat num < 4 ^ Suc k \<Longrightarrow>
   \<exists>j\<le>k. unat (isqrt_shift num b) = 4 ^ j \<and> unat num < 4 ^ Suc j"
proof (induction k arbitrary: b)
  case 0
  then show ?case by (subst isqrt_shift.simps) (auto simp: word_less_nat_alt)
next
  case (Suc k)
  show ?case
  proof (cases "num < b")
    case True
    have "unat (drop_bit 2 b) = 4 ^ k"
      using Suc.prems(1) by (simp only: unat_drop_bit_2) simp
    moreover have "unat num < 4 ^ Suc k" using True Suc.prems(1) by (simp add: word_less_nat_alt)
    ultimately obtain j where "j \<le> k" "unat (isqrt_shift num (drop_bit 2 b)) = 4 ^ j" "unat num < 4 ^ Suc j"
      using Suc.IH Suc.prems(2) by blast
    with True show ?thesis by (subst isqrt_shift.simps) (auto intro!: exI [of _ j])
  next
    case False
    with Suc.prems show ?thesis by (subst isqrt_shift.simps) (auto intro!: exI [of _ "Suc k"])
  qed
qed

text \<open>
  One round: \<open>P\<close> is the part of the root found so far, \<open>4 ^ k\<close> the bit that is tried.
\<close>

lemma isqrt_step:
  assumes b: "unat b = 4 ^ k" and root: "unat root = 2 * P * 2 ^ k" and num: "unat num + P ^ 2 = N"
    and N: "N < (P + 2 ^ Suc k) ^ 2" and P: "P + 2 ^ Suc k \<le> 2 ^ 16"
  shows "\<exists>P' root' num'. isqrt_loop num root b = isqrt_loop num' root' (drop_bit 2 b) \<and>
    unat root' = P' * 2 ^ k \<and> unat num' + P' ^ 2 = N \<and> N < (P' + 2 ^ k) ^ 2 \<and> P' + 2 ^ k \<le> 2 ^ 16"
proof -
  define X :: nat where "X = 2 ^ k"
  have X: "unat b = X * X" "unat root = 2 * P * X" "N < (P + 2 * X) ^ 2" "P + 2 * X \<le> 2 ^ 16" "0 < X"
    using b root N P power_mult_distrib [of "2::nat" 2 k] by (simp_all add: X_def)
  have sq: "(P + X) ^ 2 = P ^ 2 + 2 * P * X + X * X" by (simp add: power2_eq_square algebra_simps)
  have "P + X < 2 ^ 16" using X(4,5) by linarith
  then have "(P + X) ^ 2 < (2 ^ 16) ^ 2" by (rule power_strict_mono) simp_all
  then have small: "2 * P * X + X * X < 2 ^ 32" unfolding sq power_mult [symmetric] by simp
  have tmp: "unat (root + b) = 2 * P * X + X * X"
    using small by (simp add: unat_plus_if_size X(1,2) word_size)
  have half: "unat (drop_bit 1 root) = P * X"
    unfolding unat_drop_bit_eq by (simp only: drop_bit_eq_div) (simp add: X(2))
  have b0: "b \<noteq> 0" using X(1,5) by auto
  show ?thesis
  proof (cases "root + b \<le> num")
    case True
    then have le: "2 * P * X + X * X \<le> unat num" by (simp add: word_le_nat_alt tmp)
    have "unat (drop_bit 1 root + b) = (P + X) * X"
      using small by (simp add: unat_plus_if_size half [unfolded One_nat_def] X(1) word_size add_mult_distrib)
    moreover have "unat (num - (root + b)) + (P + X) ^ 2 = N"
      using True le num unfolding sq by (simp add: unat_sub tmp)
    moreover have "isqrt_loop num root b = isqrt_loop (num - (root + b)) (drop_bit 1 root + b) (drop_bit 2 b)"
      using True b0 by (subst isqrt_loop.simps) (simp add: Let_def)
    moreover have "N < (P + X + X) ^ 2" using X(3) by (simp add: mult_2 add.assoc)
    moreover have "P + X + X \<le> 2 ^ 16" using X(4) by simp
    ultimately show ?thesis unfolding X_def [symmetric] by blast
  next
    case False
    then have "unat num < 2 * P * X + X * X" by (simp add: word_le_nat_alt tmp)
    then have "N < (P + X) ^ 2" using num unfolding sq by linarith
    moreover have "isqrt_loop num root b = isqrt_loop num (drop_bit 1 root) (drop_bit 2 b)"
      using False b0 by (subst isqrt_loop.simps) (simp add: Let_def)
    moreover have "P + X \<le> 2 ^ 16" using X(4) by simp
    ultimately show ?thesis using num half unfolding X_def [symmetric] by blast
  qed
qed

lemma isqrt_loop_correct:
  assumes "unat b = 4 ^ k" and "unat root = 2 * P * 2 ^ k" and "unat num + P ^ 2 = N"
    and "N < (P + 2 ^ Suc k) ^ 2" and "P + 2 ^ Suc k \<le> 2 ^ 16"
  shows "unat (isqrt_loop num root b) ^ 2 \<le> N \<and> N < Suc (unat (isqrt_loop num root b)) ^ 2"
  using assms
proof (induction k arbitrary: b root P num)
  case 0
  from isqrt_step [OF 0] obtain P' root' num' where
    r: "isqrt_loop num root b = isqrt_loop num' root' (drop_bit 2 b)" "unat root' = P'"
      "unat num' + P' ^ 2 = N" "N < (P' + 1) ^ 2" by auto
  have "drop_bit 2 b = 0" using 0(1) by (simp add: unat_drop_bit_2 flip: unat_eq_0)
  with r show ?case by (simp add: isqrt_loop.simps [of num' root' 0])
next
  case (Suc k)
  from isqrt_step [OF Suc.prems] obtain P' root' num' where
    r: "isqrt_loop num root b = isqrt_loop num' root' (drop_bit 2 b)" "unat root' = P' * 2 ^ Suc k"
      "unat num' + P' ^ 2 = N" "N < (P' + 2 ^ Suc k) ^ 2" "P' + 2 ^ Suc k \<le> 2 ^ 16" by blast
  have "unat (drop_bit 2 b) = 4 ^ k" using Suc.prems(1) by (simp only: unat_drop_bit_2) simp
  from Suc.IH [OF this _ r(3-5)] r(2) show ?case unfolding r(1) by simp
qed

text \<open>
  C27. \<open>isqrt\<close> computes the integer square root of every 32-bit number: the largest number
  whose square does not exceed it; no step of the two loops overflows.
\<close>

theorem isqrt_correct:
  "unat (isqrt n) ^ 2 \<le> unat n \<and> unat n < Suc (unat (isqrt n)) ^ 2"
proof (cases "n = 0")
  case True
  have z: "isqrt_shift 0 b = 0" for b
  proof (induction "unat b" arbitrary: b rule: less_induct)
    case less
    then show ?case by (subst isqrt_shift.simps) (auto simp: unat_drop_bit_2_less word_gt_0)
  qed
  show ?thesis by (simp add: isqrt_def True z isqrt_loop.simps [of 0 0 0])
next
  case False
  have "unat n < 4 ^ Suc 15" using unsigned_less [of n] by simp
  moreover have "unat (push_bit 30 1 :: u32) = 4 ^ 15" by (simp add: push_bit_eq_mult)
  ultimately obtain j where j: "j \<le> 15" "unat (isqrt_shift n (push_bit 30 1)) = 4 ^ j" "unat n < 4 ^ Suc j"
    using isqrt_shift_power [of "push_bit 30 1" 15 n] False by (auto simp: unat_eq_0)
  have "(2::nat) ^ Suc j \<le> 2 ^ 16" using j(1) by (intro power_increasing) simp_all
  then show ?thesis
    unfolding isqrt_def
    using j(3) power_mult_distrib [of "2::nat" 2 "Suc j"]
    by (intro isqrt_loop_correct [OF j(2), where P = 0]) (simp_all add: power2_eq_square)
qed

subsection \<open>The laundry thread\<close>

text \<open>The states of the laundry thread between two rounds, the machine changing freely.\<close>

inductive laundry_reach :: "('w::len) venv \<Rightarrow> domid \<Rightarrow> laundry_locals \<Rightarrow> bool" for V d where
  laundry_reach_init: "laundry_reach V d (laundry_init last_target)"
| laundry_reach_round: "laundry_reach V d L \<Longrightarrow> vm_pageout_laundry_worker V d L s = Some (L', s') \<Longrightarrow>
    uint (vmd_background_launder_target (v_domains s d)) < 2 ^ 31 \<Longrightarrow> laundry_reach V d L'"

definition laundry_ok :: "laundry_locals \<Rightarrow> bool" where
  "laundry_ok L \<longleftrightarrow> 0 \<le> ll_target L \<and> ll_target L < 2 ^ 31 \<and> ll_shortfall_cycle L = 0 \<and>
     ll_shortfall L < 2 ^ 31"

lemma to_int_small: "uint x < 2 ^ 31 \<Longrightarrow> to_int x = uint x"
  unfolding to_int_def sint_uint by (rule signed_take_bit_int_eq_self) (auto intro: order_trans [OF _ uint_ge_0])

lemma to_int_less: "to_int x < 2 ^ 31"
  using sint_less [of x] by (simp add: to_int_def)

lemma target_decreases:
  assumes "0 \<le> t" and "t < 2 ^ 31"
  shows "0 \<le> to_int (word_of_int t - min n (word_of_int t))" "to_int (word_of_int t - min n (word_of_int t)) \<le> t"
proof -
  have u: "uint (word_of_int t :: u32) = t"
    using assms by (simp add: uint_word_of_int_eq take_bit_int_eq_self)
  have "uint (min n (word_of_int t)) \<le> uint (word_of_int t :: u32)" unfolding word_le_def [symmetric] by simp
  note v = iffD1 [OF uint_sub_lem this, unfolded u]
  then have "uint (word_of_int t - min n (word_of_int t)) < 2 ^ 31"
    using assms uint_ge_0 [of "min n (word_of_int t)"] by linarith
  note w = to_int_small [OF this]
  show "0 \<le> to_int (word_of_int t - min n (word_of_int t))" unfolding w by simp
  show "to_int (word_of_int t - min n (word_of_int t)) \<le> t" unfolding w v by simp
qed

lemma background_ok:
  assumes "0 \<le> ll_target L" and "ll_target L < 2 ^ 31"
    and "uint (vmd_background_launder_target (v_domains s d)) < 2 ^ 31"
    and "laundry_background V d L s = Some (n, L')"
  shows "0 \<le> ll_target L'" "ll_target L' < 2 ^ 31" "ll_shortfall_cycle L' = ll_shortfall_cycle L"
    "ll_shortfall L' = ll_shortfall L" "n \<le> ll_target L'"
  using assms uint_ge_0 [of "vmd_background_launder_target (v_domains s d)"]
  by (auto simp: laundry_background_def Let_def to_int_small not_less split: if_splits bind_splits)

lemma plan_ok:
  assumes "laundry_ok L" and "uint (vmd_background_launder_target (v_domains s d)) < 2 ^ 31"
    and "laundry_plan V d L s = Some (n, L')"
  shows "0 \<le> ll_target L'" "ll_target L' < 2 ^ 31" "ll_shortfall_cycle L' = 0" "n \<le> ll_target L'"
proof -
  have sd: "(10::int) sdiv 10 = 1" "x sdiv (1::int) = x" for x
    by (simp_all add: signed_divide_int_def sgn_mult_abs)
  show "0 \<le> ll_target L'" "ll_target L' < 2 ^ 31" "ll_shortfall_cycle L' = 0" "n \<le> ll_target L'"
    using assms background_ok [of L s d V n L']
      background_ok [of "L\<lparr>ll_in_shortfall := False, ll_target := 0\<rparr>" s d V n L']
    by (auto simp: laundry_ok_def laundry_plan_def Let_def sd split: if_splits)
qed

lemma worker_ok:
  assumes "laundry_ok L" and "uint (vmd_background_launder_target (v_domains s d)) < 2 ^ 31"
    and "vm_pageout_laundry_worker V d L s = Some (L', s')"
  shows "laundry_ok L'"
proof -
  obtain n L1 where p: "laundry_plan V d L s = Some (n, L1)"
    using assms(3) by (auto simp: vm_pageout_laundry_worker_def split: bind_splits)
  note ok = plan_ok [OF assms(1,2) p]
  obtain L2 s2 where w: "(L', s') = laundry_request_wait V d L2 s2"
    "0 \<le> ll_target L2" "ll_target L2 < 2 ^ 31" "ll_shortfall_cycle L2 = 0"
  proof (cases "n > 0")
    case True
    with assms(3) obtain k s1 where k: "vm_pageout_launder V d n (ll_in_shortfall L1) s = Some (k, s1)"
      "(L', s') = laundry_request_wait V d (L1\<lparr>ll_target := to_int (word_of_int (ll_target L1) -
         min (word_of_int k) (word_of_int (ll_target L1)))\<rparr>) (ve_pause V (ve_hz V sdiv VM_LAUNDER_RATE) s1)"
      by (auto simp: vm_pageout_laundry_worker_def p Let_def split: bind_splits)
    then show ?thesis
      using that [OF k(2)] ok(2,3) target_decreases [OF ok(1,2), of "word_of_int k"] by simp
  next
    case False
    with assms(3) have "(L', s') = laundry_request_wait V d L1 s"
      by (simp add: vm_pageout_laundry_worker_def p)
    with that ok show ?thesis by blast
  qed
  then show ?thesis
    by (auto simp: laundry_request_wait_def laundry_ok_def Let_def to_int_less [simplified])
qed

text \<open>
  C35. The assertions of the laundry thread hold in every round: its target is never negative and its
  cycle counter never below zero, and the number of pages it asks \<open>vm_pageout_launder\<close> for is at most
  the target (clustering may launder more). The division by the counter never divides by zero; the
  one by the distance of the two free-page thresholds does exactly if they are equal and the round,
  without a new shortfall, is to choose a new target. The counter is even zero after every round, so
  a shortfall is laundered in one go.
\<close>

theorem laundry_worker_invariant:
  assumes "laundry_reach V d L" and "uint (vmd_background_launder_target (v_domains s d)) < 2 ^ 31"
  shows "0 \<le> ll_target L \<and> ll_shortfall_cycle L = 0 \<and>
    (laundry_plan V d L s = None \<longleftrightarrow> vmd_free_target (v_domains s d) = vmd_free_min (v_domains s d) \<and>
       ll_shortfall L \<le> 0 \<and> (ll_in_shortfall L \<or> ll_target L = 0)) \<and>
    (\<forall>n L'. laundry_plan V d L s = Some (n, L') \<longrightarrow>
       0 \<le> ll_target L' \<and> n \<le> ll_target L' \<and> ll_shortfall_cycle L' = 0)"
proof -
  have ok: "laundry_ok L"
    using assms(1) by induction (auto simp: laundry_init_def laundry_ok_def [of "\<lparr>ll_last_target = _, ll_shortfall = _,
      ll_shortfall_cycle = _, ll_target = _, ll_in_shortfall = _, ll_nfreed = _\<rparr>"] dest: worker_ok)
  have bg: "laundry_background V d M s = None \<longleftrightarrow>
      ll_target M = 0 \<and> vmd_free_target (v_domains s d) = vmd_free_min (v_domains s d)" for M
    by (auto simp: laundry_background_def background_needed_def Let_def split: bind_splits if_splits)
  have "laundry_plan V d L s = None \<longleftrightarrow> vmd_free_target (v_domains s d) = vmd_free_min (v_domains s d) \<and>
      ll_shortfall L \<le> 0 \<and> (ll_in_shortfall L \<or> ll_target L = 0)"
    using ok by (auto simp: laundry_plan_def laundry_ok_def Let_def signed_divide_int_def bg)
  with plan_ok [OF ok assms(2)] ok show ?thesis by (auto simp: laundry_ok_def)
qed

theorem laundry_worker_invariant_witness:
  "\<exists>n L'. laundry_plan venv0 0 (laundry_init 7) vm0 = Some (n, L') \<and> n \<le> ll_target L'"
proof -
  have "uint (vmd_background_launder_target (v_domains vm0 0)) < 2 ^ 31"
    "vmd_free_target (v_domains vm0 0) \<noteq> vmd_free_min (v_domains vm0 0)" by simp_all
  with laundry_worker_invariant [of venv0 0 "laundry_init 7" vm0] laundry_reach_init show ?thesis
    by (cases "laundry_plan venv0 0 (laundry_init 7) vm0") auto
qed

subsection \<open>The thresholds\<close>

lemma unat_u32_add: "unat a + unat b < 2 ^ 32 \<Longrightarrow> unat (a + b :: u32) = unat a + unat b"
  by (simp add: unat_plus_if_size word_size)

lemma unat_u32_mult: "unat a * unat b < 2 ^ 32 \<Longrightarrow> unat (a * b :: u32) = unat a * unat b"
  using unat_mult_lem [of a b] by simp

lemma free_min_small:
  fixes p :: u32
  defines "x \<equiv> (if p > 1024 then 4 + (p - 1024) div 200 else 4)"
  shows "4 \<le> unat x" "unat x < 2 ^ 25"
proof -
  have p: "unat p < 2 ^ 32" using unsigned_less [of p] by simp
  have "4 \<le> unat x \<and> unat x < 2 ^ 25"
  proof (cases "p > 1024")
    case True
    then have le: "(1024 :: u32) \<le> p" by simp
    have d: "unat ((p - 1024) div 200) = (unat p - 1024) div 200" by (simp add: unat_div unat_sub [OF le])
    also have "\<dots> \<le> 2 ^ 32 div 200" by (rule div_le_mono) (use p in linarith)
    finally have small: "unat ((p - 1024) div 200) \<le> 2 ^ 32 div 200" .
    then have "unat (4 + (p - 1024) div 200) = 4 + unat ((p - 1024) div 200)" by (simp add: unat_u32_add)
    with small True show ?thesis by (simp add: x_def)
  qed (simp add: x_def)
  then show "4 \<le> unat x" "unat x < 2 ^ 25" by auto
qed

text \<open>The thresholds as functions of the two basic ones.\<close>

lemma thresholds_arith:
  fixes a r :: u32
  assumes "4 \<le> unat a" "unat a < 2 ^ 25" "unat r < 2 ^ 24"
  shows "unat (a div 2 + r) = unat a div 2 + unat r" "unat (a + r) = unat a + unat r"
    "unat (4 * a + r) = 4 * unat a + unat r" "unat (3 * (4 * a + r) div 2) = 3 * (4 * unat a + unat r) div 2"
    "unat ((4 * a + r) div 10 * 9) = (4 * unat a + unat r) div 10 * 9"
    "unat ((4 * a + r - (a + r)) div 10) = 3 * unat a div 10"
proof -
  have half: "unat (a div 2) = unat a div 2" by (simp add: unat_div)
  show "unat (a div 2 + r) = unat a div 2 + unat r" using assms by (simp add: unat_u32_add half)
  show min: "unat (a + r) = unat a + unat r" using assms by (simp add: unat_u32_add)
  have "unat (4 * a) = 4 * unat a" using assms by (simp add: unat_u32_mult)
  then show target: "unat (4 * a + r) = 4 * unat a + unat r" using assms by (simp add: unat_u32_add)
  have "unat (3 * (4 * a + r)) = 3 * (4 * unat a + unat r)" using assms target by (subst unat_u32_mult) simp_all
  then show "unat (3 * (4 * a + r) div 2) = 3 * (4 * unat a + unat r) div 2" by (simp add: unat_div)
  have "unat ((4 * a + r) div 10) = (4 * unat a + unat r) div 10" using target by (simp add: unat_div)
  then show "unat ((4 * a + r) div 10 * 9) = (4 * unat a + unat r) div 10 * 9"
    using assms by (subst unat_u32_mult) simp_all
  have "unat (4 * a + r - (a + r)) = 3 * unat a"
    using target min by (subst unat_sub) (simp_all add: word_le_nat_alt)
  then show "unat ((4 * a + r - (a + r)) div 10) = 3 * unat a div 10" by (simp add: unat_div)
qed

text \<open>
  C36. The thresholds of a domain are in order for every amount of memory, as long as two of the
  largest buffers together and a cluster have at most 1048576 pages each: what the daemon needs for
  itself is within the reserve, the reserve below the severe mark, that below the minimum, and the
  minimum below the target, so the division by their difference in the laundry thread is safe; the
  wakeup mark is within the target, the inactive target within a third of the free pages, a background
  laundering within a tenth of the gap.
\<close>

theorem init_thresholds_ordered:
  assumes "unat ((2 * ve_MAXBSIZE V) div ve_PAGE_SIZE V) \<le> 2 ^ 20" and "page_count \<le> 2 ^ 20"
  shows "let v = init_thresholds V page_count d
    in unat (vmd_pageout_free_min v) \<le> unat (vmd_free_reserved v) \<and>
       vmd_free_reserved v < vmd_free_severe v \<and> vmd_free_severe v < vmd_free_min v \<and>
       vmd_free_min v < vmd_free_target v \<and> vmd_free_target v \<noteq> vmd_free_min v \<and>
       vmd_pageout_wakeup_thresh v \<le> vmd_free_target v \<and>
       3 * unat (vmd_inactive_target v) \<le> unat (vmd_free_count v) \<and>
       10 * unat (vmd_background_launder_target v) \<le> unat (vmd_free_target v) - unat (vmd_free_min v) \<and>
       uint (vmd_background_launder_target v) < 2 ^ 31"
proof -
  define a where "a = (if vmd_page_count d > 1024 then 4 + (vmd_page_count d - 1024) div 200 else 4)"
  define f where "f = (2 * ve_MAXBSIZE V) div ve_PAGE_SIZE V + 2"
  define r where "r = of_nat page_count + f + vmd_page_count d div 768"
  define v where "v = init_thresholds V page_count d"
  have a: "4 \<le> unat a" "unat a < 2 ^ 25" unfolding a_def by (rule free_min_small)+
  have f: "unat f = unat ((2 * ve_MAXBSIZE V) div ve_PAGE_SIZE V) + 2"
    unfolding f_def using assms(1) by (subst unat_u32_add) simp_all
  have pc: "unat (of_nat page_count :: u32) = page_count"
    using assms(2) by (simp add: unat_of_nat take_bit_nat_eq_self)
  have "unat (vmd_page_count d) < 2 ^ 32" using unsigned_less [of "vmd_page_count d"] by simp
  then have "unat (vmd_page_count d) div 768 \<le> 2 ^ 32 div 768" by (intro div_le_mono) linarith
  then have q: "unat (vmd_page_count d div 768) \<le> 2 ^ 23" by (simp add: unat_div)
  have r1: "unat (of_nat page_count + f) = page_count + unat f"
    using assms f pc by (subst unat_u32_add) simp_all
  have r: "unat r = page_count + unat f + unat (vmd_page_count d div 768)"
    unfolding r_def using assms f q r1 by (subst unat_u32_add) simp_all
  have small: "unat r < 2 ^ 24" using r assms f q by simp
  note w = thresholds_arith [OF a small]
  have fields: "vmd_pageout_free_min v = f" "vmd_free_reserved v = r" "vmd_free_severe v = a div 2 + r"
    "vmd_free_min v = a + r" "vmd_free_target v = 4 * a + r" "vmd_free_count v = vmd_free_count d"
    "vmd_inactive_target v = (if 3 * (4 * a + r) div 2 > vmd_free_count d div 3 then vmd_free_count d div 3
      else 3 * (4 * a + r) div 2)"
    "vmd_pageout_wakeup_thresh v = (4 * a + r) div 10 * 9"
    "vmd_background_launder_target v = (4 * a + r - (a + r)) div 10"
    by (simp_all add: v_def init_thresholds_def Let_def a_def f_def r_def)
  have "vmd_inactive_target v \<le> vmd_free_count d div 3" unfolding fields(7) by (simp add: not_less)
  then have inactive: "3 * unat (vmd_inactive_target v) \<le> unat (vmd_free_count d)"
    unfolding word_le_nat_alt unat_div by simp
  have "3 * unat a div 10 < 2 ^ 31" using a(2) by simp
  then have launder: "uint ((4 * a + r - (a + r)) div 10) < 2 ^ 31" unfolding uint_nat w(6) by (simp only: of_nat_less_numeral_power_cancel_iff)
  have own: "unat f \<le> unat r" using r by linarith
  have order: "r < a div 2 + r" "a div 2 + r < a + r" "a + r < 4 * a + r" "(4 * a + r) div 10 * 9 \<le> 4 * a + r"
    unfolding word_less_nat_alt word_le_nat_alt w using a(1) by linarith+
  have "10 * unat ((4 * a + r - (a + r)) div 10) \<le> unat (4 * a + r) - unat (a + r)" unfolding w by linarith
  with inactive launder own order show ?thesis
    unfolding Let_def v_def [symmetric] fields(1-6,8,9) by (intro conjI) (simp_all only: less_imp_neq not_False_eq_True order.strict_implies_not_eq)
qed

theorem init_thresholds_ordered_witness:
  "let v = init_thresholds venv0 32 domain0 in vmd_free_severe v < vmd_free_min v \<and> vmd_free_min v < vmd_free_target v"
proof -
  have "unat ((2 * ve_MAXBSIZE venv0) div ve_PAGE_SIZE venv0) \<le> 2 ^ 20" by (simp add: unat_div)
  from init_thresholds_ordered [OF this, of 32 domain0] show ?thesis by (simp add: Let_def)
qed

end
