(* ===== verification/Pageout_Oom_Props.thy ===== *)
theory Pageout_Oom_Props
  imports Pageout_Example
begin

section \<open>Properties of the out-of-memory killer\<close>

text \<open>
  The victim is the first of the largest processes that may be killed; the vote counter agrees
  with the votes, so nobody is killed before every domain has voted.
\<close>

subsection \<open>The victim\<close>

definition oom_le :: "('w::len) venv \<Rightarrow> oom_shortage \<Rightarrow> 'w vm \<Rightarrow> int \<Rightarrow> Threads.pid list \<Rightarrow> bool" where
  "oom_le V shortage s z ps \<longleftrightarrow> (\<forall>p\<in>set ps. \<forall>y. oom_size V shortage s p = Some y \<longrightarrow> y \<le> z)"

lemma oom_le_simps [simp]:
  "oom_le V shortage s z []"
  "oom_le V shortage s z (p # ps) \<longleftrightarrow>
     (\<forall>y. oom_size V shortage s p = Some y \<longrightarrow> y \<le> z) \<and> oom_le V shortage s z ps"
  by (simp_all add: oom_le_def)

text \<open>The walk keeps its candidate or ends with a larger one; the first of the largest wins.\<close>

lemma oom_select_cases:
  "(oom_select V shortage s ps b z = b \<and> oom_le V shortage s z ps) \<or>
   (\<exists>p y us vs. oom_select V shortage s ps b z = Some p \<and> ps = us @ p # vs \<and>
     oom_size V shortage s p = Some y \<and> z < y \<and> oom_le V shortage s (y - 1) us \<and> oom_le V shortage s y vs)"
proof (induction ps arbitrary: b z)
  case (Cons q ps)
  show ?case
  proof (cases "\<exists>y. oom_size V shortage s q = Some y \<and> z < y")
    case True
    then obtain y where y: "oom_size V shortage s q = Some y" "z < y" by blast
    from Cons.IH [of "Some q" y] show ?thesis
    proof (elim disjE exE conjE)
      assume "oom_select V shortage s ps (Some q) y = Some q" "oom_le V shortage s y ps"
      with y show ?thesis by (intro disjI2 exI [of _ q] exI [of _ y] exI [of _ "[]"] exI [of _ ps]) simp
    next
      fix p x us vs
      assume "oom_select V shortage s ps (Some q) y = Some p" "ps = us @ p # vs" "oom_size V shortage s p = Some x"
        "y < x" "oom_le V shortage s (x - 1) us" "oom_le V shortage s x vs"
      with y show ?thesis by (intro disjI2 exI [of _ p] exI [of _ x] exI [of _ "q # us"] exI [of _ vs]) simp
    qed
  next
    case False
    then have q: "oom_select V shortage s (q # ps) b z = oom_select V shortage s ps b z"
      "\<forall>y. oom_size V shortage s q = Some y \<longrightarrow> y \<le> z" by (auto split: option.split)
    from Cons.IH [of b z] show ?thesis
    proof (elim disjE exE conjE)
      assume "oom_select V shortage s ps b z = b" "oom_le V shortage s z ps"
      with q show ?thesis by simp
    next
      fix p x us vs
      assume "oom_select V shortage s ps b z = Some p" "ps = us @ p # vs" "oom_size V shortage s p = Some x"
        "z < x" "oom_le V shortage s (x - 1) us" "oom_le V shortage s x vs"
      with q show ?thesis by (intro disjI2 exI [of _ p] exI [of _ x] exI [of _ "q # us"] exI [of _ vs]) auto
    qed
  qed
qed simp

text \<open>
  C34. The out-of-memory killer kills the largest process that it may kill, the first one among
  equals, and then raises its priority; it spares system, protected and dying processes,
  \<^verbatim>\<open>init\<close>, and those with a thread in a state it does not understand. It changes nothing if no
  process has any page to give back, and panics only if it was told to.
\<close>

theorem vm_pageout_oom_kills_largest:
  assumes "\<not> v_panic_on_oom s"
  shows "(vm_pageout_oom V shortage s = Some s \<and>
       (\<forall>p\<in>set (v_allproc s). \<forall>y. oom_size V shortage s p = Some y \<longrightarrow> y \<le> 0)) \<or>
     (\<exists>p y us vs. v_allproc s = us @ p # vs \<and> oom_size V shortage s p = Some y \<and> 0 < y \<and>
       \<not> oom_protected V s p \<and> \<not> oom_breakout s p \<and>
       (\<forall>q\<in>set us. \<forall>x. oom_size V shortage s q = Some x \<longrightarrow> x < y) \<and>
       (\<forall>q\<in>set vs. \<forall>x. oom_size V shortage s q = Some x \<longrightarrow> x \<le> y) \<and>
       vm_pageout_oom V shortage s =
         map_option (\<lambda>k. (ve_killproc V p s)\<lparr>v_k := k\<rparr>)
           (sched_nice (ve_kenv V) (ve_self V) p (ve_PRIO_MIN V) (v_k (ve_killproc V p s))))"
  using oom_select_cases [of V shortage s "v_allproc s" None 0]
proof (elim disjE exE conjE)
  assume "oom_select V shortage s (v_allproc s) None 0 = None" "oom_le V shortage s 0 (v_allproc s)"
  then show ?thesis by (intro disjI1) (simp add: vm_pageout_oom_def oom_le_def)
next
  fix p y us vs
  assume p: "oom_select V shortage s (v_allproc s) None 0 = Some p" "v_allproc s = us @ p # vs"
    "oom_size V shortage s p = Some y" "0 < y" "oom_le V shortage s (y - 1) us" "oom_le V shortage s y vs"
  have "vm_pageout_oom V shortage s = map_option (\<lambda>k. (ve_killproc V p s)\<lparr>v_k := k\<rparr>)
      (sched_nice (ve_kenv V) (ve_self V) p (ve_PRIO_MIN V) (v_k (ve_killproc V p s)))"
    using assms p(1) by (simp add: vm_pageout_oom_def Let_def map_conv_bind_option comp_def)
  moreover have "\<not> oom_protected V s p" "\<not> oom_breakout s p" using p(3) by (auto simp: oom_size_def)
  moreover have "\<forall>q\<in>set us. \<forall>x. oom_size V shortage s q = Some x \<longrightarrow> x < y" using p(5) by (auto simp: oom_le_def)
  moreover have "\<forall>q\<in>set vs. \<forall>x. oom_size V shortage s q = Some x \<longrightarrow> x \<le> y" using p(6) by (simp add: oom_le_def)
  ultimately show ?thesis using p(2-4) by (intro disjI2) blast
qed

lemma oom_size0: "oom_size venv0 VM_OOM_MEM vm0 100 = Some 100" "oom_size venv0 VM_OOM_MEM vm0 101 = Some 101"
  by (simp_all add: oom_size_def oom_protected_def oom_breakout_def venv0_def vm0_def vm_pageout_oom_pagecount_def)

theorem vm_pageout_oom_kills_largest_witness:
  "\<exists>k. sched_nice kenv0 0 101 (- 20) (v_k vm0) = Some k \<and> vm_pageout_oom venv0 VM_OOM_MEM vm0 = Some (vm0\<lparr>v_k := k\<rparr>)"
proof -
  have k: "sched_nice kenv0 0 p (- 20) (v_k vm0) \<noteq> None" for p by (simp add: sched_nice_def vm0_def)
  have "\<not> v_panic_on_oom vm0" by (simp add: vm0_def)
  from vm_pageout_oom_kills_largest [OF this, of venv0 VM_OOM_MEM] show ?thesis
  proof (elim disjE exE conjE)
    assume "\<forall>p\<in>set (v_allproc vm0). \<forall>y. oom_size venv0 VM_OOM_MEM vm0 p = Some y \<longrightarrow> y \<le> 0"
    then show ?thesis using oom_size0 by auto
  next
    fix p y us vs
    assume a: "v_allproc vm0 = us @ p # vs" "oom_size venv0 VM_OOM_MEM vm0 p = Some y"
      "\<forall>q\<in>set vs. \<forall>x. oom_size venv0 VM_OOM_MEM vm0 q = Some x \<longrightarrow> x \<le> y"
      "vm_pageout_oom venv0 VM_OOM_MEM vm0 = map_option (\<lambda>k. (ve_killproc venv0 p vm0)\<lparr>v_k := k\<rparr>)
        (sched_nice (ve_kenv venv0) (ve_self venv0) p (ve_PRIO_MIN venv0) (v_k (ve_killproc venv0 p vm0)))"
    have "p = 101" using a(1-3) oom_size0 by (auto simp: Cons_eq_append_conv)
    with a(4) k [of 101] show ?thesis by (auto simp: venv0_def)
  qed
qed

subsection \<open>The vote\<close>

definition voters :: "('w::len) venv \<Rightarrow> 'w vm \<Rightarrow> domid set" where
  "voters V s = {d. d < ve_ndomains V \<and> vmd_oom (v_domains s d)}"

definition same_votes :: "('w::len) vm \<Rightarrow> 'w vm \<Rightarrow> bool" where
  "same_votes s s' \<longleftrightarrow> (\<forall>d. vmd_oom (v_domains s' d) = vmd_oom (v_domains s d)) \<and>
     v_pageout_oom_vote s' = v_pageout_oom_vote s"

text \<open>The page daemons call \<^verbatim>\<open>vm_pageout_mightbe_oom\<close> in any order; the rest of the kernel does not vote.\<close>

inductive oom_reach :: "('w::len) venv \<Rightarrow> 'w vm \<Rightarrow> bool" for V where
  oom_reach_init: "voters V s = {} \<Longrightarrow> v_pageout_oom_vote s = 0 \<Longrightarrow> oom_reach V s"
| oom_reach_vote: "oom_reach V s \<Longrightarrow> d < ve_ndomains V \<Longrightarrow>
    vm_pageout_mightbe_oom V d page_shortage starting s = Some s' \<Longrightarrow> oom_reach V s'"
| oom_reach_other: "oom_reach V s \<Longrightarrow> same_votes s s' \<Longrightarrow> oom_reach V s'"

definition votes_ok :: "('w::len) venv \<Rightarrow> 'w vm \<Rightarrow> bool" where
  "votes_ok V s \<longleftrightarrow> v_pageout_oom_vote s = int (card (voters V s))"

lemma finite_voters [simp]: "finite (voters V s)"
  by (simp add: voters_def)

lemma same_votes_ok: "same_votes s s' \<Longrightarrow> votes_ok V s' = votes_ok V s"
  by (simp add: same_votes_def votes_ok_def voters_def)

lemma cast_ok:
  assumes "votes_ok V s" and "d < ve_ndomains V" and "vmd_oom (v_domains s d) \<noteq> b"
  shows "votes_ok V (oom_cast d b s)"
proof -
  have o: "vmd_oom (v_domains (oom_cast d c s) e) = (if e = d then c else vmd_oom (v_domains s e))"
    and v: "v_pageout_oom_vote (oom_cast d c s) = v_pageout_oom_vote s + (if c then 1 else - 1)" for c e
    by (simp_all add: oom_cast_def)
  show ?thesis
  proof (cases b)
    case True
    have "voters V (oom_cast d True s) = insert d (voters V s)"
      unfolding voters_def o using assms(2) by auto
    moreover have "d \<notin> voters V s" using assms(3) True by (simp add: voters_def)
    ultimately have "card (voters V (oom_cast d True s)) = Suc (card (voters V s))" by simp
    then show ?thesis using assms(1) True unfolding votes_ok_def v by simp
  next
    case False
    have "voters V (oom_cast d False s) = voters V s - {d}" unfolding voters_def o by auto
    moreover have "d \<in> voters V s" using assms(2,3) False by (simp add: voters_def)
    ultimately have "Suc (card (voters V (oom_cast d False s))) = card (voters V s)"
      using card_Suc_Diff1 [OF finite_voters] by metis
    then show ?thesis using assms(1) False unfolding votes_ok_def v by simp
  qed
qed

lemma oom_same_votes:
  assumes "\<And>p a. same_votes a (ve_killproc V p a)" and "vm_pageout_oom V shortage s = Some s'"
  shows "same_votes s s'"
proof (cases "oom_select V shortage s (v_allproc s) None 0")
  case None
  with assms(2) have "s' = s" by (simp add: vm_pageout_oom_def)
  then show ?thesis by (simp add: same_votes_def)
next
  case (Some p)
  with assms(2) obtain k where "s' = (ve_killproc V p s)\<lparr>v_k := k\<rparr>"
    by (auto simp: vm_pageout_oom_def Let_def split: if_splits bind_splits)
  with assms(1) [of s p] show ?thesis by (simp add: same_votes_def)
qed

lemma oom_vote_votes:
  assumes kill: "\<And>p a. same_votes a (ve_killproc V p a)" and d: "d < ve_ndomains V" and ok: "votes_ok V s"
    and new: "\<not> vmd_oom (v_domains s d)" and r: "oom_vote V d s = Some s'"
  shows "votes_ok V s'"
proof -
  have ok1: "votes_ok V (oom_cast d True s)" using cast_ok [OF ok d] new by simp
  show ?thesis
  proof (cases "v_pageout_oom_vote s = int (ve_ndomains V) - 1")
    case True
    with r obtain s4 where s4: "vm_pageout_oom V VM_OOM_MEM (oom_cast d True s) = Some s4" "s' = oom_cast d False s4"
      by (auto simp: oom_vote_def Let_def split: bind_splits)
    note same = oom_same_votes [OF kill s4(1)]
    have "vmd_oom (v_domains s4 d)" using same by (simp add: same_votes_def oom_cast_def)
    with cast_ok [of V s4 d False] d ok1 same_votes_ok [OF same] show ?thesis by (simp add: s4(2))
  next
    case False
    with r ok1 show ?thesis by (simp add: oom_vote_def)
  qed
qed

lemma mightbe_oom_votes:
  assumes kill: "\<And>p a. same_votes a (ve_killproc V p a)" and d: "d < ve_ndomains V" and ok: "votes_ok V s"
    and r: "vm_pageout_mightbe_oom V d page_shortage starting s = Some s'"
  shows "votes_ok V s'"
proof -
  let ?s1 = "oom_count d page_shortage starting s"
  let ?s2 = "upd_domain d (\<lambda>v. v\<lparr>vmd_oom_seq := 0\<rparr>) ?s1"
  have same: "same_votes s ?s1" "same_votes s ?s2" by (simp_all add: same_votes_def oom_count_def)
  have ok1: "votes_ok V ?s1" "votes_ok V ?s2"
    by (simp_all only: same_votes_ok [OF same(1)] same_votes_ok [OF same(2)] ok)
  show ?thesis
  proof (cases "vmd_oom_seq (v_domains ?s1 d) < v_pageout_oom_seq ?s1")
    case True
    then have "s' = (if vmd_oom (v_domains ?s1 d) then oom_cast d False ?s1 else ?s1)"
      using r unfolding vm_pageout_mightbe_oom_def Let_def by (simp only: if_True option.inject)
    then show ?thesis using cast_ok [OF ok1(1) d, of False] ok1(1) by (simp only: split: if_splits) simp_all
  next
    case False
    then have r2: "(if vmd_oom (v_domains ?s2 d) then Some ?s2 else oom_vote V d ?s2) = Some s'"
      using r unfolding vm_pageout_mightbe_oom_def Let_def by (simp only: if_False)
    show ?thesis
    proof (cases "vmd_oom (v_domains ?s2 d)")
      case True
      with r2 ok1(2) show ?thesis by (simp only: if_True option.inject)
    next
      case False
      with r2 have "oom_vote V d ?s2 = Some s'" by (simp only: if_False)
      with oom_vote_votes [OF kill d ok1(2) False] show ?thesis .
    qed
  qed
qed

text \<open>
  C9. The vote to kill is counted right: in every state that the page daemons can reach, the
  counter is the number of domains whose daemon has voted, each once; so a daemon reaches the
  killer, and a process is touched, only if the daemons of all other domains have voted too.
\<close>

theorem oom_votes_counted:
  assumes "\<And>p a. same_votes a (ve_killproc V p a)" and "oom_reach V s"
    and "d < ve_ndomains V" and "e < ve_ndomains V" and "e \<noteq> d" and "\<not> vmd_oom (v_domains s e)"
  shows "v_pageout_oom_vote s = int (card (voters V s)) \<and>
    (\<exists>s'. vm_pageout_mightbe_oom V d page_shortage starting s = Some s' \<and> v_k s' = v_k s \<and> v_proc s' = v_proc s)"
proof -
  have ok: "votes_ok V s"
    using assms(2)
  proof induction
    case (oom_reach_init s)
    then show ?case by (simp add: votes_ok_def)
  next
    case (oom_reach_vote s d page_shortage starting s')
    then show ?case using mightbe_oom_votes [OF assms(1)] by blast
  next
    case (oom_reach_other s s')
    then show ?case using same_votes_ok by blast
  qed
  have few: "v_pageout_oom_vote s \<noteq> int (ve_ndomains V) - 1 \<or> vmd_oom (v_domains s d)"
  proof (rule disjCI)
    assume "\<not> vmd_oom (v_domains s d)"
    then have "voters V s \<subseteq> {0..<ve_ndomains V} - {d, e}" using assms(6) by (auto simp: voters_def)
    from card_mono [OF _ this] have "card (voters V s) \<le> card ({0..<ve_ndomains V} - {d, e})" by simp
    also have "\<dots> = ve_ndomains V - 2" using assms(3-5) by (simp add: card_Diff_subset)
    finally show "v_pageout_oom_vote s \<noteq> int (ve_ndomains V) - 1" using ok assms(3-5) by (simp add: votes_ok_def)
  qed
  have "\<exists>s'. vm_pageout_mightbe_oom V d page_shortage starting s = Some s' \<and> v_k s' = v_k s \<and> v_proc s' = v_proc s"
    using few by (auto simp: vm_pageout_mightbe_oom_def oom_vote_def oom_count_def oom_cast_def Let_def)
  with ok show ?thesis by (simp add: votes_ok_def)
qed

theorem oom_votes_counted_witness:
  "v_pageout_oom_vote vm0 = int (card (voters (venv0\<lparr>ve_ndomains := 2\<rparr>) vm0))"
proof -
  have "oom_reach (venv0\<lparr>ve_ndomains := 2\<rparr>) vm0" by (rule oom_reach_init) (simp_all add: voters_def)
  moreover have "same_votes a (ve_killproc (venv0\<lparr>ve_ndomains := 2\<rparr>) p a)" for p a by (simp add: same_votes_def)
  ultimately show ?thesis using oom_votes_counted [of "venv0\<lparr>ve_ndomains := 2\<rparr>" vm0 0 1] by simp
qed

end
