(* ===== verification/Pageout_Clean_Props.thy ===== *)
theory Pageout_Clean_Props
  imports Pageout_Example
begin

section \<open>Properties of laundering\<close>

text \<open>
  A cluster is a gapless run of pages that may be written, within its array. The lock of the object
  is held throughout, and it is all that is assumed of the other threads: while a page lock is waited
  for, they may hold, wire or requeue any page, and clear or set anything the object lock does not
  protect.
\<close>

subsection \<open>The cluster around a page\<close>

definition place :: "('w::len) vm \<Rightarrow> pgid \<Rightarrow> objid \<times> nat" where
  "place s p = (pg_object (v_pages s p), pg_pindex (v_pages s p))"

text \<open>A page that may be written out with its neighbours.\<close>

definition unwritten :: "('w::len) venv \<Rightarrow> 'w vm \<Rightarrow> pgid \<Rightarrow> bool" where
  "unwritten V s p \<longleftrightarrow> \<not> ve_page_busied V s p \<and> pg_dirty (v_pages s p) \<noteq> 0"

definition washable :: "('w::len) venv \<Rightarrow> 'w vm \<Rightarrow> pgid \<Rightarrow> bool" where
  "washable V s p \<longleftrightarrow> unwritten V s p \<and> \<not> ve_page_held V s p \<and> ve_page_in_laundry V s p"

text \<open>
  What the lock of the object \<open>ob\<close> protects: its pages keep their place, are not busied by others
  and not cleaned. \<^verbatim>\<open>vm_page_prev\<close> and \<^verbatim>\<open>vm_page_next\<close> give the pages at the adjacent offsets
  of the same object.
\<close>

definition keeps_pages :: "('w::len) venv \<Rightarrow> objid \<Rightarrow> ('w vm \<Rightarrow> 'w vm) \<Rightarrow> bool" where
  "keeps_pages V ob f \<longleftrightarrow> (\<forall>s p. pg_object (v_pages s p) = ob \<longrightarrow>
     place (f s) p = place s p \<and> (unwritten V s p \<longrightarrow> unwritten V (f s) p) \<and>
     (\<not> ve_page_busied V s p \<longrightarrow> \<not> ve_page_busied V (f s) p))"

definition cluster_quiet :: "('w::len) venv \<Rightarrow> objid \<Rightarrow> bool" where
  "cluster_quiet V ob \<longleftrightarrow>
     (\<forall>m. keeps_pages V ob (ve_op V vm_page_test_dirty m) \<and> keeps_pages V ob (ve_op V pmap_remove_write m) \<and>
        keeps_pages V ob (ve_lock V (Page_lock m))) \<and>
     (\<forall>s p q. pg_object (v_pages s p) = ob \<longrightarrow> ve_page_prev V s p = Some q \<longrightarrow>
        pg_object (v_pages s q) = ob \<and> pg_pindex (v_pages s p) = Suc (pg_pindex (v_pages s q))) \<and>
     (\<forall>s p q. pg_object (v_pages s p) = ob \<longrightarrow> ve_page_next V s p = Some q \<longrightarrow>
        pg_object (v_pages s q) = ob \<and> pg_pindex (v_pages s q) = Suc (pg_pindex (v_pages s p)))"

text \<open>
  The steps while a cluster grows, each with what the other threads do meanwhile; a page joins when
  it is washable once its own lock is held, and is made read-only before that lock is dropped.
\<close>

inductive cluster_step :: "('w::len) venv \<Rightarrow> 'w vm \<Rightarrow> 'w vm \<Rightarrow> bool" for V where
  "cluster_step V s (ve_op V vm_page_test_dirty p s)"
| "cluster_step V s (ve_op V pmap_remove_write p s)"
| "cluster_step V s (ve_lock V (Page_lock p) s)"

abbreviation cluster_run :: "('w::len) venv \<Rightarrow> 'w vm \<Rightarrow> 'w vm \<Rightarrow> bool" where
  "cluster_run V \<equiv> (cluster_step V)\<^sup>*\<^sup>*"

definition joined :: "('w::len) venv \<Rightarrow> 'w vm \<Rightarrow> 'w vm \<Rightarrow> pgid \<Rightarrow> bool" where
  "joined V s s' p \<longleftrightarrow> (\<exists>t. cluster_run V s t \<and> washable V (ve_lock V (Page_lock p) t) p \<and>
     cluster_run V (ve_op V pmap_remove_write p (ve_lock V (Page_lock p) t)) s')"

lemma joined_mono: "joined V s s' p \<Longrightarrow> cluster_run V r s \<Longrightarrow> cluster_run V s' t \<Longrightarrow> joined V r t p"
  unfolding joined_def by (meson rtranclp_trans)

lemma keeps_pagesD:
  assumes "keeps_pages V ob f" "pg_object (v_pages s p) = ob"
  shows "place (f s) p = place s p" "unwritten V s p \<Longrightarrow> unwritten V (f s) p"
    "\<not> ve_page_busied V s p \<Longrightarrow> \<not> ve_page_busied V (f s) p"
  using assms by (simp_all add: keeps_pages_def)

lemma cluster_step_keeps:
  assumes "cluster_quiet V ob" "cluster_step V s t" "pg_object (v_pages s p) = ob"
  shows "place t p = place s p \<and> (unwritten V s p \<longrightarrow> unwritten V t p)"
proof -
  have "\<exists>f. keeps_pages V ob f \<and> t = f s"
    using assms(1,2) unfolding cluster_quiet_def by (auto elim!: cluster_step.cases)
  then show ?thesis using keeps_pagesD(1,2) [OF _ assms(3)] by blast
qed

lemma cluster_run_keeps:
  assumes "cluster_quiet V ob" "cluster_run V s t" "pg_object (v_pages s p) = ob"
  shows "place t p = place s p \<and> (unwritten V s p \<longrightarrow> unwritten V t p)"
  using assms(2)
proof (induction rule: rtranclp_induct)
  case (step t u)
  then have "pg_object (v_pages t p) = ob" using assms(3) by (simp add: place_def)
  from cluster_step_keeps [OF assms(1) step(2) this] step(3) show ?case by simp
qed simp

lemma cluster_neighbour:
  assumes "cluster_quiet V ob" "pg_object (v_pages s p) = ob"
  shows "ve_page_prev V s p = Some q \<Longrightarrow>
      pg_object (v_pages s q) = ob \<and> pg_pindex (v_pages s p) = Suc (pg_pindex (v_pages s q))"
    "ve_page_next V s p = Some q \<Longrightarrow>
      pg_object (v_pages s q) = ob \<and> pg_pindex (v_pages s q) = Suc (pg_pindex (v_pages s p))"
  using assms unfolding cluster_quiet_def by blast+

lemma cluster_take_effect:
  assumes "cluster_quiet V ob" "pg_object (v_pages s p) = ob" and "cluster_take V p s = (ok, s')"
  shows "cluster_run V s s'" "ok \<Longrightarrow> joined V s s' p \<and> unwritten V s' p"
proof -
  let ?t = "ve_op V vm_page_test_dirty p s"
  let ?u = "ve_lock V (Page_lock p) ?t"
  let ?v = "ve_op V pmap_remove_write p ?u"
  have tu: "cluster_run V ?t ?u" by (rule r_into_rtranclp) (rule cluster_step.intros)
  have uv: "cluster_run V ?u ?v" by (rule r_into_rtranclp) (rule cluster_step.intros)
  have st: "cluster_run V s ?t" by (rule r_into_rtranclp) (rule cluster_step.intros)
  note r = st rtranclp_trans [OF st tu] rtranclp_trans [OF rtranclp_trans [OF st tu] uv]
  show "cluster_run V s s'" using assms(3) r by (auto simp: cluster_take_def Let_def split: if_splits)
  show "joined V s s' p \<and> unwritten V s' p" if ok
  proof -
    have c: "\<not> ve_page_busied V s p" "pg_dirty (v_pages ?t p) \<noteq> 0" "\<not> ve_page_held V ?u p" "ve_page_in_laundry V ?u p"
      "s' = ve_op V pmap_remove_write p ?u"
      using assms(3) that by (auto simp: cluster_take_def Let_def split: if_splits)
    have k: "keeps_pages V ob (ve_op V vm_page_test_dirty p)" using assms(1) by (simp add: cluster_quiet_def)
    have t: "unwritten V ?t p" using c(1,2) keeps_pagesD(3) [OF k assms(2)] by (simp add: unwritten_def)
    have ob: "pg_object (v_pages ?t p) = ob" using keeps_pagesD(1) [OF k assms(2)] assms(2) by (simp add: place_def)
    have "unwritten V ?u p" "unwritten V s' p"
      using cluster_run_keeps [OF assms(1) tu ob] cluster_run_keeps [OF assms(1) rtranclp_trans [OF tu uv] ob] t c(5)
      by simp_all
    then show ?thesis using c(3-5) r(1) unfolding joined_def washable_def by blast
  qed
qed

text \<open>
  The cluster as it grows: the pages at the offsets from the first page to the last, without a
  hole, the given page among them, all but it joined since the start; \<open>page_base\<close> is the index
  of the first.
\<close>

definition cluster_inv ::
  "('w::len) venv \<Rightarrow> 'w vm \<Rightarrow> pgid \<Rightarrow> objid \<Rightarrow> nat \<Rightarrow> pgid \<Rightarrow> pgid \<Rightarrow> int \<Rightarrow> pgid list \<Rightarrow> 'w vm \<Rightarrow> bool" where
  "cluster_inv V s0 m object pc pb ps b mc s \<longleftrightarrow> cluster_run V s0 s \<and>
     (\<exists>k n. map (place s) mc = map (Pair object) [k..<k + length mc] \<and> mc \<noteq> [] \<and> hd mc = pb \<and> last mc = ps \<and>
        b = int pc - int n \<and> n < length mc \<and> mc ! n = m \<and> length mc \<le> max 1 pc \<and>
        (\<forall>p\<in>set mc - {m}. joined V s0 s p \<and> unwritten V s p))"

lemma place_run_object:
  assumes "map (place s) mc = map (Pair object) ks" "p \<in> set mc"
  shows "pg_object (v_pages s p) = object"
proof -
  have "place s p \<in> set (map (place s) mc)" using assms(2) by simp
  then show ?thesis unfolding assms(1) by (auto simp: place_def)
qed

lemma cluster_inv_object:
  "cluster_inv V s0 m object pc pb ps b mc s \<Longrightarrow> pg_object (v_pages s pb) = object \<and> pg_object (v_pages s ps) = object"
  unfolding cluster_inv_def using place_run_object by (metis hd_in_set last_in_set)

lemma cluster_inv_run:
  assumes "cluster_quiet V object" "cluster_run V s s'" and "cluster_inv V s0 m object pc pb ps b mc s"
  shows "cluster_inv V s0 m object pc pb ps b mc s'"
proof -
  from assms(3) obtain k n where c: "cluster_run V s0 s" "map (place s) mc = map (Pair object) [k..<k + length mc]"
    "mc \<noteq> []" "hd mc = pb" "last mc = ps" "b = int pc - int n" "n < length mc" "mc ! n = m" "length mc \<le> max 1 pc"
    "\<forall>p\<in>set mc - {m}. joined V s0 s p \<and> unwritten V s p" unfolding cluster_inv_def by blast
  have k: "place s' p = place s p \<and> (unwritten V s p \<longrightarrow> unwritten V s' p)" if "p \<in> set mc" for p
    using cluster_run_keeps [OF assms(1,2)] place_run_object [OF c(2) that] by blast
  then have "map (place s') mc = map (Pair object) [k..<k + length mc]" unfolding c(2) [symmetric] by simp
  moreover have "\<forall>p\<in>set mc - {m}. joined V s0 s' p \<and> unwritten V s' p"
    using c(10) k joined_mono [OF _ rtranclp.rtrancl_refl assms(2)] by blast
  moreover have "cluster_run V s0 s'" using c(1) assms(2) by (rule rtranclp_trans)
  ultimately show ?thesis using c(3-9) unfolding cluster_inv_def by blast
qed

lemma cluster_inv_prepend:
  assumes "cluster_inv V s0 m object pc pb ps b mc s" and "length mc < pc" and "joined V s0 s p \<and> unwritten V s p"
    and "pg_object (v_pages s p) = pg_object (v_pages s pb)" "pg_pindex (v_pages s pb) = Suc (pg_pindex (v_pages s p))"
  shows "cluster_inv V s0 m object pc p ps (b - 1) (p # mc) s"
proof -
  obtain k n where c: "map (place s) mc = map (Pair object) [k..<k + length mc]" "mc \<noteq> []" "hd mc = pb" "last mc = ps"
    "b = int pc - int n" "n < length mc" "mc ! n = m" "\<forall>p\<in>set mc - {m}. joined V s0 s p \<and> unwritten V s p"
    "cluster_run V s0 s" using assms(1) unfolding cluster_inv_def by blast
  have "hd (map (place s) mc) = (object, k)" unfolding c(1) using c(2) by (simp add: hd_map upt_conv_Cons)
  then have "place s pb = (object, k)" using c(2,3) by (simp add: hd_map)
  then obtain j where j: "k = Suc j" "place s p = (object, j)" using assms(4,5) by (auto simp: place_def)
  have "[j..<j + length (p # mc)] = j # [k..<k + length mc]" by (simp add: j(1) upt_conv_Cons del: upt_Suc)
  then have "map (place s) (p # mc) = map (Pair object) [j..<j + length (p # mc)]"
    using c(1) j(2) by (simp del: upt_Suc)
  with c assms(2,3) show ?thesis
    unfolding cluster_inv_def by (intro conjI exI [of _ j] exI [of _ "Suc n"]) auto
qed

lemma cluster_inv_append:
  assumes "cluster_inv V s0 m object pc pb ps b mc s" and "length mc < pc" and "joined V s0 s p \<and> unwritten V s p"
    and "pg_object (v_pages s p) = pg_object (v_pages s ps)" "pg_pindex (v_pages s p) = Suc (pg_pindex (v_pages s ps))"
  shows "cluster_inv V s0 m object pc pb p b (mc @ [p]) s"
proof -
  obtain k n where c: "map (place s) mc = map (Pair object) [k..<k + length mc]" "mc \<noteq> []" "hd mc = pb" "last mc = ps"
    "b = int pc - int n" "n < length mc" "mc ! n = m" "\<forall>p\<in>set mc - {m}. joined V s0 s p \<and> unwritten V s p"
    "cluster_run V s0 s" using assms(1) unfolding cluster_inv_def by blast
  have "last (map (place s) mc) = (object, k + length mc - 1)" unfolding c(1) using c(2) by (simp add: last_map)
  then have "place s p = (object, k + length mc)" using assms(4,5) c(2,4) by (auto simp: last_map place_def)
  with c assms(2,3) show ?thesis
    unfolding cluster_inv_def by (intro conjI exI [of _ k] exI [of _ n]) (auto simp: nth_append)
qed

lemma cluster_back_inv:
  "cluster_quiet V object \<Longrightarrow> cluster_inv V s0 m object pc pb ps b mc s \<Longrightarrow>
   cluster_back V pc pindex ib pb b mc s = (ib', pb', b', mc', s') \<Longrightarrow>
   cluster_inv V s0 m object pc pb' ps b' mc' s'"
proof (induction V pc pindex ib pb b mc s arbitrary: ib' pb' b' mc' s' rule: cluster_back.induct)
  case (1 V pc pindex ib pb b mc s)
  note r = 1(4) [unfolded cluster_back.simps [of V pc pindex ib]]
  show ?case
  proof (cases "(ib \<noteq> 0 \<and> length mc < pc) \<and> \<not> ib > pindex \<and> ve_page_prev V s pb \<noteq> None")
    case False
    then show ?thesis using 1(3) r by (auto split: if_splits)
  next
    case True
    then obtain p where p: "ve_page_prev V s pb = Some p" by blast
    obtain ok s1 where t: "cluster_take V p s = (ok, s1)" by fastforce
    have o: "pg_object (v_pages s pb) = object" using cluster_inv_object [OF 1(3)] by blast
    note n = cluster_neighbour(1) [OF 1(2) o p]
    note e = cluster_take_effect [OF 1(2) conjunct1 [OF n] t]
    note k = cluster_run_keeps [OF 1(2) e(1) o] cluster_run_keeps [OF 1(2) e(1) conjunct1 [OF n]]
    have inv: "cluster_inv V s0 m object pc pb ps b mc s1" by (rule cluster_inv_run [OF 1(2) e(1) 1(3)])
    have j: "joined V s0 s1 p \<and> unwritten V s1 p" if ok
      using e(2) [OF that] joined_mono 1(3) unfolding cluster_inv_def by blast
    show ?thesis
    proof (cases ok)
      case False
      then show ?thesis using inv r True p t by simp
    next
      case ok: True
      have "pg_object (v_pages s1 p) = pg_object (v_pages s1 pb)"
        "pg_pindex (v_pages s1 pb) = Suc (pg_pindex (v_pages s1 p))"
        using k n o by (simp_all add: place_def)
      from cluster_inv_prepend [OF inv _ j [OF ok] this] True
      have inv2: "cluster_inv V s0 m object pc p ps (b - 1) (p # mc) s1" by blast
      show ?thesis
      proof (cases "(pindex - (Suc ib - 1)) mod pc = 0")
        case al: True
        then show ?thesis using inv2 r True p t ok by auto
      next
        case al: False
        show ?thesis
          by (rule 1(1) [OF _ _ p t [symmetric] _ _ 1(2) inv2]) (use r True p t ok al in simp_all)
      qed
    qed
  qed
qed

lemma cluster_forward_inv:
  "cluster_quiet V object \<Longrightarrow> cluster_inv V s0 m object pc pb ps b mc s \<Longrightarrow>
   cluster_forward V pc object' pindex i ps mc s = (i', ps', mc', s') \<Longrightarrow>
   cluster_inv V s0 m object pc pb ps' b mc' s'"
proof (induction V pc object' pindex i ps mc s arbitrary: i' ps' mc' s' rule: cluster_forward.induct)
  case (1 V pc object' pindex i ps mc s)
  note r = 1(4) [unfolded cluster_forward.simps [of V pc object' pindex i]]
  show ?case
  proof (cases "(length mc < pc \<and> pindex + i < ob_size (v_objects s object')) \<and> ve_page_next V s ps \<noteq> None")
    case False
    then show ?thesis using 1(3) r by (auto split: if_splits)
  next
    case True
    then obtain p where p: "ve_page_next V s ps = Some p" by blast
    obtain ok s1 where t: "cluster_take V p s = (ok, s1)" by fastforce
    have o: "pg_object (v_pages s ps) = object" using cluster_inv_object [OF 1(3)] by blast
    note n = cluster_neighbour(2) [OF 1(2) o p]
    note e = cluster_take_effect [OF 1(2) conjunct1 [OF n] t]
    note k = cluster_run_keeps [OF 1(2) e(1) o] cluster_run_keeps [OF 1(2) e(1) conjunct1 [OF n]]
    have inv: "cluster_inv V s0 m object pc pb ps b mc s1" by (rule cluster_inv_run [OF 1(2) e(1) 1(3)])
    have j: "joined V s0 s1 p \<and> unwritten V s1 p" if ok
      using e(2) [OF that] joined_mono 1(3) unfolding cluster_inv_def by blast
    show ?thesis
    proof (cases ok)
      case False
      then show ?thesis using inv r True p t by simp
    next
      case ok: True
      have "pg_object (v_pages s1 p) = pg_object (v_pages s1 ps)"
        "pg_pindex (v_pages s1 p) = Suc (pg_pindex (v_pages s1 ps))"
        using k n o by (simp_all add: place_def)
      from cluster_inv_append [OF inv _ j [OF ok] this] True
      have inv2: "cluster_inv V s0 m object pc pb p b (mc @ [p]) s1" by blast
      show ?thesis
        by (rule 1(1) [OF _ p t [symmetric] _ 1(2) inv2]) (use r True p t ok in simp_all)
    qed
  qed
qed

lemma cluster_more_inv:
  "cluster_quiet V object \<Longrightarrow> cluster_inv V s0 m object pc pb ps b mc s \<Longrightarrow>
   cluster_more V pc object' pindex ib i pb ps b mc s = (b', mc', s') \<Longrightarrow>
   \<exists>pb' ps'. cluster_inv V s0 m object pc pb' ps' b' mc' s'"
proof (induction V pc object' pindex ib i pb ps b mc s arbitrary: b' mc' s' rule: cluster_more.induct)
  case (1 V pc object' pindex ib i pb ps b mc s)
  obtain ib1 pb1 b1 mc1 s1 where bck: "cluster_back V pc pindex ib pb b mc s = (ib1, pb1, b1, mc1, s1)"
    by (metis prod.collapse)
  obtain i2 ps2 mc2 s2 where forw: "cluster_forward V pc object' pindex i ps mc1 s1 = (i2, ps2, mc2, s2)"
    by (metis prod.collapse)
  have inv: "cluster_inv V s0 m object pc pb1 ps2 b1 mc2 s2"
    by (rule cluster_forward_inv [OF 1(2) cluster_back_inv [OF 1(2,3) bck] forw])
  note r = 1(4) [unfolded cluster_more.simps [of V pc object' pindex ib] bck forw prod.case]
  show ?case
  proof (cases "ib1 \<noteq> 0 \<and> length mc2 < pc")
    case True
    show ?thesis
      by (rule 1(1) [OF bck [symmetric] refl refl refl forw [symmetric] refl refl True 1(2) inv])
        (use r True in simp)
  next
    case False
    with r have "b' = b1" "mc' = mc2" "s' = s2" by auto
    with inv show ?thesis by blast
  qed
qed

text \<open>
  C3. \<open>vm_pageout_cluster\<close> writes out one gapless run of pages of one object: the cluster it
  collects, going back to an alignment boundary, forward, and back again, is the pages at
  consecutive offsets around the given page, at most \<^verbatim>\<open>vm_pageout_page_count\<close> of them. Every
  other page is dirty and not busy, and was seen not held and in the laundry under its own lock,
  and made read-only before that lock was dropped. The indices of the array of twice that size are
  never left, and the loops end. Of the other threads only the rules of the object lock are
  assumed: they do not move, busy or clean the pages of the locked object.
\<close>

theorem vm_pageout_cluster_run:
  assumes "cluster_quiet V (pg_object (v_pages s m))" and "1 \<le> v_pageout_page_count (ve_op V pmap_remove_write m s)"
  shows "\<exists>page_base mc s' k n r runlen eio t.
    vm_pageout_flush V mc (ve_PUT_NOREUSE V) 0 s' = (r, runlen, eio, t) \<and> vm_pageout_cluster V m s = (r, t) \<and>
    cluster_run V s s' \<and>
    map (place s') mc = map (Pair (pg_object (v_pages s m))) [k..<k + length mc] \<and>
    n < length mc \<and> mc ! n = m \<and>
    (\<forall>p\<in>set mc. p = m \<or> \<not> ve_page_busied V s' p \<and> pg_dirty (v_pages s' p) \<noteq> 0 \<and> joined V s s' p) \<and>
    (let pc = v_pageout_page_count (ve_op V pmap_remove_write m s)
     in length mc \<le> pc \<and> 0 \<le> page_base \<and> page_base + int (length mc) \<le> 2 * int pc \<and>
        page_base + int n = int pc)"
proof -
  let ?s = "ve_op V pmap_remove_write m s" and ?o = "pg_object (v_pages s m)" and ?i = "pg_pindex (v_pages s m)"
  let ?pc = "v_pageout_page_count ?s"
  obtain b mc s' where more: "cluster_more V ?pc ?o ?i 1 1 m m (int ?pc) [m] ?s = (b, mc, s')"
    by (metis prod.collapse)
  have run: "cluster_run V s ?s" by (rule r_into_rtranclp) (rule cluster_step.intros)
  have "place ?s m = (?o, ?i)" using cluster_run_keeps [OF assms(1) run refl] by (simp add: place_def)
  then have "cluster_inv V s m ?o ?pc m m (int ?pc) [m] ?s"
    unfolding cluster_inv_def using run by (intro conjI exI [of _ ?i] exI [of _ 0]) simp_all
  from cluster_more_inv [OF assms(1) this more] obtain k n where
    c: "cluster_run V s s'" "map (place s') mc = map (Pair ?o) [k..<k + length mc]" "b = int ?pc - int n" "n < length mc"
    "mc ! n = m" "length mc \<le> max 1 ?pc" "\<forall>p\<in>set mc - {m}. joined V s s' p \<and> unwritten V s' p"
    unfolding cluster_inv_def by blast
  obtain r runlen eio t where f: "vm_pageout_flush V mc (ve_PUT_NOREUSE V) 0 s' = (r, runlen, eio, t)"
    by (metis prod.collapse)
  have "vm_pageout_cluster V m s = (r, t)"
    using more f by (simp add: vm_pageout_cluster_def Let_def)
  moreover have "\<forall>p\<in>set mc. p = m \<or> \<not> ve_page_busied V s' p \<and> pg_dirty (v_pages s' p) \<noteq> 0 \<and> joined V s s' p"
    using c(7) unfolding unwritten_def by blast
  moreover have "length mc \<le> ?pc" "0 \<le> b" "b + int (length mc) \<le> 2 * int ?pc" "b + int n = int ?pc"
    using c(3,4,6) assms(2) by linarith+
  ultimately show ?thesis unfolding Let_def using f c(1,2,4,5) by blast
qed

text \<open>
  The example with another thread: while a page lock is waited for, it takes page 11 off the laundry
  queue and holds page 13.
\<close>

definition venv_hold :: "64 venv" where
  "venv_hold = venv0\<lparr>ve_lock := (\<lambda>_ s. s\<lparr>v_pages := (v_pages s)
     (11 := (v_pages s 11)\<lparr>pg_queue := None\<rparr>, 13 := (v_pages s 13)\<lparr>pg_hold_count := 1\<rparr>)\<rparr>)\<rparr>"

lemma cluster_quiet_hold: "cluster_quiet venv_hold ob"
  by (simp add: cluster_quiet_def keeps_pages_def unwritten_def place_def venv_hold_def)
    (auto simp: venv0_def adjacent_def split: if_splits)

theorem vm_pageout_cluster_run_witness:
  "\<exists>mc s'. fst (vm_pageout_cluster venv_hold 12 vm0) = fst (vm_pageout_flush venv_hold mc 8 0 s') \<and>
     12 \<in> set mc \<and> length mc \<le> 32 \<and> (\<forall>p\<in>set mc. p = 12 \<or> joined venv_hold vm0 s' p)"
proof -
  have e: "ve_op venv_hold pmap_remove_write 12 vm0 = vm0" "ve_PUT_NOREUSE venv_hold = 8"
    by (simp_all add: venv_hold_def venv0_def)
  have "1 \<le> v_pageout_page_count (ve_op venv_hold pmap_remove_write 12 vm0)" by (simp add: e)
  from vm_pageout_cluster_run [OF cluster_quiet_hold this] obtain mc s' n where
    c: "fst (vm_pageout_cluster venv_hold 12 vm0) = fst (vm_pageout_flush venv_hold mc 8 0 s')"
    "n < length mc" "mc ! n = 12" "length mc \<le> 32" "\<forall>p\<in>set mc. p = 12 \<or> joined venv_hold vm0 s' p"
    unfolding Let_def e vm0_simps by (metis fst_conv)
  have "12 \<in> set mc" using c(2,3) by (metis nth_mem)
  then show ?thesis using c(1,4,5) by blast
qed

end
