(* ===== verification/Pageout_Scan_Props.thy ===== *)
theory Pageout_Scan_Props
  imports Pageout_Example
begin

section \<open>Properties of the scans of page queues\<close>

text \<open>
  A scan that only looks at pages visits a prefix of the queue once and leaves the queue as it
  was, in batches of every size.
\<close>

subsection \<open>Walking a queue behind a marker\<close>














end
