(* ===== verification/Pageout_Reclaim_Props.thy ===== *)
theory Pageout_Reclaim_Props
  imports Pageout_Example
begin

section \<open>Properties of reclaiming pages\<close>

text \<open>
  The inactive scan frees a page only for a reason it has seen while it held the locks of the
  page and of its object.
\<close>

subsection \<open>What the inactive scan frees\<close>

text \<open>
  Trying to lock an object does not touch a page whose lock is held.
\<close>

definition trylock_keeps :: "('w::len) venv \<Rightarrow> bool" where
  "trylock_keeps V \<longleftrightarrow> (\<forall>obj s. v_pages (snd (ve_trywlock V obj s)) = v_pages s \<and>
     (\<forall>m. ve_page_queue V (snd (ve_trywlock V obj s)) m = ve_page_queue V s m))"

text \<open>
  How the page is left by the locking of its object: with a reason to be done, or passed by the
  checks, its object locked, directly after the checks or after an attempt that succeeded.
\<close>

definition locked_result ::
  "('w::len) venv \<Rightarrow> ('w vm \<Rightarrow> 'f option \<times> 'w vm) \<Rightarrow> pgid \<Rightarrow> 'f option \<times> objid option \<times> bool \<times> 'w vm \<Rightarrow> bool" where
  "locked_result V check m r = (case r of (f, object, locked, s) \<Rightarrow>
     (case f of
        Some x \<Rightarrow> \<exists>a. check a = (Some x, s)
      | None \<Rightarrow> \<exists>a b. check a = (None, b) \<and> object = Some (pg_object (v_pages b m)) \<and> locked \<and>
          (s = b \<or> ve_trywlock V (pg_object (v_pages b m)) b = (True, s))))"

lemma page_object_lock_result:
  assumes "page_object_lock V check m object locked s = Some r"
  shows "locked_result V check m r"
proof (rule page_object_lock.raw_induct [of "\<lambda>V check m object locked s r. locked_result V check m r", OF _ assms])
  fix lock V check m object locked s and r :: "'a option \<times> objid option \<times> bool \<times> 'b vm"
  assume IH: "\<And>V check m object locked s r. lock V check m object locked s = Some r \<Longrightarrow> locked_result V check m r"
    and r: "(case check s of
        (Some f, s) \<Rightarrow> Some (Some f, object, locked, s)
      | (None, s) \<Rightarrow>
          (if locked \<and> object = Some (pg_object (v_pages s m)) then Some (None, object, True, s)
           else (case ve_trywlock V (pg_object (v_pages s m)) s of
                   (ok, s') \<Rightarrow>
                     (if ok then Some (None, Some (pg_object (v_pages s m)), True, s')
                      else lock V check m (Some (pg_object (v_pages s m))) True
                             (ve_lock V (Page_lock m) (ve_lock V (Object_lock (pg_object (v_pages s m))) s')))))) = Some r"
  show "locked_result V check m r"
  proof (cases "check s")
    case (Pair f b)
    show ?thesis
    proof (cases f)
      case (Some x)
      have "Some (Some x, object, locked, b) = Some r" using r [unfolded Pair Some prod.case option.case] .
      then have "r = (Some x, object, locked, b)" by simp
      with Pair Some show ?thesis unfolding locked_result_def by auto
    next
      case None
      let ?o = "pg_object (v_pages b m)"
      have c: "check s = (None, b)" using Pair None by simp
      obtain ok b' where t: "ve_trywlock V ?o b = (ok, b')" by (cases "ve_trywlock V ?o b")
      note r2 = r [unfolded c prod.case option.case t]
      consider "r = (None, Some ?o, True, b)" | "ok" "r = (None, Some ?o, True, b')"
        | "lock V check m (Some ?o) True (ve_lock V (Page_lock m) (ve_lock V (Object_lock ?o) b')) = Some r"
      proof (cases "locked \<and> object = Some ?o")
        case True
        with r2 have "Some (None, Some ?o, True, b) = Some r" by (simp only: if_P)
        then show ?thesis using that(1) by simp
      next
        case False
        then have r3: "(if ok then Some (None, Some ?o, True, b') else
            lock V check m (Some ?o) True (ve_lock V (Page_lock m) (ve_lock V (Object_lock ?o) b'))) = Some r"
          using r2 by (simp only: if_False)
        then show ?thesis using that(2,3) by (cases ok) simp_all
      qed
      then show ?thesis
      proof cases
        case 1
        with c show ?thesis unfolding locked_result_def by auto
      next
        case 2
        with c t show ?thesis unfolding locked_result_def by auto
      next
        case 3
        then show ?thesis by (rule IH)
      qed
    qed
  qed
qed

lemma inact_check_None:
  "inact_check V m s = (None, s') \<longleftrightarrow> s' = s \<and> ve_page_queue V s m = Some PQ_INACTIVE \<and>
     pg_aflags (v_pages s m) \<inter> {PGA_ENQUEUED, PGA_REQUEUE, PGA_REQUEUE_HEAD} = {} \<and>
     pg_hold_count (v_pages s m) = 0 \<and> pg_wire_count (v_pages s m) = 0"
  by (auto simp: inact_check_def)

text \<open>
  When the scan may free a page: the state \<open>s\<close> in which it looks at the page with the
  object locked, the state \<open>t\<close> in which it frees it, the references found in between.
\<close>

definition reclaimable :: "('w::len) venv \<Rightarrow> pgid \<Rightarrow> 'w vm \<Rightarrow> 'w vm \<Rightarrow> bool" where
  "reclaimable V m s t \<longleftrightarrow>
     ve_page_queue V s m = Some PQ_INACTIVE \<and> pg_hold_count (v_pages s m) = 0 \<and>
     pg_wire_count (v_pages s m) = 0 \<and> \<not> ve_page_busied V s m \<and>
     (pg_valid (v_pages s m) = 0 \<and> t = s \<or>
      pg_dirty (v_pages t m) = 0 \<and>
        (let object = pg_object (v_pages s m); (n, u) = page_references V object m s
         in t = page_test_mappings V object m u \<and>
            (n \<noteq> 0 \<longrightarrow> ob_ref_count (v_objects u object) = 0 \<and> ob_dead (v_objects u object))))"

text \<open>
  C15. The inactive scan frees no page that is in use or would lose data. If it frees a page, it has
  seen it, with its object locked, on the inactive queue, not held, wired or busy; and the page
  was invalid, or it was clean after its dirty bits had been gathered and had no reference since
  the last scan, unless its object is dead. A page it frees is not put back, nor counted as stuck.
\<close>

theorem inact_page_frees_reclaimable:
  assumes "trylock_keeps V" and "inact_page V m object locked s = Some ((stuck, re, freed), object', locked', s')" and "freed"
  shows "\<not> stuck \<and> \<not> re \<and> (\<exists>a b. reclaimable V m a b \<and> s' = inact_free V m b)"
proof -
  from assms(2,3) obtain obj a where lock: "page_object_lock V (inact_check V m) m object locked s = Some (None, Some obj, locked', a)"
    and rec: "inact_reclaim V m obj a = ((stuck, re, True), s')"
    by (auto simp: inact_page_def split: bind_splits option.splits prod.splits)
  from page_object_lock_result [OF lock] obtain b where
    b: "inact_check V m b = (None, b)" "obj = pg_object (v_pages b m)" "a = b \<or> ve_trywlock V obj b = (True, a)"
    by (auto simp: locked_result_def inact_check_None)
  have same: "v_pages a = v_pages b" "ve_page_queue V a m = ve_page_queue V b m"
    using b(3) assms(1) unfolding trylock_keeps_def by (metis snd_conv)+
  have in_use: "\<not> ve_page_busied V a m" using rec by (auto simp: inact_reclaim_def)
  obtain n u where ref: "page_references V obj m a = (n, u)" by fastforce
  let ?t = "page_test_mappings V obj m u"
  have "\<exists>t. s' = inact_free V m t \<and> \<not> stuck \<and> \<not> re \<and>
     (pg_valid (v_pages a m) = 0 \<and> t = a \<or> t = ?t \<and> pg_dirty (v_pages ?t m) = 0 \<and>
        (n \<noteq> 0 \<longrightarrow> ob_ref_count (v_objects u obj) = 0 \<and> ob_dead (v_objects u obj)))"
    using rec in_use by (auto simp: inact_reclaim_def ref Let_def split: if_splits)
  then obtain t where t: "s' = inact_free V m t" "\<not> stuck" "\<not> re"
     "pg_valid (v_pages a m) = 0 \<and> t = a \<or> t = ?t \<and> pg_dirty (v_pages ?t m) = 0 \<and>
        (n \<noteq> 0 \<longrightarrow> ob_ref_count (v_objects u obj) = 0 \<and> ob_dead (v_objects u obj))" by blast
  have "reclaimable V m a t"
    using t(4) in_use b(1) by (auto simp: reclaimable_def same inact_check_None ref Let_def simp flip: b(2))
  with t(1-3) show ?thesis by blast
qed

lemma inact_page0:
  "inact_page venv0 30 None False (upd_page 30 (\<lambda>p. p\<lparr>pg_aflags := {}\<rparr>) vm0) =
     Some ((False, False, True), Some 5, True, inact_free venv0 30 (upd_page 30 (\<lambda>p. p\<lparr>pg_aflags := {}\<rparr>) vm0))"
proof -
  let ?s = "upd_page 30 (\<lambda>p. p\<lparr>pg_aflags := {}\<rparr>) vm0"
  have p: "v_pages ?s 30 = page0\<lparr>pg_queue := Some PQ_INACTIVE, pg_pindex := 30, pg_aflags := {}\<rparr>"
    by (simp add: pages0_def)
  have c: "inact_check venv0 30 ?s = (None, ?s)"
    unfolding inact_check_None p by (simp add: pages0_def page0_def)
  have l: "page_object_lock venv0 (inact_check venv0 30) 30 None False ?s = Some (None, Some 5, True, ?s)"
    by (subst page_object_lock.simps) (simp add: c p [unfolded vm_upd_simps] pages0_def page0_def)
  have r: "page_references venv0 5 30 ?s = (0, ?s)"
    by (simp add: page_references_def p page0_def del: vm_upd_simps)
  have "inact_reclaim venv0 30 5 ?s = ((False, False, True), inact_free venv0 30 ?s)"
    unfolding inact_reclaim_def r by (simp add: page_test_mappings_def pages0_def page0_def Let_def)
  with l show ?thesis by (simp add: inact_page_def)
qed

theorem inact_page_frees_reclaimable_witness:
  "\<exists>a b. reclaimable venv0 30 a b \<and> inact_free venv0 30 (upd_page 30 (\<lambda>p. p\<lparr>pg_aflags := {}\<rparr>) vm0) = inact_free venv0 30 b"
proof -
  have "trylock_keeps venv0" by (simp add: trylock_keeps_def venv0_def)
  from inact_page_frees_reclaimable [OF this inact_page0 TrueI] show ?thesis by blast
qed

end
