(* ===== verification/Posix.thy ===== *)
theory Posix
  imports Prelude "HOL-Library.Monad_Syntax"
begin

section \<open>System calls, C strings and the parts of stdio the servers use\<close>

text \<open>
  What the user programs of the courses (\<^verbatim>\<open>CSE130-v2\<close>) share. The kernel is not part of the
  repository: a record of functions on an unspecified world stands for it, and what a program
  relies on is a hypothesis of its theorems. A byte is a \<^typ>\<open>char\<close>, an array of bytes a list of
  its length, a C string the bytes before the first NUL. An access outside an array and a read of
  a string that has no NUL are undefined in C: the result is \<^term>\<open>None\<close>. The content of an
  uninitialised local variable is a parameter too.
\<close>

datatype oflag = O_RDONLY | O_WRONLY | O_RDWR | O_CREAT | O_TRUNC | O_APPEND

datatype errno = EACCES | ENOENT | EOTHER

record 'w sys =
  sys_open :: "string \<Rightarrow> oflag list \<Rightarrow> 'w \<Rightarrow> (errno + int) \<times> 'w"
  sys_close :: "int \<Rightarrow> 'w \<Rightarrow> 'w"
  sys_read :: "int \<Rightarrow> nat \<Rightarrow> 'w \<Rightarrow> string option \<times> 'w"
  sys_write :: "int \<Rightarrow> string \<Rightarrow> nat \<Rightarrow> 'w \<Rightarrow> nat option \<times> 'w"
  sys_recv :: "int \<Rightarrow> nat \<Rightarrow> 'w \<Rightarrow> string option \<times> 'w"
  sys_send :: "int \<Rightarrow> string \<Rightarrow> nat \<Rightarrow> 'w \<Rightarrow> nat option \<times> 'w"
  sys_fstat :: "int \<Rightarrow> 'w \<Rightarrow> int option"
  sys_warn :: "string \<Rightarrow> 'w \<Rightarrow> 'w"
  sys_accept :: "int \<Rightarrow> 'w \<Rightarrow> int \<times> 'w"
  sys_stack :: "string \<Rightarrow> 'w \<Rightarrow> nat \<Rightarrow> char"
  sys_int :: "string \<Rightarrow> 'w \<Rightarrow> int"

text \<open>The content of an uninitialised local array, named by its variable.\<close>

definition stack_array :: "('w, 'z) sys_scheme \<Rightarrow> string \<Rightarrow> nat \<Rightarrow> 'w \<Rightarrow> string" where
  "stack_array S v n w = map (sys_stack S v w) [0..<n]"

lemma length_stack_array [simp]: "length (stack_array S v n w) = n"
  by (simp add: stack_array_def)

subsection \<open>Arrays of bytes\<close>

abbreviation NUL :: char where
  "NUL \<equiv> CHR 0x00"

definition peek :: "string \<Rightarrow> int \<Rightarrow> char option" where
  "peek a i = (if 0 \<le> i \<and> i < int (length a) then Some (a ! nat i) else None)"

definition poke :: "string \<Rightarrow> int \<Rightarrow> char \<Rightarrow> string option" where
  "poke a i c = (if 0 \<le> i \<and> i < int (length a) then Some (a[nat i := c]) else None)"

definition cstr :: "string \<Rightarrow> string option" where
  "cstr a = (if NUL \<in> set a then Some (takeWhile (\<lambda>c. c \<noteq> NUL) a) else None)"

text \<open>Storing a string with its NUL in an array, as \<^verbatim>\<open>%s\<close> of \<^verbatim>\<open>sscanf\<close> does.\<close>

definition store_string :: "string \<Rightarrow> string \<Rightarrow> string option" where
  "store_string a s =
    (if length s < length a then Some (s @ NUL # drop (Suc (length s)) a) else None)"

lemma cstr_append_NUL: "NUL \<notin> set s \<Longrightarrow> cstr (s @ NUL # t) = Some s"
  by (auto simp: cstr_def takeWhile_append)

lemma cstr_SomeE:
  assumes "cstr a = Some s"
  obtains t where "a = s @ NUL # t" "NUL \<notin> set s"
proof -
  from assms have n: "NUL \<in> set a" and s: "s = takeWhile (\<lambda>c. c \<noteq> NUL) a"
    by (auto simp: cstr_def split: if_splits)
  have d: "dropWhile (\<lambda>c. c \<noteq> NUL) a \<noteq> []" using n by (auto simp: dropWhile_eq_Nil_conv)
  then have "hd (dropWhile (\<lambda>c. c \<noteq> NUL) a) = NUL" by (meson hd_dropWhile)
  with d have "dropWhile (\<lambda>c. c \<noteq> NUL) a = NUL # tl (dropWhile (\<lambda>c. c \<noteq> NUL) a)"
    by (metis list.collapse)
  then have "a = s @ NUL # tl (dropWhile (\<lambda>c. c \<noteq> NUL) a)"
    unfolding s by (metis takeWhile_dropWhile_id)
  moreover have "NUL \<notin> set s" unfolding s by (blast dest: set_takeWhileD)
  ultimately show ?thesis by (rule that)
qed

lemma cstr_length: "cstr a = Some s \<Longrightarrow> length s < length a"
  by (elim cstr_SomeE) auto

lemma store_string_SomeD:
  "store_string a s = Some b \<Longrightarrow> length b = length a \<and> (NUL \<notin> set s \<longrightarrow> cstr b = Some s)"
  by (auto simp: store_string_def cstr_append_NUL split: if_splits)

lemma length_poke: "poke a i c = Some b \<Longrightarrow> length b = length a"
  by (auto simp: poke_def split: if_splits)

subsection \<open>Reading into and writing from an array\<close>

text \<open>
  A count is a \<^verbatim>\<open>size_t\<close>, so a negative \<^verbatim>\<open>ssize_t\<close> becomes a count over \<^verbatim>\<open>SSIZE_MAX\<close>, which
  the kernel is left to answer. A kernel that returned more than the array holds would have
  written outside it, and one that writes more than the array holds would have read outside it.
\<close>

definition size_t :: "int \<Rightarrow> nat" where
  "size_t n = nat (n mod 2 ^ 64)"

definition SSIZE_MAX :: nat where
  "SSIZE_MAX = 2 ^ 63 - 1"

lemma size_t_nat: "0 \<le> n \<Longrightarrow> n < 2 ^ 64 \<Longrightarrow> size_t n = nat n"
  by (simp add: size_t_def)

definition filled :: "string option \<times> 'w \<Rightarrow> string \<Rightarrow> (int \<times> string \<times> 'w) option" where
  "filled r buf = (case r of
     (None, w) \<Rightarrow> Some (-1, buf, w)
   | (Some d, w) \<Rightarrow> (if length d \<le> length buf
       then Some (int (length d), d @ drop (length d) buf, w) else None))"

definition count_of :: "nat option \<Rightarrow> int" where
  "count_of r = (case r of None \<Rightarrow> -1 | Some n \<Rightarrow> int n)"

definition read_buf ::
  "('w, 'z) sys_scheme \<Rightarrow> int \<Rightarrow> string \<Rightarrow> int \<Rightarrow> 'w \<Rightarrow> (int \<times> string \<times> 'w) option" where
  "read_buf S fd buf n w = filled (sys_read S fd (size_t n) w) buf"

definition recv_buf ::
  "('w, 'z) sys_scheme \<Rightarrow> int \<Rightarrow> string \<Rightarrow> int \<Rightarrow> 'w \<Rightarrow> (int \<times> string \<times> 'w) option" where
  "recv_buf S fd buf n w = filled (sys_recv S fd (size_t n) w) buf"

definition write_buf ::
  "('w, 'z) sys_scheme \<Rightarrow> int \<Rightarrow> string \<Rightarrow> int \<Rightarrow> 'w \<Rightarrow> (int \<times> 'w) option" where
  "write_buf S fd buf n w =
    (if size_t n \<le> length buf \<or> SSIZE_MAX < size_t n
     then (case sys_write S fd buf (size_t n) w of (r, w) \<Rightarrow> Some (count_of r, w)) else None)"

definition send_buf ::
  "('w, 'z) sys_scheme \<Rightarrow> int \<Rightarrow> string \<Rightarrow> int \<Rightarrow> 'w \<Rightarrow> (int \<times> 'w) option" where
  "send_buf S fd buf n w =
    (if size_t n \<le> length buf \<or> SSIZE_MAX < size_t n
     then (case sys_send S fd buf (size_t n) w of (r, w) \<Rightarrow> Some (count_of r, w)) else None)"

lemma filled_length: "filled r buf = Some (n, buf', w) \<Longrightarrow> length buf' = length buf"
  by (auto simp: filled_def split: prod.splits option.splits if_splits)

lemma read_buf_length: "read_buf S fd buf n w = Some (k, buf', w') \<Longrightarrow> length buf' = length buf"
  unfolding read_buf_def by (rule filled_length)

lemma recv_buf_length: "recv_buf S fd buf n w = Some (k, buf', w') \<Longrightarrow> length buf' = length buf"
  unfolding recv_buf_def by (rule filled_length)

definition fd_of :: "errno + int \<Rightarrow> int" where
  "fd_of r = (case r of Inl _ \<Rightarrow> -1 | Inr fd \<Rightarrow> fd)"

lemma fd_of_simps [simp]: "fd_of (Inl e) = -1" "fd_of (Inr fd) = fd"
  by (simp_all add: fd_of_def)

subsection \<open>Tokens\<close>

text \<open>
  \<open>strtok\<close> with a fixed set of delimiters returns the maximal runs of other characters, and
  overwrites the delimiter that ends each by NUL.
\<close>

fun strtok_tokens :: "string \<Rightarrow> string \<Rightarrow> string \<Rightarrow> string list" where
  "strtok_tokens ds t [] = (if t = [] then [] else [t])"
| "strtok_tokens ds t (c # s) =
    (if c \<in> set ds then (if t = [] then strtok_tokens ds [] s else t # strtok_tokens ds [] s)
     else strtok_tokens ds (t @ [c]) s)"

fun strtok_cut :: "string \<Rightarrow> bool \<Rightarrow> string \<Rightarrow> string" where
  "strtok_cut ds t [] = []"
| "strtok_cut ds t (c # s) =
    (if c = NUL then c # s
     else if c \<in> set ds then (if t then NUL else c) # strtok_cut ds False s
     else c # strtok_cut ds True s)"

lemma length_strtok_cut [simp]: "length (strtok_cut ds t s) = length s"
  by (induction ds t s rule: strtok_cut.induct) auto

lemma strtok_tokens_word:
  "set u \<inter> set ds = {} \<Longrightarrow> strtok_tokens ds t (u @ s) = strtok_tokens ds (t @ u) s"
  by (induction u arbitrary: t) auto

lemma strtok_tokens_next:
  "set u \<inter> set ds = {} \<Longrightarrow> u \<noteq> [] \<Longrightarrow> d \<in> set ds \<Longrightarrow>
   strtok_tokens ds [] (u @ d # s) = u # strtok_tokens ds [] s"
  by (simp add: strtok_tokens_word)

lemma strtok_tokens_last:
  "set u \<inter> set ds = {} \<Longrightarrow> u \<noteq> [] \<Longrightarrow> strtok_tokens ds [] u = [u]"
  using strtok_tokens_word [of u ds "[]" "[]"] by simp

lemma strtok_tokens_skip:
  "d \<in> set ds \<Longrightarrow> strtok_tokens ds [] (d # s) = strtok_tokens ds [] s"
  by simp

text \<open>\<^verbatim>\<open>%s\<close> of \<^verbatim>\<open>sscanf\<close>, once for each array of a list; the ones no token is left for stay.\<close>

definition isspace :: "char \<Rightarrow> bool" where
  "isspace c \<longleftrightarrow> c = CHR 0x20 \<or> c \<in> {CHR 0x09, CHR 0x0A, CHR 0x0B, CHR 0x0C, CHR 0x0D}"

fun scan_strings :: "string \<Rightarrow> string list \<Rightarrow> string list option" where
  "scan_strings s [] = Some []"
| "scan_strings s (a # as) =
    (case dropWhile isspace s of
       [] \<Rightarrow> Some (a # as)
     | c # r \<Rightarrow> (case store_string a (takeWhile (\<lambda>x. \<not> isspace x) (c # r)) of
         None \<Rightarrow> None
       | Some b \<Rightarrow> (case scan_strings (dropWhile (\<lambda>x. \<not> isspace x) (c # r)) as of
           None \<Rightarrow> None
         | Some bs \<Rightarrow> Some (b # bs))))"

lemma scan_strings_word:
  assumes "u \<noteq> []" and "\<forall>x\<in>set u. \<not> isspace x" and "isspace d"
  shows "scan_strings (u @ d # s) (a # as) =
    (case store_string a u of None \<Rightarrow> None
     | Some b \<Rightarrow> (case scan_strings s as of None \<Rightarrow> None | Some bs \<Rightarrow> Some (b # bs)))"
proof -
  have t: "takeWhile (\<lambda>x. \<not> isspace x) (u @ d # s) = u"
    and r: "dropWhile (\<lambda>x. \<not> isspace x) (u @ d # s) = d # s"
    using assms by (auto simp: takeWhile_append dropWhile_append)
  have sp: "scan_strings (d # s) as = scan_strings s as"
    using assms(3) by (cases as) simp_all
  obtain c v where u: "u = c # v" using assms(1) by (cases u) auto
  have "\<not> isspace c" using assms(2) u by simp
  then have "dropWhile isspace (u @ d # s) = c # (v @ d # s)" by (simp add: u)
  with t r sp show ?thesis by (simp add: u split: option.splits)
qed

subsection \<open>Decimal numbers\<close>

definition digit_char :: "nat \<Rightarrow> char" where
  "digit_char n = char_of (48 + n)"

definition digit_val :: "char \<Rightarrow> nat" where
  "digit_val c = of_char c - 48"

definition isdigit :: "char \<Rightarrow> bool" where
  "isdigit c \<longleftrightarrow> (48::nat) \<le> of_char c \<and> of_char c \<le> (57::nat)"

fun dec :: "nat \<Rightarrow> string" where
  "dec n = (if n < 10 then [digit_char n] else dec (n div 10) @ [digit_char (n mod 10)])"

declare dec.simps [simp del]

definition show_int :: "int \<Rightarrow> string" where
  "show_int i = (if i < 0 then CHR 0x2D # dec (nat (- i)) else dec (nat i))"

definition digits_val :: "string \<Rightarrow> nat" where
  "digits_val s = foldl (\<lambda>a c. 10 * a + digit_val c) 0 s"

text \<open>
  What \<open>strtol\<close> in base 10 reads (also \<^verbatim>\<open>%ld\<close>): white space, a sign, digits; the value is
  clamped to a 64-bit \<^verbatim>\<open>long\<close>, and \<^term>\<open>None\<close> means that there were no digits.
\<close>

definition clamp64 :: "int \<Rightarrow> int" where
  "clamp64 i = max (- (2 ^ 63)) (min (2 ^ 63 - 1) i)"

definition unsigned_val :: "string \<Rightarrow> nat option" where
  "unsigned_val s = (case takeWhile isdigit s of [] \<Rightarrow> None | ds \<Rightarrow> Some (digits_val ds))"

definition strtol :: "string \<Rightarrow> int option" where
  "strtol s = map_option clamp64 (case dropWhile isspace s of
     [] \<Rightarrow> None
   | c # r \<Rightarrow>
      (if c = CHR 0x2D then map_option (\<lambda>n. - int n) (unsigned_val r)
       else if c = CHR 0x2B then map_option int (unsigned_val r)
       else map_option int (unsigned_val (c # r))))"

text \<open>\<open>atoi\<close> is \<open>strtol\<close> cut to 32 bits; without digits it returns 0.\<close>

definition atoi :: "string \<Rightarrow> int" where
  "atoi s = (case strtol s of None \<Rightarrow> 0 | Some i \<Rightarrow> sint (word_of_int i :: 32 word))"

lemma of_char_digit: "n < 10 \<Longrightarrow> of_char (digit_char n) = (48 + n :: nat)"
  by (simp add: digit_char_def)

lemma isdigit_digit_char [simp]: "n < 10 \<Longrightarrow> isdigit (digit_char n)"
  by (simp add: isdigit_def of_char_digit)

lemma digit_val_char [simp]: "n < 10 \<Longrightarrow> digit_val (digit_char n) = n"
  by (simp add: digit_val_def of_char_digit)

lemma dec_digits: "\<forall>c\<in>set (dec n). isdigit c"
proof (induction n rule: dec.induct)
  case (1 n)
  then show ?case by (subst dec.simps) auto
qed

lemma dec_not_Nil [simp]: "dec n \<noteq> []"
  by (subst dec.simps) simp

lemma digits_val_snoc: "digits_val (s @ [c]) = 10 * digits_val s + digit_val c"
  by (simp add: digits_val_def)

lemma digits_val_dec [simp]: "digits_val (dec n) = n"
proof (induction n rule: dec.induct)
  case (1 n)
  then show ?case
    by (subst dec.simps) (auto simp: digits_val_snoc, simp add: digits_val_def)
qed

lemma length_dec: "n < 10 ^ k \<Longrightarrow> 0 < k \<Longrightarrow> length (dec n) \<le> k"
proof (induction k arbitrary: n)
  case (Suc k)
  show ?case
  proof (cases "n < 10")
    case False
    with Suc.prems have "n div 10 < 10 ^ k" and "0 < k" by (auto simp: less_mult_imp_div_less) (cases k; simp)
    then show ?thesis using Suc.IH [of "n div 10"] by (subst dec.simps) simp
  qed (subst dec.simps, simp)
qed simp

lemma isdigit_not:
  "isdigit c \<Longrightarrow> \<not> isspace c \<and> c \<noteq> NUL \<and> c \<noteq> CHR 0x2D \<and> c \<noteq> CHR 0x2B"
  by (auto simp: isdigit_def isspace_def)

lemma dec_word: "x \<in> set (dec n) \<Longrightarrow> \<not> isspace x \<and> x \<noteq> NUL"
  using dec_digits isdigit_not by blast

lemma dec_hd: "dec n = c # r \<Longrightarrow> isdigit c"
  using dec_digits [of n] by simp

lemma unsigned_val_dec [simp]: "unsigned_val (dec n) = Some n"
proof -
  have "takeWhile isdigit (dec n) = dec n" using dec_digits by (simp add: takeWhile_eq_all_conv)
  moreover obtain d r where "dec n = d # r" by (cases "dec n") auto
  moreover have "digits_val (dec n) = n" by simp
  ultimately show ?thesis by (simp add: unsigned_val_def)
qed

lemma strtol_dec: "n < 2 ^ 63 \<Longrightarrow> strtol (dec n) = Some (int n)"
proof -
  assume "n < 2 ^ 63"
  then have "int n < 2 ^ 63" by (metis of_nat_less_iff of_nat_numeral of_nat_power)
  then have c: "clamp64 (int n) = int n" by (simp add: clamp64_def)
  obtain d r where d: "dec n = d # r" by (cases "dec n") auto
  with dec_hd [OF this] isdigit_not [of d] have "dropWhile isspace (dec n) = d # r"
    and "d \<noteq> CHR 0x2D" "d \<noteq> CHR 0x2B" by auto
  moreover have "unsigned_val (d # r) = Some n" using unsigned_val_dec [of n] d by simp
  ultimately show ?thesis using c by (simp add: strtol_def)
qed

lemma strtol_neg_dec: "n \<le> 2 ^ 63 \<Longrightarrow> strtol (CHR 0x2D # dec n) = Some (- int n)"
proof -
  assume "n \<le> 2 ^ 63"
  then have "int n \<le> 2 ^ 63" by (metis of_nat_le_iff of_nat_numeral of_nat_power)
  then have "clamp64 (- int n) = - int n" by (simp add: clamp64_def)
  moreover have "\<not> isspace CHR 0x2D" by (simp add: isspace_def)
  ultimately show ?thesis by (simp add: strtol_def)
qed

lemma strtol_show_int:
  assumes "- (2 ^ 63) \<le> i" and "i < 2 ^ 63"
  shows "strtol (show_int i) = Some i"
proof (cases "i < 0")
  case True
  with assms(1) have "nat (- i) \<le> 2 ^ 63" by (simp add: nat_le_iff)
  with True show ?thesis by (simp add: show_int_def strtol_neg_dec)
next
  case False
  with assms(2) have "nat i < 2 ^ 63" by (simp add: nat_less_iff)
  with False show ?thesis by (simp add: show_int_def strtol_dec)
qed

lemma sint_word_of_int_32: "- (2 ^ 31) \<le> i \<Longrightarrow> i < 2 ^ 31 \<Longrightarrow> sint (word_of_int i :: 32 word) = i"
  by (simp add: signed_of_int signed_take_bit_int_eq_self)

lemma atoi_show_int: "- (2 ^ 31) \<le> i \<Longrightarrow> i < 2 ^ 31 \<Longrightarrow> atoi (show_int i) = i"
  by (simp add: atoi_def strtol_show_int sint_word_of_int_32)

lemma show_int_word:
  "show_int i \<noteq> []" "x \<in> set (show_int i) \<Longrightarrow> \<not> isspace x \<and> x \<noteq> NUL"
  using dec_word by (auto simp: show_int_def isspace_def split: if_splits)

lemma length_show_int: "\<bar>i\<bar> < 10 ^ k \<Longrightarrow> 0 < k \<Longrightarrow> length (show_int i) \<le> Suc k"
proof -
  assume "\<bar>i\<bar> < 10 ^ k" and k: "0 < k"
  then have "nat \<bar>i\<bar> < 10 ^ k" by (simp add: nat_less_iff)
  then have "length (dec (nat \<bar>i\<bar>)) \<le> k" using k by (rule length_dec)
  then show ?thesis by (auto simp: show_int_def)
qed

end
