(* ===== verification/Dog.thy ===== *)
theory Dog
  imports Posix
begin

section \<open>The copy program \<^verbatim>\<open>CSE130-v2/asgn0/dog.c\<close>\<close>

text \<open>
  \<open>dog\<close> copies the files named on its command line to the standard output, from the last
  argument to the first, one byte per call; a single dash is the standard input, also read when
  there is no argument. A copy from a device that never ends does not return, so the loop is a
  partial function.
\<close>

definition DOG_BUFFER_SIZE :: nat where
  "DOG_BUFFER_SIZE = 32768"

text \<open>
  The loop \<^verbatim>\<open>while (read(fd, buffer, 1) > 0)\<close>. The three copies of it differ in whether a failed
  write is reported: \<open>name\<close> is the argument to warn about, if any.
\<close>

definition dog_warned :: "('w, 'z) sys_scheme \<Rightarrow> string option \<Rightarrow> int \<Rightarrow> 'w \<Rightarrow> 'w" where
  "dog_warned S name r w =
    (if r = -1 then (case name of None \<Rightarrow> w | Some a \<Rightarrow> sys_warn S a w) else w)"

partial_function (option) dog_copy ::
  "('w, 'z) sys_scheme \<Rightarrow> int \<Rightarrow> string option \<Rightarrow> string \<Rightarrow> 'w \<Rightarrow> (string \<times> 'w) option" where
  "dog_copy S fd name buffer w = Option.bind (read_buf S fd buffer 1 w) (\<lambda>(n, buffer, w).
     if 0 < n then Option.bind (write_buf S 1 buffer 1 w) (\<lambda>(r, w).
       dog_copy S fd name buffer (dog_warned S name r w))
     else Some (buffer, w))"

text \<open>One argument: a file that cannot be opened or read is reported and left.\<close>

definition dog_arg :: "('w, 'z) sys_scheme \<Rightarrow> string \<Rightarrow> string \<Rightarrow> 'w \<Rightarrow> (string \<times> 'w) option" where
  "dog_arg S a buffer w =
    (if a = ''-'' then dog_copy S 0 (Some a) buffer w
     else (case sys_open S a [O_RDONLY] w of (r, w) \<Rightarrow>
       if fd_of r = -1 then Some (buffer, sys_warn S a w)
       else do {
         (buffer, w) \<leftarrow> dog_copy S (fd_of r) (Some a) buffer w;
         (n, buffer, w) \<leftarrow> read_buf S (fd_of r) buffer 1 w;
         Some (buffer, if n = -1 then sys_warn S a w else sys_close S (fd_of r) w) }))"

fun dog_args :: "('w, 'z) sys_scheme \<Rightarrow> string list \<Rightarrow> string \<Rightarrow> 'w \<Rightarrow> (string \<times> 'w) option" where
  "dog_args S [] buffer w = Some (buffer, w)"
| "dog_args S (a # as) buffer w = do { (buffer, w) \<leftarrow> dog_arg S a buffer w; dog_args S as buffer w }"

definition dog_main :: "('w, 'z) sys_scheme \<Rightarrow> string list \<Rightarrow> 'w \<Rightarrow> (int \<times> 'w) option" where
  "dog_main S argv w = (let buffer = stack_array S ''buffer'' DOG_BUFFER_SIZE w in do {
     (buffer, w) \<leftarrow> (if length argv = 1 then dog_copy S 0 None buffer w
                   else if 2 \<le> length argv then dog_args S (rev (tl argv)) buffer w
                   else Some (buffer, w));
     Some (0, w) })"

subsection \<open>What it prints\<close>

text \<open>
  The kernel as the program relies on it: \<open>fs\<close> are the readable files, \<open>unread fd w\<close> the bytes
  still to be read from a descriptor, \<open>out w\<close> what was written to the standard output.
\<close>

definition same_io :: "(int \<Rightarrow> 'w \<Rightarrow> string) \<Rightarrow> ('w \<Rightarrow> string) \<Rightarrow> 'w \<Rightarrow> 'w \<Rightarrow> bool" where
  "same_io unread out w w' \<longleftrightarrow> out w' = out w \<and> unread 0 w' = unread 0 w"

definition dog_kernel ::
  "('w, 'z) sys_scheme \<Rightarrow> (string \<Rightarrow> string option) \<Rightarrow> (int \<Rightarrow> 'w \<Rightarrow> string) \<Rightarrow> ('w \<Rightarrow> string) \<Rightarrow> bool"
  where
  "dog_kernel S fs unread out \<longleftrightarrow>
    (\<forall>a w. case fs a of
        None \<Rightarrow> \<exists>e w'. sys_open S a [O_RDONLY] w = (Inl e, w') \<and> same_io unread out w w'
      | Some d \<Rightarrow> \<exists>fd w'. sys_open S a [O_RDONLY] w = (Inr fd, w') \<and> 0 < fd \<and>
          unread fd w' = d \<and> same_io unread out w w') \<and>
    (\<forall>fd w. \<exists>w'. sys_read S fd 1 w = (Some (take 1 (unread fd w)), w') \<and>
        unread fd w' = drop 1 (unread fd w) \<and> out w' = out w \<and>
        (fd \<noteq> 0 \<longrightarrow> unread 0 w' = unread 0 w)) \<and>
    (\<forall>c s w. \<exists>w'. sys_write S 1 (c # s) 1 w = (Some 1, w') \<and> out w' = out w @ [c] \<and>
        (\<forall>fd. unread fd w' = unread fd w)) \<and>
    (\<forall>a w. same_io unread out w (sys_warn S a w)) \<and>
    (\<forall>fd w. same_io unread out w (sys_close S fd w))"

fun dog_output :: "(string \<Rightarrow> string option) \<Rightarrow> string \<Rightarrow> string list \<Rightarrow> string" where
  "dog_output fs stdin [] = []"
| "dog_output fs stdin (a # as) =
    (if a = ''-'' then stdin @ dog_output fs [] as
     else (case fs a of None \<Rightarrow> [] | Some d \<Rightarrow> d) @ dog_output fs stdin as)"

lemma dog_kernel_read:
  assumes "dog_kernel S fs unread out" and "buffer \<noteq> []"
  obtains w' where "read_buf S fd buffer 1 w =
      Some (int (length (take 1 (unread fd w))),
            take 1 (unread fd w) @ drop (length (take 1 (unread fd w))) buffer, w')"
    and "unread fd w' = drop 1 (unread fd w)" and "out w' = out w"
    and "fd \<noteq> 0 \<Longrightarrow> unread 0 w' = unread 0 w"
proof -
  have "1 \<le> length buffer" using assms(2) by (cases buffer) auto
  moreover obtain w' where "sys_read S fd 1 w = (Some (take 1 (unread fd w)), w')"
      "unread fd w' = drop 1 (unread fd w)" "out w' = out w" "fd \<noteq> 0 \<Longrightarrow> unread 0 w' = unread 0 w"
    using assms(1) unfolding dog_kernel_def by blast
  ultimately show ?thesis
    by (intro that [of w']) (auto simp: read_buf_def filled_def size_t_def)
qed

lemma dog_kernel_write:
  assumes "dog_kernel S fs unread out"
  obtains w' where "write_buf S 1 (c # s) 1 w = Some (1, w')" and "out w' = out w @ [c]"
    and "\<And>fd. unread fd w' = unread fd w"
proof -
  obtain w' where "sys_write S 1 (c # s) 1 w = (Some 1, w')" "out w' = out w @ [c]"
      "\<forall>fd. unread fd w' = unread fd w"
    using assms unfolding dog_kernel_def by blast
  then show ?thesis
    by (intro that [of w']) (auto simp: write_buf_def size_t_def count_of_def)
qed

lemma dog_copy_prints:
  assumes k: "dog_kernel S fs unread out"
  shows "buffer \<noteq> [] \<Longrightarrow> \<exists>b w'. dog_copy S fd name buffer w = Some (b, w') \<and> b \<noteq> [] \<and>
    out w' = out w @ unread fd w \<and> unread fd w' = [] \<and> (fd \<noteq> 0 \<longrightarrow> unread 0 w' = unread 0 w)"
proof (induction "unread fd w" arbitrary: buffer w)
  case Nil
  from k \<open>buffer \<noteq> []\<close> obtain w' where "read_buf S fd buffer 1 w = Some (0, buffer, w')"
      "unread fd w' = []" "out w' = out w" "fd \<noteq> 0 \<Longrightarrow> unread 0 w' = unread 0 w"
    by (rule dog_kernel_read [where fd = fd and w = w]) (simp flip: Nil(1))
  then show ?case using Nil by (subst dog_copy.simps) auto
next
  case (Cons c s)
  from k \<open>buffer \<noteq> []\<close> obtain w1 where r: "read_buf S fd buffer 1 w = Some (1, c # drop 1 buffer, w1)"
      "unread fd w1 = s" "out w1 = out w" "fd \<noteq> 0 \<Longrightarrow> unread 0 w1 = unread 0 w"
    by (rule dog_kernel_read [where fd = fd and w = w]) (simp flip: Cons(2))
  obtain w2 where v: "write_buf S 1 (c # drop 1 buffer) 1 w1 = Some (1, w2)"
      "out w2 = out w1 @ [c]" "\<And>fd. unread fd w2 = unread fd w1"
    using dog_kernel_write [OF k, of c "drop 1 buffer" w1] by blast
  have "dog_copy S fd name buffer w = dog_copy S fd name (c # drop 1 buffer) w2"
    using r(1) v(1) by (subst dog_copy.simps) (simp add: dog_warned_def)
  with Cons(1) [of w2 "c # drop 1 buffer"] r v Cons(2) [symmetric] show ?case by auto
qed

lemma dog_arg_prints:
  assumes k: "dog_kernel S fs unread out" and b: "buffer \<noteq> []"
  shows "\<exists>b w'. dog_arg S a buffer w = Some (b, w') \<and> b \<noteq> [] \<and>
    out w' = out w @ (if a = ''-'' then unread 0 w else case fs a of None \<Rightarrow> [] | Some d \<Rightarrow> d) \<and>
    unread 0 w' = (if a = ''-'' then [] else unread 0 w)"
proof (cases "a = ''-''")
  case True
  with dog_copy_prints [OF k b, of 0 "Some a" w] show ?thesis by (auto simp: dog_arg_def)
next
  case False
  have warn: "same_io unread out v (sys_warn S a v)" and close: "same_io unread out v (sys_close S fd v)"
    for v fd using k by (simp_all add: dog_kernel_def)
  have opened: "case fs a of
        None \<Rightarrow> \<exists>e w'. sys_open S a [O_RDONLY] w = (Inl e, w') \<and> same_io unread out w w'
      | Some d \<Rightarrow> \<exists>fd w'. sys_open S a [O_RDONLY] w = (Inr fd, w') \<and> 0 < fd \<and>
          unread fd w' = d \<and> same_io unread out w w'"
    using k by (simp add: dog_kernel_def)
  show ?thesis
  proof (cases "fs a")
    case None
    with opened obtain e w' where "sys_open S a [O_RDONLY] w = (Inl e, w')" "same_io unread out w w'"
      by auto
    with False None b warn [of w'] show ?thesis by (auto simp: dog_arg_def same_io_def)
  next
    case (Some d)
    with opened obtain fd w1 where o: "sys_open S a [O_RDONLY] w = (Inr fd, w1)" "0 < fd"
        "unread fd w1 = d" "same_io unread out w w1"
      by auto
    obtain b2 w2 where c: "dog_copy S fd (Some a) buffer w1 = Some (b2, w2)" "b2 \<noteq> []"
        "out w2 = out w1 @ d" "unread fd w2 = []" "unread 0 w2 = unread 0 w1"
      using dog_copy_prints [OF k b, of fd "Some a" w1] o by auto
    from k c(2) obtain w3 where r: "read_buf S fd b2 1 w2 = Some (0, b2, w3)" "out w3 = out w2"
        "fd \<noteq> 0 \<Longrightarrow> unread 0 w3 = unread 0 w2"
      by (rule dog_kernel_read [where fd = fd and w = w2]) (simp add: c(4))
    from False o c r close [of w3 fd] Some show ?thesis by (auto simp: dog_arg_def same_io_def)
  qed
qed

lemma dog_args_prints:
  assumes k: "dog_kernel S fs unread out"
  shows "buffer \<noteq> [] \<Longrightarrow> \<exists>b w'. dog_args S as buffer w = Some (b, w') \<and>
    out w' = out w @ dog_output fs (unread 0 w) as"
proof (induction as arbitrary: buffer w)
  case (Cons a as)
  from dog_arg_prints [OF k Cons(2), of a w] obtain b w1 where
    a: "dog_arg S a buffer w = Some (b, w1)" "b \<noteq> []"
      "out w1 = out w @ (if a = ''-'' then unread 0 w else case fs a of None \<Rightarrow> [] | Some d \<Rightarrow> d)"
      "unread 0 w1 = (if a = ''-'' then [] else unread 0 w)" by blast
  from Cons(1) [OF a(2), of w1] obtain b' w2 where
    "dog_args S as b w1 = Some (b', w2)" "out w2 = out w1 @ dog_output fs (unread 0 w1) as" by blast
  with a show ?case by auto
qed simp

text \<open>
  C38. On a kernel whose reads and writes of one byte succeed, the program returns 0 and has
  written the standard input when it has no argument, and otherwise the contents of the readable
  files named by its arguments, from the last to the first, where the first dash met stands for
  the whole standard input; unreadable names add nothing.
\<close>

theorem dog_prints_in_reverse:
  assumes "dog_kernel S fs unread out" and "argv \<noteq> []"
  shows "\<exists>w'. dog_main S argv w = Some (0, w') \<and>
    out w' = out w @ (if length argv = 1 then unread 0 w
                      else dog_output fs (unread 0 w) (rev (tl argv)))"
proof -
  let ?b = "stack_array S ''buffer'' DOG_BUFFER_SIZE w"
  have b: "?b \<noteq> []" by (metis length_stack_array list.size(3) DOG_BUFFER_SIZE_def zero_neq_numeral)
  show ?thesis
  proof (cases "length argv = 1")
    case True
    with dog_copy_prints [OF assms(1) b, of 0 None w] show ?thesis by (auto simp: dog_main_def Let_def)
  next
    case False
    with assms(2) have "2 \<le> length argv" by (cases argv) (auto simp: Suc_le_eq)
    with False dog_args_prints [OF assms(1) b, of "rev (tl argv)" w] show ?thesis
      by (auto simp: dog_main_def Let_def)
  qed
qed

text \<open>A kernel with one descriptor besides the standard ones.\<close>

definition example_sys :: "(string \<Rightarrow> string option) \<Rightarrow> ((int \<Rightarrow> string) \<times> string) sys" where
  "example_sys fs = \<lparr>
     sys_open = (\<lambda>a _ (u, out). case fs a of None \<Rightarrow> (Inl ENOENT, u, out) | Some d \<Rightarrow> (Inr 3, u(3 := d), out)),
     sys_close = (\<lambda>_ w. w),
     sys_read = (\<lambda>fd n (u, out). (Some (take n (u fd)), u(fd := drop n (u fd)), out)),
     sys_write = (\<lambda>_ s n (u, out). (Some n, u, out @ take n s)),
     sys_recv = (\<lambda>_ _ w. (None, w)), sys_send = (\<lambda>_ _ _ w. (None, w)),
     sys_fstat = (\<lambda>_ _. None), sys_warn = (\<lambda>_ w. w), sys_accept = (\<lambda>_ w. (-1, w)),
     sys_stack = (\<lambda>_ _ _. NUL), sys_int = (\<lambda>_ _. 0) \<rparr>"

lemma example_sys_kernel: "dog_kernel (example_sys fs) fs (\<lambda>fd (u, _). u fd) (\<lambda>(_, out). out)"
  unfolding dog_kernel_def example_sys_def
  by (auto simp: same_io_def split: option.splits)

lemma dog_prints_in_reverse_witness:
  "\<exists>w'. dog_main (example_sys [''a'' \<mapsto> ''one'', ''b'' \<mapsto> ''two'']) [''dog'', ''a'', ''-'', ''b'', ''c'']
      (\<lambda>_. ''in'', []) = Some (0, w') \<and> snd w' = ''twoinone''"
  using dog_prints_in_reverse [OF example_sys_kernel, where fs = "[''a'' \<mapsto> ''one'', ''b'' \<mapsto> ''two'']"
      and argv = "[''dog'', ''a'', ''-'', ''b'', ''c'']" and w = "(\<lambda>_. ''in'', [])"]
  by auto

end
