(* ===== verification/Http_Server.thy ===== *)
theory Http_Server
  imports Posix
begin

section \<open>The HTTP server \<^verbatim>\<open>CSE130-v2/asgn1/httpserver.c\<close>\<close>

text \<open>
  One request at a time: \<open>read_http_response\<close> receives and parses it into the one message object
  of the process, \<open>process_request\<close> opens the file and stores the body of a PUT,
  \<open>construct_http_response\<close> sends the header and the file of a GET. \<open>serve\<close> is the loop of
  \<open>main\<close> cut after a number of clients. The copy loop takes the size of the buffer as an argument
  because the threaded server has the same loop with another size.
\<close>

record 'w netsys = "'w sys" +
  sys_socket :: "'w \<Rightarrow> int \<times> 'w"
  sys_setsockopt :: "int \<Rightarrow> 'w \<Rightarrow> int \<times> 'w"
  sys_bind :: "int \<Rightarrow> nat \<Rightarrow> 'w \<Rightarrow> int \<times> 'w"
  sys_listen :: "int \<Rightarrow> nat \<Rightarrow> 'w \<Rightarrow> int \<times> 'w"
  sys_connect :: "int \<Rightarrow> nat \<Rightarrow> 'w \<Rightarrow> int \<times> 'w"
  sys_print :: "string \<Rightarrow> 'w \<Rightarrow> 'w"

definition BUFFER_SIZE :: int where
  "BUFFER_SIZE = 4096"

record httpObject =
  http_method :: string
  filename :: string
  httpversion :: string
  content_length :: int
  status_code :: int
  buffer :: string

abbreviation CRLF :: string where
  "CRLF \<equiv> [CHR 0x0D, CHR 0x0A]"

subsection \<open>Receiving and parsing\<close>

definition name_char :: "char \<Rightarrow> bool" where
  "name_char c \<longleftrightarrow> c = CHR ''-'' \<or> c = CHR ''_'' \<or> c = CHR ''/'' \<or>
    (of_char c :: nat) \<in> {97..122} \<union> {65..90} \<union> {48..57}"

text \<open>
  \<^verbatim>\<open>sscanf(str1, "%*[-_/a-zA-Z0-9]%n", &n)\<close>: when no character matches, \<open>n\<close> keeps its old value.
\<close>

definition scan_name :: "string \<Rightarrow> int \<Rightarrow> int option" where
  "scan_name str1 n = map_option (\<lambda>s.
     let k = length (takeWhile name_char s) in if k = 0 then n else int k) (cstr str1)"

fun content_length_of :: "string list \<Rightarrow> int \<Rightarrow> int" where
  "content_length_of (k # v # res) cl =
    (if k = ''Content-Length:'' then (case strtol v of None \<Rightarrow> cl | Some n \<Rightarrow> n)
     else content_length_of (v # res) cl)"
| "content_length_of res cl = cl"

definition header_delims :: string where
  "header_delims = CHR '' '' # CRLF"

definition parse_headers :: "('z) httpObject_scheme \<Rightarrow> ('z httpObject_scheme) option" where
  "parse_headers m = map_option (\<lambda>s. m\<lparr>
     content_length := content_length_of (strtok_tokens header_delims [] s) (content_length m),
     buffer := strtok_cut header_delims False (buffer m) \<rparr>) (cstr (buffer m))"

definition parse_name :: "string \<Rightarrow> int \<Rightarrow> 'z httpObject_scheme \<Rightarrow> 'z httpObject_scheme option" where
  "parse_name str1 n m =
    (if peek str1 0 = Some (CHR ''/'')
     then let m = m\<lparr>filename := take 27 (drop 1 str1) @ drop 27 (filename m)\<rparr> in do {
       n \<leftarrow> scan_name str1 n;
       c \<leftarrow> peek str1 n;
       if c \<noteq> NUL \<or> 28 < n then Some (m\<lparr>status_code := 400\<rparr>) else parse_headers m }
     else Some (m\<lparr>status_code := 400\<rparr>))"

definition parse_request ::
  "string \<Rightarrow> int \<Rightarrow> 'z httpObject_scheme \<Rightarrow> 'z httpObject_scheme option" where
  "parse_request str1 n m = do {
     s \<leftarrow> cstr (buffer m);
     arrays \<leftarrow> scan_strings s [http_method m, str1, httpversion m];
     parse_name (arrays ! 1) n (m\<lparr>http_method := arrays ! 0, httpversion := arrays ! 2\<rparr>) }"

definition read_http_response ::
  "('w, 'y) sys_scheme \<Rightarrow> int \<Rightarrow> httpObject \<Rightarrow> 'w \<Rightarrow> (httpObject \<times> 'w) option" where
  "read_http_response S client_sockd message w =
    (if status_code message = 500 then Some (message, w)
     else do {
       (bytes, buf, w') \<leftarrow> recv_buf S client_sockd (buffer message) BUFFER_SIZE w;
       buf \<leftarrow> poke buf bytes NUL;
       m \<leftarrow> parse_request (stack_array S ''str1'' (nat BUFFER_SIZE) w) (sys_int S ''n'' w)
              (message\<lparr>status_code := 0, content_length := 0, buffer := buf\<rparr>);
       Some (m, w') })"

subsection \<open>Copying between a socket and a file\<close>

definition failed :: "int \<Rightarrow> int \<Rightarrow> int" where
  "failed bytes status = (if bytes = -1 then 500 else status)"

partial_function (option) copy_chunks ::
  "('w, 'y) sys_scheme \<Rightarrow> int \<Rightarrow> int \<Rightarrow> int \<Rightarrow> int \<Rightarrow> int \<Rightarrow> string \<Rightarrow> 'w \<Rightarrow>
   (int \<times> int \<times> string \<times> 'w) option" where
  "copy_chunks S block src dst len status body w =
    (if block < len then Option.bind (read_buf S src body block w) (\<lambda>(bytes, body, w).
       Option.bind (poke body bytes NUL) (\<lambda>body.
       Option.bind (write_buf S dst body block w) (\<lambda>(written, w).
         copy_chunks S block src dst (len - block) (failed written (failed bytes status)) body w)))
     else Some (len, status, body, w))"

definition copy_body ::
  "('w, 'y) sys_scheme \<Rightarrow> int \<Rightarrow> int \<Rightarrow> int \<Rightarrow> int \<Rightarrow> int \<Rightarrow> string \<Rightarrow> 'w \<Rightarrow>
   (int \<times> int \<times> string \<times> 'w) option" where
  "copy_body S block src dst len status body w = do {
     (len, status, body, w) \<leftarrow> copy_chunks S block src dst len status body w;
     (bytes, body, w) \<leftarrow> read_buf S src body len w;
     (written, w) \<leftarrow> write_buf S dst body len w;
     Some (len, failed written (failed bytes status), body, w) }"

subsection \<open>Processing\<close>

definition open_status :: "errno \<Rightarrow> int \<Rightarrow> int" where
  "open_status e status = (case e of EACCES \<Rightarrow> 403 | ENOENT \<Rightarrow> 404 | EOTHER \<Rightarrow> status)"

definition st_size :: "('w, 'y) sys_scheme \<Rightarrow> int \<Rightarrow> 'w \<Rightarrow> int" where
  "st_size S fd w = (case sys_fstat S fd w of None \<Rightarrow> sys_int S ''st_size'' w | Some n \<Rightarrow> n)"

definition process_put ::
  "('w, 'y) sys_scheme \<Rightarrow> int \<Rightarrow> string \<Rightarrow> httpObject \<Rightarrow> 'w \<Rightarrow> (httpObject \<times> 'w) option" where
  "process_put S client_sockd name message w =
    (case sys_open S name [O_CREAT, O_WRONLY, O_TRUNC] w of
       (Inl e, w) \<Rightarrow> Some (message\<lparr>status_code := open_status e (status_code message)\<rparr>,
                          sys_close S (-1) w)
     | (Inr fd, w) \<Rightarrow> do {
         (_, status, _, w) \<leftarrow> copy_body S BUFFER_SIZE client_sockd fd (content_length message) 201
             (stack_array S ''response_body'' (nat BUFFER_SIZE + 1) w) w;
         Some (message\<lparr>status_code := status, content_length := 0\<rparr>,
               sys_close S fd (sys_close S fd w)) })"

definition process_get ::
  "('w, 'y) sys_scheme \<Rightarrow> string \<Rightarrow> httpObject \<Rightarrow> 'w \<Rightarrow> httpObject \<times> 'w" where
  "process_get S name message w =
    (case sys_open S name [O_RDONLY] w of
       (Inl e, w) \<Rightarrow> (message\<lparr>status_code := open_status e (status_code message)\<rparr>,
                     sys_close S (-1) w)
     | (Inr fd, w) \<Rightarrow> (message\<lparr>status_code := 200, content_length := st_size S fd w\<rparr>,
                      sys_close S fd w))"

definition process_request ::
  "('w, 'y) sys_scheme \<Rightarrow> int \<Rightarrow> httpObject \<Rightarrow> 'w \<Rightarrow> (httpObject \<times> 'w) option" where
  "process_request S client_sockd message w =
    (if status_code message = 400 \<or> status_code message = 500 then Some (message, w)
     else do {
       meth \<leftarrow> cstr (http_method message);
       name \<leftarrow> cstr (filename message);
       if meth = ''PUT'' then process_put S client_sockd name message w
       else Some (process_get S name message w) })"

subsection \<open>The response\<close>

definition status_string :: "int \<Rightarrow> string" where
  "status_string code =
    (if code = 200 then ''OK'' else if code = 201 then ''Created''
     else if code = 400 then ''Bad Request'' else if code = 403 then ''Forbidden''
     else if code = 404 then ''Not Found'' else if code = 500 then ''Internal Server Error''
     else [])"

definition response_header :: "'z httpObject_scheme \<Rightarrow> string option" where
  "response_header m = map_option (\<lambda>v. v @ '' '' @ show_int (status_code m) @ '' '' @
     status_string (status_code m) @ CRLF @ ''Content-Length: '' @ show_int (content_length m) @
     CRLF @ CRLF) (cstr (httpversion m))"

text \<open>
  \<open>snprintf\<close> cuts the header to the 100 bytes of the array but returns its whole length \<open>k\<close>,
  which is how much is sent.
\<close>

definition response_string :: "string \<Rightarrow> string \<Rightarrow> string" where
  "response_string junk h = take 99 h @ NUL # drop (Suc (length (take 99 h))) junk"

definition send_header ::
  "('w, 'y) sys_scheme \<Rightarrow> int \<Rightarrow> 'z httpObject_scheme \<Rightarrow> 'w \<Rightarrow> (int \<times> 'w) option" where
  "send_header S client_sockd m w = do {
     h \<leftarrow> response_header m;
     send_buf S client_sockd (response_string (stack_array S ''response_string'' 100 w) h)
       (int (length h)) w }"

definition is_error :: "int \<Rightarrow> bool" where
  "is_error status \<longleftrightarrow> status = 400 \<or> status = 403 \<or> status = 404 \<or> status = 500"

definition send_file ::
  "('w, 'y) sys_scheme \<Rightarrow> int \<Rightarrow> string \<Rightarrow> httpObject \<Rightarrow> 'w \<Rightarrow> (httpObject \<times> 'w) option" where
  "send_file S client_sockd name message w =
    (case sys_open S name [O_RDONLY] w of (r, w) \<Rightarrow> do {
       (len, status, _, w) \<leftarrow> copy_body S BUFFER_SIZE (fd_of r) client_sockd
           (content_length message) (status_code message)
           (stack_array S ''response_body'' (nat BUFFER_SIZE + 1) w) w;
       Some (message\<lparr>status_code := status, content_length := len\<rparr>, sys_close S (fd_of r) w) })"

definition construct_http_response ::
  "('w, 'y) sys_scheme \<Rightarrow> int \<Rightarrow> httpObject \<Rightarrow> 'w \<Rightarrow> (httpObject \<times> 'w) option" where
  "construct_http_response S client_sockd message w = do {
     (_, w) \<leftarrow> send_header S client_sockd message w;
     if is_error (status_code message) then Some (message, w)
     else let message = message\<lparr>buffer := replicate (nat BUFFER_SIZE + 1) NUL\<rparr> in do {
       meth \<leftarrow> cstr (http_method message);
       if meth = ''GET'' then do {
         name \<leftarrow> cstr (filename message);
         send_file S client_sockd name message w }
       else Some (message, w) } }"

subsection \<open>The program\<close>

definition serve_client ::
  "('w, 'y) sys_scheme \<Rightarrow> int \<Rightarrow> httpObject \<Rightarrow> 'w \<Rightarrow> (httpObject \<times> 'w) option" where
  "serve_client S server_sockd message w =
    (case sys_accept S server_sockd w of (client_sockd, w) \<Rightarrow> do {
       (message, w) \<leftarrow> read_http_response S client_sockd
           (if client_sockd = -1 then message\<lparr>status_code := 500\<rparr> else message) w;
       (message, w) \<leftarrow> process_request S client_sockd message w;
       (message, w) \<leftarrow> construct_http_response S client_sockd message w;
       Some (message, sys_close S client_sockd w) })"

fun serve ::
  "('w, 'y) sys_scheme \<Rightarrow> int \<Rightarrow> nat \<Rightarrow> httpObject \<Rightarrow> 'w \<Rightarrow> (httpObject \<times> 'w) option" where
  "serve S server_sockd 0 message w = Some (message, w)"
| "serve S server_sockd (Suc n) message w = do {
     (message, w) \<leftarrow> serve_client S server_sockd message w;
     serve S server_sockd n message w }"

text \<open>
  The start of \<open>main\<close>: the exit code, or the listening socket. A socket that could not be made
  is reported and used all the same; only \<open>listen\<close> ends the program.
\<close>

definition start_server :: "('w, 'y) netsys_scheme \<Rightarrow> string \<Rightarrow> 'w \<Rightarrow> (int + int) \<times> 'w" where
  "start_server S port w =
    (case sys_socket S w of (server_sockd, w) \<Rightarrow>
     (case sys_setsockopt S server_sockd
         (if server_sockd < 0 then sys_print S ''socket'' w else w) of (_, w) \<Rightarrow>
     (case sys_bind S server_sockd (unat (word_of_int (atoi port) :: 16 word)) w of (_, w) \<Rightarrow>
     (case sys_listen S server_sockd 5 w of (ret, w) \<Rightarrow>
       if ret < 0 then (Inl 1, w) else (Inr server_sockd, w)))))"

definition http_start :: "('w, 'y) netsys_scheme \<Rightarrow> string list \<Rightarrow> 'w \<Rightarrow> (int + int) \<times> 'w" where
  "http_start S argv w =
    (if length argv \<noteq> 2 then (Inl 1, sys_print S (''Usage: ./httpserver port '' @ [CHR 0x0A]) w)
     else start_server S (argv ! 1) w)"

end
