(* ===== verification/Http_Props.thy ===== *)
theory Http_Props
  imports Http_Server
begin

section \<open>Properties of the HTTP server\<close>

text \<open>
  The message object keeps its type through every request and the response header always fits
  its array; an internal error is final; the names that reach the file system.
\<close>

subsection \<open>The message object\<close>

definition ssize_ok :: "int \<Rightarrow> bool" where
  "ssize_ok n \<longleftrightarrow> - (2 ^ 63) \<le> n \<and> n < 2 ^ 63"

definition arrays_ok :: "httpObject \<Rightarrow> bool" where
  "arrays_ok m \<longleftrightarrow> length (http_method m) = 5 \<and> length (filename m) = 28 \<and> length (httpversion m) = 9 \<and>
    length (buffer m) = 4097 \<and> ssize_ok (content_length m)"

definition status_ok :: "int \<Rightarrow> bool" where
  "status_ok s \<longleftrightarrow> s = 0 \<or> s = 200 \<or> s = 201 \<or> s = 400 \<or> s = 403 \<or> s = 404 \<or> s = 500"

lemma bind_eq_SomeE:
  "Option.bind x f = Some y \<Longrightarrow> (\<And>z. x = Some z \<Longrightarrow> f z = Some y \<Longrightarrow> P) \<Longrightarrow> P"
  by (cases x) auto

lemma ssize_ok_strtol: "strtol v = Some n \<Longrightarrow> ssize_ok n"
  by (auto simp: strtol_def clamp64_def ssize_ok_def)

lemma ssize_ok_content_length_of: "ssize_ok cl \<Longrightarrow> ssize_ok (content_length_of res cl)"
  by (induction res cl rule: content_length_of.induct) (auto dest: ssize_ok_strtol split: option.splits)

lemma ssize_ok_0 [simp]: "ssize_ok 0"
  by (simp add: ssize_ok_def)

lemma parse_headers_ok:
  "parse_headers m = Some m' \<Longrightarrow> arrays_ok m \<Longrightarrow> arrays_ok m' \<and> status_code m' = status_code m"
  by (auto simp: parse_headers_def arrays_ok_def intro: ssize_ok_content_length_of)

lemma parse_headers_filename: "parse_headers m = Some m' \<Longrightarrow> filename m' = filename m"
  by (auto simp: parse_headers_def)

lemma parse_name_ok:
  assumes "parse_name str1 n m = Some m'" and "arrays_ok m" and "length str1 = 4096"
    and "status_ok (status_code m)"
  shows "arrays_ok m' \<and> status_ok (status_code m')"
proof -
  let ?m = "m\<lparr>filename := take 27 (drop 1 str1) @ drop 27 (filename m)\<rparr>"
  have f: "arrays_ok ?m" using assms(2,3) by (auto simp: arrays_ok_def)
  have bad: "arrays_ok (x\<lparr>status_code := 400\<rparr>) \<and> status_ok (status_code (x\<lparr>status_code := 400\<rparr>))"
    if "arrays_ok x" for x
    using that by (simp add: arrays_ok_def status_ok_def)
  show ?thesis
  proof (cases "peek str1 0 = Some (CHR ''/'')")
    case False
    with assms(1) have "m' = m\<lparr>status_code := 400\<rparr>" by (simp only: parse_name_def if_False option.inject)
    with bad [OF assms(2)] show ?thesis by simp
  next
    case True
    with assms(1) obtain k :: int and c where
      r: "(if c \<noteq> NUL \<or> 28 < k then Some (?m\<lparr>status_code := 400\<rparr>) else parse_headers ?m) = Some m'"
      by (simp only: parse_name_def simp_thms if_True Let_def) (elim bind_eq_SomeE, blast)
    show ?thesis
    proof (cases "c \<noteq> NUL \<or> 28 < k")
      case True
      with r have "m' = ?m\<lparr>status_code := 400\<rparr>" by (simp only: if_True option.inject)
      with bad [OF f] show ?thesis by simp
    next
      case False
      with r have "parse_headers ?m = Some m'" by (simp only: if_False)
      from parse_headers_ok [OF this f] assms(4) show ?thesis by simp
    qed
  qed
qed

lemma scan_strings_lengths:
  "scan_strings s arrs = Some bs \<Longrightarrow> map length bs = map length arrs"
proof (induction arrs arbitrary: s bs)
  case (Cons a as)
  show ?case
  proof (cases "dropWhile isspace s")
    case (Cons c r)
    with Cons.prems obtain b bs' where "store_string a (takeWhile (\<lambda>x. \<not> isspace x) (c # r)) = Some b"
      and "scan_strings (dropWhile (\<lambda>x. \<not> isspace x) (c # r)) as = Some bs'" and "bs = b # bs'"
      by (auto simp del: takeWhile.simps dropWhile.simps split: option.splits)
    with Cons.IH show ?thesis by (auto dest!: store_string_SomeD)
  next
    case Nil
    with Cons.prems show ?thesis by (simp only: scan_strings.simps list.case option.inject)
  qed
qed simp

lemma scan_strings_3:
  assumes "scan_strings s [a, b, c] = Some arrays"
  shows "length (arrays ! 0) = length a \<and> length (arrays ! 1) = length b \<and>
    length (arrays ! 2) = length c"
proof -
  from scan_strings_lengths [OF assms] obtain x y z where "arrays = [x, y, z]"
    "length x = length a" "length y = length b" "length z = length c"
    by (auto simp: map_eq_Cons_conv)
  then show ?thesis by simp
qed

lemma parse_request_ok:
  assumes "parse_request str1 n m = Some m'" and "arrays_ok m" and "length str1 = 4096"
    and "status_ok (status_code m)"
  shows "arrays_ok m' \<and> status_ok (status_code m')"
proof -
  from assms(1) obtain s arrays where "scan_strings s [http_method m, str1, httpversion m] = Some arrays"
    and p: "parse_name (arrays ! 1) n (m\<lparr>http_method := arrays ! 0, httpversion := arrays ! 2\<rparr>) = Some m'"
    by (auto simp: parse_request_def bind_eq_Some_conv)
  with scan_strings_3 have l: "length (arrays ! 0) = length (http_method m)" "length (arrays ! 1) = 4096"
    "length (arrays ! 2) = length (httpversion m)" using assms(3) by metis+
  from p show ?thesis
    by (rule parse_name_ok) (use l assms in \<open>auto simp: arrays_ok_def\<close>)
qed

lemma read_http_response_ok:
  assumes "read_http_response S c m w = Some (m', w')" and "arrays_ok m"
  shows "arrays_ok m' \<and> status_ok (status_code m')"
proof (cases "status_code m = 500")
  case True
  with assms show ?thesis by (simp add: read_http_response_def status_ok_def)
next
  case False
  with assms(1) obtain bytes buf w1 buf' where
    "recv_buf S c (buffer m) BUFFER_SIZE w = Some (bytes, buf, w1)" "poke buf bytes NUL = Some buf'"
    and p: "parse_request (stack_array S ''str1'' (nat BUFFER_SIZE) w) (sys_int S ''n'' w)
      (m\<lparr>status_code := 0, content_length := 0, buffer := buf'\<rparr>) = Some m'"
    by (auto simp: read_http_response_def bind_eq_Some_conv)
  then have "length buf' = 4097" using assms(2) by (auto dest!: recv_buf_length length_poke simp: arrays_ok_def)
  with p assms(2) show ?thesis
    by (intro parse_request_ok [OF p]) (auto simp: arrays_ok_def BUFFER_SIZE_def status_ok_def)
qed

lemma copy_chunks_result:
  assumes "copy_chunks S block src dst len st body w = Some r"
  shows "case r of (len', st', _, _) \<Rightarrow>
    (st' = st \<or> st' = 500) \<and> (0 < block \<longrightarrow> len' = len \<or> 0 < len' \<and> len' < len)"
proof (rule copy_chunks.raw_induct [of "\<lambda>S block src dst len st body w r. case r of (len', st', _, _) \<Rightarrow>
    (st' = st \<or> st' = 500) \<and> (0 < block \<longrightarrow> len' = len \<or> 0 < len' \<and> len' < len)", OF _ assms])
  fix f S block src dst len st body w r
  assume IH: "\<And>S block src dst len st body w r. f S block src dst len st body w = Some r \<Longrightarrow>
      case r of (len', st', _, _) \<Rightarrow>
        (st' = st \<or> st' = 500) \<and> (0 < block \<longrightarrow> len' = len \<or> 0 < len' \<and> len' < len)"
    and r: "(if block < len then Option.bind (read_buf S src body block w) (\<lambda>(bytes, body, w).
       Option.bind (poke body bytes NUL) (\<lambda>body.
       Option.bind (write_buf S dst body block w) (\<lambda>(written, w).
         f S block src dst (len - block) (failed written (failed bytes st)) body w)))
     else Some (len, st, body, w)) = Some r"
  show "case r of (len', st', _, _) \<Rightarrow>
    (st' = st \<or> st' = 500) \<and> (0 < block \<longrightarrow> len' = len \<or> 0 < len' \<and> len' < len)"
  proof (cases "block < len")
    case True
    with r obtain a b body' w' where
      "f S block src dst (len - block) (failed a (failed b st)) body' w' = Some r"
      by (auto simp: bind_eq_Some_conv)
    from IH [OF this] True show ?thesis by (auto simp: failed_def split: if_splits)
  qed (use r in auto)
qed

lemma copy_body_result:
  assumes "copy_body S block src dst len st body w = Some (len', st', body', w')"
  shows "(st' = st \<or> st' = 500) \<and> (0 < block \<longrightarrow> len' = len \<or> 0 < len' \<and> len' < len)"
proof -
  from assms obtain st1 b1 w1 a b where
    "copy_chunks S block src dst len st body w = Some (len', st1, b1, w1)"
    and "st' = failed a (failed b st1)"
    by (auto simp: copy_body_def bind_eq_Some_conv)
  from copy_chunks_result [OF this(1)] this(2) show ?thesis by (auto simp: failed_def)
qed

lemma open_status_ok: "status_ok s \<Longrightarrow> status_ok (open_status e s)"
  by (cases e) (simp_all add: open_status_def status_ok_def)

text \<open>The kernel returns file sizes of its type \<^verbatim>\<open>off_t\<close>.\<close>

definition sizes_ok :: "('w, 'y) sys_scheme \<Rightarrow> bool" where
  "sizes_ok S \<longleftrightarrow> (\<forall>fd w. ssize_ok (st_size S fd w))"

definition message_ok :: "httpObject \<Rightarrow> bool" where
  "message_ok m \<longleftrightarrow> arrays_ok m \<and> status_ok (status_code m)"

lemma arrays_ok_status: "arrays_ok m \<Longrightarrow> arrays_ok (m\<lparr>status_code := s\<rparr>)"
  by (simp add: arrays_ok_def)

lemma arrays_ok_content_length:
  "arrays_ok m \<Longrightarrow> ssize_ok n \<Longrightarrow> arrays_ok (m\<lparr>status_code := s, content_length := n\<rparr>)"
  by (simp add: arrays_ok_def)

lemma process_put_ok:
  assumes "process_put S c name m w = Some (m', w')" and "message_ok m"
  shows "message_ok m'"
proof (cases "sys_open S name [O_CREAT, O_WRONLY, O_TRUNC] w")
  case (Pair r w1)
  show ?thesis
  proof (cases r)
    case (Inl e)
    with assms Pair show ?thesis
      by (auto simp: process_put_def message_ok_def open_status_ok arrays_ok_status)
  next
    case (Inr fd)
    with assms(1) Pair obtain len st b w2 where
      "copy_body S BUFFER_SIZE c fd (content_length m) 201
         (stack_array S ''response_body'' (nat BUFFER_SIZE + 1) w1) w1 = Some (len, st, b, w2)"
      and m': "m' = m\<lparr>status_code := st, content_length := 0\<rparr>"
      by (auto simp: process_put_def bind_eq_Some_conv)
    from copy_body_result [OF this(1)] have "status_ok st" by (auto simp: status_ok_def)
    with m' assms(2) show ?thesis by (simp add: message_ok_def arrays_ok_content_length)
  qed
qed

lemma process_get_ok:
  assumes "sizes_ok S" and "message_ok m"
  shows "message_ok (fst (process_get S name m w))"
  using assms
  by (auto simp: process_get_def message_ok_def sizes_ok_def open_status_ok arrays_ok_status
      arrays_ok_content_length status_ok_def [of 200] split: prod.splits sum.splits)

lemma process_request_ok:
  assumes "sizes_ok S" and "process_request S c m w = Some (m', w')" and "message_ok m"
  shows "message_ok m'"
proof (cases "status_code m = 400 \<or> status_code m = 500")
  case True
  with assms(2,3) show ?thesis by (simp add: process_request_def)
next
  case False
  with assms(2) obtain v name where
    "(if v = ''PUT'' then process_put S c name m w else Some (process_get S name m w)) = Some (m', w')"
    by (simp only: process_request_def if_False) (elim bind_eq_SomeE, blast)
  then show ?thesis using process_put_ok [OF _ assms(3)] process_get_ok [OF assms(1,3), of name w]
    by (cases "v = ''PUT''") auto
qed

lemma send_file_ok:
  assumes "send_file S c name m w = Some (m', w')" and "message_ok m"
  shows "message_ok m'"
proof -
  obtain r w1 where o: "sys_open S name [O_RDONLY] w = (r, w1)" by (cases "sys_open S name [O_RDONLY] w")
  with assms(1) obtain len st b w2 where
    c: "copy_body S BUFFER_SIZE (fd_of r) c (content_length m) (status_code m)
       (stack_array S ''response_body'' (nat BUFFER_SIZE + 1) w1) w1 = Some (len, st, b, w2)"
    and m': "m' = m\<lparr>status_code := st, content_length := len\<rparr>"
    by (auto simp: send_file_def bind_eq_Some_conv)
  have "0 < BUFFER_SIZE" by (simp add: BUFFER_SIZE_def)
  with copy_body_result [OF c] assms(2) have "status_ok st" and "ssize_ok len"
    by (auto simp: message_ok_def arrays_ok_def status_ok_def ssize_ok_def)
  with m' assms(2) show ?thesis by (simp add: message_ok_def arrays_ok_content_length)
qed

lemma construct_http_response_ok:
  assumes "construct_http_response S c m w = Some (m', w')" and "message_ok m"
  shows "message_ok m'"
proof -
  let ?m = "m\<lparr>buffer := replicate (nat BUFFER_SIZE + 1) NUL\<rparr>"
  have ok: "message_ok ?m" using assms(2) by (simp add: message_ok_def arrays_ok_def BUFFER_SIZE_def)
  from assms(1) consider "m' = m" | "m' = ?m" | name v where "send_file S c name ?m v = Some (m', w')"
    by (auto simp: construct_http_response_def Let_def bind_eq_Some_conv split: if_splits)
  then show ?thesis
  proof cases
    case 3
    then show ?thesis using ok by (rule send_file_ok)
  qed (use assms(2) ok in simp_all)
qed

lemma serve_client_ok:
  assumes "sizes_ok S" and "serve_client S sd m w = Some (m', w')" and "arrays_ok m"
  shows "message_ok m'"
proof -
  obtain c w0 where a: "sys_accept S sd w = (c, w0)" by (cases "sys_accept S sd w")
  let ?m = "if c = -1 then m\<lparr>status_code := 500\<rparr> else m"
  from assms(2) a obtain m1 w1 m2 w2 w3 where
    r: "read_http_response S c ?m w0 = Some (m1, w1)" and p: "process_request S c m1 w1 = Some (m2, w2)"
    and h: "construct_http_response S c m2 w2 = Some (m', w3)"
    by (auto simp: serve_client_def bind_eq_Some_conv)
  from read_http_response_ok [OF r] assms(3) have "message_ok m1" by (simp add: message_ok_def arrays_ok_status)
  from process_request_ok [OF assms(1) p this] show ?thesis by (rule construct_http_response_ok [OF h])
qed

text \<open>
  So after one or more requests the message object is one whose response header fits its array,
  even if it was not initialised before.
\<close>

lemma serve_message_ok:
  assumes "sizes_ok S"
  shows "serve S sd n m w = Some (m', w') \<Longrightarrow> 0 < n \<Longrightarrow> arrays_ok m \<Longrightarrow> message_ok m'"
proof (induction n arbitrary: m w)
  case (Suc n)
  then obtain m1 w1 where s: "serve_client S sd m w = Some (m1, w1)" "serve S sd n m1 w1 = Some (m', w')"
    by (auto simp: bind_eq_Some_conv)
  with serve_client_ok [OF assms s(1) Suc(4)] Suc(1) [OF s(2)] show ?case
    by (cases n) (auto simp: message_ok_def)
qed simp

subsection \<open>The header and its array\<close>

lemma length_status_string: "length (status_string st) \<le> 21"
  by (simp add: status_string_def)

lemma length_show_status: "status_ok st \<Longrightarrow> length (show_int st) \<le> 4"
  by (rule length_show_int [of st 3, simplified]) (auto simp: status_ok_def)

lemma length_show_ssize: "ssize_ok n \<Longrightarrow> length (show_int n) \<le> 20"
  by (rule length_show_int [of n 19, simplified]) (auto simp: ssize_ok_def)

lemma response_header_length:
  assumes "length (httpversion m) = 9" and "status_ok (status_code m)" and "ssize_ok (content_length m)"
    and "response_header m = Some h"
  shows "length h < 100"
proof -
  from assms(4) obtain v where v: "cstr (httpversion m) = Some v" and
    h: "h = v @ '' '' @ show_int (status_code m) @ '' '' @ status_string (status_code m) @ CRLF @
      ''Content-Length: '' @ show_int (content_length m) @ CRLF @ CRLF"
    by (auto simp: response_header_def)
  have "length v \<le> 8" using cstr_length [OF v] assms(1) by simp
  with length_status_string [of "status_code m"] length_show_status [OF assms(2)]
    length_show_ssize [OF assms(3)]
  show ?thesis by (simp add: h)
qed

lemma take_response_string: "length h < 100 \<Longrightarrow> take (length h) (response_string junk h) = h"
  by (simp add: response_string_def)

lemma length_response_string:
  "length junk = 100 \<Longrightarrow> length (response_string junk h) = 100"
  by (auto simp: response_string_def min_def)

lemma send_header_eq:
  assumes "length (httpversion m) = 9" and "status_ok (status_code m)" and "ssize_ok (content_length m)"
    and h: "response_header m = Some h"
  shows "send_header S c m w =
    (case sys_send S c (response_string (stack_array S ''response_string'' 100 w) h) (length h) w of
       (r, w) \<Rightarrow> Some (count_of r, w))"
proof -
  have l: "length h < 100" by (rule response_header_length) fact+
  then have "size_t (int (length h)) = length h" by (simp add: size_t_nat)
  with l h show ?thesis
    by (simp add: send_header_def send_buf_def length_response_string)
qed

text \<open>
  For every message object of its type the header is built within the 100 bytes of
  \<^verbatim>\<open>response_string\<close>: the one \<open>send\<close> is given an array of 100 bytes whose first \<open>k\<close> are
  exactly the header, NUL-terminated, where \<open>k\<close> is below 100.
\<close>

theorem response_header_fits:
  assumes "message_ok m" and "response_header m = Some h"
  shows "\<exists>a. length a = 100 \<and> length h < 100 \<and> take (length h) a = h \<and> a ! length h = NUL \<and>
    send_header S c m w = (case sys_send S c a (length h) w of (r, w) \<Rightarrow> Some (count_of r, w))"
proof -
  have l: "length h < 100" and e: "send_header S c m w =
    (case sys_send S c (response_string (stack_array S ''response_string'' 100 w) h) (length h) w of
       (r, w) \<Rightarrow> Some (count_of r, w))"
    using assms response_header_length send_header_eq by (auto simp: message_ok_def arrays_ok_def)
  from l have "response_string (stack_array S ''response_string'' 100 w) h ! length h = NUL"
    by (simp add: response_string_def nth_append)
  with l e take_response_string [OF l] show ?thesis by (blast intro: length_response_string length_stack_array)
qed

subsection \<open>An internal error is final\<close>

definition refuse_client :: "('w, 'y) sys_scheme \<Rightarrow> int \<Rightarrow> string \<Rightarrow> 'w \<Rightarrow> 'w" where
  "refuse_client S sd h w = (case sys_accept S sd w of (c, w) \<Rightarrow>
     sys_close S c (snd (sys_send S c
       (response_string (stack_array S ''response_string'' 100 w) h) (length h) w)))"

lemma serve_client_500:
  assumes "status_code m = 500" and "arrays_ok m" and "response_header m = Some h"
  shows "serve_client S sd m w = Some (m, refuse_client S sd h w)"
proof -
  obtain c w1 where a: "sys_accept S sd w = (c, w1)" by (cases "sys_accept S sd w")
  have m: "(if c = -1 then m\<lparr>status_code := 500\<rparr> else m) = m" using assms(1) by simp
  have h: "send_header S c m w1 =
    (case sys_send S c (response_string (stack_array S ''response_string'' 100 w1) h) (length h) w1 of
       (r, w) \<Rightarrow> Some (count_of r, w))"
    using assms by (intro send_header_eq) (auto simp: arrays_ok_def status_ok_def)
  show ?thesis using assms(1)
    by (simp add: serve_client_def a m h refuse_client_def read_http_response_def process_request_def
        construct_http_response_def is_error_def split: prod.splits)
qed

text \<open>
  C20. Once the status code is 500 the server never handles a request again: for any number of
  further clients it accepts, sends the same 500 header and closes, receives nothing, opens no
  file, and keeps the message object.
\<close>

theorem http_500_sticks:
  assumes "status_code m = 500" and "arrays_ok m" and "response_header m = Some h"
  shows "serve S sd n m w = Some (m, (refuse_client S sd h ^^ n) w)"
proof (induction n arbitrary: w)
  case (Suc n)
  then show ?case
    by (simp add: serve_client_500 [OF assms] funpow_swap1)
qed simp

subsection \<open>Which names reach the file system\<close>

lemma name_char_NUL: "\<not> name_char NUL"
  by (simp add: name_char_def)

lemma scan_name_slash:
  assumes "peek str1 0 = Some (CHR ''/'')" and "scan_name str1 n = Some k" and "peek str1 k = Some NUL"
  obtains name t where "str1 = CHR ''/'' # name @ NUL # t" and "k = int (Suc (length name))"
    and "\<forall>x\<in>set name. name_char x"
proof -
  from assms(2) obtain s where s: "cstr str1 = Some s"
    and k: "k = (let j = length (takeWhile name_char s) in if j = 0 then n else int j)"
    by (auto simp: scan_name_def)
  from s obtain t where t: "str1 = s @ NUL # t" and nn: "NUL \<notin> set s" by (rule cstr_SomeE)
  from assms(1) t obtain s' where s': "s = CHR ''/'' # s'"
    by (cases s) (auto simp: peek_def split: if_splits)
  have sl: "name_char (CHR ''/'')" by (simp add: name_char_def)
  define name where "name = takeWhile name_char s'"
  have k': "k = int (Suc (length name))" by (simp add: k s' sl name_def)
  have "name = s'"
  proof (rule ccontr)
    assume "name \<noteq> s'"
    then have "length name < length s'" unfolding name_def
      by (metis length_takeWhile_le linorder_neqE_nat not_less takeWhile_eq_take take_all_iff)
    moreover have "nat k = Suc (length name)" using k' by linarith
    ultimately have "str1 ! nat k = s' ! length name" and "s' ! length name \<in> set s'"
      by (simp_all add: t s' nth_append)
    moreover have "str1 ! nat k = NUL" using assms(3) by (auto simp: peek_def split: if_splits)
    ultimately show False using nn s' by auto
  qed
  with k' t s' have "str1 = CHR ''/'' # name @ NUL # t" and "k = int (Suc (length name))" by simp_all
  moreover have "\<forall>x\<in>set name. name_char x" unfolding name_def by (blast dest: set_takeWhileD)
  ultimately show ?thesis by (rule that)
qed

lemma cstr_filename:
  assumes "length name \<le> 27" and "cstr (take 27 (name @ NUL # t) @ f) = Some x"
    and "NUL \<notin> set name" and "length f = 1"
  shows "x = name"
proof (cases "length name = 27")
  case True
  with assms(2,4) have "cstr (name @ [hd f]) = Some x" by (cases f) auto
  with assms(3) True show ?thesis by (auto simp: cstr_def takeWhile_append split: if_splits)
next
  case False
  with assms(1) have l: "length name < 27" by simp
  have e: "take 27 (name @ NUL # t) @ f = name @ NUL # (take (26 - length name) t @ f)"
    using l by (simp add: take_Cons')
  from assms(2) show ?thesis unfolding e cstr_append_NUL [OF assms(3)] by simp
qed

lemma parse_request_names:
  assumes "parse_request str1 n m = Some m'" and "status_code m' \<noteq> 400"
    and "cstr (filename m') = Some f" and "length (filename m) = 28"
  shows "length f \<le> 27 \<and> (\<forall>x\<in>set f. name_char x)"
proof -
  from assms(1) obtain s arrays where
    p: "parse_name (arrays ! 1) n (m\<lparr>http_method := arrays ! 0, httpversion := arrays ! 2\<rparr>) = Some m'"
    by (auto simp: parse_request_def bind_eq_Some_conv)
  let ?a = "arrays ! 1" and ?m = "m\<lparr>http_method := arrays ! 0, httpversion := arrays ! 2\<rparr>"
  let ?mf = "?m\<lparr>filename := take 27 (drop 1 ?a) @ drop 27 (filename ?m)\<rparr>"
  have sl: "peek ?a 0 = Some (CHR ''/'')"
  proof (rule ccontr)
    assume "peek ?a 0 \<noteq> Some (CHR ''/'')"
    with p have "m' = ?m\<lparr>status_code := 400\<rparr>" by (simp only: parse_name_def if_False option.inject)
    with assms(2) show False by simp
  qed
  with p obtain k :: int and c where k: "scan_name ?a n = Some k" "peek ?a k = Some c"
    and r: "(if c \<noteq> NUL \<or> 28 < k then Some (?mf\<lparr>status_code := 400\<rparr>) else parse_headers ?mf) = Some m'"
    by (simp only: parse_name_def simp_thms if_True Let_def) (elim bind_eq_SomeE, blast)
  have ck: "\<not> (c \<noteq> NUL \<or> 28 < k)"
  proof
    assume "c \<noteq> NUL \<or> 28 < k"
    with r have "m' = ?mf\<lparr>status_code := 400\<rparr>" by (simp only: if_True option.inject)
    with assms(2) show False by simp
  qed
  with r have h: "parse_headers ?mf = Some m'" by (simp only: if_False)
  from ck have c: "c = NUL" "k \<le> 28" by auto
  from sl k(1) k(2) [unfolded c] obtain name t where a: "?a = CHR ''/'' # name @ NUL # t"
    and k': "k = int (Suc (length name))" and nc: "\<forall>x\<in>set name. name_char x"
    by (rule scan_name_slash)
  have "filename m' = take 27 (name @ NUL # t) @ drop 27 (filename m)"
  proof -
    have "filename m' = take 27 (drop 1 ?a) @ drop 27 (filename m)"
      using parse_headers_filename [OF h] by simp
    moreover have "drop 1 ?a = name @ NUL # t" using a by simp
    ultimately show ?thesis by (simp only:)
  qed
  then have cs: "cstr (take 27 (name @ NUL # t) @ drop 27 (filename m)) = Some f"
    using assms(3) by (simp only:)
  have nn: "NUL \<notin> set name" using nc name_char_NUL by blast
  have l: "length name \<le> 27" using k' c(2) by linarith
  have d: "length (drop 27 (filename m)) = 1" using assms(4) by simp
  have "f = name" by (rule cstr_filename [OF l cs nn d])
  with nc k' c(2) show ?thesis by simp
qed

text \<open>
  A request that is not answered 400 names a file of at most 27 characters, all of them
  letters, digits, dash, underscore or slash: no name with a dot, hence no parent directory,
  reaches \<open>open\<close>.
\<close>

theorem http_names_confined:
  assumes "read_http_response S c m w = Some (m', w')" and "status_code m \<noteq> 500"
    and "length (filename m) = 28"
    and "status_code m' \<noteq> 400" and "cstr (filename m') = Some f"
  shows "length f \<le> 27 \<and> (\<forall>x\<in>set f. name_char x) \<and> CHR ''.'' \<notin> set f"
proof -
  from assms(1,2) obtain buf where
    "parse_request (stack_array S ''str1'' (nat BUFFER_SIZE) w) (sys_int S ''n'' w)
       (m\<lparr>status_code := 0, content_length := 0, buffer := buf\<rparr>) = Some m'"
    by (auto simp: read_http_response_def bind_eq_Some_conv)
  from parse_request_names [OF this assms(4,5)] assms(3) have "length f \<le> 27 \<and> (\<forall>x\<in>set f. name_char x)"
    by simp
  moreover have "\<not> name_char (CHR ''.'')" by (simp add: name_char_def)
  ultimately show ?thesis by blast
qed

end
