(* ===== verification/Http_Transfer.thy ===== *)
theory Http_Transfer
  imports Http_Props
begin

section \<open>What the HTTP server reads, sends and stores\<close>

text \<open>
  A request printed in the usual form is parsed back to its parts, and on a kernel whose calls
  read and write all they are asked for, a GET sends the file and a PUT stores the body, of
  every length, in blocks of the buffer.
\<close>

subsection \<open>Parsing a printed request\<close>

definition print_request :: "string \<Rightarrow> string \<Rightarrow> string \<Rightarrow> string \<Rightarrow> int \<Rightarrow> string" where
  "print_request meth name ver headers len =
    meth @ '' /'' @ name @ '' '' @ ver @ CRLF @ headers @
    ''Content-Length: '' @ show_int len @ CRLF @ CRLF"

definition word_ok :: "string \<Rightarrow> bool" where
  "word_ok s \<longleftrightarrow> s \<noteq> [] \<and> (\<forall>x\<in>set s. \<not> isspace x \<and> x \<noteq> NUL)"

definition headers_ok :: "string \<Rightarrow> bool" where
  "headers_ok hs \<longleftrightarrow> NUL \<notin> set hs \<and> (hs = [] \<or> last hs \<in> set header_delims) \<and>
    ''Content-Length:'' \<notin> set (strtok_tokens header_delims [] hs)"

lemma header_delims_space: "x \<in> set header_delims \<Longrightarrow> isspace x"
  by (auto simp: header_delims_def isspace_def)

lemma word_ok_delims: "word_ok s \<Longrightarrow> set s \<inter> set header_delims = {}"
  using header_delims_space by (auto simp: word_ok_def)

lemma strtok_tokens_append:
  "d \<in> set ds \<Longrightarrow> strtok_tokens ds t (h @ d # s) = strtok_tokens ds t (h @ [d]) @ strtok_tokens ds [] s"
  by (induction h arbitrary: t) auto

lemma strtok_tokens_headers:
  assumes "headers_ok hs"
  shows "strtok_tokens header_delims [] (hs @ s) =
    strtok_tokens header_delims [] hs @ strtok_tokens header_delims [] s"
proof (cases "hs = []")
  case False
  with assms have "last hs \<in> set header_delims" by (simp add: headers_ok_def)
  moreover have "butlast hs @ last hs # s = hs @ s" using False
    by (metis append.assoc append_Cons append_Nil append_butlast_last_id)
  ultimately show ?thesis
    using strtok_tokens_append [of "last hs" header_delims "[]" "butlast hs" s]
      append_butlast_last_id [OF False] by (simp only:)
qed simp

lemma content_length_of_last:
  "''Content-Length:'' \<notin> set xs \<Longrightarrow> strtol v = Some n \<Longrightarrow>
   content_length_of (xs @ [''Content-Length:'', v]) cl = n"
proof (induction xs)
  case (Cons x xs)
  then show ?case by (cases xs) auto
qed simp

lemma word_ok_show_int: "word_ok (show_int n)"
  using show_int_word by (auto simp: word_ok_def)

lemma name_char_word: "name_char x \<Longrightarrow> \<not> isspace x \<and> x \<noteq> NUL"
proof -
  have "\<not> name_char (CHR 0x20)" "\<not> name_char (CHR 0x09)" "\<not> name_char (CHR 0x0A)"
    "\<not> name_char (CHR 0x0B)" "\<not> name_char (CHR 0x0C)" "\<not> name_char (CHR 0x0D)"
    by (simp_all add: name_char_def)
  then show "name_char x \<Longrightarrow> \<not> isspace x \<and> x \<noteq> NUL"
    using name_char_NUL by (auto simp: isspace_def)
qed

lemma name_char_slash: "name_char (CHR ''/'')"
  by (simp add: name_char_def)

lemma word_ok_path: "\<forall>x\<in>set name. name_char x \<Longrightarrow> word_ok (CHR ''/'' # name)"
proof -
  assume "\<forall>x\<in>set name. name_char x"
  then have "\<forall>x\<in>set name. \<not> isspace x \<and> x \<noteq> NUL" using name_char_word by blast
  then show ?thesis using name_char_word [OF name_char_slash] by (simp add: word_ok_def)
qed

lemma tokens_word:
  "word_ok u \<Longrightarrow> d \<in> set header_delims \<Longrightarrow>
   strtok_tokens header_delims [] (u @ d # s) = u # strtok_tokens header_delims [] s"
  using strtok_tokens_next [of u header_delims d s] word_ok_delims [of u] by (simp add: word_ok_def)

lemma delims [simp]:
  "CHR '' '' \<in> set header_delims" "CHR 0x0D \<in> set header_delims" "CHR 0x0A \<in> set header_delims"
  by (simp_all add: header_delims_def)

lemma print_request_tokens:
  assumes "word_ok meth" and "\<forall>x\<in>set name. name_char x" and "word_ok ver" and "headers_ok headers"
  shows "strtok_tokens header_delims [] (print_request meth name ver headers len) =
    meth # (CHR ''/'' # name) # ver # strtok_tokens header_delims [] headers @
    [''Content-Length:'', show_int len]"
proof -
  have key: "word_ok ''Content-Length:''" by (simp add: word_ok_def isspace_def)
  have crlf: "strtok_tokens header_delims [] (CRLF @ s) = strtok_tokens header_delims [] s" for s
    by (simp add: strtok_tokens_skip del: strtok_tokens.simps(2))
  have "strtok_tokens header_delims [] (''Content-Length: '' @ show_int len @ CRLF @ CRLF) =
      [''Content-Length:'', show_int len]"
    using tokens_word [OF key, of "CHR '' ''" "show_int len @ CRLF @ CRLF"]
      tokens_word [OF word_ok_show_int, of "CHR 0x0D" len "[CHR 0x0A] @ CRLF"] by simp
  then have h: "strtok_tokens header_delims []
        (headers @ ''Content-Length: '' @ show_int len @ CRLF @ CRLF) =
      strtok_tokens header_delims [] headers @ [''Content-Length:'', show_int len]"
    using strtok_tokens_headers [OF assms(4)] by simp
  have "strtok_tokens header_delims [] (ver @ CRLF @ s) = ver # strtok_tokens header_delims [] s" for s
    using tokens_word [OF assms(3), of "CHR 0x0D" "CHR 0x0A # s"] by simp
  moreover have "strtok_tokens header_delims [] ((CHR ''/'' # name) @ '' '' @ s) =
      (CHR ''/'' # name) # strtok_tokens header_delims [] s" for s
    using tokens_word [OF word_ok_path [OF assms(2)], of "CHR '' ''" s] by simp
  moreover have "strtok_tokens header_delims [] (meth @ '' '' @ s) =
      meth # strtok_tokens header_delims [] s" for s
    using tokens_word [OF assms(1), of "CHR '' ''" s] by simp
  ultimately show ?thesis using h unfolding print_request_def by (metis append_Cons append_Nil)
qed

lemma print_request_scan:
  assumes "word_ok meth" "length meth \<le> 4" and "\<forall>x\<in>set name. name_char x" "length name \<le> 26"
    and "word_ok ver" "length ver \<le> 8"
    and "length a = 5" "4096 = length b" "length c = 9"
  shows "scan_strings (print_request meth name ver headers len) [a, b, c] =
    Some [meth @ NUL # drop (Suc (length meth)) a,
          (CHR ''/'' # name) @ NUL # drop (Suc (Suc (length name))) b,
          ver @ NUL # drop (Suc (length ver)) c]"
proof -
  let ?r = "CHR 0x0A # headers @ ''Content-Length: '' @ show_int len @ CRLF @ CRLF"
  have "isspace (CHR '' '')" "isspace (CHR 0x0D)" by (simp_all add: isspace_def)
  moreover have "\<forall>x\<in>set meth. \<not> isspace x" "\<forall>x\<in>set (CHR ''/'' # name). \<not> isspace x"
      "\<forall>x\<in>set ver. \<not> isspace x" "meth \<noteq> []" "ver \<noteq> []"
    using assms(1,5) word_ok_path [OF assms(3)] by (auto simp: word_ok_def)
  ultimately have "scan_strings (meth @ CHR '' '' # (CHR ''/'' # name) @ CHR '' '' # ver @ CHR 0x0D # ?r) [a, b, c] =
    Some [meth @ NUL # drop (Suc (length meth)) a,
          (CHR ''/'' # name) @ NUL # drop (Suc (Suc (length name))) b,
          ver @ NUL # drop (Suc (length ver)) c]"
    using assms(2,4,6-9) by (simp only: scan_strings_word list.simps not_False_eq_True)
      (simp add: store_string_def)
  then show ?thesis by (simp add: print_request_def)
qed

lemma parse_name_printed:
  assumes "\<forall>x\<in>set name. name_char x" and "length name \<le> 26" and "length b = 4096"
    and "b = (CHR ''/'' # name) @ NUL # t"
  shows "parse_name b n m = parse_headers (m\<lparr>filename := name @ NUL # take (26 - length name) t @ drop 27 (filename m)\<rparr>)"
proof -
  let ?p = "CHR ''/'' # name"
  have nc: "\<forall>x\<in>set ?p. name_char x" using assms(1) name_char_slash by simp
  then have "cstr b = Some ?p" unfolding assms(4) using name_char_NUL by (intro cstr_append_NUL) blast
  moreover have "takeWhile name_char ?p = ?p" using nc by (simp only: takeWhile_eq_all_conv)
  ultimately have s: "scan_name b n = Some (int (Suc (length name)))" by (simp add: scan_name_def)
  have pk: "peek b (int (Suc (length name))) = Some NUL" "peek b 0 = Some (CHR ''/'')"
    by (simp_all add: peek_def assms(4) nth_append nat_add_distrib)
  have tk: "take 27 (drop 1 b) = name @ NUL # take (26 - length name) t"
    using assms(2) by (simp add: assms(4) take_Cons')
  have "\<not> (NUL \<noteq> NUL \<or> 28 < int (Suc (length name)))" using assms(2) by simp
  then show ?thesis unfolding parse_name_def Let_def
    by (simp only: pk s tk simp_thms if_True if_False Option.bind.simps option.inject append_assoc append_Cons)
qed

lemma print_request_NUL:
  assumes "word_ok meth" and "\<forall>x\<in>set name. name_char x" and "word_ok ver" and "headers_ok headers"
  shows "NUL \<notin> set (print_request meth name ver headers len)"
proof -
  have "NUL \<notin> set name" using assms(2) name_char_NUL by blast
  moreover have "NUL \<notin> set (show_int len)" using word_ok_show_int by (auto simp: word_ok_def)
  ultimately show ?thesis using assms by (auto simp: print_request_def word_ok_def headers_ok_def)
qed

lemma read_printed_request:
  assumes r: "sys_recv S c 4096 w = (Some (print_request meth name ver headers len), w')"
    and "length (print_request meth name ver headers len) \<le> 4096"
    and m: "word_ok meth" "length meth \<le> 4"
    and n: "\<forall>x\<in>set name. name_char x" "length name \<le> 26"
    and v: "word_ok ver" "length ver \<le> 8"
    and h: "headers_ok headers" and l: "ssize_ok len"
    and a: "arrays_ok msg" and st: "status_code msg \<noteq> 500"
  shows "\<exists>msg'. read_http_response S c msg w = Some (msg', w') \<and>
    cstr (http_method msg') = Some meth \<and> cstr (filename msg') = Some name \<and>
    cstr (httpversion msg') = Some ver \<and> content_length msg' = len \<and> status_code msg' = 0"
proof -
  let ?t = "print_request meth name ver headers len"
  have lb: "length (buffer msg) = 4097" "length (http_method msg) = 5" "length (httpversion msg) = 9"
    "length (filename msg) = 28" using a by (simp_all add: arrays_ok_def)
  have "recv_buf S c (buffer msg) BUFFER_SIZE w =
      Some (int (length ?t), ?t @ drop (length ?t) (buffer msg), w')"
    using r assms(2) lb by (simp add: recv_buf_def filled_def BUFFER_SIZE_def size_t_def)
  moreover have pk: "poke (?t @ drop (length ?t) (buffer msg)) (int (length ?t)) NUL =
      Some (?t @ NUL # drop (Suc (length ?t)) (buffer msg))"
    using assms(2) lb by (simp add: poke_def list_update_append Cons_nth_drop_Suc [symmetric])
  moreover define str1 where "str1 = stack_array S ''str1'' (nat BUFFER_SIZE) w"
  moreover have s1: "4096 = length str1" by (simp add: str1_def BUFFER_SIZE_def)
  moreover define buf where "buf = ?t @ NUL # drop (Suc (length ?t)) (buffer msg)"
  moreover have cb: "cstr buf = Some ?t"
    unfolding buf_def by (rule cstr_append_NUL [OF print_request_NUL [OF m(1) n(1) v(1) h]])
  moreover define b where "b = (CHR ''/'' # name) @ NUL # drop (Suc (Suc (length name))) str1"
  moreover define m1 where "m1 = msg\<lparr>status_code := 0, content_length := 0, buffer := buf,
      http_method := meth @ NUL # drop (Suc (length meth)) (http_method msg),
      httpversion := ver @ NUL # drop (Suc (length ver)) (httpversion msg)\<rparr>"
  ultimately have e: "read_http_response S c msg w =
      Option.bind (parse_name b (sys_int S ''n'' w) m1) (\<lambda>m. Some (m, w'))"
    using st print_request_scan [OF m n v lb(2) s1 lb(3)]
    by (simp add: read_http_response_def parse_request_def)
  let ?f = "name @ NUL # take (26 - length name) (drop (Suc (Suc (length name))) str1) @ drop 27 (filename m1)"
  have "length b = 4096" using s1 n(2) by (simp add: b_def)
  from parse_name_printed [OF n this b_def] have p: "parse_name b (sys_int S ''n'' w) m1 =
      parse_headers (m1\<lparr>filename := ?f\<rparr>)" .
  have "content_length_of (strtok_tokens header_delims [] ?t) 0 = len"
  proof -
    let ?ts = "meth # (CHR ''/'' # name) # ver # strtok_tokens header_delims [] headers"
    have "length ''Content-Length:'' = 15" by simp
    then have "''Content-Length:'' \<notin> set ?ts" using m(2) v(2) h by (auto simp: headers_ok_def)
    from content_length_of_last [OF this, of "show_int len" len 0] l show ?thesis
      unfolding print_request_tokens [OF m(1) n(1) v(1) h]
      by (simp add: strtol_show_int ssize_ok_def)
  qed
  then have "parse_headers (m1\<lparr>filename := ?f\<rparr>) = Some (m1\<lparr>filename := ?f, content_length := len,
      buffer := strtok_cut header_delims False buf\<rparr>)"
    using cb by (simp add: parse_headers_def m1_def)
  with e p have "read_http_response S c msg w = Some (m1\<lparr>filename := ?f, content_length := len,
      buffer := strtok_cut header_delims False buf\<rparr>, w')" by simp
  moreover have "NUL \<notin> set meth" "NUL \<notin> set ver" "NUL \<notin> set name"
    using m v n(1) name_char_NUL by (auto simp: word_ok_def)
  ultimately show ?thesis by (simp add: m1_def cstr_append_NUL)
qed

text \<open>
  C14. A printed request is parsed back to exactly its parts: with a method of 1 to 4 and a version of 1
  to 8 bytes, neither white space nor \<^verbatim>\<open>NUL\<close>, a name of at most 26 letters, digits, dashes, underscores
  and slashes, other header lines without \<^verbatim>\<open>NUL\<close> and without another \<^verbatim>\<open>Content-Length:\<close>, and a content
  length in \<^verbatim>\<open>ssize_t\<close>, when one \<open>recv\<close> returns all of it, at most 4096 bytes, and the status is not
  500 already.
\<close>

theorem http_request_roundtrip:
  assumes r: "sys_recv S c 4096 w = (Some (print_request meth name ver headers len), w')"
    and "length (print_request meth name ver headers len) \<le> 4096"
    and m: "word_ok meth" "length meth \<le> 4"
    and n: "\<forall>x\<in>set name. name_char x" "length name \<le> 26"
    and v: "word_ok ver" "length ver \<le> 8"
    and h: "headers_ok headers" and l: "ssize_ok len"
    and a: "arrays_ok msg" and st: "status_code msg \<noteq> 500"
  shows "\<exists>msg'. read_http_response S c msg w = Some (msg', w') \<and>
    cstr (http_method msg') = Some meth \<and> cstr (filename msg') = Some name \<and>
    cstr (httpversion msg') = Some ver \<and> content_length msg' = len \<and> status_code msg' = 0"
  using read_printed_request [OF assms] .

subsection \<open>Copying in blocks\<close>

text \<open>
  A source whose reads return all that is asked for as long as there is more, and a destination
  that takes all it is given; \<open>unread\<close> and \<open>out\<close> are the bytes left in the one and received by
  the other.
\<close>

definition stream_ok ::
  "('w, 'y) sys_scheme \<Rightarrow> int \<Rightarrow> int \<Rightarrow> ('w \<Rightarrow> string) \<Rightarrow> ('w \<Rightarrow> string) \<Rightarrow> bool" where
  "stream_ok S src dst unread out \<longleftrightarrow>
    (\<forall>n w. \<exists>w'. sys_read S src n w = (Some (take n (unread w)), w') \<and>
        unread w' = drop n (unread w) \<and> out w' = out w) \<and>
    (\<forall>s n w. n \<le> length s \<longrightarrow> (\<exists>w'. sys_write S dst s n w = (Some n, w') \<and>
        out w' = out w @ take n s \<and> unread w' = unread w))"

lemma copy_step:
  assumes s: "stream_ok S src dst unread out" and "0 \<le> n" "n \<le> int (length (unread w))"
    "n \<le> int (length body)" "n < 2 ^ 63"
  obtains w1 where "read_buf S src body n w = Some (n, take (nat n) (unread w) @ drop (nat n) body, w1)"
    and "unread w1 = drop (nat n) (unread w)" and "out w1 = out w"
proof -
  obtain w1 where "sys_read S src (nat n) w = (Some (take (nat n) (unread w)), w1)"
      "unread w1 = drop (nat n) (unread w)" "out w1 = out w"
    using s unfolding stream_ok_def by blast
  moreover have "length (take (nat n) (unread w)) = nat n" using assms(2,3) by simp
  ultimately show ?thesis using assms(2,4,5)
    by (intro that [of w1]) (simp_all add: read_buf_def filled_def size_t_nat)
qed

lemma copy_write:
  assumes s: "stream_ok S src dst unread out" and "0 \<le> n" "n \<le> int (length body)" "n < 2 ^ 63"
  obtains w1 where "write_buf S dst body n w = Some (n, w1)"
    and "unread w1 = unread w" and "out w1 = out w @ take (nat n) body"
proof -
  have l: "nat n \<le> length body" using assms(2,3) by simp
  then obtain w1 where "sys_write S dst body (nat n) w = (Some (nat n), w1)"
      "unread w1 = unread w" "out w1 = out w @ take (nat n) body"
    using s unfolding stream_ok_def by blast
  with l assms(2,4) show ?thesis
    by (intro that [of w1]) (simp_all add: write_buf_def size_t_nat count_of_def)
qed

lemma copy_body_stream:
  assumes s: "stream_ok S src dst unread out" and b: "0 < block" "block < 2 ^ 62"
  shows "0 \<le> len \<Longrightarrow> len \<le> int (length (unread w)) \<Longrightarrow> length body = nat block + 1 \<Longrightarrow> st \<noteq> -1 \<Longrightarrow>
    \<exists>len' body' w'. copy_body S block src dst len st body w = Some (len', st, body', w') \<and>
      out w' = out w @ take (nat len) (unread w) \<and> 0 \<le> len' \<and> len' \<le> len"
proof (induction "nat len" arbitrary: len body w rule: less_induct)
  case less
  show ?case
  proof (cases "block < len")
    case False
    then have l: "len \<le> int (length body)" "len < 2 ^ 63" using less.prems b by auto
    from copy_step [OF s less.prems(1,2) l] obtain w1 where
      r: "read_buf S src body len w = Some (len, take (nat len) (unread w) @ drop (nat len) body, w1)"
        "unread w1 = drop (nat len) (unread w)" "out w1 = out w" .
    let ?b = "take (nat len) (unread w) @ drop (nat len) body"
    have tb: "take (nat len) ?b = take (nat len) (unread w)" and "len \<le> int (length ?b)"
      using less.prems l by (auto simp: min_def)
    from copy_write [OF s less.prems(1) this(2) l(2), of w1] obtain w2 where
      v: "write_buf S dst ?b len w1 = Some (len, w2)" "out w2 = out w1 @ take (nat len) ?b" .
    have "copy_body S block src dst len st body w = Some (len, st, ?b, w2)"
      using less.prems(1) by (simp add: copy_body_def copy_chunks.simps [of S block] False r(1) v(1) failed_def)
    moreover have "out w2 = out w @ take (nat len) (unread w)" using v(2) tb r(3) by (simp only:)
    ultimately show ?thesis using less.prems(1) by blast
  next
    case True
    have l: "0 \<le> block" "block \<le> int (length (unread w))" "block \<le> int (length body)" "block < 2 ^ 63"
      using b less.prems True by auto
    from copy_step [OF s l] obtain w1 where
      r: "read_buf S src body block w = Some (block, take (nat block) (unread w) @ drop (nat block) body, w1)"
        "unread w1 = drop (nat block) (unread w)" "out w1 = out w" .
    let ?b = "(take (nat block) (unread w) @ drop (nat block) body)[nat block := NUL]"
    have p: "poke (take (nat block) (unread w) @ drop (nat block) body) block NUL = Some ?b"
      using l less.prems(3) by (auto simp: poke_def min_def)
    have tb: "take (nat block) ?b = take (nat block) (unread w)" and lb: "length ?b = nat block + 1"
      using l less.prems(3) by (auto simp: min_def)
    then have "block \<le> int (length ?b)" using b by simp
    from copy_write [OF s l(1) this l(4), of w1] obtain w2 where
      v: "write_buf S dst ?b block w1 = Some (block, w2)" "unread w2 = unread w1"
        "out w2 = out w1 @ take (nat block) ?b" .
    have e: "copy_body S block src dst len st body w = copy_body S block src dst (len - block) st ?b w2"
      using b r(1) p v(1) by (simp add: copy_body_def copy_chunks.simps [of S block src dst len] True failed_def)
    have "nat (len - block) < nat len" "0 \<le> len - block" "len - block \<le> int (length (unread w2))"
      using b True less.prems(2) l by (auto simp: v(2) r(2))
    from less.hyps [OF this lb less.prems(4)] obtain len' body' w' where
      c: "copy_body S block src dst (len - block) st ?b w2 = Some (len', st, body', w')"
        "out w' = out w2 @ take (nat (len - block)) (unread w2)" "0 \<le> len'" "len' \<le> len - block" by blast
    have "take (nat block) (unread w) @ take (nat (len - block)) (drop (nat block) (unread w)) =
        take (nat len) (unread w)"
      using b True by (simp flip: take_add add: nat_diff_distrib)
    with c b show ?thesis unfolding e v(3) tb r(3) v(2) r(2) by auto
  qed
qed

subsection \<open>GET and PUT\<close>

definition get_kernel ::
  "('w, 'y) sys_scheme \<Rightarrow> int \<Rightarrow> int \<Rightarrow> string \<Rightarrow> string \<Rightarrow> ('w \<Rightarrow> string) \<Rightarrow> ('w \<Rightarrow> string) \<Rightarrow> bool"
  where
  "get_kernel S c fd name data unread out \<longleftrightarrow>
    (\<forall>w. \<exists>w'. sys_open S name [O_RDONLY] w = (Inr fd, w') \<and> unread w' = data \<and> out w' = out w) \<and>
    (\<forall>w. sys_fstat S fd w = Some (int (length data))) \<and>
    (\<forall>f w. out (sys_close S f w) = out w) \<and>
    (\<forall>s n w. n \<le> length s \<longrightarrow>
      (\<exists>r w'. sys_send S c s n w = (r, w') \<and> out w' = out w @ take n s)) \<and>
    stream_ok S fd c unread out"

definition header_200 :: "string \<Rightarrow> nat \<Rightarrow> string" where
  "header_200 ver n = ver @ '' 200 OK'' @ CRLF @ ''Content-Length: '' @ dec n @ CRLF @ CRLF"

lemma show_int_200: "show_int 200 = ''200''"
  by code_simp

lemma send_file_sends:
  assumes k: "get_kernel S c fd name data unread out" and "content_length m = int (length data)"
    and "status_code m = 200"
  shows "\<exists>m' w'. send_file S c name m w = Some (m', w') \<and> status_code m' = 200 \<and>
    out w' = out w @ data"
proof -
  obtain w1 where o: "sys_open S name [O_RDONLY] w = (Inr fd, w1)" "unread w1 = data" "out w1 = out w"
    using k unfolding get_kernel_def by blast
  have cl: "\<And>w. out (sys_close S fd w) = out w" and s: "stream_ok S fd c unread out"
    using k unfolding get_kernel_def by blast+
  let ?b = "stack_array S ''response_body'' (nat BUFFER_SIZE + 1) w1"
  have b: "0 < BUFFER_SIZE" "BUFFER_SIZE < 2 ^ 62" by (simp_all add: BUFFER_SIZE_def)
  from copy_body_stream [OF s b, of "int (length data)" w1 ?b 200] obtain len body w2 where
    c: "copy_body S BUFFER_SIZE fd c (int (length data)) 200 ?b w1 = Some (len, 200, body, w2)"
      "out w2 = out w1 @ data"
    by (auto simp: o(2))
  show ?thesis
    using o(1,3) c assms(2,3) by (simp add: send_file_def cl)
qed

text \<open>
  C6. A GET of a readable file is answered by the 200 header with the size of the file and then
  the whole file, for every size.
\<close>

theorem http_get_sends_file:
  assumes "message_ok m" and "status_code m = 0"
    and "cstr (http_method m) = Some ''GET''" and "cstr (filename m) = Some name"
    and "cstr (httpversion m) = Some ver"
    and k: "get_kernel S c fd name data unread out" and "int (length data) < 2 ^ 63"
  shows "\<exists>m1 w1 m2 w2. process_request S c m w = Some (m1, w1) \<and>
    construct_http_response S c m1 w1 = Some (m2, w2) \<and> status_code m2 = 200 \<and>
    out w2 = out w @ header_200 ver (length data) @ data"
proof -
  obtain w1 where o: "sys_open S name [O_RDONLY] w = (Inr fd, w1)" "out w1 = out w"
    using k unfolding get_kernel_def by blast
  have cl: "\<And>w. out (sys_close S fd w) = out w" and fst: "\<And>w. sys_fstat S fd w = Some (int (length data))"
    using k unfolding get_kernel_def by blast+
  let ?m = "m\<lparr>status_code := 200, content_length := int (length data)\<rparr>"
  have p: "process_request S c m w = Some (?m, sys_close S fd w1)"
    using assms(2-4) o(1) by (simp add: process_request_def process_get_def st_size_def fst)
  have h: "response_header ?m = Some (header_200 ver (length data))"
    using assms(5) by (simp add: response_header_def header_200_def show_int_200 status_string_def)
      (simp add: show_int_def)
  have m: "message_ok ?m" using assms(1,7) by (simp add: message_ok_def arrays_ok_def status_ok_def ssize_ok_def)
  let ?w = "sys_close S fd w1" and ?h = "header_200 ver (length data)"
  let ?a = "response_string (stack_array S ''response_string'' 100 ?w) ?h"
  have l: "length ?h < 100"
    using m by (intro response_header_length [OF _ _ _ h]) (auto simp: message_ok_def arrays_ok_def)
  then have "length ?h \<le> length ?a" by (simp add: length_response_string)
  then obtain r w2 where s: "sys_send S c ?a (length ?h) ?w = (r, w2)" "out w2 = out ?w @ take (length ?h) ?a"
    using k unfolding get_kernel_def by blast
  have sh: "send_header S c ?m ?w = Some (count_of r, w2)"
    using m s(1) by (subst send_header_eq [OF _ _ _ h]) (auto simp: message_ok_def arrays_ok_def)
  let ?n = "?m\<lparr>buffer := replicate (nat BUFFER_SIZE + 1) NUL\<rparr>"
  have "content_length ?n = int (length data)" "status_code ?n = 200" by simp_all
  from send_file_sends [OF k this, of w2] obtain m' w' where
    f: "send_file S c name ?n w2 = Some (m', w')" "status_code m' = 200" "out w' = out w2 @ data" by blast
  have "construct_http_response S c ?m ?w = Some (m', w')"
    using sh f(1) assms(3,4) by (simp add: construct_http_response_def Let_def is_error_def del: replicate_add)
  moreover have "out w' = out w @ ?h @ data"
    using f(3) s(2) take_response_string [OF l] by (simp add: cl o(2))
  ultimately show ?thesis using p f(2) by blast
qed

definition put_kernel ::
  "('w, 'y) sys_scheme \<Rightarrow> int \<Rightarrow> int \<Rightarrow> string \<Rightarrow> ('w \<Rightarrow> string) \<Rightarrow> ('w \<Rightarrow> string) \<Rightarrow> bool" where
  "put_kernel S c fd name incoming stored \<longleftrightarrow>
    (\<forall>w. \<exists>w'. sys_open S name [O_CREAT, O_WRONLY, O_TRUNC] w = (Inr fd, w') \<and>
        incoming w' = incoming w \<and> stored w' = []) \<and>
    (\<forall>f w. stored (sys_close S f w) = stored w) \<and> stream_ok S c fd incoming stored"

text \<open>
  C26. A PUT whose body arrives in full reads stores exactly the first \<open>content_length\<close> bytes of
  it and reports 201, for every length.
\<close>

theorem http_put_stores_body:
  assumes "status_code m = 0" and "cstr (http_method m) = Some ''PUT''" and "cstr (filename m) = Some name"
    and "0 \<le> content_length m" and "content_length m \<le> int (length (incoming w))"
    and k: "put_kernel S c fd name incoming stored"
  shows "\<exists>m' w'. process_request S c m w = Some (m', w') \<and> status_code m' = 201 \<and>
    content_length m' = 0 \<and> stored w' = take (nat (content_length m)) (incoming w)"
proof -
  obtain w1 where o: "sys_open S name [O_CREAT, O_WRONLY, O_TRUNC] w = (Inr fd, w1)"
      "incoming w1 = incoming w" "stored w1 = []"
    using k unfolding put_kernel_def by blast
  have cl: "\<And>w. stored (sys_close S fd w) = stored w" and s: "stream_ok S c fd incoming stored"
    using k unfolding put_kernel_def by blast+
  let ?b = "stack_array S ''response_body'' (nat BUFFER_SIZE + 1) w1"
  have b: "0 < BUFFER_SIZE" "BUFFER_SIZE < 2 ^ 62" by (simp_all add: BUFFER_SIZE_def)
  have "content_length m \<le> int (length (incoming w1))" "length ?b = nat BUFFER_SIZE + 1" "(201::int) \<noteq> -1"
    using assms(5) o(2) by simp_all
  from copy_body_stream [OF s b assms(4) this] obtain len body w2 where
    c: "copy_body S BUFFER_SIZE c fd (content_length m) 201 ?b w1 = Some (len, 201, body, w2)"
      "stored w2 = stored w1 @ take (nat (content_length m)) (incoming w1)" by blast
  then show ?thesis using assms(1-3) o by (simp add: process_request_def process_put_def cl)
qed

text \<open>
  When a read of the body is short, as it may be on a socket, the rest of the count is stored
  from whatever the buffer holds, and the status is 201 all the same.
\<close>

lemma put_short_read:
  assumes "0 < len" and "len \<le> BUFFER_SIZE" and "length body = nat BUFFER_SIZE + 1"
    and "sys_read S c (nat len) w = (Some d, w1)" and "length d < nat len"
    and "sys_write S fd (d @ drop (length d) body) (nat len) w1 = (Some n, w2)"
  shows "copy_body S BUFFER_SIZE c fd len 201 body w = Some (len, 201, d @ drop (length d) body, w2)"
proof -
  have "copy_chunks S BUFFER_SIZE c fd len 201 body w = Some (len, 201, body, w)"
    using assms(2) by (simp add: copy_chunks.simps)
  moreover have "read_buf S c body len w = Some (int (length d), d @ drop (length d) body, w1)"
    using assms(1-5) by (simp add: read_buf_def filled_def size_t_nat BUFFER_SIZE_def)
  moreover have "nat len \<le> length body" using assms(2,3) by (simp add: BUFFER_SIZE_def)
  then have "write_buf S fd (d @ drop (length d) body) len w1 = Some (int n, w2)"
    using assms by (simp add: write_buf_def size_t_nat BUFFER_SIZE_def count_of_def)
  ultimately show ?thesis by (simp add: copy_body_def failed_def)
qed

subsection \<open>A kernel and messages to apply the theorems to\<close>

text \<open>The world is what is left to read and what was written; every name is the file \<open>data\<close>.\<close>

definition io_sys :: "string \<Rightarrow> (string \<times> string) sys" where
  "io_sys data = \<lparr>
     sys_open = (\<lambda>_ fl (u, out). (Inr 5, if fl = [O_RDONLY] then (data, out) else (u, []))),
     sys_close = (\<lambda>_ w. w),
     sys_read = (\<lambda>_ n (u, out). (Some (take n u), drop n u, out)),
     sys_write = (\<lambda>_ s n (u, out). (Some n, u, out @ take n s)),
     sys_recv = (\<lambda>_ n (u, out). (Some (take n u), drop n u, out)),
     sys_send = (\<lambda>_ s n (u, out). (Some n, u, out @ take n s)),
     sys_fstat = (\<lambda>_ _. Some (int (length data))), sys_warn = (\<lambda>_ w. w),
     sys_accept = (\<lambda>_ w. (4, w)), sys_stack = (\<lambda>_ _ _. NUL), sys_int = (\<lambda>_ _. 0) \<rparr>"

definition zeros :: "nat \<Rightarrow> string" where
  "zeros n = replicate n NUL"

lemma length_zeros [simp]: "length (zeros n) = n"
  by (simp add: zeros_def)

definition msg :: "string \<Rightarrow> string \<Rightarrow> int \<Rightarrow> int \<Rightarrow> httpObject" where
  "msg meth name len st = \<lparr>http_method = meth @ NUL # zeros (4 - length meth),
     filename = name @ NUL # zeros (27 - length name),
     httpversion = ''HTTP/1.1'' @ [NUL], content_length = len, status_code = st, buffer = zeros 4097\<rparr>"

lemma msg_ok:
  "length meth \<le> 4 \<Longrightarrow> length name \<le> 27 \<Longrightarrow> ssize_ok len \<Longrightarrow> status_ok st \<Longrightarrow>
   message_ok (msg meth name len st)"
  by (simp add: msg_def message_ok_def arrays_ok_def)

lemma msg_strings:
  "NUL \<notin> set meth \<Longrightarrow> cstr (http_method (msg meth name len st)) = Some meth"
  "NUL \<notin> set name \<Longrightarrow> cstr (filename (msg meth name len st)) = Some name"
  "cstr (httpversion (msg meth name len st)) = Some ''HTTP/1.1''"
  "content_length (msg meth name len st) = len" "status_code (msg meth name len st) = st"
  "length (filename (msg meth name len st)) = Suc (length name + (27 - length name))"
  using cstr_append_NUL [of "''HTTP/1.1''" "[]"]
  by (simp_all add: msg_def cstr_append_NUL)

lemma response_header_fits_witness:
  "\<exists>h a. response_header (msg ''GET'' ''a'' 7 200) = Some h \<and> length a = 100 \<and> take (length h) a = h \<and>
     send_header (io_sys []) 4 (msg ''GET'' ''a'' 7 200) ([], []) =
       (case sys_send (io_sys []) 4 a (length h) ([], []) of (r, w) \<Rightarrow> Some (count_of r, w))"
proof -
  have m: "message_ok (msg ''GET'' ''a'' 7 200)" by (rule msg_ok) (simp_all add: ssize_ok_def status_ok_def)
  obtain h where h: "response_header (msg ''GET'' ''a'' 7 200) = Some h"
    by (simp add: response_header_def msg_strings)
  from response_header_fits [OF m h, of "io_sys []" 4 "([], [])"] h show ?thesis by blast
qed

lemma refused_msg:
  "status_code (msg ''GET'' ''d'' 0 500) = 500" "arrays_ok (msg ''GET'' ''d'' 0 500)"
  "response_header (msg ''GET'' ''d'' 0 500) = Some (''HTTP/1.1 '' @ show_int 500 @
     '' Internal Server Error'' @ CRLF @ ''Content-Length: '' @ show_int 0 @ CRLF @ CRLF)"
  using msg_ok [of "''GET''" "''d''" 0 500]
  by (simp_all add: response_header_def msg_strings status_string_def message_ok_def status_ok_def)

lemma http_500_sticks_witness:
  "\<exists>w'. serve (io_sys []) 3 2 (msg ''GET'' ''d'' 0 500) ([], []) =
     Some (msg ''GET'' ''d'' 0 500, w')"
  using http_500_sticks [OF refused_msg, of "io_sys []" 3 2 "([], [])"] by blast

lemma request_example:
  "word_ok ''PUT''" "word_ok ''HTTP/1.1''" "headers_ok (''Host: x'' @ CRLF)" "\<forall>x\<in>set ''dir/a''. name_char x"
  by code_simp+

lemma request_example_length:
  "length (print_request ''PUT'' ''dir/a'' ''HTTP/1.1'' (''Host: x'' @ CRLF) 12) \<le> 4096"
  by code_simp

lemma request_example_recv:
  "sys_recv (io_sys []) 4 4096 (print_request ''PUT'' ''dir/a'' ''HTTP/1.1'' (''Host: x'' @ CRLF) 12, []) =
    (Some (print_request ''PUT'' ''dir/a'' ''HTTP/1.1'' (''Host: x'' @ CRLF) 12), [], [])"
  using request_example_length by (simp add: io_sys_def)

lemma msg_example_ok: "arrays_ok (msg ''GET'' ''d'' 0 0)"
  using msg_ok [of "''GET''" "''d''" 0 0] by (simp add: message_ok_def status_ok_def)

lemma ssize_ok_12: "ssize_ok 12"
  by (simp add: ssize_ok_def)

lemma http_request_roundtrip_witness:
  "\<exists>m w'. read_http_response (io_sys []) 4 (msg ''GET'' ''d'' 0 0)
      (print_request ''PUT'' ''dir/a'' ''HTTP/1.1'' (''Host: x'' @ CRLF) 12, []) = Some (m, w') \<and>
    cstr (http_method m) = Some ''PUT'' \<and> cstr (filename m) = Some ''dir/a'' \<and> content_length m = 12"
  using http_request_roundtrip [OF request_example_recv request_example_length request_example(1) _
      request_example(4) _ request_example(2) _ request_example(3) ssize_ok_12 msg_example_ok]
  by (simp add: msg_strings(5)) blast

lemma http_names_confined_witness:
  "\<exists>m w'. read_http_response (io_sys []) 4 (msg ''GET'' ''d'' 0 0)
      (print_request ''PUT'' ''dir/a'' ''HTTP/1.1'' (''Host: x'' @ CRLF) 12, []) = Some (m, w') \<and>
    (\<exists>f. cstr (filename m) = Some f \<and> CHR ''.'' \<notin> set f \<and> length f \<le> 27)"
proof -
  obtain m w' where r: "read_http_response (io_sys []) 4 (msg ''GET'' ''d'' 0 0)
      (print_request ''PUT'' ''dir/a'' ''HTTP/1.1'' (''Host: x'' @ CRLF) 12, []) = Some (m, w')"
    and c: "cstr (filename m) = Some ''dir/a''" "status_code m = 0"
    using read_printed_request [OF request_example_recv request_example_length request_example(1) _
      request_example(4) _ request_example(2) _ request_example(3) ssize_ok_12 msg_example_ok]
    by (simp add: msg_strings(5)) blast
  with http_names_confined [OF r _ _ _ c(1)] show ?thesis by (simp add: msg_strings(5,6))
qed

lemma io_sys_get: "get_kernel (io_sys data) 4 5 name data fst snd"
  by (auto simp: get_kernel_def stream_ok_def io_sys_def)

lemma io_sys_put: "put_kernel (io_sys data) 4 5 name fst snd"
  by (auto simp: put_kernel_def stream_ok_def io_sys_def)

lemma http_get_sends_file_witness:
  "\<exists>m1 w1 m2 w2. process_request (io_sys ''hello'') 4 (msg ''GET'' ''a'' 0 0) ([], []) = Some (m1, w1) \<and>
     construct_http_response (io_sys ''hello'') 4 m1 w1 = Some (m2, w2) \<and>
     snd w2 = header_200 ''HTTP/1.1'' (length ''hello'') @ ''hello''"
proof -
  have m: "message_ok (msg ''GET'' ''a'' 0 0)" by (rule msg_ok) (simp_all add: status_ok_def)
  have l: "int (length ''hello'') < 2 ^ 63" by simp
  show ?thesis
    using http_get_sends_file [OF m _ _ _ _ io_sys_get [where name = "''a''"] l, where w = "([], [])"]
    by (simp add: msg_strings del: length_Cons list.size) blast
qed

lemma http_put_stores_body_witness:
  "\<exists>m' w'. process_request (io_sys []) 4 (msg ''PUT'' ''a'' 5 0) (''hello world'', []) = Some (m', w') \<and>
     status_code m' = 201 \<and> snd w' = ''hello''"
  using http_put_stores_body [where m = "msg ''PUT'' ''a'' 5 0" and w = "(''hello world'', [])",
      OF _ _ _ _ _ io_sys_put [where data = "[]" and name = "''a''"]]
  by (auto simp: msg_strings)

end
