(* ===== verification/Http_Threaded.thy ===== *)
theory Http_Threaded
  imports Http_Server "HOL-Library.Signed_Division"
begin

section \<open>The threaded HTTP server \<^verbatim>\<open>CSE130-v2/asgn2/httpserver.c\<close>\<close>

text \<open>
  What a worker does with one request: the same three steps as the first server, on a message
  that also holds the whole name and the body, with the health check file, the request counters
  and the log. The processing and the response run under the lock of the workers, so they are
  one step on the counters; \<^verbatim>\<open>Http_Pool\<close> has the hand-over of the sockets to the workers.
\<close>

definition MT_BUFFER_SIZE :: int where
  "MT_BUFFER_SIZE = 32768"

record httpObject_mt = httpObject +
  bigname :: string
  original_length :: int
  log_string :: string

record globals =
  lf :: int
  hcf :: int
  totalCount :: int
  failureCount :: int
  logfd :: int
  hcfd :: int
  log_offset :: int

subsection \<open>Receiving and parsing\<close>

text \<open>The health check file holds the two counters; it is written before it is served.\<close>

definition healthcheck_text :: "globals \<Rightarrow> string" where
  "healthcheck_text g = show_int (failureCount g) @ CHR 0x0A # show_int (totalCount g)"

definition write_healthcheck :: "('w, 'y) sys_scheme \<Rightarrow> globals \<Rightarrow> 'w \<Rightarrow> globals \<times> 'w" where
  "write_healthcheck S g w =
    (case sys_open S ''healthcheck'' [O_CREAT, O_RDWR, O_TRUNC] w of (r, w) \<Rightarrow>
     (case sys_write S (fd_of r) (healthcheck_text g) (length (healthcheck_text g)) w of (_, w) \<Rightarrow>
       (g\<lparr>hcf := 1, hcfd := fd_of r\<rparr>, sys_close S (fd_of r) w)))"

definition parse_headers_mt :: "httpObject_mt \<Rightarrow> httpObject_mt option" where
  "parse_headers_mt m = map_option (\<lambda>s. let res = strtok_tokens header_delims [] s in m\<lparr>
     content_length := content_length_of res (content_length m),
     original_length := content_length_of res (original_length m),
     buffer := strtok_cut header_delims False (buffer m) \<rparr>) (cstr (buffer m))"

text \<open>The checks of the request line: the status code 0 stands for a good line.\<close>

definition check_name :: "int \<Rightarrow> httpObject_mt \<Rightarrow> httpObject_mt option" where
  "check_name n m = do {
     n \<leftarrow> scan_name (bigname m) n;
     c \<leftarrow> peek (bigname m) n;
     if c \<noteq> NUL \<or> 28 < n then Some (m\<lparr>status_code := 400\<rparr>)
     else if peek (bigname m) 0 = Some (CHR ''/'')
     then Some (m\<lparr>filename := take 27 (drop 1 (bigname m)) @ drop 27 (filename m)\<rparr>)
     else Some (m\<lparr>status_code := 400\<rparr>) }"

definition check_target :: "globals \<Rightarrow> string \<Rightarrow> string \<Rightarrow> int \<times> bool" where
  "check_target g meth name =
    (if name = ''healthcheck'' then
       (if meth \<noteq> ''GET'' then (403, False) else if lf g \<noteq> 1 then (404, False) else (0, True))
     else (0, False))"

definition check_line :: "globals \<Rightarrow> httpObject_mt \<Rightarrow> (int \<times> bool) option" where
  "check_line g m = do {
     meth \<leftarrow> cstr (http_method m);
     if meth \<noteq> ''GET'' \<and> meth \<noteq> ''PUT'' \<and> meth \<noteq> ''HEAD'' then Some (400, False)
     else do {
       ver \<leftarrow> cstr (httpversion m);
       if ver \<noteq> ''HTTP/1.1'' then Some (400, False)
       else map_option (check_target g meth) (cstr (filename m)) } }"

definition read_http_response_mt ::
  "('w, 'y) sys_scheme \<Rightarrow> int \<Rightarrow> globals \<Rightarrow> httpObject_mt \<Rightarrow> 'w \<Rightarrow>
   (httpObject_mt \<times> globals \<times> 'w) option" where
  "read_http_response_mt S client_sockd g message w =
    (let message = (if client_sockd = -1 then message\<lparr>status_code := 500\<rparr> else message) in
     if status_code message = 500 then Some (message, g, w)
     else do {
       (bytes, buf, w') \<leftarrow> recv_buf S client_sockd (buffer message) MT_BUFFER_SIZE w;
       buf \<leftarrow> poke buf bytes NUL;
       s \<leftarrow> cstr buf;
       arrays \<leftarrow> scan_strings s [http_method message, bigname message, httpversion message];
       m \<leftarrow> check_name (sys_int S ''n'' w) (message\<lparr>status_code := 0, content_length := 0,
             buffer := buf, http_method := arrays ! 0, bigname := arrays ! 1, httpversion := arrays ! 2\<rparr>);
       if status_code m = 400 then Some (m, g, w')
       else do {
         (status, health) \<leftarrow> check_line g m;
         if status \<noteq> 0 then Some (m\<lparr>status_code := status\<rparr>, g, w')
         else case (if health then write_healthcheck S g w' else (g, w')) of (g, w') \<Rightarrow> do {
           m \<leftarrow> parse_headers_mt m;
           Some (m, g, w') } } })"

subsection \<open>Processing\<close>

definition process_put_mt ::
  "('w, 'y) sys_scheme \<Rightarrow> int \<Rightarrow> string \<Rightarrow> httpObject_mt \<Rightarrow> 'w \<Rightarrow> (httpObject_mt \<times> 'w) option" where
  "process_put_mt S client_sockd name message w =
    (case sys_open S name [O_CREAT, O_WRONLY, O_TRUNC] w of
       (Inl e, w) \<Rightarrow> Some (message\<lparr>status_code := open_status e (status_code message)\<rparr>,
                          sys_close S (-1) w)
     | (Inr fd, w) \<Rightarrow> do {
         (_, status, body, w) \<leftarrow> copy_body S MT_BUFFER_SIZE client_sockd fd (content_length message)
             201 (buffer message) w;
         Some (message\<lparr>status_code := status, content_length := 0, buffer := body\<rparr>,
               sys_close S fd (sys_close S fd w)) })"

definition process_get_mt ::
  "('w, 'y) sys_scheme \<Rightarrow> string \<Rightarrow> httpObject_mt \<Rightarrow> 'w \<Rightarrow> httpObject_mt \<times> 'w" where
  "process_get_mt S name message w =
    (case sys_open S name [O_RDONLY] w of
       (Inl e, w) \<Rightarrow> (message\<lparr>status_code := open_status e (status_code message)\<rparr>,
                     sys_close S (-1) w)
     | (Inr fd, w) \<Rightarrow> (message\<lparr>status_code := 200, content_length := st_size S fd w,
                              original_length := st_size S fd w\<rparr>, sys_close S fd w))"

definition process_request_mt ::
  "('w, 'y) sys_scheme \<Rightarrow> int \<Rightarrow> httpObject_mt \<Rightarrow> 'w \<Rightarrow> (httpObject_mt \<times> 'w) option" where
  "process_request_mt S client_sockd message w =
    (if is_error (status_code message) then Some (message, w)
     else do {
       meth \<leftarrow> cstr (http_method message);
       name \<leftarrow> cstr (filename message);
       if meth = ''PUT'' then process_put_mt S client_sockd name message w
       else Some (process_get_mt S name message w) })"

subsection \<open>The response and the counters\<close>

text \<open>The counters are of type \<^verbatim>\<open>int\<close>; counting past its maximum is undefined.\<close>

definition int_inc :: "int \<Rightarrow> int option" where
  "int_inc n = (if n < 2 ^ 31 - 1 then Some (n + 1) else None)"

definition count_request :: "int \<Rightarrow> globals \<Rightarrow> globals option" where
  "count_request status g =
    (if status = 200 \<or> status = 201 then do {
       t \<leftarrow> int_inc (totalCount g);
       Some (g\<lparr>totalCount := t\<rparr>) }
     else if is_error status then do {
       t \<leftarrow> int_inc (totalCount g);
       f \<leftarrow> int_inc (failureCount g);
       Some (g\<lparr>totalCount := t, failureCount := f\<rparr>) }
     else Some g)"

definition send_file_mt ::
  "('w, 'y) sys_scheme \<Rightarrow> int \<Rightarrow> string \<Rightarrow> httpObject_mt \<Rightarrow> 'w \<Rightarrow> (httpObject_mt \<times> 'w) option" where
  "send_file_mt S client_sockd name message w =
    (case sys_open S name [O_RDONLY] w of (r, w) \<Rightarrow> do {
       (len, status, body, w) \<leftarrow> copy_body S MT_BUFFER_SIZE (fd_of r) client_sockd
           (content_length message) (status_code message) (buffer message) w;
       Some (message\<lparr>status_code := status, content_length := len, buffer := body\<rparr>,
             sys_close S (fd_of r) w) })"

definition construct_http_response_mt ::
  "('w, 'y) sys_scheme \<Rightarrow> int \<Rightarrow> globals \<Rightarrow> httpObject_mt \<Rightarrow> 'w \<Rightarrow>
   (httpObject_mt \<times> globals \<times> 'w) option" where
  "construct_http_response_mt S client_sockd g message w = do {
     g \<leftarrow> count_request (status_code message) g;
     (_, w) \<leftarrow> send_header S client_sockd message w;
     if is_error (status_code message) then Some (message, g, w)
     else let message = message\<lparr>buffer := replicate (nat MT_BUFFER_SIZE + 1) NUL\<rparr> in do {
       meth \<leftarrow> cstr (http_method message);
       if meth = ''GET'' then do {
         name \<leftarrow> cstr (filename message);
         (message, w) \<leftarrow> send_file_mt S client_sockd name message w;
         Some (message, g, w) }
       else Some (message, g, w) } }"

subsection \<open>The log\<close>

definition hex_char :: "nat \<Rightarrow> char" where
  "hex_char n = (if n < 10 then char_of (48 + n) else char_of (87 + n))"

definition hex2 :: "char \<Rightarrow> string" where
  "hex2 c = [hex_char (of_char c div 16), hex_char (of_char c mod 16)]"

definition pad8 :: "nat \<Rightarrow> string" where
  "pad8 i = replicate (8 - length (dec i)) (CHR ''0'') @ dec i"

text \<open>What one round of the loop over the body appends.\<close>

definition log_piece :: "string \<Rightarrow> nat \<Rightarrow> string" where
  "log_piece pc i =
    (if i mod 20 = 0 then (if i \<noteq> 0 then [CHR 0x0A] else []) @ pad8 i else []) @
    '' '' @ hex2 (pc ! i)"

fun log_hex :: "string \<Rightarrow> nat \<Rightarrow> string" where
  "log_hex pc 0 = []"
| "log_hex pc (Suc n) = log_hex pc n @ log_piece pc n"

definition log_end :: string where
  "log_end = ''========'' @ [CHR 0x0A]"

definition log_head :: "string \<Rightarrow> string \<Rightarrow> int \<Rightarrow> string" where
  "log_head meth name len = meth @ '' '' @ name @ '' length '' @ show_int len @ [CHR 0x0A]"

text \<open>The bytes of the log reserved for a good request, computed before the entry is written.\<close>

definition log_reserved :: "string \<Rightarrow> string \<Rightarrow> int \<Rightarrow> int" where
  "log_reserved meth name len =
    int (length (log_head meth name len)) + (len sdiv 20) * 69 + (len smod 20) * 3 + 18"

definition log_good :: "string \<Rightarrow> string \<Rightarrow> int \<Rightarrow> string \<Rightarrow> string" where
  "log_good meth name len pc = log_head meth name len @
    (if meth = ''GET'' \<or> meth = ''PUT'' then log_hex pc (nat len) @ [CHR 0x0A] else []) @ log_end"

definition log_fail :: "string \<Rightarrow> string \<Rightarrow> string \<Rightarrow> int \<Rightarrow> string" where
  "log_fail meth name ver status = ''FAIL: '' @ meth @ '' '' @ name @ '' '' @ ver @
    '' --- response '' @ show_int status @ [CHR 0x0A] @ log_end"

text \<open>
  The entry is built in \<^verbatim>\<open>log_string\<close>, whose 32769 bytes are not checked against, from the
  bytes of \<^verbatim>\<open>buffer\<close>, which holds only the last block of a file: either overrun is undefined.
\<close>

definition log_store :: "string \<Rightarrow> httpObject_mt \<Rightarrow> httpObject_mt option" where
  "log_store text m = map_option (\<lambda>a. m\<lparr>log_string := a\<rparr>) (store_string (log_string m) text)"

definition log_entry ::
  "('w, 'y) sys_scheme \<Rightarrow> globals \<Rightarrow> httpObject_mt \<Rightarrow> 'w \<Rightarrow>
   (httpObject_mt \<times> globals \<times> int \<times> int \<times> 'w) option" where
  "log_entry S g m w = do {
     meth \<leftarrow> cstr (http_method m);
     name \<leftarrow> cstr (bigname m);
     if status_code m = 200 \<or> status_code m = 201 then do {
       (buf, w) \<leftarrow> (if meth = ''PUT'' then do {
           f \<leftarrow> cstr (filename m);
           (case sys_open S f [O_RDONLY] w of (r, w) \<Rightarrow> do {
             (_, buf, w) \<leftarrow> read_buf S (fd_of r) (buffer m) MT_BUFFER_SIZE w;
             Some (buf, w) }) }
         else Some (buffer m, w));
       if (meth = ''GET'' \<or> meth = ''PUT'') \<and> int (length buf) < original_length m then None
       else do {
         m' \<leftarrow> log_store (log_good meth name (original_length m) buf) (m\<lparr>buffer := buf\<rparr>);
         Some (m', g\<lparr>log_offset := log_offset g + log_reserved meth name (original_length m)\<rparr>,
               int (length (log_good meth name (original_length m) buf)), log_offset g, w) } }
     else do {
       ver \<leftarrow> cstr (httpversion m);
       m' \<leftarrow> log_store (log_fail meth name ver (status_code m)) m;
       Some (m', g\<lparr>log_offset := log_offset g + int (length (log_fail meth name ver (status_code m)))\<rparr>,
             int (length (log_fail meth name ver (status_code m))), log_offset g, w) } }"

subsection \<open>A worker's request and the start of the program\<close>

text \<open>
  One round of \<open>handle_task\<close>. The other threads act (\<open>others\<close>) before the lock is taken and
  before the log is reserved.
\<close>

record 'w logsys = "'w netsys" +
  sys_pwrite :: "int \<Rightarrow> string \<Rightarrow> nat \<Rightarrow> int \<Rightarrow> 'w \<Rightarrow> nat option \<times> 'w"

definition write_log ::
  "('w, 'y) logsys_scheme \<Rightarrow> globals \<Rightarrow> httpObject_mt \<Rightarrow> 'w \<Rightarrow>
   (httpObject_mt \<times> globals \<times> 'w) option" where
  "write_log S g m w =
    (if lf g = 1 then do {
       (m, g, lcount, offset, w) \<leftarrow> log_entry S g m w;
       Some (m, g, snd (sys_pwrite S (logfd g) (log_string m) (nat lcount) offset w)) }
     else Some (m, g, w))"

definition handle_request ::
  "('w, 'y) logsys_scheme \<Rightarrow> (nat \<Rightarrow> globals \<times> 'w \<Rightarrow> globals \<times> 'w) \<Rightarrow> int \<Rightarrow> globals \<Rightarrow>
   httpObject_mt \<Rightarrow> 'w \<Rightarrow> (httpObject_mt \<times> globals \<times> 'w) option" where
  "handle_request S others client_sockd g m w = do {
     (m, g, w) \<leftarrow> read_http_response_mt S client_sockd g m w;
     case others 0 (g, w) of (g, w) \<Rightarrow> do {
       (m, w) \<leftarrow> process_request_mt S client_sockd m w;
       (m, g, w) \<leftarrow> construct_http_response_mt S client_sockd g m w;
       case others 1 (g, w) of (g, w) \<Rightarrow> do {
         (m, g, w) \<leftarrow> write_log S g m w;
         Some (m, g, sys_close S client_sockd w) } } }"

text \<open>
  The command line: \<open>-N\<close> and \<open>-l\<close> take the next argument, and every other argument makes
  the port the first one, wherever the options stand.
\<close>

record mt_config =
  threadNum :: int
  availWorker :: int
  logFile :: "string option"
  port :: "string option"

fun mt_args ::
  "('w, 'y) sys_scheme \<Rightarrow> string list \<Rightarrow> string option \<Rightarrow> mt_config \<Rightarrow> globals \<Rightarrow> 'w \<Rightarrow>
   (mt_config \<times> globals \<times> 'w) option" where
  "mt_args S [] arg1 cfg g w = Some (cfg, g, w)"
| "mt_args S [a] arg1 cfg g w =
    (if a = ''-N'' \<or> a = ''-l'' then None else Some (cfg\<lparr>port := arg1\<rparr>, g, w))"
| "mt_args S (a # v # as) arg1 cfg g w =
    (if a = ''-N'' then mt_args S as arg1 (cfg\<lparr>threadNum := atoi v, availWorker := atoi v\<rparr>) g w
     else if a = ''-l'' then
       (case sys_open S v [O_CREAT, O_WRONLY, O_TRUNC] w of (r, w) \<Rightarrow>
         mt_args S as arg1 (cfg\<lparr>logFile := Some v\<rparr>) (g\<lparr>logfd := fd_of r, lf := 1\<rparr>) w)
     else mt_args S (v # as) arg1 (cfg\<lparr>port := arg1\<rparr>) g w)"

definition mt_globals :: globals where
  "mt_globals = \<lparr>lf = 0, hcf = 0, totalCount = 0, failureCount = 0, logfd = 0, hcfd = 0, log_offset = 0\<rparr>"

definition mt_start ::
  "('w, 'y) netsys_scheme \<Rightarrow> string list \<Rightarrow> 'w \<Rightarrow> ((int + int) \<times> mt_config \<times> globals \<times> 'w) option" where
  "mt_start S argv w = do {
     (cfg, g, w) \<leftarrow> mt_args S argv (if 1 < length argv then Some (argv ! 1) else None)
         \<lparr>threadNum = 4, availWorker = 0, logFile = None, port = None\<rparr> mt_globals w;
     if length argv < 2
     then Some (Inl 1, cfg, g, sys_print S (''Usage: ./httpserver port [-N threadNum] [-l logFile]'' @ [CHR 0x0A]) w)
     else do {
       p \<leftarrow> port cfg;
       case start_server S p w of (r, w) \<Rightarrow> Some (r, cfg, g, w) } }"

end
