(* ===== verification/Http_Log_Props.thy ===== *)
theory Http_Log_Props
  imports Http_Threaded Http_Transfer
begin

section \<open>The log of the threaded server\<close>

text \<open>
  A worker reserves the bytes of its entry from the length of the file before it formats the
  entry; the entries of different requests do not overlap as long as each is no longer than its
  reservation.
\<close>

definition log_max :: nat where
  "log_max = 10 ^ 8"

lemma length_pad8: "i < log_max \<Longrightarrow> length (pad8 i) = 8"
  using length_dec [of i 8] by (simp add: pad8_def log_max_def)

lemma length_log_piece:
  "i < log_max \<Longrightarrow> length (log_piece pc i) =
    3 + (if i mod 20 = 0 then (if i = 0 then 8 else 9) else 0)"
  by (simp add: log_piece_def length_pad8 hex2_def)

lemma ceiling_20: "((n::nat) + 19) div 20 = n div 20 + (if n mod 20 = 0 then 0 else 1)"
proof -
  define q r where "q = n div 20" and "r = n mod 20"
  have n: "n = 20 * q + r" and r: "r < 20" by (simp_all add: q_def r_def)
  have "(n + 19) div 20 = q + (r + 19) div 20" by (simp add: n)
  moreover have "(r + 19) div 20 = (if r = 0 then 0 else 1)"
  proof (cases "r = 0")
    case False
    with r have "20 * 1 \<le> r + 19" "r + 19 < 20 * Suc 1" by simp_all
    then show ?thesis using False by (simp add: div_nat_eqI)
  qed simp
  ultimately show ?thesis by (simp add: q_def r_def)
qed

lemma length_log_hex:
  "n \<le> log_max \<Longrightarrow> length (log_hex pc n) + (if n = 0 then 0 else 1) = 3 * n + 9 * ((n + 19) div 20)"
proof (induction n)
  case (Suc n)
  have b: "(Suc n + 19) div 20 = n div 20 + 1" by simp
  from Suc.prems have "n \<le> log_max" "n < log_max" by simp_all
  with Suc.IH have ih: "length (log_hex pc n) + (if n = 0 then 0 else 1) = 3 * n + 9 * ((n + 19) div 20)"
    and p: "length (log_piece pc n) = 3 + (if n mod 20 = 0 then (if n = 0 then 8 else 9) else 0)"
    using length_log_piece by blast+
  have e: "length (log_hex pc (Suc n)) = length (log_hex pc n) + length (log_piece pc n)" by simp
  show ?case unfolding e b using ih p unfolding ceiling_20
    by (cases "n = 0"; cases "n mod 20 = 0") simp_all
qed simp

lemma nonneg_sdiv_smod: "0 \<le> (n::int) \<Longrightarrow> n sdiv 20 = n div 20 \<and> n smod 20 = n mod 20"
  by (auto simp: signed_divide_int_def signed_modulo_int_def sgn_if)

lemma length_log_good:
  assumes "0 \<le> len" and "len \<le> int log_max"
  shows "int (length (log_good meth name len pc)) = log_reserved meth name len -
    (if meth = ''GET'' \<or> meth = ''PUT''
     then (if len mod 20 \<noteq> 0 then 0 else if len = 0 then 8 else 9)
     else (len div 20) * 69 + (len mod 20) * 3 + 9)"
proof -
  obtain n where n: "len = int n" using assms(1) nonneg_int_cases by blast
  with assms(2) have "n \<le> log_max" by simp
  from length_log_hex [OF this, of pc]
  have h: "int (length (log_hex pc n)) = 3 * int n + 9 * int ((n + 19) div 20) - (if n = 0 then 0 else 1)"
    by (cases "n = 0") simp_all
  have q: "int ((n + 19) div 20) = int n div 20 + (if int n mod 20 = 0 then 0 else 1)"
  proof -
    have "(int n mod 20 = 0) = (n mod 20 = 0)" by presburger
    then show ?thesis unfolding ceiling_20 by (simp add: zdiv_int)
  qed
  have q2: "int n = 20 * (int n div 20) + int n mod 20" by simp
  then have q3: "60 * (int n div 20) + int n mod 20 * 3 = 3 * int n" by linarith
  have r: "log_reserved meth name len =
      int (length (log_head meth name len)) + (len div 20) * 69 + (len mod 20) * 3 + 18"
    using nonneg_sdiv_smod [OF assms(1)] by (simp add: log_reserved_def)
  have e: "int (length log_end) = 9" by (simp add: log_end_def)
  show ?thesis
  proof (cases "meth = ''GET'' \<or> meth = ''PUT''")
    case True
    then have "int (length (log_good meth name len pc)) =
        int (length (log_head meth name len)) + int (length (log_hex pc n)) + 10"
      using e by (simp add: log_good_def n)
    with True r h q show ?thesis unfolding n
      by (cases "n = 0"; cases "int n mod 20 = 0") (simp_all add: q3)
  next
    case False
    with r e show ?thesis by (simp add: log_good_def)
  qed
qed

text \<open>
  C24. An entry of the log that was formatted, of a request whose recorded length is between 0 and 100
  million bytes, stays within the bytes reserved for it, so the entries of different requests never
  overlap: it is written where the log ended and the log then ends behind it. The entry of a failure
  fills its reservation exactly; so does that of a GET or PUT whose length is not a multiple of 20,
  while a multiple of 20 leaves a hole of 9 bytes and an empty file one of 8. The entry of another
  method, a HEAD, leaves a hole of the size of the whole dump, which it reserves and does not write.
\<close>

theorem log_entries_disjoint:
  assumes "log_entry S g m w = Some (m', g', lcount, offset, w')"
    and "0 \<le> original_length m" and "original_length m \<le> int log_max"
  shows "offset = log_offset g \<and> 0 \<le> lcount \<and> offset + lcount \<le> log_offset g' \<and>
    (status_code m \<noteq> 200 \<and> status_code m \<noteq> 201 \<longrightarrow> log_offset g' = offset + lcount) \<and>
    (status_code m = 200 \<or> status_code m = 201 \<longrightarrow>
     log_offset g' = offset + lcount +
       (if cstr (http_method m) = Some ''GET'' \<or> cstr (http_method m) = Some ''PUT''
        then if original_length m mod 20 \<noteq> 0 then 0 else if original_length m = 0 then 8 else 9
        else original_length m div 20 * 69 + original_length m mod 20 * 3 + 9))"
proof -
  obtain meth name where mn: "cstr (http_method m) = Some meth" "cstr (bigname m) = Some name"
    using assms(1) by (auto simp: log_entry_def bind_eq_Some_conv)
  let ?ol = "original_length m"
  show ?thesis
  proof (cases "status_code m = 200 \<or> status_code m = 201")
    case True
    from assms(1) obtain buf where
      "g' = g\<lparr>log_offset := log_offset g + log_reserved meth name ?ol\<rparr>"
      "lcount = int (length (log_good meth name ?ol buf))" "offset = log_offset g"
      unfolding log_entry_def if_P [OF True] mn Option.bind.simps
      by (elim bind_eq_SomeE) (auto split: if_splits elim!: bind_eq_SomeE)
    moreover have "0 \<le> (?ol div 20) * 69 + (?ol mod 20) * 3 + 9" using assms(2) by simp
    ultimately show ?thesis using length_log_good [OF assms(2,3), of meth name buf] mn True
      by (auto split: if_splits)
  next
    case False
    with assms(1) mn show ?thesis by (auto simp: log_entry_def bind_eq_Some_conv)
  qed
qed

definition logged_msg :: httpObject_mt where
  "logged_msg = \<lparr>http_method = ''GET'' @ [NUL, NUL], filename = CHR ''a'' # zeros 27, httpversion = ''HTTP/1.1'' @ [NUL],
     content_length = 0, status_code = 200, buffer = ''hi'' @ zeros 32767, bigname = ''/a'' @ zeros 298,
     original_length = 2, log_string = zeros 32769\<rparr>"

lemma logged_msg_simps:
  "cstr (http_method logged_msg) = Some ''GET''" "cstr (bigname logged_msg) = Some ''/a''"
  "status_code logged_msg = 200" "original_length logged_msg = 2" "log_string logged_msg = zeros 32769"
  "buffer logged_msg = ''hi'' @ zeros 32767"
proof -
  have "http_method logged_msg = ''GET'' @ NUL # [NUL]" "bigname logged_msg = ''/a'' @ NUL # zeros 297"
    by (simp_all add: logged_msg_def zeros_def flip: replicate_Suc)
  then show "cstr (http_method logged_msg) = Some ''GET''" "cstr (bigname logged_msg) = Some ''/a''"
    by (simp_all only:) (rule cstr_append_NUL, simp)+
qed (simp_all add: logged_msg_def)

lemma log_entries_disjoint_witness:
  "\<exists>m' g' lcount offset w'. log_entry (io_sys []) mt_globals logged_msg ([], []) = Some (m', g', lcount, offset, w') \<and>
     log_offset g' = offset + lcount"
proof -
  let ?t = "log_good ''GET'' ''/a'' 2 (''hi'' @ zeros 32767)"
  have "int (length ?t) = log_reserved ''GET'' ''/a'' 2"
    using length_log_good [of 2 "''GET''" "''/a''" "''hi'' @ zeros 32767"] by (simp add: log_max_def)
  moreover have "log_reserved ''GET'' ''/a'' 2 < 100" by code_simp
  ultimately have "length ?t < 32769" by simp
  then obtain m' where "log_store ?t (logged_msg\<lparr>buffer := ''hi'' @ zeros 32767\<rparr>) = Some m'"
    by (auto simp: log_store_def store_string_def logged_msg_simps)
  then obtain g' lcount offset w' where
    e: "log_entry (io_sys []) mt_globals logged_msg ([], []) = Some (m', g', lcount, offset, w')"
    by (simp add: log_entry_def logged_msg_simps)
  from log_entries_disjoint [OF e] have "log_offset g' = offset + lcount"
    by (simp add: logged_msg_simps log_max_def)
  with e show ?thesis by blast
qed

end
