(* ===== verification/Http_Pool.thy ===== *)
theory Http_Pool
  imports Prelude
begin

section \<open>Handing the connections to the workers of \<^verbatim>\<open>CSE130-v2/asgn2/httpserver.c\<close>\<close>

text \<open>
  The loop of \<open>main\<close> gives each accepted socket to a worker by writing \<open>client_sockd\<close> and then
  clearing \<open>available\<close> of its record; the worker serves the socket, closes it, sets \<open>available\<close>
  and then resets \<open>client_sockd\<close>. No lock protects the two fields, so each write is a step of its
  own here. A wait on a condition may end at any time, as POSIX allows. What serving does to the
  files is in \<^verbatim>\<open>Http_Threaded\<close>. The number of accepted sockets is counted without bound: the \<^verbatim>\<open>int\<close> of
  the code overflows after 2147483647 of them, which is not modelled.
\<close>

subsection \<open>States\<close>

text \<open>
  A worker waits in the inner loop, has seen a socket and serves it, has set \<open>available\<close> but not
  yet reset its socket. \<^term>\<open>None\<close> is \<^verbatim>\<open>INT_MIN\<close> or another negative \<open>client_sockd\<close>.
\<close>

datatype worker_pc = Waiting | Serving | Freed

record worker =
  client_sockd :: "nat option"
  available :: bool
  worker_pc :: worker_pc

text \<open>
  \<open>main\<close> accepts, looks at worker \<open>i\<close> for socket \<open>c\<close>, has written the socket of worker \<open>i\<close> but
  not yet its flag, or waits after the last worker. A failed \<open>accept\<close> gives \<^term>\<open>None\<close>.
\<close>

datatype main_pc = Accepting | Scanning nat "nat option" | Taking nat | Blocked "nat option"

record pool =
  workers :: "worker list"
  main_pc :: main_pc
  counter :: nat
  accepted :: "nat list"
  closed :: "nat list"

definition init_worker :: worker where
  "init_worker = \<lparr>client_sockd = None, available = True, worker_pc = Waiting\<rparr>"

definition init_pool :: "nat \<Rightarrow> pool" where
  "init_pool threadNum = \<lparr>workers = replicate threadNum init_worker, main_pc = Accepting,
     counter = 0, accepted = [], closed = []\<rparr>"

definition set_worker :: "pool \<Rightarrow> nat \<Rightarrow> worker \<Rightarrow> pool" where
  "set_worker p i t = p\<lparr>workers := (workers p)[i := t]\<rparr>"

subsection \<open>Steps of main\<close>

definition main_accept :: "pool \<Rightarrow> nat option \<Rightarrow> pool" where
  "main_accept p c = p\<lparr>main_pc := Scanning (counter p mod length (workers p)) c,
     accepted := (case c of None \<Rightarrow> accepted p | Some k \<Rightarrow> k # accepted p)\<rparr>"

definition main_next :: "pool \<Rightarrow> pool" where
  "main_next p = p\<lparr>main_pc := Accepting, counter := Suc (counter p)\<rparr>"

text \<open>
  One test of the loop \<^verbatim>\<open>for(int i = targetThread; i < threadNum; i++)\<close>. After the last worker
  \<open>main\<close> waits and sets \<open>i\<close> to 0, which the increment turns to 1.
\<close>

definition main_scan :: "pool \<Rightarrow> nat \<Rightarrow> nat option \<Rightarrow> pool" where
  "main_scan p i c =
    (if length (workers p) \<le> i then main_next p
     else if available (workers p ! i)
     then (set_worker p i ((workers p ! i)\<lparr>client_sockd := c\<rparr>))\<lparr>main_pc := Taking i\<rparr>
     else if i = length (workers p) - 1 then p\<lparr>main_pc := Blocked c\<rparr>
     else p\<lparr>main_pc := Scanning (Suc i) c\<rparr>)"

definition main_take :: "pool \<Rightarrow> nat \<Rightarrow> pool" where
  "main_take p i = main_next (set_worker p i ((workers p ! i)\<lparr>available := False\<rparr>))"

definition main_woken :: "pool \<Rightarrow> nat option \<Rightarrow> pool" where
  "main_woken p c = p\<lparr>main_pc := Scanning (Suc 0) c\<rparr>"

subsection \<open>Steps of a worker\<close>

definition worker_wake :: "pool \<Rightarrow> nat \<Rightarrow> pool" where
  "worker_wake p i = set_worker p i ((workers p ! i)\<lparr>worker_pc := Serving\<rparr>)"

definition worker_close :: "pool \<Rightarrow> nat \<Rightarrow> pool" where
  "worker_close p i = (set_worker p i ((workers p ! i)\<lparr>available := True, worker_pc := Freed\<rparr>))
     \<lparr>closed := (case client_sockd (workers p ! i) of None \<Rightarrow> closed p | Some c \<Rightarrow> c # closed p)\<rparr>"

definition worker_reset :: "pool \<Rightarrow> nat \<Rightarrow> pool" where
  "worker_reset p i =
    set_worker p i ((workers p ! i)\<lparr>client_sockd := None, worker_pc := Waiting\<rparr>)"

inductive pool_step :: "pool \<Rightarrow> pool \<Rightarrow> bool" where
  accept: "main_pc p = Accepting \<Longrightarrow> (\<And>k. c = Some k \<Longrightarrow> k \<notin> set (accepted p)) \<Longrightarrow>
    pool_step p (main_accept p c)"
| scan: "main_pc p = Scanning i c \<Longrightarrow> pool_step p (main_scan p i c)"
| take: "main_pc p = Taking i \<Longrightarrow> pool_step p (main_take p i)"
| woken: "main_pc p = Blocked c \<Longrightarrow> pool_step p (main_woken p c)"
| wake: "i < length (workers p) \<Longrightarrow> worker_pc (workers p ! i) = Waiting \<Longrightarrow>
    client_sockd (workers p ! i) \<noteq> None \<Longrightarrow> pool_step p (worker_wake p i)"
| close: "i < length (workers p) \<Longrightarrow> worker_pc (workers p ! i) = Serving \<Longrightarrow>
    pool_step p (worker_close p i)"
| reset: "i < length (workers p) \<Longrightarrow> worker_pc (workers p ! i) = Freed \<Longrightarrow>
    pool_step p (worker_reset p i)"

inductive pool_reach :: "pool \<Rightarrow> pool \<Rightarrow> bool" where
  start: "pool_reach p p"
| step: "pool_reach p q \<Longrightarrow> pool_step q r \<Longrightarrow> pool_reach p r"

lemma pool_reach_trans: "pool_reach q r \<Longrightarrow> pool_reach p q \<Longrightarrow> pool_reach p r"
  by (induction rule: pool_reach.induct) (auto intro: pool_reach.step)

subsection \<open>A socket is in one place\<close>

text \<open>
  The sockets that may still be closed: those of workers that have not closed theirs, and the one
  \<open>main\<close> looks for a worker for.
\<close>

definition live_socket :: "worker \<Rightarrow> nat list" where
  "live_socket t = (if worker_pc t = Freed then [] else
     case client_sockd t of None \<Rightarrow> [] | Some c \<Rightarrow> [c])"

definition pending :: "main_pc \<Rightarrow> nat list" where
  "pending pc = (case pc of Scanning _ (Some c) \<Rightarrow> [c] | Blocked (Some c) \<Rightarrow> [c] | _ \<Rightarrow> [])"

lemma pending_simps [simp]:
  "pending Accepting = []" "pending (Taking i) = []"
  "pending (Scanning i None) = []" "pending (Scanning i (Some c)) = [c]"
  "pending (Blocked None) = []" "pending (Blocked (Some c)) = [c]"
  by (simp_all add: pending_def)

definition live :: "pool \<Rightarrow> nat multiset" where
  "live p = mset (pending (main_pc p)) + mset (concat (map live_socket (workers p)))"

definition places :: "pool \<Rightarrow> nat multiset" where
  "places p = mset (closed p) + live p"

lemma live_set_worker:
  assumes "i < length (workers p)"
  shows "live (set_worker p i t) + mset (live_socket (workers p ! i)) = live p + mset (live_socket t)"
proof -
  have "mset (concat ((map live_socket (workers p))[i := live_socket t])) +
      mset (map live_socket (workers p) ! i) =
      mset (concat (map live_socket (workers p))) + mset (live_socket t)"
    by (rule mset_concat_update) (simp add: assms)
  with assms show ?thesis by (simp add: live_def set_worker_def map_update)
qed

lemma set_worker_simps [simp]:
  "main_pc (set_worker p i t) = main_pc p" "closed (set_worker p i t) = closed p"
  "accepted (set_worker p i t) = accepted p" "length (workers (set_worker p i t)) = length (workers p)"
  "counter (set_worker p i t) = counter p"
  by (simp_all add: set_worker_def)

lemma live_main_pc: "live (p\<lparr>main_pc := pc\<rparr>) + mset (pending (main_pc p)) = live p + mset (pending pc)"
  by (simp add: live_def)

lemma live_frame [simp]:
  "live (p\<lparr>closed := xs\<rparr>) = live p" "live (p\<lparr>counter := n\<rparr>) = live p" "live (p\<lparr>accepted := xs\<rparr>) = live p"
  by (simp_all add: live_def)

lemma subset_from_eq: "(A :: 'a multiset) + C = B + D \<Longrightarrow> D \<subseteq># C \<Longrightarrow> A \<subseteq># B"
  by (metis mset_subset_eq_mono_add_right_cancel subset_mset.add_left_mono)

lemma live_socket_client: "live_socket (t\<lparr>client_sockd := c\<rparr>) = [] \<or>
    (\<exists>k. c = Some k \<and> live_socket (t\<lparr>client_sockd := c\<rparr>) = [k])"
  by (cases c) (auto simp: live_socket_def)

lemma live_socket_frame [simp]:
  "live_socket (t\<lparr>available := b\<rparr>) = live_socket t"
  by (simp add: live_socket_def)

lemma main_scan_places: "main_pc p = Scanning i c \<Longrightarrow> places (main_scan p i c) \<subseteq># places p"
proof -
  assume m: "main_pc p = Scanning i c"
  let ?pc = "mset (pending (Scanning i c))"
  have other: "places (p\<lparr>main_pc := pc\<rparr>) \<subseteq># places p" if "mset (pending pc) \<subseteq># ?pc" for pc
    using subset_from_eq [OF live_main_pc that [folded m]] by (simp add: places_def)
  show ?thesis
  proof (cases "length (workers p) \<le> i \<or> \<not> available (workers p ! i)")
    case True
    have "places (main_next p) \<subseteq># places p"
      using other [of Accepting] by (simp add: main_next_def places_def)
    moreover have "places (p\<lparr>main_pc := Blocked c\<rparr>) \<subseteq># places p" "places (p\<lparr>main_pc := Scanning (Suc i) c\<rparr>) \<subseteq># places p"
      by (rule other; cases c; simp)+
    ultimately show ?thesis using True by (auto simp: main_scan_def)
  next
    case False
    then have i: "i < length (workers p)" by simp
    let ?t = "(workers p ! i)\<lparr>client_sockd := c\<rparr>"
    have "live ((set_worker p i ?t)\<lparr>main_pc := Taking i\<rparr>) + ?pc = live (set_worker p i ?t)"
      using live_main_pc [where p = "set_worker p i ?t" and pc = "Taking i"] m by simp
    with live_set_worker [OF i, of ?t]
    have "live ((set_worker p i ?t)\<lparr>main_pc := Taking i\<rparr>) + (?pc + mset (live_socket (workers p ! i))) =
        live p + mset (live_socket ?t)" unfolding add.assoc [symmetric] by (simp only:)
    moreover have "mset (live_socket ?t) \<subseteq># ?pc + mset (live_socket (workers p ! i))"
      using live_socket_client [where t = "workers p ! i" and c = c] by auto
    ultimately have "live ((set_worker p i ?t)\<lparr>main_pc := Taking i\<rparr>) \<subseteq># live p" by (rule subset_from_eq)
    with False i show ?thesis by (simp add: main_scan_def places_def)
  qed
qed

lemma worker_places:
  assumes "i < length (workers p)"
  shows "worker_pc (workers p ! i) = Waiting \<Longrightarrow> places (worker_wake p i) = places p"
    and "worker_pc (workers p ! i) = Serving \<Longrightarrow> places (worker_close p i) = places p"
    and "worker_pc (workers p ! i) = Freed \<Longrightarrow> places (worker_reset p i) = places p"
proof -
  assume "worker_pc (workers p ! i) = Waiting"
  then have "live_socket ((workers p ! i)\<lparr>worker_pc := Serving\<rparr>) = live_socket (workers p ! i)"
    by (simp add: live_socket_def)
  with live_set_worker [OF assms, of "(workers p ! i)\<lparr>worker_pc := Serving\<rparr>"]
  show "places (worker_wake p i) = places p" by (simp add: places_def worker_wake_def)
next
  assume w: "worker_pc (workers p ! i) = Serving"
  let ?t = "(workers p ! i)\<lparr>available := True, worker_pc := Freed\<rparr>"
  have "live_socket ?t = []" by (simp add: live_socket_def)
  with live_set_worker [OF assms, of ?t] w show "places (worker_close p i) = places p"
    by (cases "client_sockd (workers p ! i)") (simp_all add: places_def worker_close_def live_socket_def)
next
  assume w: "worker_pc (workers p ! i) = Freed"
  let ?t = "(workers p ! i)\<lparr>client_sockd := None, worker_pc := Waiting\<rparr>"
  have "live_socket ?t = []" "live_socket (workers p ! i) = []" using w by (simp_all add: live_socket_def)
  with live_set_worker [OF assms, of ?t] show "places (worker_reset p i) = places p"
    by (simp add: places_def worker_reset_def)
qed

lemma pool_step_cases:
  assumes "pool_step p q"
  shows "(accepted q = accepted p \<and> places q \<subseteq># places p) \<or>
    (\<exists>c. c \<notin> set (accepted p) \<and> accepted q = c # accepted p \<and> places q = add_mset c (places p))"
  using assms
proof cases
  case (accept c)
  let ?i = "counter p mod length (workers p)"
  show ?thesis
  proof (cases c)
    case None
    then show ?thesis using accept live_main_pc [where p = p and pc = "Scanning ?i c"] by (simp add: main_accept_def places_def)
  next
    case (Some k)
    then show ?thesis using accept live_main_pc [where p = p and pc = "Scanning ?i c"] by (simp add: main_accept_def places_def)
  qed
next
  case (scan i c)
  have "accepted (main_scan p i c) = accepted p" by (simp add: main_scan_def main_next_def)
  with scan main_scan_places show ?thesis by simp
next
  case (take i)
  have "places (main_take p i) \<subseteq># places p"
  proof (cases "i < length (workers p)")
    case True
    with live_set_worker [OF True, of "(workers p ! i)\<lparr>available := False\<rparr>"] take(2)
    show ?thesis using live_main_pc [where p = "set_worker p i ((workers p ! i)\<lparr>available := False\<rparr>)" and pc = Accepting]
      by (simp add: main_take_def main_next_def places_def)
  next
    case False
    then have "set_worker p i t = p" for t by (cases p) (simp add: set_worker_def list_update_beyond)
    with take(2) show ?thesis using live_main_pc [where p = p and pc = Accepting]
      by (simp add: main_take_def main_next_def places_def)
  qed
  with take show ?thesis by (simp add: main_take_def main_next_def)
next
  case (woken c)
  have "mset (pending (Scanning (Suc 0) c)) = mset (pending (Blocked c))" by (cases c) simp_all
  with woken live_main_pc [where p = p and pc = "Scanning (Suc 0) c"] show ?thesis by (simp add: main_woken_def places_def)
next
  case (wake i)
  with worker_places(1) [OF wake(2,3)] show ?thesis by (simp add: worker_wake_def)
next
  case (close i)
  with worker_places(2) [OF close(2,3)] show ?thesis by (simp add: worker_close_def)
next
  case (reset i)
  with worker_places(3) [OF reset(2,3)] show ?thesis by (simp add: worker_reset_def)
qed

definition one_place :: "pool \<Rightarrow> bool" where
  "one_place p \<longleftrightarrow> (\<forall>c. count (places p) c \<le> 1) \<and> set_mset (places p) \<subseteq> set (accepted p)"

lemma one_place_init: "one_place (init_pool n)"
proof -
  have "concat (map live_socket (replicate n init_worker)) = []"
    by (simp add: init_worker_def live_socket_def)
  then have "places (init_pool n) = {#}" by (simp add: places_def live_def init_pool_def)
  then show ?thesis by (simp add: one_place_def)
qed

lemma one_place_step: "pool_step p q \<Longrightarrow> one_place p \<Longrightarrow> one_place q"
proof -
  assume "pool_step p q" and p: "one_place p"
  from pool_step_cases [OF this(1)] show ?thesis
  proof (elim disjE exE conjE)
    assume "accepted q = accepted p" and s: "places q \<subseteq># places p"
    moreover have "count (places q) c \<le> count (places p) c" for c
      using s by (simp add: mset_subset_eq_count)
    moreover have "set_mset (places q) \<subseteq> set_mset (places p)" using s by (rule set_mset_mono)
    ultimately show ?thesis using p unfolding one_place_def
      by (metis le_trans subset_trans)
  next
    fix c assume "c \<notin> set (accepted p)" "accepted q = c # accepted p" "places q = add_mset c (places p)"
    moreover from this p have "count (places p) c = 0" by (auto simp: one_place_def count_eq_zero_iff)
    ultimately show ?thesis using p by (auto simp: one_place_def)
  qed
qed

lemma one_place_reach: "pool_reach p q \<Longrightarrow> one_place p \<Longrightarrow> one_place q"
  by (induction rule: pool_reach.induct) (auto intro: one_place_step)

lemma distinct_count_le: "(\<And>c. count (mset xs) c \<le> 1) \<Longrightarrow> distinct xs"
proof (induction xs)
  case (Cons x xs)
  have "count (mset xs) c \<le> count (mset (x # xs)) c" for c by simp
  with Cons.prems have "count (mset xs) c \<le> 1" for c by (meson le_trans)
  moreover have "count (mset xs) x = 0" using Cons.prems [of x] by simp
  ultimately show ?case using Cons.IH by (simp add: count_mset_0_iff)
qed simp

lemma two_in_concat:
  "i < length xss \<Longrightarrow> j < length xss \<Longrightarrow> j \<noteq> i \<Longrightarrow> xss ! i = [c] \<Longrightarrow> xss ! j = [c] \<Longrightarrow>
   2 \<le> count (mset (concat xss)) c"
proof -
  assume l: "i < length xss" "j < length xss" and ne: "j \<noteq> i" and e: "xss ! i = [c]" "xss ! j = [c]"
  have 1: "mset (concat (xss[i := []])) + {#c#} = mset (concat xss)"
    using mset_concat_update [OF l(1), of "[]"] e(1) by simp
  have "mset (concat (xss[i := [], j := []])) + {#c#} = mset (concat (xss[i := []]))"
    using mset_concat_update [of j "xss[i := []]" "[]"] l ne e(2) by simp
  with 1 show ?thesis by (metis add_mset_add_single count_add_mset le_add2 add_2_eq_Suc' numeral_2_eq_2 Suc_le_mono le0)
qed

text \<open>
  C7. In every interleaving of \<open>main\<close> and any number of workers each accepted socket is closed at
  most once, only accepted sockets are closed, and a socket a worker still serves is not closed
  and is served by no other worker.
\<close>

theorem pool_closes_once:
  assumes "pool_reach (init_pool n) p"
  shows "distinct (closed p) \<and> set (closed p) \<subseteq> set (accepted p) \<and>
    (\<forall>i c. i < length (workers p) \<longrightarrow> worker_pc (workers p ! i) = Serving \<longrightarrow>
      client_sockd (workers p ! i) = Some c \<longrightarrow> c \<notin> set (closed p) \<and>
      (\<forall>j. j < length (workers p) \<longrightarrow> worker_pc (workers p ! j) = Serving \<longrightarrow>
        client_sockd (workers p ! j) = Some c \<longrightarrow> j = i))"
proof -
  have o: "one_place p" using assms one_place_init by (rule one_place_reach)
  let ?L = "concat (map live_socket (workers p))"
  have pl: "places p = mset (closed p @ pending (main_pc p) @ ?L)"
    by (simp add: places_def live_def ac_simps)
  have d: "distinct (closed p @ pending (main_pc p) @ ?L)"
    using o by (intro distinct_count_le) (simp only: one_place_def pl)
  have acc: "set (closed p) \<subseteq> set (accepted p)"
    using o by (auto simp: one_place_def pl)
  have live_i: "live_socket (workers p ! i) = [c]" if "worker_pc (workers p ! i) = Serving"
    "client_sockd (workers p ! i) = Some c" for i c using that by (simp add: live_socket_def)
  have fresh: "c \<notin> set (closed p)" if "i < length (workers p)" "worker_pc (workers p ! i) = Serving"
    "client_sockd (workers p ! i) = Some c" for i c
  proof -
    have "c \<in> set ?L" using live_i [OF that(2,3)] that(1) by (force simp: in_set_conv_nth)
    with d show ?thesis by auto
  qed
  have one: "j = i" if "i < length (workers p)" "j < length (workers p)"
    "live_socket (workers p ! i) = [c]" "live_socket (workers p ! j) = [c]" for i j c
  proof (rule ccontr)
    assume "j \<noteq> i"
    from d have "distinct ?L" by simp
    moreover have "2 \<le> count (mset ?L) c" using two_in_concat [of i "map live_socket (workers p)" j c]
      that \<open>j \<noteq> i\<close> by simp
    ultimately show False by (auto simp: distinct_count_atmost_1 split: if_splits)
  qed
  show ?thesis
  proof (intro conjI allI impI)
    show "distinct (closed p)" using d by simp
    show "set (closed p) \<subseteq> set (accepted p)" by (rule acc)
  next
    fix i c assume i: "i < length (workers p)" "worker_pc (workers p ! i) = Serving"
      "client_sockd (workers p ! i) = Some c"
    show "c \<notin> set (closed p)" by (rule fresh [OF i])
    fix j assume j: "j < length (workers p)" "worker_pc (workers p ! j) = Serving"
      "client_sockd (workers p ! j) = Some c"
    show "j = i" by (rule one [OF i(1) j(1) live_i [OF i(2,3)] live_i [OF j(2,3)]])
  qed
qed

subsection \<open>A socket can be lost\<close>

definition lost :: "pool \<Rightarrow> nat \<Rightarrow> bool" where
  "lost p c \<longleftrightarrow> c \<in> set (accepted p) \<and> c \<notin># places p"

lemma lost_step: "pool_step p q \<Longrightarrow> lost p c \<Longrightarrow> lost q c"
proof -
  assume "pool_step p q" and l: "lost p c"
  from pool_step_cases [OF this(1)] l show ?thesis
    unfolding lost_def by (auto dest: mset_subset_eqD)
qed

lemma lost_reach: "pool_reach p q \<Longrightarrow> lost p c \<Longrightarrow> lost q c"
  by (induction rule: pool_reach.induct) (auto intro: lost_step)

definition given :: "worker \<Rightarrow> nat \<Rightarrow> worker" where
  "given t c = t\<lparr>client_sockd := Some c, available := False\<rparr>"

lemma hand_over:
  assumes "main_pc p = Accepting" and "i = counter p mod length (workers p)" and "i < length (workers p)"
    and "available (workers p ! i)" and "c \<notin> set (accepted p)"
  shows "pool_reach p (p\<lparr>workers := (workers p)[i := given (workers p ! i) c],
    counter := Suc (counter p), accepted := c # accepted p\<rparr>)"
proof -
  let ?p1 = "main_accept p (Some c)" and ?p2 = "main_scan (main_accept p (Some c)) i (Some c)"
  have 1: "pool_step p ?p1" using assms by (intro pool_step.accept) auto
  have 2: "pool_step ?p1 ?p2" by (rule pool_step.scan) (simp add: main_accept_def assms(2))
  have "main_pc ?p2 = Taking i" using assms by (simp add: main_scan_def main_accept_def)
  then have 3: "pool_step ?p2 (main_take ?p2 i)" by (rule pool_step.take)
  have "main_take ?p2 i = p\<lparr>workers := (workers p)[i := given (workers p ! i) c],
      counter := Suc (counter p), accepted := c # accepted p\<rparr>"
    using assms
    by (simp add: main_take_def main_next_def main_scan_def main_accept_def set_worker_def given_def)
  then show ?thesis using pool_reach.step [OF pool_reach.step [OF pool_reach.step [OF pool_reach.start 1] 2] 3]
    by simp
qed

definition handed :: "nat \<Rightarrow> nat \<Rightarrow> pool" where
  "handed n k = \<lparr>workers = map (given init_worker) [0..<k] @ replicate (n - k) init_worker,
     main_pc = Accepting, counter = k, accepted = rev [0..<k], closed = []\<rparr>"

lemma reach_handed: "k \<le> n \<Longrightarrow> pool_reach (init_pool n) (handed n k)"
proof (induction k)
  case 0
  then show ?case by (simp add: handed_def init_pool_def pool_reach.start)
next
  case (Suc k)
  then have k: "k < n" and nk: "n - k = Suc (n - Suc k)" by simp_all
  have w: "workers (handed n k) ! k = init_worker" using k by (simp add: handed_def nth_append)
  have "pool_reach (handed n k) ((handed n k)\<lparr>workers := (workers (handed n k))[k := given (workers (handed n k) ! k) k],
    counter := Suc (counter (handed n k)), accepted := k # accepted (handed n k)\<rparr>)"
    using k by (intro hand_over) (simp_all add: w, simp_all add: handed_def init_worker_def)
  moreover have "(handed n k)\<lparr>workers := (workers (handed n k))[k := given init_worker k],
    counter := Suc (counter (handed n k)), accepted := k # accepted (handed n k)\<rparr> = handed n (Suc k)"
    by (simp add: handed_def nk list_update_append)
  ultimately show ?case using Suc k pool_reach_trans unfolding w by (metis less_imp_le)
qed

text \<open>
  C19. With every number of workers a client can be lost: a worker that has set \<open>available\<close> is
  given the next socket before it resets its own field, so that the socket is overwritten. From
  then on the accepted socket is in no field, and in no continuation is it ever closed.
\<close>

theorem pool_loses_socket:
  assumes "0 < n"
  shows "\<exists>p. pool_reach (init_pool n) p \<and> n \<in> set (accepted p) \<and>
    (\<forall>q. pool_reach p q \<longrightarrow> n \<notin> set (closed q))"
proof -
  let ?ws = "map (given init_worker) [1..<n]" and ?t = "given init_worker 0"
  have up: "[0..<n] = 0 # [1..<n]" using assms by (simp add: upt_conv_Cons)
  define p0 where "p0 = handed n n"
  have w0: "workers p0 = ?t # ?ws" by (simp add: p0_def handed_def up)
  define p1 where "p1 = worker_close (worker_wake p0 0) 0"
  let ?f = "?t\<lparr>available := True, worker_pc := Freed\<rparr>"
  have p1: "p1 = p0\<lparr>workers := ?f # ?ws, closed := 0 # closed p0\<rparr>"
    by (simp add: p1_def worker_close_def worker_wake_def set_worker_def w0 given_def)
  have "pool_step p0 (worker_wake p0 0)"
    by (rule pool_step.wake) (simp_all add: w0 given_def init_worker_def)
  moreover have "pool_step (worker_wake p0 0) p1" unfolding p1_def
    by (rule pool_step.close) (simp_all add: worker_wake_def set_worker_def w0)
  ultimately have 1: "pool_reach p0 p1" by (blast intro: pool_reach.intros)
  define p2 where "p2 = p1\<lparr>workers := (workers p1)[0 := given (workers p1 ! 0) n],
    counter := Suc (counter p1), accepted := n # accepted p1\<rparr>"
  have 2: "pool_reach p1 p2" unfolding p2_def
    by (rule hand_over) (use assms in \<open>simp_all add: p1 p0_def handed_def\<close>)
  define p3 where "p3 = worker_reset p2 0"
  have 3: "pool_step p2 p3" unfolding p3_def
    by (rule pool_step.reset) (simp_all add: p2_def p1 given_def)
  have r: "pool_reach (init_pool n) p3"
    using reach_handed [of n n] 1 2 3 unfolding p0_def [symmetric]
    by (blast intro: pool_reach_trans pool_reach.step)
  have "workers p3 = (given ?f n)\<lparr>client_sockd := None, worker_pc := Waiting\<rparr> # ?ws"
    and m: "main_pc p3 = Accepting" "closed p3 = [0]" "accepted p3 = n # rev [0..<n]"
    by (simp_all add: p3_def p2_def p1 worker_reset_def set_worker_def p0_def handed_def)
  then have "\<forall>t\<in>set (workers p3). n \<notin> set (live_socket t)"
    by (auto simp: live_socket_def given_def init_worker_def)
  with m assms have "lost p3 n" by (auto simp: lost_def places_def live_def)
  with lost_reach [OF _ this] have "\<forall>q. pool_reach p3 q \<longrightarrow> n \<notin> set (closed q)"
    by (auto simp: lost_def places_def)
  with r m(3) show ?thesis by auto
qed

text \<open>
  With a single worker that is busy a client is dropped at once: after the wait \<open>main\<close> looks at
  worker 1, which does not exist.
\<close>

lemma single_worker_drops:
  assumes "length (workers p) = 1" and "main_pc p = Blocked (Some c)"
  shows "pool_reach p (main_next (main_woken p (Some c)))"
proof -
  have "pool_step p (main_woken p (Some c))" using assms(2) by (rule pool_step.woken)
  moreover have "pool_step (main_woken p (Some c)) (main_next (main_woken p (Some c)))"
    using pool_step.scan [of "main_woken p (Some c)" "Suc 0" "Some c"] assms(1)
    by (simp add: main_woken_def main_scan_def)
  ultimately show ?thesis by (blast intro: pool_reach.intros)
qed

lemma pool_closes_once_witness:
  "\<exists>p. pool_reach (init_pool 2) p \<and> accepted p = [1, 0] \<and> worker_pc (workers p ! 1) = Serving \<and>
    client_sockd (workers p ! 1) = Some 1 \<and> 1 \<notin> set (closed p)"
proof -
  have up: "[0..<2] = [0, 1::nat]" by (simp add: upt_conv_Cons)
  let ?p = "worker_wake (handed 2 2) 1"
  have "pool_step (handed 2 2) ?p"
    by (rule pool_step.wake) (simp_all add: handed_def given_def init_worker_def up)
  with reach_handed [of 2 2] have r: "pool_reach (init_pool 2) ?p" by (blast intro: pool_reach.step)
  have w: "workers ?p ! 1 = (given init_worker 1)\<lparr>worker_pc := Serving\<rparr>" "length (workers ?p) = 2"
    "accepted ?p = [1, 0]"
    by (simp_all add: worker_wake_def set_worker_def handed_def up)
  then have s: "worker_pc (workers ?p ! 1) = Serving" "client_sockd (workers ?p ! 1) = Some 1"
    by (simp_all add: given_def)
  have "1 < length (workers ?p)" unfolding w(2) by simp
  with pool_closes_once [OF r] s have "1 \<notin> set (closed ?p)" by blast
  with r s w(3) show ?thesis by blast
qed

lemma pool_loses_socket_witness: "\<exists>p. pool_reach (init_pool 4) p \<and> 4 \<in> set (accepted p) \<and> 4 \<notin> set (closed p)"
  using pool_loses_socket [of 4] pool_reach.start by auto

end
