(* ===== verification/Load_Balancer.thy ===== *)
theory Load_Balancer
  imports Http_Threaded
begin

section \<open>The load balancer \<^verbatim>\<open>CSE130-v2/asgn3/loadbalancer.c\<close>\<close>

text \<open>
  The list of servers with their counters and the choice of the best one, the health check probe
  that reads the counters the threaded HTTP server reports, the bridge between a client and its
  server, and the loop of \<open>main\<close> that gives accepted sockets to the workers. The locks of the
  servers only order the accesses to one record; \<open>select\<close> and \<open>pthread_cond_signal\<close> are calls of
  the environment.
\<close>

definition LB_BUFFER_SIZE :: int where
  "LB_BUFFER_SIZE = 32768"

definition INT_MAX :: int where
  "INT_MAX = 2 ^ 31 - 1"

record 'w lbsys = "'w netsys" +
  sys_select :: "int \<Rightarrow> int \<Rightarrow> 'w \<Rightarrow> (int \<times> bool \<times> bool) \<times> 'w"
  sys_cond_signal :: "nat \<Rightarrow> 'w \<Rightarrow> int \<times> 'w"

record server =
  server_port :: int
  alive :: bool
  total_requests :: int
  fail_requests :: int
  serverfd :: int

definition checkReq :: string where
  "checkReq = ''GET /healthcheck HTTP/1.1'' @ CRLF @ ''Host: localhost:1234'' @ CRLF @
     ''User-Agent: curl/7.58.0'' @ CRLF @ ''Accept: */*'' @ CRLF @ CRLF"

definition failResponse :: string where
  "failResponse = ''HTTP/1.1 500 Internal Server Error'' @ CRLF @ ''Content-Length: 0'' @ CRLF @ CRLF"

text \<open>\<^verbatim>\<open>sizeof\<close> of a string constant counts its NUL, which is sent too.\<close>

definition send_const :: "('w, 'y) sys_scheme \<Rightarrow> int \<Rightarrow> string \<Rightarrow> 'w \<Rightarrow> 'w" where
  "send_const S fd s w = snd (sys_send S fd (s @ [NUL]) (length s + 1) w)"

subsection \<open>Sockets\<close>

definition port16 :: "int \<Rightarrow> nat" where
  "port16 p = unat (word_of_int p :: 16 word)"

definition client_connect :: "('w, 'y) netsys_scheme \<Rightarrow> int \<Rightarrow> 'w \<Rightarrow> int \<times> 'w" where
  "client_connect S connectport w =
    (case sys_socket S w of (connfd, w) \<Rightarrow>
      if connfd < 0 then (-1, w)
      else (case sys_connect S connfd (port16 connectport) w of (r, w) \<Rightarrow>
        if r < 0 then (-1, w) else (connfd, w)))"

definition server_listen :: "('w, 'y) netsys_scheme \<Rightarrow> int \<Rightarrow> 'w \<Rightarrow> int \<times> 'w" where
  "server_listen S listen_port w =
    (case sys_socket S w of (listenfd, w) \<Rightarrow>
      if listenfd < 0 then (-1, w)
      else (case sys_setsockopt S listenfd w of (r, w) \<Rightarrow>
        if r < 0 then (-1, w)
        else (case sys_bind S listenfd (port16 listen_port) w of (r, w) \<Rightarrow>
          if r < 0 then (-1, w)
          else (case sys_listen S listenfd 500 w of (r, w) \<Rightarrow>
            if r < 0 then (-1, w) else (listenfd, w)))))"

subsection \<open>The bridge\<close>

text \<open>
  A message that fills the array makes \<^verbatim>\<open>recvline[n] = 0\<close> write behind it.
\<close>

definition line_end :: string where
  "line_end = [CHR 0x0A]"

definition bridge_connections ::
  "('w, 'y) netsys_scheme \<Rightarrow> int \<Rightarrow> int \<Rightarrow> 'w \<Rightarrow> (int \<times> 'w) option" where
  "bridge_connections S fromfd tofd w = do {
     (n, recvline, w) \<leftarrow> recv_buf S fromfd (stack_array S ''recvline'' (nat LB_BUFFER_SIZE) w)
         LB_BUFFER_SIZE w;
     if n < 0 then Some (-1, sys_print S (''connection error receiving'' @ line_end) w)
     else if n = 0 then Some (0, sys_print S (''receiving connection ended'' @ line_end) w)
     else do {
       recvline \<leftarrow> poke recvline n NUL;
       (n, w) \<leftarrow> send_buf S tofd recvline n w;
       Some (if n < 0 then (-1, sys_print S (''connection error sending'' @ line_end) w)
             else if n = 0 then (0, sys_print S (''sending connection ended'' @ line_end) w)
             else (n, w)) } }"

partial_function (option) bridge_loop ::
  "('w, 'y) lbsys_scheme \<Rightarrow> int \<Rightarrow> int \<Rightarrow> 'w \<Rightarrow> 'w option" where
  "bridge_loop S sockfd1 sockfd2 w =
    (case sys_select S sockfd1 sockfd2 w of ((r, set1, set2), w) \<Rightarrow>
      if r = -1 then Some (sys_print S (''error during select, exiting'' @ line_end) w)
      else if r = 0 then Some (send_const S sockfd1 failResponse w)
      else if \<not> set1 \<and> \<not> set2 then Some w
      else Option.bind (if set1 then bridge_connections S sockfd1 sockfd2 w
                        else bridge_connections S sockfd2 sockfd1 w) (\<lambda>(n, w).
        if n \<le> 0 then Some w else bridge_loop S sockfd1 sockfd2 w))"

subsection \<open>The best server\<close>

definition best_step :: "int \<times> int \<times> int \<Rightarrow> server \<Rightarrow> int \<times> int \<times> int" where
  "best_step b s = (case b of (bestPort, tot, fail) \<Rightarrow>
     if \<not> alive s then b
     else if total_requests s < tot then (server_port s, total_requests s, fail_requests s)
     else if total_requests s = tot \<and> fail_requests s < fail
     then (server_port s, total_requests s, fail_requests s)
     else b)"

definition determineBest :: "server list \<Rightarrow> int" where
  "determineBest servers = fst (foldl best_step (-1, INT_MAX, INT_MAX) servers)"

subsection \<open>The health check probe\<close>

text \<open>
  The receive loop of the probe: the bytes received so far, at most 32767 of them in the zeroed
  buffer. A receive error ends the thread, with the lock of the server held (\<^term>\<open>Inl\<close>).
\<close>

partial_function (option) probe_recv ::
  "('w, 'y) sys_scheme \<Rightarrow> int \<Rightarrow> string \<Rightarrow> 'w \<Rightarrow> ((string + string) \<times> 'w) option" where
  "probe_recv S fd got w =
    (case sys_recv S fd (nat LB_BUFFER_SIZE - 1 - length got) w of (r, w) \<Rightarrow>
      case r of
        None \<Rightarrow> Some (Inl got, w)
      | Some d \<Rightarrow> if d = [] then Some (Inr got, w)
                 else if int (length (got @ d)) < LB_BUFFER_SIZE then probe_recv S fd (got @ d) w
                 else None)"

text \<open>
  What the answer means for the server. The words of the answer are taken by position; the
  program does not check that there are so many.
\<close>

definition probe_answer :: "server \<Rightarrow> string \<Rightarrow> server option" where
  "probe_answer s got =
    (let res = strtok_tokens header_delims [] (takeWhile (\<lambda>c. c \<noteq> NUL) got) in
     if length res < 2 then None
     else if res ! 1 \<noteq> ''200'' then Some (s\<lparr>alive := False\<rparr>)
     else if length res < 7 then None
     else Some (s\<lparr>total_requests := atoi (res ! 6), fail_requests := atoi (res ! 5)\<rparr>))"

definition probe_server ::
  "('w, 'y) netsys_scheme \<Rightarrow> server \<Rightarrow> 'w \<Rightarrow> ((server + server) \<times> 'w) option" where
  "probe_server S s w =
    (case client_connect S (server_port s) w of (fd, w) \<Rightarrow>
      if fd = -1 then Some (Inr (s\<lparr>alive := False\<rparr>), w)
      else do {
        (r, w) \<leftarrow> probe_recv S fd [] (send_const S fd checkReq w);
        case r of
          Inl _ \<Rightarrow> Some (Inl s, w)
        | Inr got \<Rightarrow> map_option (\<lambda>s. (Inr s, w)) (probe_answer s got) })"

text \<open>One pass over the servers: \<^term>\<open>False\<close> when the thread has ended.\<close>

fun probe_servers ::
  "('w, 'y) netsys_scheme \<Rightarrow> server list \<Rightarrow> 'w \<Rightarrow> ((bool \<times> server list) \<times> 'w) option" where
  "probe_servers S [] w = Some ((True, []), w)"
| "probe_servers S (s # ss) w = do {
     (r, w) \<leftarrow> probe_server S s w;
     case r of
       Inl s \<Rightarrow> Some ((False, s # ss), w)
     | Inr s \<Rightarrow> do {
         ((go_on, ss), w) \<leftarrow> probe_servers S ss w;
         Some ((go_on, s # ss), w) } }"

record balancer =
  servers :: "server list"
  bestServerport :: int
  hcRequest :: int
  requestCounter :: int
  parallelOp :: int
  parallels :: "int list"
  count_lb :: nat

definition probe_round ::
  "('w, 'y) netsys_scheme \<Rightarrow> balancer \<Rightarrow> 'w \<Rightarrow> (bool \<times> balancer \<times> 'w) option" where
  "probe_round S b w = do {
     ((go_on, ss), w) \<leftarrow> probe_servers S (servers b) w;
     Some (if go_on
       then (True, b\<lparr>servers := ss, bestServerport := determineBest ss, requestCounter := 0\<rparr>, w)
       else (False, b\<lparr>servers := ss\<rparr>, w)) }"

subsection \<open>A worker\<close>

definition handle_connection ::
  "('w, 'y) lbsys_scheme \<Rightarrow> balancer \<Rightarrow> int \<Rightarrow> 'w \<Rightarrow> 'w option" where
  "handle_connection S b client_sockd w =
    (case client_connect S (bestServerport b) w of (c, w) \<Rightarrow>
      if c = -1 then Some (sys_close S client_sockd (send_const S client_sockd failResponse w))
      else do {
        w \<leftarrow> bridge_loop S client_sockd c w;
        Some (sys_close S c (sys_close S client_sockd w)) })"

subsection \<open>main\<close>

text \<open>
  \<open>getopt\<close> is the C library's: the model starts from the options it returned and the arguments
  it left. The messages of the argument checks are printed by \<^verbatim>\<open>fprintf(1, ...)\<close>, whose first
  argument is no stream, and more than 1000 servers overrun the array: both are undefined.
\<close>

definition lb_option :: "balancer \<Rightarrow> char \<times> string \<Rightarrow> balancer" where
  "lb_option b opt = (case opt of (c, optarg) \<Rightarrow>
     if c = CHR ''N'' then b\<lparr>parallelOp := atoi optarg\<rparr>
     else if c = CHR ''R'' then b\<lparr>hcRequest := atoi optarg\<rparr> else b)"

definition init_server :: "string \<Rightarrow> server" where
  "init_server arg = \<lparr>server_port = atoi arg, alive = False, total_requests = 0, fail_requests = 0, serverfd = 0\<rparr>"

fun connect_servers :: "('w, 'y) netsys_scheme \<Rightarrow> server list \<Rightarrow> 'w \<Rightarrow> server list \<times> 'w" where
  "connect_servers S [] w = ([], w)"
| "connect_servers S (s # ss) w =
    (case client_connect S (server_port s) w of (fd, w) \<Rightarrow>
     case connect_servers S ss w of (ss, w) \<Rightarrow>
       ((if fd = -1 then s\<lparr>alive := False\<rparr>
         else s\<lparr>alive := True, serverfd := fd, fail_requests := 0, total_requests := 0\<rparr>) # ss, w))"

definition lb_start ::
  "('w, 'y) netsys_scheme \<Rightarrow> nat \<Rightarrow> (char \<times> string) list \<Rightarrow> string list \<Rightarrow> 'w \<Rightarrow>
   ((int + int \<times> balancer) \<times> 'w) option" where
  "lb_start S argc opts args w =
    (let b = foldl lb_option \<lparr>servers = [], bestServerport = 0, hcRequest = 5, requestCounter = 0,
         parallelOp = 4, parallels = [], count_lb = 0\<rparr> opts in
     if argc < 3 \<or> args = [] \<or> atoi (hd args) \<le> 0 then None
     else (case server_listen S (atoi (hd args)) w of (listenfd, w) \<Rightarrow>
       if listenfd < 0 then Some (Inl 1, w)
       else if tl args = [] \<or> 1000 < length (tl args) then None
       else (case connect_servers S (map init_server (tl args)) w of (ss, w) \<Rightarrow>
         Some (Inr (listenfd, b\<lparr>servers := ss,
           parallels := replicate (nat (parallelOp b)) (- (2 ^ 31))\<rparr>), w))))"

text \<open>
  The search for a worker: the first one whose condition can be signalled; after the last one
  the loop starts again with worker 1.
\<close>

partial_function (option) pick_worker ::
  "('w, 'y) lbsys_scheme \<Rightarrow> int \<Rightarrow> nat \<Rightarrow> 'w \<Rightarrow> (nat option \<times> 'w) option" where
  "pick_worker S n i w =
    (if n \<le> int i then Some (None, w)
     else (case sys_cond_signal S i w of (r, w) \<Rightarrow>
       if r = 0 then Some (Some i, w)
       else pick_worker S n (if int i = n - 1 then 1 else Suc i) w))"

definition dispatch ::
  "('w, 'y) lbsys_scheme \<Rightarrow> int \<Rightarrow> balancer \<Rightarrow> 'w \<Rightarrow> (balancer \<times> 'w) option" where
  "dispatch S listenfd b w =
    (case sys_accept S listenfd w of (client_sockd, w) \<Rightarrow>
     case (if requestCounter b + 1 = hcRequest b
           then (0, snd (sys_cond_signal S (length (parallels b)) w))
           else (requestCounter b + 1, w)) of (rc, w) \<Rightarrow>
       let b = b\<lparr>requestCounter := rc, bestServerport := determineBest (servers b)\<rparr> in
       if bestServerport b = -1
       then Some (b, sys_close S client_sockd (send_const S client_sockd failResponse w))
       else do {
         (i, w) \<leftarrow> pick_worker S (parallelOp b) 0 w;
         Some (case i of
             None \<Rightarrow> b\<lparr>count_lb := Suc (count_lb b)\<rparr>
           | Some i \<Rightarrow> b\<lparr>parallels := (parallels b)[i := client_sockd], count_lb := Suc (count_lb b)\<rparr>, w) })"

fun dispatch_clients ::
  "('w, 'y) lbsys_scheme \<Rightarrow> int \<Rightarrow> nat \<Rightarrow> balancer \<Rightarrow> 'w \<Rightarrow> (balancer \<times> 'w) option" where
  "dispatch_clients S listenfd 0 b w = Some (b, w)"
| "dispatch_clients S listenfd (Suc n) b w = do {
     (b, w) \<leftarrow> dispatch S listenfd b w;
     dispatch_clients S listenfd n b w }"

end
