(* ===== verification/Balancer_Props.thy ===== *)
theory Balancer_Props
  imports Load_Balancer Http_Transfer
begin

section \<open>Properties of the load balancer\<close>

text \<open>
  The best server is the first one that is least in the order of requests and then failures; the
  probe never brings a server back; it reads the counters the threaded server wrote, in however
  many pieces the answer arrives; every client goes to worker 0.
\<close>

subsection \<open>The best server\<close>

definition better :: "server \<Rightarrow> server \<Rightarrow> bool" where
  "better s t \<longleftrightarrow> total_requests s < total_requests t \<or>
    total_requests s = total_requests t \<and> fail_requests s < fail_requests t"

definition first_best :: "server list \<Rightarrow> nat \<Rightarrow> bool" where
  "first_best ss i \<longleftrightarrow> i < length ss \<and> alive (ss ! i) \<and>
    (\<forall>j<length ss. alive (ss ! j) \<longrightarrow> \<not> better (ss ! j) (ss ! i) \<and> (j < i \<longrightarrow> better (ss ! i) (ss ! j)))"

definition below_max :: "server \<Rightarrow> bool" where
  "below_max s \<longleftrightarrow> total_requests s < INT_MAX \<or> total_requests s = INT_MAX \<and> fail_requests s < INT_MAX"

definition best_of :: "server list \<Rightarrow> int \<times> int \<times> int \<Rightarrow> bool" where
  "best_of ss b \<longleftrightarrow> ((\<forall>s\<in>set ss. \<not> alive s) \<and> b = (-1, INT_MAX, INT_MAX)) \<or>
    (\<exists>i. first_best ss i \<and>
      b = (server_port (ss ! i), total_requests (ss ! i), fail_requests (ss ! i)))"

lemma first_best_snoc_old:
  "first_best ss i \<Longrightarrow> \<not> alive s \<or> \<not> better s (ss ! i) \<Longrightarrow> first_best (ss @ [s]) i"
  by (auto simp: first_best_def nth_append less_Suc_eq)

lemma first_best_snoc_new:
  assumes "alive s" and "(\<forall>t\<in>set ss. \<not> alive t) \<or> (\<exists>i. first_best ss i \<and> better s (ss ! i))"
  shows "first_best (ss @ [s]) (length ss)"
proof -
  have new: "better s (ss ! j)" if "j < length ss" "alive (ss ! j)" for j
    using assms(2)
  proof
    assume "\<exists>i. first_best ss i \<and> better s (ss ! i)"
    then obtain i where i: "first_best ss i" "better s (ss ! i)" by blast
    then have "\<not> better (ss ! j) (ss ! i)" using \<open>j < length ss\<close> \<open>alive (ss ! j)\<close>
      unfolding first_best_def by blast
    with i(2) show ?thesis by (auto simp: better_def)
  qed (use that in auto)
  have "\<not> better t s" if "better s t" for t using that by (auto simp: better_def)
  moreover have "\<not> better s s" by (simp add: better_def)
  ultimately show ?thesis using assms(1) new
    unfolding first_best_def by (simp add: nth_append less_Suc_eq)
qed

lemma best_of_foldl:
  "\<forall>s\<in>set ss. alive s \<longrightarrow> below_max s \<Longrightarrow> best_of ss (foldl best_step (-1, INT_MAX, INT_MAX) ss)"
proof (induction ss rule: rev_induct)
  case Nil
  then show ?case by (simp add: best_of_def)
next
  case (snoc s ss)
  define b where "b = foldl best_step (-1, INT_MAX, INT_MAX) ss"
  have ih: "best_of ss b" using snoc unfolding b_def by simp
  have f: "foldl best_step (-1, INT_MAX, INT_MAX) (ss @ [s]) = best_step b s" by (simp add: b_def)
  show ?case
  proof (cases "alive s")
    case False
    with ih have "best_of (ss @ [s]) b"
      unfolding best_of_def by (auto simp: nth_append first_best_def intro: first_best_snoc_old)
    moreover have "best_step b s = b" using False by (cases b) (simp add: best_step_def)
    ultimately show ?thesis by (simp only: f)
  next
    case True
    have new: "best_of (ss @ [s]) (server_port s, total_requests s, fail_requests s)"
      if "(\<forall>t\<in>set ss. \<not> alive t) \<or> (\<exists>i. first_best ss i \<and> better s (ss ! i))"
      unfolding best_of_def using first_best_snoc_new [OF True that] by (intro disjI2 exI [of _ "length ss"]) simp
    from ih consider "\<forall>t\<in>set ss. \<not> alive t" "b = (-1, INT_MAX, INT_MAX)" |
      i where "first_best ss i" "b = (server_port (ss ! i), total_requests (ss ! i), fail_requests (ss ! i))"
      unfolding best_of_def by blast
    then show ?thesis
    proof cases
      case 1
      with snoc.prems True have "best_step b s = (server_port s, total_requests s, fail_requests s)"
        by (auto simp: best_step_def below_max_def)
      with new 1 f show ?thesis by simp
    next
      case (2 i)
      show ?thesis
      proof (cases "better s (ss ! i)")
        case True
        then have "best_step b s = (server_port s, total_requests s, fail_requests s)"
          using \<open>alive s\<close> by (auto simp: best_step_def 2(2) better_def)
        with new 2 True f show ?thesis by auto
      next
        case False
        then have "best_step b s = b" using \<open>alive s\<close> by (auto simp: best_step_def 2(2) better_def)
        moreover have "first_best (ss @ [s]) i" using 2(1) False by (blast intro: first_best_snoc_old)
        moreover have "(ss @ [s]) ! i = ss ! i" using 2(1) by (simp add: first_best_def nth_append)
        ultimately show ?thesis using f 2(2) unfolding best_of_def by metis
      qed
    qed
  qed
qed

text \<open>
  C29. While the counters are below the maximum of their type, \<open>determineBest\<close> returns the port of
  the first living server with the fewest requests and, among those, the fewest failures, and -1
  exactly when no server lives (ports are not negative).
\<close>

theorem determineBest_least:
  assumes "\<forall>s\<in>set ss. alive s \<longrightarrow> below_max s" and "\<forall>s\<in>set ss. 0 \<le> server_port s"
  shows "(determineBest ss = -1 \<longleftrightarrow> (\<forall>s\<in>set ss. \<not> alive s)) \<and>
    ((\<exists>s\<in>set ss. alive s) \<longrightarrow>
      (\<exists>i<length ss. alive (ss ! i) \<and> determineBest ss = server_port (ss ! i) \<and>
        (\<forall>j<length ss. alive (ss ! j) \<longrightarrow> \<not> better (ss ! j) (ss ! i) \<and>
          (j < i \<longrightarrow> better (ss ! i) (ss ! j)))))"
proof -
  let ?b = "foldl best_step (-1, INT_MAX, INT_MAX) ss"
  have d: "determineBest ss = fst ?b" by (simp add: determineBest_def)
  from best_of_foldl [OF assms(1)] consider "\<forall>s\<in>set ss. \<not> alive s" "fst ?b = -1" |
    i where "first_best ss i" "fst ?b = server_port (ss ! i)" unfolding best_of_def by auto
  then show ?thesis
  proof cases
    case 1
    with d show ?thesis by simp
  next
    case (2 i)
    then have i: "i < length ss" "alive (ss ! i)" by (simp_all add: first_best_def)
    with assms(2) have "0 \<le> server_port (ss ! i)" by simp
    with 2 d i show ?thesis unfolding first_best_def by (metis nth_mem neg_0_le_iff_le not_one_le_zero)
  qed
qed

subsection \<open>The probe\<close>

lemma probe_answer_alive:
  "probe_answer s got = Some s' \<Longrightarrow> server_port s' = server_port s \<and> (alive s' \<longrightarrow> alive s)"
  by (auto simp: probe_answer_def Let_def split: if_splits)

lemma probe_server_alive:
  assumes "probe_server S s w = Some (r, w')"
  shows "case r of Inl s' \<Rightarrow> s' = s | Inr s' \<Rightarrow> server_port s' = server_port s \<and> (alive s' \<longrightarrow> alive s)"
proof -
  obtain fd w1 where c: "client_connect S (server_port s) w = (fd, w1)" by (cases "client_connect S (server_port s) w")
  show ?thesis
  proof (cases "fd = -1")
    case True
    with assms c show ?thesis by (auto simp: probe_server_def)
  next
    case False
    with assms c obtain a :: "string + string" and w2 where
      "(case a of Inl _ \<Rightarrow> Some (Inl s, w2)
        | Inr got \<Rightarrow> map_option (\<lambda>s. (Inr s, w2)) (probe_answer s got)) = Some (r, w')"
      by (auto simp: probe_server_def bind_eq_Some_conv)
    then show ?thesis by (cases a) (auto dest: probe_answer_alive)
  qed
qed

lemma probe_servers_alive:
  "probe_servers S ss w = Some ((go, ss'), w') \<Longrightarrow>
    list_all2 (\<lambda>s s'. server_port s' = server_port s \<and> (alive s' \<longrightarrow> alive s)) ss ss'"
proof (induction ss arbitrary: w go ss')
  case (Cons s ss)
  from Cons.prems obtain r w1 where p: "probe_server S s w = Some (r, w1)"
    and c: "(case r of Inl s \<Rightarrow> Some ((False, s # ss), w1)
      | Inr s \<Rightarrow> Option.bind (probe_servers S ss w1) (\<lambda>((go_on, ss), w). Some ((go_on, s # ss), w))) =
      Some ((go, ss'), w')" by (auto simp: bind_eq_Some_conv)
  show ?case
  proof (cases r)
    case (Inl s')
    with c probe_server_alive [OF p] show ?thesis by (auto intro: list_all2_refl)
  next
    case (Inr s')
    with c obtain go1 ss1 w2 where "probe_servers S ss w1 = Some ((go1, ss1), w2)" "ss' = s' # ss1" "w2 = w'"
      by (auto simp: bind_eq_Some_conv)
    with Cons.IH [of w1 go1 ss1] probe_server_alive [OF p] Inr show ?thesis by simp
  qed
qed simp

text \<open>
  The probe never brings a server back: in any round, whatever the network does, the list of
  ports stays as it is and a server that was not alive before is not alive after.
\<close>

theorem probe_never_revives:
  assumes "probe_round S b w = Some (go, b', w')"
  shows "map server_port (servers b') = map server_port (servers b) \<and>
    (\<forall>i<length (servers b). alive (servers b' ! i) \<longrightarrow> alive (servers b ! i))"
proof -
  from assms obtain go' ss where p: "probe_servers S (servers b) w = Some ((go', ss), w')"
    and "servers b' = ss"
    by (auto simp: probe_round_def bind_eq_Some_conv split: if_splits)
  with probe_servers_alive [OF p] show ?thesis
    by (auto simp: list_all2_conv_all_nth list_eq_iff_nth_eq)
qed

text \<open>
  An answer that arrives in pieces: every receive returns a non-empty part of what is left.
\<close>

definition answers ::
  "('w, 'y) netsys_scheme \<Rightarrow> int \<Rightarrow> int \<Rightarrow> string \<Rightarrow> ('w \<Rightarrow> string) \<Rightarrow> bool" where
  "answers S p fd text unread \<longleftrightarrow> fd \<noteq> -1 \<and>
    (\<forall>w. \<exists>w'. client_connect S p w = (fd, w')) \<and>
    (\<forall>w. unread (send_const S fd checkReq w) = text) \<and>
    (\<forall>n w. 0 < n \<longrightarrow> (\<exists>k w'. sys_recv S fd n w = (Some (take k (unread w)), w') \<and>
        k \<le> n \<and> (unread w \<noteq> [] \<longrightarrow> 0 < k) \<and> unread w' = drop k (unread w)))"

lemma probe_recv_all:
  assumes r: "\<forall>n w. 0 < n \<longrightarrow> (\<exists>k w'. sys_recv S fd n w = (Some (take k (unread w)), w') \<and>
        k \<le> n \<and> (unread w \<noteq> [] \<longrightarrow> 0 < k) \<and> unread w' = drop k (unread w))"
  shows "length got + length (unread w) < 32767 \<Longrightarrow>
    \<exists>w'. probe_recv S fd got w = Some (Inr (got @ unread w), w')"
proof (induction "length (unread w)" arbitrary: got w rule: less_induct)
  case less
  have n: "nat LB_BUFFER_SIZE - Suc (length got) = 32767 - length got" by (simp add: LB_BUFFER_SIZE_def)
  have "0 < 32767 - length got" using less.prems by simp
  with r obtain k w1 where k: "sys_recv S fd (32767 - length got) w = (Some (take k (unread w)), w1)"
    "unread w \<noteq> [] \<longrightarrow> 0 < k" "unread w1 = drop k (unread w)" by blast
  show ?case
  proof (cases "unread w = []")
    case True
    with k show ?thesis by (subst probe_recv.simps) (simp add: n)
  next
    case False
    then have "take k (unread w) \<noteq> []" using k(2) by simp
    moreover have "int (length (got @ take k (unread w))) < LB_BUFFER_SIZE"
      using less.prems by (simp add: LB_BUFFER_SIZE_def)
    ultimately have e: "probe_recv S fd got w = probe_recv S fd (got @ take k (unread w)) w1"
      using k(1) by (subst probe_recv.simps) (simp add: n)
    have "length (unread w1) < length (unread w)" using False k(2,3) by simp
    moreover have "length (got @ take k (unread w)) + length (unread w1) < 32767"
      using less.prems k(3) by simp
    ultimately show ?thesis using less.hyps [of w1 "got @ take k (unread w)"] k(3)
      unfolding e by simp
  qed
qed

lemma answer_tokens:
  "strtok_tokens header_delims [] (''HTTP/1.1 200 OK'' @ CRLF @ ''Content-Length: '' @ show_int n @ CRLF @ CRLF @
      show_int f @ CHR 0x0A # show_int t) =
    [''HTTP/1.1'', ''200'', ''OK'', ''Content-Length:'', show_int n, show_int f, show_int t]"
proof -
  have w: "word_ok ''HTTP/1.1''" "word_ok ''200''" "word_ok ''OK''" "word_ok ''Content-Length:''"
    by (simp_all add: word_ok_def isspace_def)
  have skip: "strtok_tokens header_delims [] (CHR 0x0A # s) = strtok_tokens header_delims [] s"
    "strtok_tokens header_delims [] (CHR 0x0D # s) = strtok_tokens header_delims [] s" for s
    by simp_all
  have last: "strtok_tokens header_delims [] (show_int t) = [show_int t]"
    using strtok_tokens_last [of "show_int t" header_delims] word_ok_delims [OF word_ok_show_int, of t]
      word_ok_show_int [of t] by (simp add: word_ok_def)
  show ?thesis
    using tokens_word [OF w(1), of "CHR '' ''"] tokens_word [OF w(2), of "CHR '' ''"]
      tokens_word [OF w(3), of "CHR 0x0D"] tokens_word [OF w(4), of "CHR '' ''"]
      tokens_word [OF word_ok_show_int, of "CHR 0x0D"] tokens_word [OF word_ok_show_int, of "CHR 0x0A"]
      skip last
    by (simp del: strtok_tokens.simps(2))
qed

lemma healthcheck_NUL: "NUL \<notin> set (show_int n)"
  using word_ok_show_int by (auto simp: word_ok_def)

lemma probe_answer_counters:
  assumes "cstr (httpversion m) = Some ''HTTP/1.1''" and "status_code m = 200"
    and "response_header m = Some h"
    and f: "- (2 ^ 31) \<le> failureCount g" "failureCount g < 2 ^ 31"
    and t: "- (2 ^ 31) \<le> totalCount g" "totalCount g < 2 ^ 31"
  shows "probe_answer s (h @ healthcheck_text g) =
    Some (s\<lparr>total_requests := totalCount g, fail_requests := failureCount g\<rparr>)"
proof -
  let ?a = "''HTTP/1.1 200 OK'' @ CRLF @ ''Content-Length: '' @ show_int (content_length m) @ CRLF @ CRLF @
      show_int (failureCount g) @ CHR 0x0A # show_int (totalCount g)"
  have a: "h @ healthcheck_text g = ?a"
    using assms(1-3) by (auto simp: response_header_def status_string_def show_int_200 healthcheck_text_def)
  have "NUL \<notin> set ?a" using healthcheck_NUL by simp
  then have "\<forall>c\<in>set ?a. c \<noteq> NUL" by blast
  then have "takeWhile (\<lambda>c. c \<noteq> NUL) ?a = ?a" by (simp only: takeWhile_eq_all_conv)
  then show ?thesis unfolding a probe_answer_def Let_def
    by (simp only: answer_tokens) (simp add: atoi_show_int [OF f] atoi_show_int [OF t])
qed

text \<open>
  C11. The probe reads what the threaded server reports: when a server answers the health check by
  its 200 header and its health check file, in whatever pieces the answer arrives, the probe
  stores exactly the two counters of that server and leaves it alive or not as it was.
\<close>

theorem healthcheck_roundtrip:
  assumes "cstr (httpversion m) = Some ''HTTP/1.1''" and "status_code m = 200"
    and "response_header m = Some h"
    and "- (2 ^ 31) \<le> failureCount g" "failureCount g < 2 ^ 31"
    and "- (2 ^ 31) \<le> totalCount g" "totalCount g < 2 ^ 31"
    and "answers S (server_port s) fd (h @ healthcheck_text g) unread"
    and "length (h @ healthcheck_text g) < 32767"
  shows "\<exists>w'. probe_server S s w =
    Some (Inr (s\<lparr>total_requests := totalCount g, fail_requests := failureCount g\<rparr>), w')"
proof -
  obtain w1 where c: "client_connect S (server_port s) w = (fd, w1)" "fd \<noteq> -1"
    using assms(8) unfolding answers_def by blast
  let ?w = "send_const S fd checkReq w1"
  have u: "unread ?w = h @ healthcheck_text g" using assms(8) unfolding answers_def by blast
  have "\<exists>w'. probe_recv S fd [] ?w = Some (Inr ([] @ unread ?w), w')"
    using assms(8,9) unfolding u [symmetric] answers_def by (intro probe_recv_all) simp_all
  then obtain w2 where "probe_recv S fd [] ?w = Some (Inr (h @ healthcheck_text g), w2)"
    unfolding u by auto
  with c probe_answer_counters [OF assms(1-7)] show ?thesis by (simp add: probe_server_def)
qed

subsection \<open>The workers\<close>

lemma dispatch_worker_0:
  assumes sig: "\<forall>i w. fst (sys_cond_signal S i w) = 0" and "0 < parallelOp b"
  shows "\<exists>b' w'. dispatch S listenfd b w = Some (b', w') \<and> parallelOp b' = parallelOp b \<and>
    (parallels b' = parallels b \<or> (\<exists>c. parallels b' = (parallels b)[0 := c]))"
proof -
  obtain c w1 where a: "sys_accept S listenfd w = (c, w1)" by (cases "sys_accept S listenfd w")
  have p: "\<exists>w'. pick_worker S (parallelOp b) 0 v = Some (Some 0, w')" for v
  proof -
    obtain w' where "sys_cond_signal S 0 v = (0, w')" using sig by (metis prod.collapse)
    with assms(2) show ?thesis by (subst pick_worker.simps) simp
  qed
  obtain w2 w3 where "pick_worker S (parallelOp b) 0 (snd (sys_cond_signal S (length (parallels b)) w1)) = Some (Some 0, w2)"
    "pick_worker S (parallelOp b) 0 w1 = Some (Some 0, w3)" using p by blast
  with a show ?thesis by (auto simp: dispatch_def Let_def)
qed

text \<open>
  Since signalling a condition succeeds whether or not a thread waits for it, every client
  goes to worker 0, also while that one is busy: however many clients come, the sockets of all
  other workers stay as they are.
\<close>

theorem balancer_uses_worker_0:
  assumes "\<forall>i w. fst (sys_cond_signal S i w) = 0" and "0 < parallelOp b"
  shows "\<exists>b' w'. dispatch_clients S listenfd n b w = Some (b', w') \<and>
    length (parallels b') = length (parallels b) \<and>
    (\<forall>i. 0 < i \<longrightarrow> i < length (parallels b) \<longrightarrow> parallels b' ! i = parallels b ! i)"
  using assms(2)
proof (induction n arbitrary: b w)
  case (Suc n)
  from dispatch_worker_0 [OF assms(1) Suc.prems, of listenfd w] obtain b1 w1 where
    d: "dispatch S listenfd b w = Some (b1, w1)" "parallelOp b1 = parallelOp b"
      "parallels b1 = parallels b \<or> (\<exists>c. parallels b1 = (parallels b)[0 := c])" by blast
  from Suc.IH [of b1 w1] Suc.prems d(2) obtain b2 w2 where
    "dispatch_clients S listenfd n b1 w1 = Some (b2, w2)" "length (parallels b2) = length (parallels b1)"
    "\<forall>i. 0 < i \<longrightarrow> i < length (parallels b1) \<longrightarrow> parallels b2 ! i = parallels b1 ! i" by auto
  with d(1,3) show ?case by auto
qed simp

text \<open>A message that fills the array of the bridge is written behind its end.\<close>

lemma bridge_full_buffer:
  assumes "sys_recv S fd 32768 w = (Some d, w1)" and "length d = 32768"
  shows "bridge_connections S fd tofd w = None"
  using assms
  by (simp add: bridge_connections_def recv_buf_def filled_def LB_BUFFER_SIZE_def size_t_def poke_def)

subsection \<open>Examples\<close>

definition srv :: "int \<Rightarrow> bool \<Rightarrow> int \<Rightarrow> int \<Rightarrow> server" where
  "srv p a t f = \<lparr>server_port = p, alive = a, total_requests = t, fail_requests = f, serverfd = 0\<rparr>"

lemma determineBest_least_witness:
  "determineBest [srv 8081 True 3 1, srv 8082 True 2 2, srv 8083 True 2 1, srv 8084 False 0 0] = 8083 \<and>
   determineBest [srv 8081 True 3 1, srv 8082 True 2 2, srv 8083 True 2 1, srv 8084 False 0 0] \<noteq> -1"
proof -
  let ?ss = "[srv 8081 True 3 1, srv 8082 True 2 2, srv 8083 True 2 1, srv 8084 False 0 0]"
  have "\<forall>s\<in>set ?ss. alive s \<longrightarrow> below_max s" "\<forall>s\<in>set ?ss. 0 \<le> server_port s"
    by (simp_all add: srv_def below_max_def INT_MAX_def)
  from determineBest_least [OF this] have "determineBest ?ss \<noteq> -1" by (simp add: srv_def)
  moreover have "determineBest ?ss = 8083" by (simp add: determineBest_def best_step_def srv_def INT_MAX_def)
  ultimately show ?thesis by blast
qed

text \<open>An environment in which every connection is refused and every signal succeeds.\<close>

definition refusing_sys :: "unit lbsys" where
  "refusing_sys = \<lparr>sys_open = (\<lambda>_ _ w. (Inl ENOENT, w)), sys_close = (\<lambda>_ w. w), sys_read = (\<lambda>_ _ w. (None, w)),
     sys_write = (\<lambda>_ _ _ w. (None, w)), sys_recv = (\<lambda>_ _ w. (None, w)), sys_send = (\<lambda>_ _ _ w. (None, w)),
     sys_fstat = (\<lambda>_ _. None), sys_warn = (\<lambda>_ w. w), sys_accept = (\<lambda>_ w. (7, w)), sys_stack = (\<lambda>_ _ _. NUL),
     sys_int = (\<lambda>_ _. 0), sys_socket = (\<lambda>w. (5, w)), sys_setsockopt = (\<lambda>_ w. (0, w)), sys_bind = (\<lambda>_ _ w. (0, w)),
     sys_listen = (\<lambda>_ _ w. (0, w)), sys_connect = (\<lambda>_ _ w. (-1, w)), sys_print = (\<lambda>_ w. w),
     sys_select = (\<lambda>_ _ w. ((0, False, False), w)), sys_cond_signal = (\<lambda>_ w. (0, w))\<rparr>"

definition lb0 :: balancer where
  "lb0 = \<lparr>servers = [srv 8081 True 3 1, srv 8082 False 0 0], bestServerport = 8081, hcRequest = 5, requestCounter = 0,
     parallelOp = 4, parallels = [-1, -2, -3, -4], count_lb = 0\<rparr>"

lemma probe_never_revives_witness:
  "\<exists>b' w'. probe_round (netsys.truncate refusing_sys) lb0 () = Some (True, b', w') \<and>
     (alive (servers b' ! 1) \<longrightarrow> alive (servers lb0 ! 1)) \<and> \<not> alive (servers lb0 ! 1)"
proof -
  have "\<exists>b' w'. probe_round (netsys.truncate refusing_sys) lb0 () = Some (True, b', w')"
    by (simp add: probe_round_def lb0_def probe_server_def client_connect_def refusing_sys_def netsys.defs)
  then obtain b' w' where "probe_round (netsys.truncate refusing_sys) lb0 () = Some (True, b', w')" by blast
  with probe_never_revives [OF this] show ?thesis by (auto simp: lb0_def srv_def)
qed

lemma balancer_uses_worker_0_witness:
  "\<exists>b' w'. dispatch_clients refusing_sys 3 9 lb0 () = Some (b', w') \<and> parallels b' ! 1 = -2"
proof -
  have "\<forall>i w. fst (sys_cond_signal refusing_sys i w) = 0" "0 < parallelOp lb0"
    by (simp_all add: refusing_sys_def lb0_def)
  from balancer_uses_worker_0 [OF this, of 3 9 "()"] show ?thesis by (auto simp: lb0_def)
qed

text \<open>A server that sends its answer three bytes at a time; the world is what it still has to send.\<close>

definition answering_sys :: "string \<Rightarrow> string netsys" where
  "answering_sys text = \<lparr>sys_open = (\<lambda>_ _ w. (Inl ENOENT, w)), sys_close = (\<lambda>_ w. w), sys_read = (\<lambda>_ _ w. (None, w)),
     sys_write = (\<lambda>_ _ _ w. (None, w)), sys_recv = (\<lambda>_ n w. (Some (take (min 3 n) w), drop (min 3 n) w)),
     sys_send = (\<lambda>_ _ n w. (Some n, text)),
     sys_fstat = (\<lambda>_ _. None), sys_warn = (\<lambda>_ w. w), sys_accept = (\<lambda>_ w. (7, w)), sys_stack = (\<lambda>_ _ _. NUL),
     sys_int = (\<lambda>_ _. 0), sys_socket = (\<lambda>w. (5, w)), sys_setsockopt = (\<lambda>_ w. (0, w)), sys_bind = (\<lambda>_ _ w. (0, w)),
     sys_listen = (\<lambda>_ _ w. (0, w)), sys_connect = (\<lambda>_ _ w. (0, w)), sys_print = (\<lambda>_ w. w)\<rparr>"

lemma answering_sys_answers: "answers (answering_sys text) p 5 text (\<lambda>w. w)"
proof -
  have "\<exists>k w'. sys_recv (answering_sys text) 5 n w = (Some (take k w), w') \<and> k \<le> n \<and>
      (w \<noteq> [] \<longrightarrow> 0 < k) \<and> w' = drop k w" if "0 < n" for n w
    by (rule exI [of _ "min 3 n"]) (use that in \<open>simp add: answering_sys_def\<close>)
  then show ?thesis
    by (simp add: answers_def client_connect_def send_const_def answering_sys_def)
qed

lemma healthcheck_roundtrip_witness:
  "\<exists>h w'. response_header (msg ''GET'' ''a'' 4 200) = Some h \<and>
     probe_server (answering_sys (h @ healthcheck_text (mt_globals\<lparr>totalCount := 12, failureCount := 3\<rparr>)))
       (srv 8081 True 0 0) [] = Some (Inr (srv 8081 True 12 3), w')"
proof -
  let ?g = "mt_globals\<lparr>totalCount := 12, failureCount := 3\<rparr>"
  obtain h where h: "response_header (msg ''GET'' ''a'' 4 200) = Some h"
    by (simp add: response_header_def msg_strings)
  have "message_ok (msg ''GET'' ''a'' 4 200)" by (rule msg_ok) (simp_all add: ssize_ok_def status_ok_def)
  then have "length h < 100"
    by (intro response_header_length [OF _ _ _ h]) (auto simp: message_ok_def arrays_ok_def)
  moreover have "length (healthcheck_text ?g) < 100" by code_simp
  ultimately have "length (h @ healthcheck_text ?g) < 32767" by simp
  from healthcheck_roundtrip [OF _ _ h _ _ _ _ answering_sys_answers this, where s = "srv 8081 True 0 0" and w = "[]"]
  show ?thesis using h by (auto simp: msg_strings srv_def)
qed

end
