(* ===== verification/Shell.thy ===== *)
theory Shell
  imports Posix
begin

section \<open>The shell \<^verbatim>\<open>CS111/assgn-1/myshell.c\<close>\<close>

text \<open>
  The shell reads a line into words (\<^verbatim>\<open>lex.l\<close>), walks over the words to find redirections, pipes
  and separators, and forks a child for each command, waiting for it at once. The words are an
  array of 256 pointers into one line buffer: a new line overwrites the first pointers and ends
  them by \<^verbatim>\<open>NULL\<close>, so behind it those of earlier lines stay. The kernel is a record of functions;
  what a child does is one of them, given the changes of its descriptors and its words. Reading
  the array outside its bounds or a string at \<^verbatim>\<open>NULL\<close> is undefined: \<^term>\<open>None\<close>.
\<close>

datatype fd_act = Close int | Dup int

record 'w shell_sys =
  sh_open :: "string option \<Rightarrow> oflag list \<Rightarrow> 'w \<Rightarrow> int \<times> 'w"
  sh_pipe :: "'w \<Rightarrow> (int \<times> int) option \<times> 'w"
  sh_close :: "int \<Rightarrow> 'w \<Rightarrow> 'w"
  sh_getenv :: "string \<Rightarrow> 'w \<Rightarrow> string option"
  sh_chdir :: "string option \<Rightarrow> 'w \<Rightarrow> 'w"
  sh_print :: "string \<Rightarrow> 'w \<Rightarrow> 'w"
  sh_fork :: "fd_act list \<Rightarrow> string list \<Rightarrow> 'w \<Rightarrow> 'w"

subsection \<open>Words\<close>

definition word_char :: "char \<Rightarrow> bool" where
  "word_char c \<longleftrightarrow> (of_char c :: nat) \<in> {97..122} \<union> {65..90} \<union> {48..57} \<or> c \<in> set ''_/.-''"

definition special_char :: "char \<Rightarrow> bool" where
  "special_char c \<longleftrightarrow> c \<in> set ''()><|&;*''"

definition quote_char :: "char \<Rightarrow> bool" where
  "quote_char c \<longleftrightarrow> c = CHR 0x27 \<or> c = CHR 0x22"

text \<open>
  The tokens up to the end of the line, and the rest of the input: the longest word, run of
  special characters or quoted text; every other character is skipped.
\<close>

function lex_line :: "string \<Rightarrow> string list \<times> string" where
  "lex_line [] = ([], [])"
| "lex_line (c # s) =
    (if c = CHR 0x0A then ([], s)
     else if word_char c then
       (case lex_line (dropWhile word_char s) of (ws, r) \<Rightarrow> ((c # takeWhile word_char s) # ws, r))
     else if special_char c then
       (case lex_line (dropWhile special_char s) of (ws, r) \<Rightarrow> ((c # takeWhile special_char s) # ws, r))
     else if quote_char c \<and> c \<in> set s then
       (case lex_line (drop 1 (dropWhile (\<lambda>x. x \<noteq> c) s)) of
          (ws, r) \<Rightarrow> ((c # takeWhile (\<lambda>x. x \<noteq> c) s @ [c]) # ws, r))
     else lex_line s)"
  by pat_completeness auto
termination
  by (relation "measure length") (auto simp: le_imp_less_Suc length_dropWhile_le
      intro: order.strict_trans1 [OF diff_le_self])

record words =
  args_ptr :: "nat option list"
  argcount :: nat
  linebuf :: string
  bufpos :: nat

definition words0 :: words where
  "words0 = \<lparr>args_ptr = replicate 256 None, argcount = 0, linebuf = replicate 4096 NUL, bufpos = 0\<rparr>"

text \<open>
  At most 255 words are kept; the line buffer is not checked, so running over it is undefined.
\<close>

definition add_word :: "string \<Rightarrow> words \<Rightarrow> words option" where
  "add_word tok ws =
    (if argcount ws < 255
     then let t = takeWhile (\<lambda>c. c \<noteq> NUL) tok; p = bufpos ws in
       if p + length t < length (linebuf ws)
       then Some (ws\<lparr>args_ptr := (args_ptr ws)[argcount ws := Some p, Suc (argcount ws) := None],
              argcount := Suc (argcount ws),
              linebuf := take p (linebuf ws) @ t @ NUL # drop (Suc (p + length t)) (linebuf ws),
              bufpos := Suc (p + length t)\<rparr>)
       else None
     else Some ws)"

fun add_words :: "string list \<Rightarrow> words \<Rightarrow> words option" where
  "add_words [] ws = Some ws"
| "add_words (t # ts) ws = Option.bind (add_word t ws) (add_words ts)"

definition get_args :: "string \<Rightarrow> words \<Rightarrow> (words \<times> string) option" where
  "get_args input ws = (case lex_line input of (ts, r) \<Rightarrow>
     map_option (\<lambda>ws. (ws, r))
       (add_words ts (ws\<lparr>argcount := 0, bufpos := 0, args_ptr := (args_ptr ws)[0 := None]\<rparr>)))"

text \<open>The strings the pointers lead to while the line is executed.\<close>

definition args_of :: "words \<Rightarrow> string option list" where
  "args_of ws = map (map_option (\<lambda>p. takeWhile (\<lambda>c. c \<noteq> NUL) (drop p (linebuf ws)))) (args_ptr ws)"

subsection \<open>Walking over the words\<close>

text \<open>
  The local variables of the loops: the array, \<open>ind\<close>, and those of one command. \<^verbatim>\<open>pOut\<close>,
  \<^verbatim>\<open>pIn\<close> and \<^verbatim>\<open>semicolCheck\<close> live as long as the line.
\<close>

record cmdline =
  args :: "string option list"
  ind :: nat
  fdIn :: int
  fdOut :: int
  redirErr :: bool
  pIn :: bool
  pOut :: bool
  semicolCheck :: bool
  nxtCmdIndex :: nat
  curIndex :: nat
  fdPipe1 :: "int \<times> int"
  fdPipe2 :: "int \<times> int"

text \<open>An element of the array; the string behind it.\<close>

definition arg_at :: "cmdline \<Rightarrow> nat \<Rightarrow> string option option" where
  "arg_at c k = (if k < length (args c) then Some (args c ! k) else None)"

definition str_at :: "cmdline \<Rightarrow> nat \<Rightarrow> string option" where
  "str_at c k = Option.bind (arg_at c k) (\<lambda>x. x)"

definition arg_null :: "nat \<Rightarrow> cmdline \<Rightarrow> cmdline" where
  "arg_null k c = c\<lparr>args := (args c)[k := None]\<rparr>"

text \<open>
  A step of the walk: exit with a code, or go on at the next index, or break.
\<close>

datatype scan_next = Go nat | Break

definition scan_input ::
  "('w, 'y) shell_sys_scheme \<Rightarrow> nat \<Rightarrow> cmdline \<Rightarrow> 'w \<Rightarrow> (int + scan_next \<times> cmdline \<times> 'w) option" where
  "scan_input S k c w = do {
     f \<leftarrow> arg_at c (k + 1);
     case sh_open S f [O_RDONLY] w of (fd, w) \<Rightarrow>
       Some (if fd < 0 then Inl 1
             else Inr (Break, (arg_null k c)\<lparr>fdIn := fd, ind := ind c + 1\<rparr>, w)) }"

definition scan_output ::
  "('w, 'y) shell_sys_scheme \<Rightarrow> nat \<Rightarrow> cmdline \<Rightarrow> 'w \<Rightarrow> (int + scan_next \<times> cmdline \<times> 'w) option" where
  "scan_output S k c w = do {
     a \<leftarrow> str_at c (k + 1);
     let k' = (if a = ''&'' then k + 1 else k);
     temp \<leftarrow> str_at c k';
     let c = c\<lparr>redirErr := redirErr c \<or> a = ''&'' \<or> temp = ''>&''\<rparr>;
     f \<leftarrow> arg_at c (k' + 1);
     case sh_open S f [O_RDWR, O_CREAT] w of (fd, w) \<Rightarrow>
       Some (if fd < 0 then Inl 1
             else Inr (if temp = ''>&'' then Break else Go (k' + 1),
                       (arg_null k' c)\<lparr>fdOut := fd, ind := ind c + 1\<rparr>, w)) }"

definition scan_append ::
  "('w, 'y) shell_sys_scheme \<Rightarrow> nat \<Rightarrow> string \<Rightarrow> cmdline \<Rightarrow> 'w \<Rightarrow> (int + scan_next \<times> cmdline \<times> 'w) option"
  where
  "scan_append S k a c w = do {
     f \<leftarrow> arg_at c (k + 1);
     case sh_open S f [O_RDWR, O_APPEND, O_CREAT] w of (fd, w) \<Rightarrow>
       Some (if fd < 0 then Inl 1
             else Inr (Break, (arg_null k c)\<lparr>fdOut := fd, ind := ind c + 1,
                     redirErr := redirErr c \<or> a = ''>>&''\<rparr>, w)) }"

definition scan_pipe ::
  "('w, 'y) shell_sys_scheme \<Rightarrow> nat \<Rightarrow> string \<Rightarrow> cmdline \<Rightarrow> 'w \<Rightarrow> (int + scan_next \<times> cmdline \<times> 'w) option"
  where
  "scan_pipe S k a c w = (case sh_pipe S w of
     (None, w) \<Rightarrow> Some (Inl 1)
   | (Some p, w) \<Rightarrow> Some (Inr (Break, (arg_null k c)\<lparr>redirErr := redirErr c \<or> a = ''|&'', pOut := True,
         nxtCmdIndex := k + 1, fdPipe2 := p\<rparr>, w)))"

definition scan_cd ::
  "('w, 'y) shell_sys_scheme \<Rightarrow> nat \<Rightarrow> cmdline \<Rightarrow> 'w \<Rightarrow> (int + scan_next \<times> cmdline \<times> 'w) option" where
  "scan_cd S k c w = do {
     d \<leftarrow> arg_at c (k + 1);
     Some (Inr (Go (k + 1), c, sh_chdir S (if d = None then sh_getenv S ''HOME'' w else d) w)) }"

definition scan_step ::
  "('w, 'y) shell_sys_scheme \<Rightarrow> nat \<Rightarrow> cmdline \<Rightarrow> 'w \<Rightarrow> (int + scan_next \<times> cmdline \<times> 'w) option" where
  "scan_step S k c w = do {
     a \<leftarrow> str_at c k;
     let c = c\<lparr>ind := ind c + 1\<rparr>;
     if a = ''<'' then scan_input S k c w
     else if a = ''>'' \<or> a = ''>&'' then scan_output S k c w
     else if a = ''>>'' \<or> a = ''>>&'' then scan_append S k a c w
     else if a = ''|'' \<or> a = ''|&'' then scan_pipe S k a c w
     else if a = ''cd'' then scan_cd S k c w
     else if a = '';'' then Some (Inr (Break, (arg_null k c)\<lparr>semicolCheck := True, nxtCmdIndex := k + 1\<rparr>, w))
     else Some (Inr (Go (k + 1), c, w)) }"

text \<open>The loop \<^verbatim>\<open>for (argc = nxtCmdIndex; argc < i; argc++)\<close>.\<close>

partial_function (option) scan_args ::
  "('w, 'y) shell_sys_scheme \<Rightarrow> nat \<Rightarrow> nat \<Rightarrow> cmdline \<Rightarrow> 'w \<Rightarrow> (int + cmdline \<times> 'w) option" where
  "scan_args S i k c w =
    (if i \<le> k then Some (Inr (c, w))
     else Option.bind (scan_step S k c w) (\<lambda>r. case r of
         Inl code \<Rightarrow> Some (Inl code)
       | Inr (n, c, w) \<Rightarrow> (case n of Break \<Rightarrow> Some (Inr (c, w)) | Go k \<Rightarrow> scan_args S i k c w)))"

subsection \<open>Running a command\<close>

text \<open>What the child does to its descriptors before it executes its words.\<close>

definition child_acts :: "cmdline \<Rightarrow> fd_act list" where
  "child_acts c =
    (if fdIn c \<noteq> -1 then [Close 0, Dup (fdIn c)] else []) @
    (if fdOut c \<noteq> -1
     then [Close 1, Dup (fdOut c)] @ (if redirErr c then [Close 2, Dup (fdOut c)] else [])
     else (if pIn c then [Close 0, Dup (fst (fdPipe1 c)), Close (fst (fdPipe1 c)), Close (snd (fdPipe1 c))] else []) @
          (if pOut c then [Close 1, Dup (snd (fdPipe2 c)), Close (fst (fdPipe2 c)), Close (snd (fdPipe2 c))] else []))"

text \<open>The words from an index to the next \<^verbatim>\<open>NULL\<close>.\<close>

fun argv_of :: "string option list \<Rightarrow> string list option" where
  "argv_of [] = None"
| "argv_of (None # as) = Some []"
| "argv_of (Some a # as) = map_option ((#) a) (argv_of as)"

definition run_command ::
  "('w, 'y) shell_sys_scheme \<Rightarrow> cmdline \<Rightarrow> 'w \<Rightarrow> (cmdline \<times> 'w) option" where
  "run_command S c w = do {
     argv \<leftarrow> argv_of (drop (curIndex c) (args c));
     let w = sh_fork S (child_acts c) argv w;
     let c = (if semicolCheck c then c\<lparr>curIndex := nxtCmdIndex c\<rparr> else c);
     Some (if pOut c
       then (c\<lparr>fdPipe1 := fdPipe2 c, pIn := True, curIndex := nxtCmdIndex c\<rparr>, sh_close S (snd (fdPipe2 c)) w)
       else (c, w)) }"

text \<open>
  The loop \<^verbatim>\<open>while (!cmdDone)\<close>: \<open>i\<close> is the number of words. It ends when the word at \<open>ind\<close> is
  \<^verbatim>\<open>NULL\<close>; then the loop around it ends too.
\<close>

partial_function (option) run_commands ::
  "('w, 'y) shell_sys_scheme \<Rightarrow> nat \<Rightarrow> cmdline \<Rightarrow> 'w \<Rightarrow> (int + cmdline \<times> 'w) option" where
  "run_commands S i c w =
    Option.bind (scan_args S i (nxtCmdIndex c) (c\<lparr>redirErr := False, fdIn := -1, fdOut := -1\<rparr>) w) (\<lambda>r. case r of
        Inl code \<Rightarrow> Some (Inl code)
      | Inr (c, w) \<Rightarrow>
        Option.bind (run_command S c w) (\<lambda>(c, w).
        Option.bind (arg_at c (ind c)) (\<lambda>a.
          if a = None then Some (Inr (c, w)) else run_commands S i c w)))"

definition start_line :: "string option list \<Rightarrow> int \<times> int \<Rightarrow> int \<times> int \<Rightarrow> cmdline" where
  "start_line as p1 p2 = \<lparr>args = as, ind = 0, fdIn = -1, fdOut = -1, redirErr = False, pIn = False, pOut = False,
     semicolCheck = False, nxtCmdIndex = 0, curIndex = 0, fdPipe1 = p1, fdPipe2 = p2\<rparr>"

text \<open>
  A line: the number of words is counted to the first \<^verbatim>\<open>NULL\<close>. The pipe variables are not
  initialised, so they are arguments.
\<close>

definition run_line ::
  "('w, 'y) shell_sys_scheme \<Rightarrow> int \<times> int \<Rightarrow> int \<times> int \<Rightarrow> string option list \<Rightarrow> 'w \<Rightarrow>
   (int + string option list \<times> 'w) option" where
  "run_line S p1 p2 as w = do {
     ws \<leftarrow> argv_of as;
     r \<leftarrow> run_commands S (length ws) (start_line as p1 p2) w;
     Some (case r of Inl code \<Rightarrow> Inl code | Inr (c, w) \<Rightarrow> Inr (args c, w)) }"

text \<open>
  \<open>main\<close>, cut after \<open>n\<close> lines: the exit code, or the state and what is left of the input. The
  pointers whose words were set to \<^verbatim>\<open>NULL\<close> are \<^verbatim>\<open>NULL\<close> from then on.
\<close>

fun shell_main ::
  "('w, 'y) shell_sys_scheme \<Rightarrow> int \<times> int \<Rightarrow> int \<times> int \<Rightarrow> nat \<Rightarrow> words \<Rightarrow> string \<Rightarrow> 'w \<Rightarrow>
   (int \<times> 'w + words \<times> string \<times> 'w) option" where
  "shell_main S p1 p2 0 ws input w = Some (Inr (ws, input, w))"
| "shell_main S p1 p2 (Suc n) ws input w = do {
     (ws, input) \<leftarrow> get_args input ws;
     let w = sh_print S ''>: '' w;
     if args_of ws ! 0 = Some ''exit'' then Some (Inl (0, w))
     else do {
       r \<leftarrow> run_line S p1 p2 (args_of ws) w;
       case r of
         Inl code \<Rightarrow> Some (Inl (code, w))
       | Inr (as, w) \<Rightarrow> shell_main S p1 p2 n
           (ws\<lparr>args_ptr := map2 (\<lambda>p a. if a = None then None else p) (args_ptr ws) as\<rparr>) input w } }"

subsection \<open>Descriptors of a child\<close>

text \<open>
  What the calls do to a table of open descriptors: \<^verbatim>\<open>dup\<close> uses the lowest free one, and does
  nothing when its argument is not open.
\<close>

definition open_max :: nat where
  "open_max = 1024"

definition lowest_free :: "(int \<rightharpoonup> string) \<Rightarrow> int option" where
  "lowest_free t = map_option int (find (\<lambda>i. t (int i) = None) [0..<open_max])"

definition do_act :: "fd_act \<Rightarrow> (int \<rightharpoonup> string) \<Rightarrow> (int \<rightharpoonup> string)" where
  "do_act a t = (case a of
     Close fd \<Rightarrow> t(fd := None)
   | Dup fd \<Rightarrow> (case (t fd, lowest_free t) of (Some f, Some n) \<Rightarrow> t(n \<mapsto> f) | _ \<Rightarrow> t))"

definition child_table :: "fd_act list \<Rightarrow> (int \<rightharpoonup> string) \<Rightarrow> (int \<rightharpoonup> string)" where
  "child_table acts t = fold do_act acts t"

end
