(* ===== verification/Shell_Props.thy ===== *)
theory Shell_Props
  imports Shell
begin

section \<open>Properties of the shell\<close>

text \<open>
  Commands separated by semicolons run one after the other with exactly their words; in a pipe
  the last command runs with its standard output closed.
\<close>

definition plain :: "string \<Rightarrow> bool" where
  "plain a \<longleftrightarrow> a \<notin> {''<'', ''>'', ''>&'', ''>>'', ''>>&'', ''|'', ''|&'', ''cd'', '';''}"

lemma bind_let: "Option.bind (Some x) f = f x"
  by simp

lemma scan_step_plain:
  "str_at c k = Some a \<Longrightarrow> plain a \<Longrightarrow>
   scan_step S k c w = Some (Inr (Go (k + 1), c\<lparr>ind := ind c + 1\<rparr>, w))"
  by (simp add: scan_step_def plain_def Let_def)

lemma scan_step_semicolon:
  "str_at c k = Some '';'' \<Longrightarrow> scan_step S k c w =
   Some (Inr (Break, (arg_null k c)\<lparr>ind := ind c + 1, semicolCheck := True, nxtCmdIndex := k + 1\<rparr>, w))"
  by (simp add: scan_step_def Let_def arg_null_def)

lemma scan_step_pipe:
  "str_at c k = Some ''|'' \<Longrightarrow> sh_pipe S w = (Some p, w') \<Longrightarrow> scan_step S k c w =
   Some (Inr (Break, (arg_null k c)\<lparr>ind := ind c + 1, pOut := True, nxtCmdIndex := k + 1, fdPipe2 := p\<rparr>, w'))"
  by (simp add: scan_step_def Let_def arg_null_def scan_pipe_def)

lemma str_at_append:
  "args c = pre @ map Some ws @ rest \<Longrightarrow> j < length ws \<Longrightarrow> str_at c (length pre + j) = Some (ws ! j)"
  by (simp add: str_at_def arg_at_def nth_append)

text \<open>The walk passes over plain words.\<close>

lemma scan_args_plain:
  "args c = pre @ map Some ws @ rest \<Longrightarrow> \<forall>a\<in>set ws. plain a \<Longrightarrow> length pre + length ws \<le> i \<Longrightarrow>
   scan_args S i (length pre) c w =
   scan_args S i (length pre + length ws) (c\<lparr>ind := ind c + length ws\<rparr>) w"
proof (induction ws arbitrary: c pre)
  case (Cons a ws)
  have "str_at c (length pre) = Some a" using str_at_append [OF Cons.prems(1), of 0] by simp
  moreover have "plain a" using Cons.prems(2) by simp
  ultimately have "scan_step S (length pre) c w = Some (Inr (Go (length pre + 1), c\<lparr>ind := ind c + 1\<rparr>, w))"
    by (rule scan_step_plain)
  with Cons.prems(3) have "scan_args S i (length pre) c w = scan_args S i (length (pre @ [Some a])) (c\<lparr>ind := ind c + 1\<rparr>) w"
    by (subst scan_args.simps) simp
  also have "\<dots> = scan_args S i (length (pre @ [Some a]) + length ws) (c\<lparr>ind := ind c + 1, ind := ind c + 1 + length ws\<rparr>) w"
    using Cons.IH [of "c\<lparr>ind := ind c + 1\<rparr>" "pre @ [Some a]"] Cons.prems by simp
  finally show ?case by simp
qed simp

lemma scan_args_end: "i \<le> k \<Longrightarrow> scan_args S i k c w = Some (Inr (c, w))"
  by (simp add: scan_args.simps)

lemma scan_args_break:
  "k < i \<Longrightarrow> scan_step S k c w = Some (Inr (Break, c', w')) \<Longrightarrow> scan_args S i k c w = Some (Inr (c', w'))"
  by (simp add: scan_args.simps [of S i k])

lemma argv_of_words: "argv_of (map Some ws @ None # rest) = Some ws"
  by (induction ws) simp_all

lemma run_command_quiet:
  "argv_of (drop (curIndex d) (args d)) = Some ws \<Longrightarrow> child_acts d = [] \<Longrightarrow> \<not> pOut d \<Longrightarrow>
   run_command S d w =
     Some (if semicolCheck d then d\<lparr>curIndex := nxtCmdIndex d\<rparr> else d, sh_fork S [] ws w)"
  by (simp add: run_command_def Let_def)

subsection \<open>Sequences of commands\<close>

fun joined :: "string list list \<Rightarrow> string list" where
  "joined [] = []"
| "joined [c] = c"
| "joined (c # cs) = c @ '';'' # joined cs"

definition command_ok :: "string list \<Rightarrow> bool" where
  "command_ok ws \<longleftrightarrow> ws \<noteq> [] \<and> (\<forall>a\<in>set ws. plain a)"

lemma joined_not_Nil: "cs \<noteq> [] \<Longrightarrow> \<forall>c\<in>set cs. command_ok c \<Longrightarrow> joined cs \<noteq> []"
  by (cases cs rule: joined.cases) (auto simp: command_ok_def)

text \<open>The state at the start of a command behind \<open>pre\<close>.\<close>

definition at_command :: "cmdline \<Rightarrow> string option list \<Rightarrow> string list \<Rightarrow> string option list \<Rightarrow> bool" where
  "at_command c pre ws rest \<longleftrightarrow> args c = pre @ map Some ws @ None # rest \<and> ind c = length pre \<and>
     nxtCmdIndex c = length pre \<and> curIndex c = length pre \<and> \<not> pIn c \<and> \<not> pOut c"

lemma run_last:
  assumes "at_command c pre ws rest" and "command_ok ws"
  shows "\<exists>c'. run_commands S (length pre + length ws) c w = Some (Inr (c', sh_fork S [] ws w))"
proof -
  let ?c = "c\<lparr>redirErr := False, fdIn := -1, fdOut := -1\<rparr>"
  let ?d = "?c\<lparr>ind := ind ?c + length ws\<rparr>"
  have a: "args ?c = pre @ map Some ws @ None # rest" using assms(1) by (simp add: at_command_def)
  have s: "scan_args S (length pre + length ws) (length pre) ?c w = Some (Inr (?d, w))"
    using scan_args_plain [OF a _ order.refl, of S w] assms(2)
      scan_args_end [of "length pre + length ws" "length pre + length ws" S ?d w]
    by (simp add: command_ok_def)
  have "drop (curIndex ?d) (args ?d) = map Some ws @ None # rest" using assms(1) by (simp add: at_command_def)
  then have "argv_of (drop (curIndex ?d) (args ?d)) = Some ws" by (simp only: argv_of_words)
  moreover have "child_acts ?d = []" using assms(1) by (simp add: child_acts_def at_command_def)
  moreover have "\<not> pOut ?d" using assms(1) by (simp add: at_command_def)
  ultimately have "run_command S ?d w =
      Some (if semicolCheck ?d then ?d\<lparr>curIndex := nxtCmdIndex ?d\<rparr> else ?d, sh_fork S [] ws w)"
    by (rule run_command_quiet)
  then obtain c' where r: "run_command S ?d w = Some (c', sh_fork S [] ws w)"
    "args c' = args ?d" "ind c' = ind ?d"
    by (cases "semicolCheck ?d") auto
  have "arg_at c' (ind c') = Some None" using assms(1) r(2,3)
    by (simp add: arg_at_def at_command_def nth_append)
  then show ?thesis using s r(1) assms(1)
    by (subst run_commands.simps) (simp add: at_command_def)
qed

lemma run_next:
  assumes "at_command c pre (ws @ '';'' # us) rest" and "command_ok ws" and "us \<noteq> []"
  shows "\<exists>c'. run_commands S (length pre + length (ws @ '';'' # us)) c w =
      run_commands S (length pre + length (ws @ '';'' # us)) c' (sh_fork S [] ws w) \<and>
    at_command c' (pre @ map Some ws @ [None]) us rest"
proof -
  let ?i = "length pre + length (ws @ '';'' # us)" and ?j = "length pre + length ws"
  let ?c = "c\<lparr>redirErr := False, fdIn := -1, fdOut := -1\<rparr>"
  let ?d = "?c\<lparr>ind := ind ?c + length ws\<rparr>"
  let ?e = "(arg_null ?j ?d)\<lparr>ind := ind ?d + 1, semicolCheck := True, nxtCmdIndex := ?j + 1\<rparr>"
  have a: "args ?c = pre @ map Some ws @ map Some ('';'' # us) @ None # rest"
    using assms(1) by (simp add: at_command_def)
  have "str_at ?d ?j = Some '';''" using a by (simp add: str_at_def arg_at_def nth_append)
  then have b: "scan_step S ?j ?d w = Some (Inr (Break, ?e, w))" by (rule scan_step_semicolon)
  have s: "scan_args S ?i (length pre) ?c w = Some (Inr (?e, w))"
  proof -
    have "scan_args S ?i (length pre) ?c w = scan_args S ?i ?j ?d w"
      by (rule scan_args_plain [OF a]) (use assms(2) in \<open>simp_all add: command_ok_def\<close>)
    also have "\<dots> = Some (Inr (?e, w))" by (rule scan_args_break [OF _ b]) simp
    finally show ?thesis .
  qed
  have e: "args ?e = pre @ map Some ws @ None # map Some us @ None # rest"
    using a by (simp add: arg_null_def list_update_append)
  have "drop (curIndex ?e) (args ?e) = map Some ws @ None # map Some us @ None # rest"
    unfolding e using assms(1) by (simp add: arg_null_def at_command_def)
  then have "argv_of (drop (curIndex ?e) (args ?e)) = Some ws" by (simp only: argv_of_words)
  moreover have "child_acts ?e = []" using assms(1) by (simp add: child_acts_def at_command_def arg_null_def)
  moreover have "\<not> pOut ?e" "\<not> pIn ?e" "semicolCheck ?e" "nxtCmdIndex ?e = ?j + 1"
    using assms(1) by (simp_all add: at_command_def arg_null_def)
  ultimately have r: "run_command S ?e w = Some (?e\<lparr>curIndex := ?j + 1\<rparr>, sh_fork S [] ws w)"
    by (simp add: run_command_def Let_def)
  have i: "ind ?e = ?j + 1" using assms(1) by (simp add: at_command_def arg_null_def)
  let ?f = "?e\<lparr>curIndex := ?j + 1\<rparr>"
  have "arg_at ?f (ind ?f) = Some (Some (hd us))"
    using e i assms(3) by (cases us) (simp_all add: arg_at_def nth_append)
  then have "run_commands S ?i c w = run_commands S ?i ?f (sh_fork S [] ws w)"
    using s r assms(1) by (subst run_commands.simps) (simp add: at_command_def)
  moreover have "at_command ?f (pre @ map Some ws @ [None]) us rest"
    using e i assms(1) by (simp add: at_command_def arg_null_def)
  ultimately show ?thesis by blast
qed

lemma run_sequence:
  "at_command c pre (joined cs) rest \<Longrightarrow> cs \<noteq> [] \<Longrightarrow> \<forall>c\<in>set cs. command_ok c \<Longrightarrow>
   \<exists>c'. run_commands S (length pre + length (joined cs)) c w =
     Some (Inr (c', fold (sh_fork S []) cs w))"
proof (induction cs arbitrary: c pre w rule: joined.induct)
  case (2 d)
  from run_last [of c pre d rest S w] 2 show ?case by simp
next
  case (3 d v va)
  let ?cs = "v # va"
  have "joined ?cs \<noteq> []" using 3(4) by (intro joined_not_Nil) auto
  with run_next [of c pre d "joined ?cs" rest S w] 3(2,4) obtain c' where
    r: "run_commands S (length pre + length (joined (d # ?cs))) c w =
      run_commands S (length pre + length (joined (d # ?cs))) c' (sh_fork S [] d w)"
    and a: "at_command c' (pre @ map Some d @ [None]) (joined ?cs) rest" by auto
  from 3(1) [OF a, of "sh_fork S [] d w"] 3(4) show ?case unfolding r by (auto simp: add.assoc)
qed simp

text \<open>
  A line of commands of ordinary words, separated by semicolons, runs every command once, in
  order, each with exactly its words and without touching its descriptors.
\<close>

lemma shell_sequence:
  assumes "cs \<noteq> []" and "\<forall>c\<in>set cs. command_ok c"
  shows "\<exists>as'. run_line S p1 p2 (map Some (joined cs) @ None # rest) w =
    Some (Inr (as', fold (sh_fork S []) cs w))"
proof -
  let ?as = "map Some (joined cs) @ None # rest"
  have "at_command (start_line ?as p1 p2) [] (joined cs) rest" by (simp add: at_command_def start_line_def)
  from run_sequence [OF this assms, of S w] obtain c' where
    "run_commands S (length (joined cs)) (start_line ?as p1 p2) w = Some (Inr (c', fold (sh_fork S []) cs w))"
    by auto
  then show ?thesis by (auto simp: run_line_def argv_of_words)
qed

subsection \<open>Pipes\<close>

lemma run_command_pipe:
  "argv_of (drop (curIndex d) (args d)) = Some ws \<Longrightarrow> pOut d \<Longrightarrow> \<not> semicolCheck d \<Longrightarrow>
   run_command S d w = Some (d\<lparr>fdPipe1 := fdPipe2 d, pIn := True, curIndex := nxtCmdIndex d\<rparr>,
     sh_close S (snd (fdPipe2 d)) (sh_fork S (child_acts d) ws w))"
  by (simp add: run_command_def Let_def)

lemma run_pipe:
  assumes "command_ok c1" and "command_ok c2" and p: "sh_pipe S w = (Some (r, wr), w1)"
  shows "\<exists>as'. run_line S p1 p2 (map Some (c1 @ ''|'' # c2) @ None # rest) w = Some (Inr (as',
    sh_close S wr (sh_fork S [Close 0, Dup r, Close r, Close wr, Close 1, Dup wr, Close r, Close wr] c2
      (sh_close S wr (sh_fork S [Close 1, Dup wr, Close r, Close wr] c1 w1)))))"
proof -
  let ?as = "map Some (c1 @ ''|'' # c2) @ None # rest" and ?n = "length c1"
  let ?i = "length (c1 @ ''|'' # c2)"
  let ?c = "start_line ?as p1 p2"
  let ?c' = "?c\<lparr>redirErr := False, fdIn := -1, fdOut := -1\<rparr>"
  let ?d = "?c'\<lparr>ind := ind ?c' + length c1\<rparr>"
  let ?e = "(arg_null ?n ?d)\<lparr>ind := ind ?d + 1, pOut := True, nxtCmdIndex := ?n + 1, fdPipe2 := (r, wr)\<rparr>"
  have a: "args ?c' = [] @ map Some c1 @ map Some (''|'' # c2) @ None # rest" by (simp add: start_line_def)
  have "str_at ?d ?n = Some ''|''" by (simp add: str_at_def arg_at_def nth_append start_line_def)
  then have b: "scan_step S ?n ?d w = Some (Inr (Break, ?e, w1))" using p by (rule scan_step_pipe)
  have "scan_args S ?i (length ([] :: string option list)) ?c' w =
      scan_args S ?i (length ([] :: string option list) + ?n) ?d w"
    by (rule scan_args_plain [OF a]) (use assms(1) in \<open>simp_all add: command_ok_def\<close>)
  also have "\<dots> = Some (Inr (?e, w1))" using b by (intro scan_args_break) simp_all
  finally have s1: "scan_args S ?i 0 ?c' w = Some (Inr (?e, w1))" by simp
  have e: "args ?e = map Some c1 @ None # map Some c2 @ None # rest"
    by (simp add: arg_null_def start_line_def list_update_append)
  have "argv_of (drop (curIndex ?e) (args ?e)) = Some c1"
    unfolding e by (simp add: arg_null_def start_line_def argv_of_words)
  moreover have "pOut ?e" "\<not> semicolCheck ?e" by (simp_all add: arg_null_def start_line_def)
  ultimately have "run_command S ?e w1 = Some (?e\<lparr>fdPipe1 := fdPipe2 ?e, pIn := True, curIndex := nxtCmdIndex ?e\<rparr>,
      sh_close S (snd (fdPipe2 ?e)) (sh_fork S (child_acts ?e) c1 w1))" by (rule run_command_pipe)
  moreover have "child_acts ?e = [Close 1, Dup wr, Close r, Close wr]"
    by (simp add: child_acts_def arg_null_def start_line_def)
  ultimately have r1: "run_command S ?e w1 = Some (?e\<lparr>fdPipe1 := (r, wr), pIn := True, curIndex := ?n + 1\<rparr>,
      sh_close S wr (sh_fork S [Close 1, Dup wr, Close r, Close wr] c1 w1))" by simp
  let ?f = "?e\<lparr>fdPipe1 := (r, wr), pIn := True, curIndex := ?n + 1\<rparr>"
  let ?w = "sh_close S wr (sh_fork S [Close 1, Dup wr, Close r, Close wr] c1 w1)"
  have fi: "ind ?f = ?n + 1" by (simp add: arg_null_def start_line_def)
  have "arg_at ?f (ind ?f) = Some (Some (hd c2))"
    using e fi assms(2) by (cases c2) (simp_all add: arg_at_def nth_append command_ok_def)
  then have 1: "run_commands S ?i ?c w = run_commands S ?i ?f ?w"
    using s1 r1 by (subst run_commands.simps) (simp add: start_line_def)
  let ?f' = "?f\<lparr>redirErr := False, fdIn := -1, fdOut := -1\<rparr>"
  let ?g = "?f'\<lparr>ind := ind ?f' + length c2\<rparr>"
  have a2: "args ?f' = (map Some c1 @ [None]) @ map Some c2 @ None # rest" using e by simp
  have "scan_args S ?i (length (map Some c1 @ [None])) ?f' ?w = scan_args S ?i (length (map Some c1 @ [None]) + length c2) ?g ?w"
    by (rule scan_args_plain [OF a2]) (use assms(2) in \<open>simp_all add: command_ok_def\<close>)
  also have "\<dots> = Some (Inr (?g, ?w))" by (rule scan_args_end) simp
  finally have s2: "scan_args S ?i (?n + 1) ?f' ?w = Some (Inr (?g, ?w))" by simp
  have "argv_of (drop (curIndex ?g) (args ?g)) = Some c2" using a2 by (simp add: argv_of_words)
  moreover have "pOut ?g" "\<not> semicolCheck ?g" by (simp_all add: arg_null_def start_line_def)
  ultimately have r2: "run_command S ?g ?w = Some (?g\<lparr>fdPipe1 := fdPipe2 ?g, pIn := True, curIndex := nxtCmdIndex ?g\<rparr>,
      sh_close S (snd (fdPipe2 ?g)) (sh_fork S (child_acts ?g) c2 ?w))" by (rule run_command_pipe)
  have ca: "child_acts ?g = [Close 0, Dup r, Close r, Close wr, Close 1, Dup wr, Close r, Close wr]"
    "snd (fdPipe2 ?g) = wr"
    by (simp_all add: child_acts_def)
  let ?h = "?g\<lparr>fdPipe1 := fdPipe2 ?g, pIn := True, curIndex := nxtCmdIndex ?g\<rparr>"
  have "arg_at ?h (ind ?h) = Some None" using e fi by (simp add: arg_at_def nth_append)
  then have "run_commands S ?i ?f ?w = Some (Inr (?h, sh_close S wr (sh_fork S (child_acts ?g) c2 ?w)))"
    using s2 r2 ca(2) by (subst run_commands.simps) simp
  with 1 ca(1) have "run_commands S ?i ?c w = Some (Inr (?h,
      sh_close S wr (sh_fork S [Close 0, Dup r, Close r, Close wr, Close 1, Dup wr, Close r, Close wr] c2 ?w)))"
    by simp
  then show ?thesis by (simp add: run_line_def argv_of_words del: map_append)
qed

lemma child_table_writer:
  assumes "t 0 \<noteq> None" and "1 < r" and "1 < wr" and "t wr = Some f"
  shows "child_table [Close 1, Dup wr, Close r, Close wr] t 1 = Some f"
proof -
  have "1 < open_max" by (simp add: open_max_def)
  then have "[0..<open_max] = 0 # 1 # [2..<open_max]" by (simp add: upt_conv_Cons numeral_2_eq_2)
  then have "lowest_free (t(1 := None)) = Some 1" using assms(1) by (simp add: lowest_free_def)
  then show ?thesis using assms(2-4) by (simp add: child_table_def do_act_def)
qed

lemma child_table_reader:
  assumes "1 < r" and "1 < wr"
  shows "child_table [Close 0, Dup r, Close r, Close wr, Close 1, Dup wr, Close r, Close wr] t 1 = None"
  using assms by (simp add: child_table_def do_act_def split: option.splits)

text \<open>
  C40. In a line of two commands joined by a pipe the first command runs with its standard output
  on the write end of the pipe, but the second runs with its standard output closed, whatever
  descriptors are open: the shell has closed the write end and still makes the child duplicate
  it onto its standard output.
\<close>

theorem shell_pipe_closes_output:
  assumes "command_ok c1" and "command_ok c2" and "sh_pipe S w = (Some (r, wr), w1)"
    and "1 < r" and "1 < wr"
  shows "\<exists>as' acts1 acts2 w2. run_line S p1 p2 (map Some (c1 @ ''|'' # c2) @ None # rest) w =
      Some (Inr (as', sh_close S wr (sh_fork S acts2 c2 w2))) \<and>
    w2 = sh_close S wr (sh_fork S acts1 c1 w1) \<and>
    (\<forall>t f. t 0 \<noteq> None \<longrightarrow> t wr = Some f \<longrightarrow> child_table acts1 t 1 = Some f) \<and>
    (\<forall>t. child_table acts2 t 1 = None)"
  using run_pipe [OF assms(1-3), of p1 p2 rest] child_table_writer [OF _ assms(4,5)]
    child_table_reader [OF assms(4,5)] by blast

subsection \<open>Words of a line\<close>

text \<open>An empty line, and the end of the input, still forks a child, which has nothing to execute.\<close>

lemma empty_line_forks:
  "run_line S p1 p2 (None # rest) w = Some (Inr (None # rest, sh_fork S [] [] w))"
  by (simp add: run_line_def run_commands.simps scan_args.simps start_line_def run_command_def
      child_acts_def arg_at_def Let_def)

definition log_shell :: "(fd_act list \<times> string list) list shell_sys" where
  "log_shell = \<lparr>sh_open = (\<lambda>_ _ w. (3, w)), sh_pipe = (\<lambda>w. (Some (3, 4), w)), sh_close = (\<lambda>_ w. w),
     sh_getenv = (\<lambda>_ _. None), sh_chdir = (\<lambda>_ w. w), sh_print = (\<lambda>_ w. w),
     sh_fork = (\<lambda>acts argv w. w @ [(acts, argv)])\<rparr>"

lemma command_ok_examples: "command_ok [''ls'', ''-l'']" "command_ok [''wc'']" "command_ok [''date'']"
  by (simp_all add: command_ok_def plain_def)

lemma shell_pipe_closes_output_witness:
  "\<exists>as' a1 a2. run_line log_shell (0, 0) (0, 0) (map Some ([''ls'', ''-l''] @ ''|'' # [''wc'']) @ [None]) [] =
     Some (Inr (as', [(a1, [''ls'', ''-l'']), (a2, [''wc''])])) \<and>
     child_table a2 [0 \<mapsto> ''tty'', 1 \<mapsto> ''tty'', 3 \<mapsto> ''pipe''] 1 = None"
proof -
  have p: "sh_pipe log_shell [] = (Some (3, 4), [])" by (simp add: log_shell_def)
  from shell_pipe_closes_output [OF command_ok_examples(1,2) p, of "(0, 0)" "(0, 0)" "[]"] show ?thesis
    by (auto simp: log_shell_def)
qed

end
