(* ===== verification/Shell_Input.thy ===== *)
theory Shell_Input
  imports Shell_Props
begin

section \<open>From a typed line to the commands it runs\<close>

text \<open>
  The words of a line are read back from the line as typed, the pointers lead to them, and the
  whole shell runs the commands of a typed sequence.
\<close>

definition token :: "string \<Rightarrow> bool" where
  "token t \<longleftrightarrow> t \<noteq> [] \<and> ((\<forall>c\<in>set t. word_char c) \<or> (\<forall>c\<in>set t. special_char c))"

definition typed :: "string list \<Rightarrow> string" where
  "typed ts = concat (map (\<lambda>t. t @ '' '') ts) @ [CHR 0x0A]"

lemma char_classes:
  "word_char c \<Longrightarrow> \<not> special_char c \<and> c \<noteq> CHR 0x0A \<and> c \<noteq> CHR 0x20 \<and> c \<noteq> NUL"
  "special_char c \<Longrightarrow> \<not> word_char c \<and> c \<noteq> CHR 0x0A \<and> c \<noteq> CHR 0x20 \<and> c \<noteq> NUL"
proof -
  have s: "special_char c \<Longrightarrow> \<not> word_char c \<and> c \<noteq> CHR 0x0A \<and> c \<noteq> CHR 0x20 \<and> c \<noteq> NUL"
  proof -
    have "\<forall>c\<in>set ''()><|&;*''. \<not> word_char c \<and> c \<noteq> CHR 0x0A \<and> c \<noteq> CHR 0x20 \<and> c \<noteq> NUL"
      by (simp add: word_char_def)
    then show "special_char c \<Longrightarrow> \<not> word_char c \<and> c \<noteq> CHR 0x0A \<and> c \<noteq> CHR 0x20 \<and> c \<noteq> NUL"
      unfolding special_char_def by (rule bspec)
  qed
  then show "special_char c \<Longrightarrow> \<not> word_char c \<and> c \<noteq> CHR 0x0A \<and> c \<noteq> CHR 0x20 \<and> c \<noteq> NUL" .
  have "\<not> word_char (CHR 0x0A)" "\<not> word_char (CHR 0x20)" "\<not> word_char NUL"
    by (simp_all add: word_char_def)
  with s show "word_char c \<Longrightarrow> \<not> special_char c \<and> c \<noteq> CHR 0x0A \<and> c \<noteq> CHR 0x20 \<and> c \<noteq> NUL"
    by metis
qed

lemma plain_space: "\<not> word_char (CHR 0x20)" "\<not> special_char (CHR 0x20)" "\<not> quote_char (CHR 0x20)"
  by (simp_all add: word_char_def special_char_def quote_char_def)

lemma lex_line_space: "lex_line (CHR 0x20 # s) = lex_line s"
  using plain_space by simp

lemma lex_line_run:
  assumes "\<forall>x\<in>set t. P x" and "\<not> P d"
  shows "takeWhile P (t @ d # s) = t \<and> dropWhile P (t @ d # s) = d # s"
  using assms by (auto simp: takeWhile_append dropWhile_append)

lemma lex_line_token:
  assumes "token t"
  shows "lex_line (t @ CHR 0x20 # s) = (case lex_line s of (ws, r) \<Rightarrow> (t # ws, r))"
proof -
  obtain c u where t: "t = c # u" using assms by (cases t) (auto simp: token_def)
  from assms consider "\<forall>x\<in>set t. word_char x" | "\<forall>x\<in>set t. special_char x" by (auto simp: token_def)
  then show ?thesis
  proof cases
    case 1
    then have c: "word_char c" and u: "\<forall>x\<in>set u. word_char x" by (simp_all add: t)
    have "lex_line (c # (u @ CHR 0x20 # s)) =
        (case lex_line (CHR 0x20 # s) of (ws, r) \<Rightarrow> ((c # u) # ws, r))"
      using c char_classes(1) [OF c] lex_line_run [OF u plain_space(1), of s]
      by (simp only: lex_line.simps if_True if_False simp_thms)
    then show ?thesis by (simp only: t append_Cons lex_line_space)
  next
    case 2
    then have c: "special_char c" and u: "\<forall>x\<in>set u. special_char x" by (simp_all add: t)
    have "lex_line (c # (u @ CHR 0x20 # s)) =
        (case lex_line (CHR 0x20 # s) of (ws, r) \<Rightarrow> ((c # u) # ws, r))"
      using c char_classes(2) [OF c] lex_line_run [OF u plain_space(2), of s]
      by (simp only: lex_line.simps if_True if_False simp_thms)
    then show ?thesis by (simp only: t append_Cons lex_line_space)
  qed
qed

lemma lex_line_typed: "\<forall>t\<in>set ts. token t \<Longrightarrow> lex_line (typed ts @ r) = (ts, r)"
proof (induction ts)
  case (Cons t ts)
  have "typed (t # ts) @ r = t @ CHR 0x20 # (typed ts @ r)" by (simp add: typed_def)
  then show ?case using Cons lex_line_token [of t "typed ts @ r"] by simp
qed (simp add: typed_def)

subsection \<open>The pointers\<close>

text \<open>
  The first \<open>k\<close> pointers lead to the words \<open>ts\<close>, all of them below \<open>bufpos\<close>, and the next one
  is \<^verbatim>\<open>NULL\<close>.
\<close>

definition str_in :: "string \<Rightarrow> nat \<Rightarrow> string \<Rightarrow> bool" where
  "str_in lb p t \<longleftrightarrow> take (Suc (length t)) (drop p lb) = t @ [NUL]"

definition words_ok :: "words \<Rightarrow> string list \<Rightarrow> bool" where
  "words_ok ws ts \<longleftrightarrow> length (args_ptr ws) = 256 \<and> length (linebuf ws) = 4096 \<and> argcount ws = length ts \<and>
    length ts \<le> 255 \<and> args_ptr ws ! length ts = None \<and> (\<forall>j<length ts. \<exists>p. args_ptr ws ! j = Some p \<and>
      p + length (ts ! j) < bufpos ws \<and> str_in (linebuf ws) p (ts ! j))"

lemma str_in_keep:
  assumes "str_in lb p t" and "p + length t < b" and "take b lb' = take b lb"
  shows "str_in lb' p t"
proof -
  have e: "take (Suc (length t)) (drop p x) = drop p (take (p + Suc (length t)) (take b x))" for x
    using assms(2) by (simp add: drop_take min_def)
  show ?thesis using assms(1,3) unfolding str_in_def e by simp
qed

lemma str_in_at:
  assumes "p \<le> length lb"
  shows "str_in (take p lb @ t @ NUL # r) p t"
  using assms by (simp add: str_in_def min_def)

lemma add_word_ok:
  assumes "words_ok ws ts" and "length ts < 255" and "NUL \<notin> set t"
    and "bufpos ws + length t < 4096"
  shows "\<exists>ws'. add_word t ws = Some ws' \<and> words_ok ws' (ts @ [t]) \<and>
    bufpos ws' = Suc (bufpos ws + length t)"
proof -
  let ?p = "bufpos ws" and ?k = "length ts"
  let ?lb = "take ?p (linebuf ws) @ t @ NUL # drop (Suc (?p + length t)) (linebuf ws)"
  let ?ws = "ws\<lparr>args_ptr := (args_ptr ws)[?k := Some ?p, Suc ?k := None], argcount := Suc ?k, linebuf := ?lb,
      bufpos := Suc (?p + length t)\<rparr>"
  have tw: "takeWhile (\<lambda>c. c \<noteq> NUL) t = t" using assms(3) by (auto simp: takeWhile_eq_all_conv)
  have k: "length (args_ptr ws) = 256" "length (linebuf ws) = 4096" "argcount ws = ?k"
    using assms(1) by (simp_all add: words_ok_def)
  have add: "add_word t ws = Some ?ws"
    using assms(2,4) k by (simp add: add_word_def tw Let_def)
  have tk: "take ?p ?lb = take ?p (linebuf ws)" using assms(4) k(2) by (simp add: min_def)
  have "\<exists>p. args_ptr ?ws ! j = Some p \<and> p + length ((ts @ [t]) ! j) < bufpos ?ws \<and>
      str_in ?lb p ((ts @ [t]) ! j)" if "j < Suc ?k" for j
  proof (cases "j = ?k")
    case True
    then show ?thesis using assms(2,4) k by (simp add: str_in_at)
  next
    case False
    with that have j: "j < ?k" by simp
    with assms(1) obtain p where p: "args_ptr ws ! j = Some p" "p + length (ts ! j) < ?p"
      "str_in (linebuf ws) p (ts ! j)" unfolding words_ok_def by blast
    from str_in_keep [OF p(3,2) tk] p j show ?thesis by (simp add: nth_append)
  qed
  then have "words_ok ?ws (ts @ [t])" using assms(2,4) k by (simp add: words_ok_def)
  with add show ?thesis by simp
qed

definition room :: "string list \<Rightarrow> nat" where
  "room ts = sum_list (map (\<lambda>t. Suc (length t)) ts)"

lemma add_words_ok:
  "words_ok ws ts \<Longrightarrow> length ts + length us \<le> 255 \<Longrightarrow> \<forall>t\<in>set us. NUL \<notin> set t \<Longrightarrow> bufpos ws + room us \<le> 4096 \<Longrightarrow>
   \<exists>ws'. add_words us ws = Some ws' \<and> words_ok ws' (ts @ us)"
proof (induction us arbitrary: ws ts)
  case (Cons u us)
  from add_word_ok [OF Cons.prems(1), of u] Cons.prems obtain ws1 where
    a: "add_word u ws = Some ws1" "words_ok ws1 (ts @ [u])" "bufpos ws1 = Suc (bufpos ws + length u)"
    by (auto simp: room_def)
  from Cons.IH [OF a(2)] Cons.prems a(3) obtain ws2 where
    "add_words us ws1 = Some ws2" "words_ok ws2 ((ts @ [u]) @ us)" by (auto simp: room_def)
  with a(1) show ?case by simp
qed auto

lemma args_of_ok:
  assumes "words_ok ws ts" and "\<forall>t\<in>set ts. NUL \<notin> set t"
  shows "\<exists>rest. args_of ws = map Some ts @ None # rest"
proof -
  have l: "length (args_of ws) = 256" using assms(1) by (simp add: args_of_def words_ok_def)
  have n: "length ts < 256" using assms(1) by (simp add: words_ok_def)
  have "args_of ws ! j = Some (ts ! j)" if jl: "j < length ts" for j
  proof -
    obtain p where p: "args_ptr ws ! j = Some p" "str_in (linebuf ws) p (ts ! j)"
      using assms(1) jl unfolding words_ok_def by blast
    have "drop p (linebuf ws) = (ts ! j @ [NUL]) @ drop (Suc (length (ts ! j))) (drop p (linebuf ws))"
      using p(2) unfolding str_in_def by (metis append_take_drop_id)
    moreover have "NUL \<notin> set (ts ! j)" using assms(2) jl by simp
    ultimately have "takeWhile (\<lambda>c. c \<noteq> NUL) (drop p (linebuf ws)) = ts ! j"
      by (metis cstr_def cstr_append_NUL append.assoc append_Cons append_Nil option.inject option.distinct(1))
    with p(1) jl n assms(1) show ?thesis by (simp add: args_of_def words_ok_def)
  qed
  then have "take (length ts) (args_of ws) = map Some ts"
    using l n by (intro nth_equalityI) simp_all
  moreover have "args_of ws ! length ts = None" using assms(1) n by (simp add: args_of_def words_ok_def)
  ultimately show ?thesis using l n by (metis append_take_drop_id Cons_nth_drop_Suc)
qed

definition words_init_ok :: "words \<Rightarrow> bool" where
  "words_init_ok ws \<longleftrightarrow> length (args_ptr ws) = 256 \<and> length (linebuf ws) = 4096"

lemma get_args_typed:
  assumes "words_init_ok ws" and "\<forall>t\<in>set ts. token t" and "length ts \<le> 255" and "room ts \<le> 4096"
  shows "\<exists>ws' rest. get_args (typed ts @ r) ws = Some (ws', r) \<and> args_of ws' = map Some ts @ None # rest"
proof -
  have nn: "\<forall>t\<in>set ts. NUL \<notin> set t"
    using assms(2) char_classes unfolding token_def by metis
  let ?ws = "ws\<lparr>argcount := 0, bufpos := 0, args_ptr := (args_ptr ws)[0 := None]\<rparr>"
  have "words_ok ?ws []" using assms(1) by (simp add: words_ok_def words_init_ok_def)
  from add_words_ok [OF this, of ts] assms(3,4) nn obtain ws' where
    a: "add_words ts ?ws = Some ws'" "words_ok ws' ts" by auto
  from args_of_ok [OF a(2) nn] obtain rest where "args_of ws' = map Some ts @ None # rest" by blast
  with a(1) lex_line_typed [OF assms(2), of r] show ?thesis by (simp add: get_args_def)
qed

text \<open>
  C39. Typing commands of ordinary words, separated by semicolons, with blanks between the words
  (at most 255 words and 4096 bytes, not beginning with \<^verbatim>\<open>exit\<close>) makes the shell print its prompt
  and run every command once, in order, with exactly its words; the rest of the input is left.
\<close>

theorem shell_runs_typed_line:
  assumes "cs \<noteq> []" and "\<forall>c\<in>set cs. command_ok c" and "\<forall>t\<in>set (joined cs). token t"
    and "hd (joined cs) \<noteq> ''exit''" and "length (joined cs) \<le> 255" and "room (joined cs) \<le> 4096"
    and "words_init_ok ws"
  shows "\<exists>ws'. shell_main S p1 p2 1 ws (typed (joined cs) @ r) w =
    Some (Inr (ws', r, fold (sh_fork S []) cs (sh_print S ''>: '' w)))"
proof -
  obtain ws1 rest where g: "get_args (typed (joined cs) @ r) ws = Some (ws1, r)"
    "args_of ws1 = map Some (joined cs) @ None # rest"
    using get_args_typed [OF assms(7,3,5,6)] by blast
  obtain as' where l: "run_line S p1 p2 (args_of ws1) (sh_print S ''>: '' w) =
      Some (Inr (as', fold (sh_fork S []) cs (sh_print S ''>: '' w)))"
    using shell_sequence [OF assms(1,2), where S = S and ?p1.0 = p1 and ?p2.0 = p2 and rest = rest
        and w = "sh_print S ''>: '' w"] unfolding g(2) by blast
  have "joined cs \<noteq> []" using assms(1,2) by (rule joined_not_Nil)
  then have "args_of ws1 ! 0 \<noteq> Some ''exit''" using assms(4) unfolding g(2) by (cases "joined cs") auto
  then show ?thesis using g(1) l by simp
qed

lemma shell_runs_typed_line_witness:
  "\<exists>ws'. shell_main log_shell (0, 0) (0, 0) 1 words0 (typed (joined [[''ls'', ''-l''], [''date'']]) @ ''exit'') [] =
     Some (Inr (ws', ''exit'', [([], [''ls'', ''-l'']), ([], [''date''])]))"
proof -
  have "\<forall>t\<in>set (joined [[''ls'', ''-l''], [''date'']]). token t" "room (joined [[''ls'', ''-l''], [''date'']]) \<le> 4096"
    by (simp_all add: token_def word_char_def special_char_def room_def)
  moreover have "words_init_ok words0" 
    by (simp only: words_init_ok_def words0_def words.simps length_replicate simp_thms)
  ultimately show ?thesis
    using shell_runs_typed_line [of "[[''ls'', ''-l''], [''date'']]" words0 log_shell "(0, 0)" "(0, 0)" "''exit''" "[]"]
      command_ok_examples by (simp add: log_shell_def)
qed

end
