(* ===== verification/Topology_Spec.thy ===== *)
theory Topology_Spec
  imports Tdq Posix
begin

section \<open>The dump of the cpu topology\<close>

text \<open>
  \<^verbatim>\<open>sysctl_kern_sched_topology_spec\<close> of \<^verbatim>\<open>sched_ule.c\<close> prints the topology tree as nested
  elements. The string buffer is the text printed so far; \<open>cg_count\<close>, the bound \<^verbatim>\<open>MAXCPU\<close> and
  the printed form of a processor set are the kernel's, and so arguments.
\<close>

record topo_env =
  te_count :: "cpu_group \<Rightarrow> int"
  te_MAXCPU :: nat
  te_strprint :: "cpuid list \<Rightarrow> string"

text \<open>The list of processors of the mask, separated by commas: the flag is \<^verbatim>\<open>first\<close>.\<close>

fun print_cpus :: "cpuid list \<Rightarrow> bool \<Rightarrow> nat list \<Rightarrow> string" where
  "print_cpus cpus first [] = []"
| "print_cpus cpus first (i # is) =
    (if i \<in> set cpus then (if first then [] else '', '') @ show_int (int i) @ print_cpus cpus False is
     else print_cpus cpus first is)"

definition nl :: string where
  "nl = [CHR 0x0A]"

definition quoted :: "string \<Rightarrow> string" where
  "quoted s = CHR 0x22 # s @ [CHR 0x22]"

definition print_flags :: "nat \<Rightarrow> cg_flag list \<Rightarrow> string" where
  "print_flags indent flags =
    (if flags = [] then []
     else replicate indent (CHR '' '') @ '' <flags>'' @
       (if CG_FLAG_HTT \<in> set flags then ''<flag name='' @ quoted ''HTT'' @ ''>HTT group</flag>'' else []) @
       (if CG_FLAG_HTT \<in> set flags \<or> CG_FLAG_SMT \<in> set flags
        then ''<flag name='' @ quoted ''THREAD'' @ ''>THREAD group</flag>'' else []) @
       (if CG_FLAG_SMT \<in> set flags then ''<flag name='' @ quoted ''SMT'' @ ''>SMT group</flag>'' else []) @
       ''</flags>'' @ nl)"

fun topology_spec_internal :: "topo_env \<Rightarrow> nat \<Rightarrow> cpu_group \<Rightarrow> string" where
  "topology_spec_internal E indent (CPU_GROUP cpus level flags children) =
    (let pad = replicate indent (CHR '' '') in
     pad @ ''<group level='' @ quoted (show_int (int (1 + indent div 2))) @ '' cache-level='' @
       quoted (show_int (int level)) @ ''>'' @ nl @
     pad @ '' <cpu count='' @ quoted (show_int (te_count E (CPU_GROUP cpus level flags children))) @
       '' mask='' @ quoted (te_strprint E cpus) @ ''>'' @
       print_cpus cpus True [0..<te_MAXCPU E] @ ''</cpu>'' @ nl @
     print_flags indent flags @
     (if children \<noteq> []
      then pad @ '' <children>'' @ nl @ concat (map (topology_spec_internal E (indent + 2)) children) @
        pad @ '' </children>'' @ nl
      else []) @
     pad @ ''</group>'' @ nl)"

text \<open>
  The handler: the error code, and the text that is handed to the request. \<open>sbuf\<close> says whether
  the buffer could be made, \<open>finish\<close> is the result of \<^verbatim>\<open>sbuf_finish\<close>; \<^verbatim>\<open>ENOMEM\<close> is 12.
\<close>

definition topology_spec :: "topo_env \<Rightarrow> bool \<Rightarrow> (string \<Rightarrow> int) \<Rightarrow> cpu_group \<Rightarrow> int \<times> string" where
  "topology_spec E sbuf finish cpu_top =
    (if \<not> sbuf then (12, [])
     else let topo = ''<groups>'' @ nl @ topology_spec_internal E 1 cpu_top @ ''</groups>'' @ nl
       in (finish topo, topo))"

subsection \<open>The text is well nested\<close>

text \<open>
  The depth of angle brackets: every tag is closed before the next begins, given that the printed
  masks hold no bracket.
\<close>

fun in_tag :: "bool \<Rightarrow> string \<Rightarrow> bool option" where
  "in_tag b [] = Some b"
| "in_tag b (c # s) =
    (if c = CHR ''<'' then (if b then None else in_tag True s)
     else if c = CHR ''>'' then (if b then in_tag False s else None)
     else in_tag b s)"

lemma in_tag_append:
  "in_tag b (s @ t) = (case in_tag b s of None \<Rightarrow> None | Some c \<Rightarrow> in_tag c t)"
  by (induction b s rule: in_tag.induct) auto

lemma in_tag_plain: "CHR ''<'' \<notin> set s \<Longrightarrow> CHR ''>'' \<notin> set s \<Longrightarrow> in_tag b s = Some b"
  by (induction s) auto

lemma show_int_plain: "CHR ''<'' \<notin> set (show_int n)" "CHR ''>'' \<notin> set (show_int n)"
proof -
  have "\<not> isdigit (CHR ''<'')" "\<not> isdigit (CHR ''>'')" by (simp_all add: isdigit_def)
  with dec_digits show "CHR ''<'' \<notin> set (show_int n)" "CHR ''>'' \<notin> set (show_int n)"
    by (auto simp: show_int_def)
qed

lemma print_cpus_plain: "CHR ''<'' \<notin> set (print_cpus cpus f is)" "CHR ''>'' \<notin> set (print_cpus cpus f is)"
  using show_int_plain by (induction cpus f "is" rule: print_cpus.induct) auto

lemma in_tag_pad: "in_tag b (replicate n (CHR '' '')) = Some b"
  by (rule in_tag_plain) auto

lemma in_tag_quoted:
  "CHR ''<'' \<notin> set s \<Longrightarrow> CHR ''>'' \<notin> set s \<Longrightarrow> in_tag b (quoted s) = Some b"
  by (rule in_tag_plain) (auto simp: quoted_def)

lemma in_tag_nl: "in_tag b nl = Some b"
  by (simp add: nl_def)

lemmas in_tag_parts = in_tag_append in_tag_pad in_tag_nl in_tag_quoted [OF show_int_plain]
  in_tag_plain [OF print_cpus_plain]

lemma in_tag_print_flags: "in_tag False (print_flags n fl) = Some False"
  by (simp add: print_flags_def in_tag_parts in_tag_quoted)

lemma in_tag_concat:
  "(\<And>x. x \<in> set xs \<Longrightarrow> in_tag False (f x) = Some False) \<Longrightarrow> in_tag False (concat (map f xs)) = Some False"
  by (induction xs) (simp_all add: in_tag_append)

lemma in_tag_literals:
  "in_tag False (''<group level='' @ t) = in_tag True t" "in_tag True ('' cache-level='' @ t) = in_tag True t"
  "in_tag True (''>'' @ t) = in_tag False t" "in_tag False ('' <cpu count='' @ t) = in_tag True t"
  "in_tag True ('' mask='' @ t) = in_tag True t" "in_tag False (''</cpu>'' @ t) = in_tag False t"
  "in_tag False ('' <children>'' @ t) = in_tag False t" "in_tag False ('' </children>'' @ t) = in_tag False t"
  "in_tag False (''</group>'' @ t) = in_tag False t"
  by simp_all

lemma in_tag_known: "in_tag b s = Some c \<Longrightarrow> in_tag b (s @ t) = in_tag c t"
  by (simp add: in_tag_append)

lemma topology_spec_tags:
  "(\<And>m. CHR ''<'' \<notin> set (te_strprint E m) \<and> CHR ''>'' \<notin> set (te_strprint E m)) \<Longrightarrow>
   in_tag False (topology_spec_internal E n g) = Some False"
proof (induction E n g rule: topology_spec_internal.induct)
  case (1 E indent cpus level flags children)
  have strp: "in_tag b (quoted (te_strprint E m)) = Some b" for b m
    using 1(2) by (simp add: in_tag_quoted)
  have "in_tag False (concat (map (topology_spec_internal E (indent + 2)) children)) = Some False"
  proof (rule in_tag_concat)
    fix x assume x: "x \<in> set children"
    then have "children \<noteq> []" by auto
    then show "in_tag False (topology_spec_internal E (indent + 2) x) = Some False"
      by (rule 1(1) [OF refl _ x 1(2)])
  qed
  note known = in_tag_known [OF this] in_tag_known [OF strp] in_tag_known [OF in_tag_print_flags]
    in_tag_known [OF in_tag_pad] in_tag_known [OF in_tag_nl]
    in_tag_known [OF in_tag_quoted [OF show_int_plain]] in_tag_known [OF in_tag_plain [OF print_cpus_plain]]
  show ?case
    by (cases "children = []")
      (simp_all only: topology_spec_internal.simps Let_def append_assoc known in_tag_literals in_tag_nl
        simp_thms if_True if_False append_Nil)
qed

end
