(* ===== verification/Page_Policy.thy ===== *)
theory Page_Policy
  imports Pageout_Scan
begin

section \<open>The page replacement policies of the paging assignment\<close>

text \<open>
  \<^verbatim>\<open>misc-code/vm_pageout_test.c\<close> is the page daemon of an older kernel in which
  \<open>vm_pageout_scan\<close> has two policies: the clock algorithm of FreeBSD (\<^verbatim>\<open>vm_pagemode\<close> 0) and a
  first-in first-out policy, with counters that are logged as a benchmark.
  \<^verbatim>\<open>misc-code/test4.c\<close> is the changed part alone. This daemon walks its queues page by page with
  the lock of the queue held, and puts a marker page behind the page wherever it drops the lock.

  The state is the one of \<open>Pageout\<close> with the variables that are global in the older kernel
  beside it. The environment \<open>penv\<close> holds the calls whose behaviour differs from \<open>venv\<close>;
  as there, an operation that takes a lock returns the state in which the lock is held.
  \<open>None\<close> means that the code divides by zero, panics or leaves an array.
\<close>

subsection \<open>State and environment\<close>

record policy =
  pm_pageout_deficit :: int
  pm_laundry_request :: laundry_request
  pm_pagemode :: int
  pm_benchmark_on :: int
  pm_queued_for_flush :: int
  pm_moved_to_cache :: int
  pm_lowmem_uptime :: int
  pm_pdpages :: int
  pm_inactive_count :: u32
  pm_active_count :: u32
  pm_laundry_count :: u32
  pm_log :: "int list list"

type_synonym 'w pm = "'w vm \<times> policy"

datatype policy_op = Shared page_op | vm_page_dequeue_locked | vm_page_requeue_locked

record (overloaded) ('w::len) penv =
  pe_vm :: "'w venv"
  pe_op :: "policy_op \<Rightarrow> pgid \<Rightarrow> 'w pm \<Rightarrow> 'w pm"
  pe_lock :: "vm_lock \<Rightarrow> 'w pm \<Rightarrow> 'w pm"
  pe_page_trylock :: "pgid \<Rightarrow> 'w pm \<Rightarrow> bool"
  pe_object_trywlock :: "objid \<Rightarrow> 'w pm \<Rightarrow> bool"
  pe_cnt_inc :: "domid \<Rightarrow> pqueue \<Rightarrow> 'w pm \<Rightarrow> 'w pm"
  pe_time_uptime :: "'w pm \<Rightarrow> int"
  pe_paging_target :: "'w pm \<Rightarrow> int"
  pe_wakeup_laundry :: "'w pm \<Rightarrow> 'w pm"
  pe_local_marker :: pgid

definition on_vm :: "(('w::len) vm \<Rightarrow> 'w vm) \<Rightarrow> 'w pm \<Rightarrow> 'w pm" where
  "on_vm f S = (f (fst S), snd S)"

definition on_pol :: "(policy \<Rightarrow> policy) \<Rightarrow> ('w::len) pm \<Rightarrow> 'w pm" where
  "on_pol f S = (fst S, f (snd S))"

definition the_pl :: "('w::len) pm \<Rightarrow> domid \<Rightarrow> pqueue \<Rightarrow> pgid list" where
  "the_pl S d q = pq_pl (the_pq (fst S) d q)"

abbreviation page_of :: "('w::len) pm \<Rightarrow> pgid \<Rightarrow> vm_page" where
  "page_of S m \<equiv> v_pages (fst S) m"

abbreviation object_of :: "('w::len) pm \<Rightarrow> objid \<Rightarrow> vm_object" where
  "object_of S x \<equiv> v_objects (fst S) x"

lemma on_simps [simp]:
  "fst (on_vm f S) = f (fst S)" "snd (on_vm f S) = snd S"
  "fst (on_pol g S) = fst S" "snd (on_pol g S) = g (snd S)"
  by (simp_all add: on_vm_def on_pol_def)

lemma the_pl_simps [simp]:
  "the_pl (on_pol g S) d q = the_pl S d q"
  "the_pl (on_vm (upd_page m f) S) d q = the_pl S d q"
  "the_pl (on_vm (upd_cnt h) S) d q = the_pl S d q"
  "the_pl (on_vm (upd_pl d' q' k) S) d q = (if d = d' \<and> q = q' then k (the_pl S d q) else the_pl S d q)"
  by (simp_all add: the_pl_def)

subsection \<open>Neighbours on a queue\<close>

definition TAILQ_NEXT :: "'a list \<Rightarrow> 'a \<Rightarrow> 'a option" where
  "TAILQ_NEXT l x = TAILQ_FIRST (TAILQ_REST l x)"

fun TAILQ_PREV :: "'a list \<Rightarrow> 'a \<Rightarrow> 'a option" where
  "TAILQ_PREV (y # z # ys) x = (if z = x then Some y else TAILQ_PREV (z # ys) x)"
| "TAILQ_PREV [y] x = None"
| "TAILQ_PREV [] x = None"

subsection \<open>Locking a page or its object while the queue is locked\<close>

definition vm_pageout_init_marker :: "pgid \<Rightarrow> pqueue option \<Rightarrow> ('w::len) pm \<Rightarrow> 'w pm" where
  "vm_pageout_init_marker marker queue = on_vm (upd_page marker (\<lambda>_.
     \<lparr>pg_marker = True, pg_aflags = {}, pg_queue = queue, pg_object = 0, pg_pindex = 0,
      pg_hold_count = 1, pg_wire_count = 0, pg_valid = 0, pg_dirty = 0, pg_act_count = 0\<rparr>))"

text \<open>The marker goes behind the page, the locks are taken, the marker tells what has changed.\<close>

definition vm_pageout_page_lock ::
  "('w::len) penv \<Rightarrow> pgid \<Rightarrow> pgid option \<Rightarrow> 'w pm \<Rightarrow> (bool \<times> pgid option \<times> 'w pm) option" where
  "vm_pageout_page_lock P m nxt S =
     (if pe_page_trylock P m S then Some (True, nxt, S)
      else case pg_queue (page_of S m) of
        None \<Rightarrow> None
      | Some q \<Rightarrow>
          (let d = ve_page_domain (pe_vm P) (fst S) m; marker = pe_local_marker P;
               S = vm_pageout_init_marker marker (Some q) S;
               S = on_vm (upd_pl d q (\<lambda>l. TAILQ_INSERT_AFTER l m marker)) S;
               S = pe_lock P (Page_lock m) S;
               S = pe_lock P (Queue_lock d q) S;
               nxt = TAILQ_NEXT (the_pl S d q) marker;
               unchanged = (TAILQ_PREV (the_pl S d q) marker = Some m)
           in Some (unchanged, nxt, on_vm (upd_pl d q (\<lambda>l. TAILQ_REMOVE l marker)) S)))"

definition vm_pageout_fallback_object_lock ::
  "('w::len) penv \<Rightarrow> pgid \<Rightarrow> pgid option \<Rightarrow> 'w pm \<Rightarrow> (bool \<times> pgid option \<times> 'w pm) option" where
  "vm_pageout_fallback_object_lock P m nxt S =
     (case pg_queue (page_of S m) of
        None \<Rightarrow> None
      | Some q \<Rightarrow>
          (let d = ve_page_domain (pe_vm P) (fst S) m; marker = pe_local_marker P;
               S = vm_pageout_init_marker marker (Some q) S;
               object = pg_object (page_of S m);
               S = on_vm (upd_pl d q (\<lambda>l. TAILQ_INSERT_AFTER l m marker)) S;
               S = pe_lock P (Object_lock object) S;
               S = pe_lock P (Page_lock m) S;
               S = pe_lock P (Queue_lock d q) S;
               nxt = TAILQ_NEXT (the_pl S d q) marker;
               unchanged = (pg_object (page_of S m) = object \<and> TAILQ_PREV (the_pl S d q) marker = Some m)
           in Some (unchanged, nxt, on_vm (upd_pl d q (\<lambda>l. TAILQ_REMOVE l marker)) S)))"

subsection \<open>The inactive queue\<close>

text \<open>What the scan counts for the benchmark.\<close>

record bench =
  pages_in_inactive_queue :: int
  pages_moved_to_higher_queue :: int
  pages_scanned :: int
  pages_in_active_queue :: int
  pages_moved_to_lower_queue :: int

definition bench0 :: bench where
  "bench0 = \<lparr>pages_in_inactive_queue = 0, pages_moved_to_higher_queue = 0, pages_scanned = 0,
     pages_in_active_queue = 0, pages_moved_to_lower_queue = 0\<rparr>"

definition policy_free :: "('w::len) penv \<Rightarrow> pgid \<Rightarrow> 'w pm \<Rightarrow> 'w pm" where
  "policy_free P m S =
     (let S = pe_op P (Shared vm_page_free) m S;
          S = on_pol (\<lambda>g. g\<lparr>pm_moved_to_cache := pm_moved_to_cache g + 1\<rparr>) S
      in on_vm (upd_cnt (\<lambda>c. c\<lparr>v_dfree := v_dfree c + 1\<rparr>)) S)"

text \<open>From the label \<^verbatim>\<open>clean_page\<close> on: whether the page is freed.\<close>

definition policy_clean :: "('w::len) penv \<Rightarrow> pgid \<Rightarrow> objid \<Rightarrow> 'w pm \<Rightarrow> bool \<times> 'w pm" where
  "policy_clean P m object S =
     (let S = (if ob_ref_count (object_of S object) \<noteq> 0
               then let S = pe_op P (Shared vm_page_test_dirty) m S
                    in if pg_dirty (page_of S m) = 0 then pe_op P (Shared pmap_remove_all) m S else S
               else S)
      in if pg_dirty (page_of S m) = 0 then (True, policy_free P m S)
         else if \<not> ob_dead (object_of S object) then (False, pe_op P (Shared vm_page_launder) m S)
         else (False, S))"

definition policy_references :: "('w::len) penv \<Rightarrow> pgid \<Rightarrow> objid \<Rightarrow> 'w pm \<Rightarrow> int \<times> 'w pm" where
  "policy_references P m object S =
     (let (act_delta, S) = (if PGA_REFERENCED \<in> pg_aflags (page_of S m)
                            then (1, on_vm (vm_page_aflag_clear m {PGA_REFERENCED}) S) else (0, S))
      in if ob_ref_count (object_of S object) \<noteq> 0
         then case ve_ts_referenced (pe_vm P) m (fst S) of (n, s) \<Rightarrow> (act_delta + n, (s, snd S))
         else (act_delta, S))"

text \<open>
  What becomes of a page that is off the queue, its object locked: whether the queue is locked
  again, whether the page is freed, whether it moves to the active queue. The first-in first-out
  policy does not look at the references.
\<close>

definition policy_reclaim ::
  "('w::len) penv \<Rightarrow> domid \<Rightarrow> pgid \<Rightarrow> objid \<Rightarrow> 'w pm \<Rightarrow> (bool \<times> bool \<times> bool) \<times> 'w pm" where
  "policy_reclaim P d m object S =
     (if pg_valid (page_of S m) = 0 then ((False, True, False), policy_free P m S)
      else if pm_pagemode (snd S) \<noteq> 0
      then case policy_clean P m object S of (freed, S) \<Rightarrow> ((False, freed, False), S)
      else let (act_delta, S) = policy_references P m object S
           in if act_delta \<noteq> 0 \<and> ob_ref_count (object_of S object) \<noteq> 0
              then let S = on_vm (upd_cnt (\<lambda>c. c\<lparr>v_reactivated := v_reactivated c + 1\<rparr>)) S;
                       S = pe_op P (Shared vm_page_activate) m S
                   in ((False, False, True), on_vm (upd_page m (\<lambda>p. p\<lparr>pg_act_count :=
                         pg_act_count p + (word_of_int act_delta + ve_ACT_ADVANCE (pe_vm P))\<rparr>)) S)
              else if act_delta \<noteq> 0 \<and> \<not> ob_dead (object_of S object)
              then let S = pe_lock P (Queue_lock d PQ_INACTIVE) S;
                       S = on_vm (upd_page m (\<lambda>p. p\<lparr>pg_queue := Some PQ_INACTIVE\<rparr>)) S;
                       S = on_vm (upd_pl d PQ_INACTIVE (\<lambda>l. TAILQ_INSERT_TAIL l m)) S
                   in ((True, False, False), pe_cnt_inc P d PQ_INACTIVE S)
              else case policy_clean P m object S of (freed, S) \<Rightarrow> ((False, freed, False), S))"

text \<open>
  The object lock: whether the page is left alone, and whether it counts as stuck.
\<close>

definition policy_object_lock ::
  "('w::len) penv \<Rightarrow> pgid \<Rightarrow> pgid option \<Rightarrow> 'w pm \<Rightarrow> ((bool \<times> bool) \<times> pgid option \<times> 'w pm) option" where
  "policy_object_lock P m nxt S =
     (if pe_object_trywlock P (pg_object (page_of S m)) S
      then Some ((ve_page_busied (pe_vm P) (fst S) m, ve_page_busied (pe_vm P) (fst S) m), nxt, S)
      else do {
        (unchanged, nxt, S) \<leftarrow> vm_pageout_fallback_object_lock P m nxt S;
        if \<not> unchanged then Some ((True, False), nxt, S)
        else if pg_hold_count (page_of S m) \<noteq> 0 then Some ((True, True), nxt, S)
        else Some ((ve_page_busied (pe_vm P) (fst S) m, ve_page_busied (pe_vm P) (fst S) m), nxt, S)
      })"

text \<open>Taking the page off the queue, behind which a marker keeps the place.\<close>

definition policy_take ::
  "('w::len) penv \<Rightarrow> domid \<Rightarrow> pgid \<Rightarrow> objid \<Rightarrow> 'w pm \<Rightarrow> (bool \<times> bool \<times> pgid option) \<times> 'w pm" where
  "policy_take P d m object S =
     (let marker = vmd_markers (v_domains (fst S) d) PQ_INACTIVE;
          S = on_vm (upd_pl d PQ_INACTIVE (\<lambda>l. TAILQ_INSERT_AFTER l m marker)) S;
          S = pe_op P vm_page_dequeue_locked m S;
          ((locked, freed, higher), S) = policy_reclaim P d m object S;
          S = (if locked then S else pe_lock P (Queue_lock d PQ_INACTIVE) S);
          nxt = TAILQ_NEXT (the_pl S d PQ_INACTIVE) marker
      in ((freed, higher, nxt), on_vm (upd_pl d PQ_INACTIVE (\<lambda>l. TAILQ_REMOVE l marker)) S))"

text \<open>
  One page: whether it is stuck, freed, moved to the active queue, and the next page.
\<close>

definition policy_inact_page ::
  "('w::len) penv \<Rightarrow> domid \<Rightarrow> pgid \<Rightarrow> 'w pm \<Rightarrow> ((bool \<times> bool \<times> bool) \<times> pgid option \<times> 'w pm) option" where
  "policy_inact_page P d m S =
     (let S = on_pol (\<lambda>g. g\<lparr>pm_pdpages := pm_pdpages g + 1\<rparr>) S;
          nxt = TAILQ_NEXT (the_pl S d PQ_INACTIVE) m
      in if pg_marker (page_of S m) then Some ((False, False, False), nxt, S)
         else do {
           (unchanged, nxt, S) \<leftarrow> vm_pageout_page_lock P m nxt S;
           if \<not> unchanged then Some ((False, False, False), nxt, S)
           else if pg_hold_count (page_of S m) \<noteq> 0 then Some ((True, False, False), nxt, S)
           else do {
             let object = pg_object (page_of S m);
             ((leave, stuck), nxt, S) \<leftarrow> policy_object_lock P m nxt S;
             if leave then Some ((stuck, False, False), nxt, S)
             else case policy_take P d m object S of
               ((freed, higher, nxt), S) \<Rightarrow> Some ((False, freed, higher), nxt, S)
           }
         })"

text \<open>The loop; its first argument is what is left of \<^verbatim>\<open>maxscan\<close>.\<close>

fun policy_inact_loop ::
  "('w::len) penv \<Rightarrow> domid \<Rightarrow> nat \<Rightarrow> pgid option \<Rightarrow> int \<Rightarrow> int \<Rightarrow> bench \<Rightarrow> 'w pm \<Rightarrow>
   (int \<times> int \<times> bench \<times> 'w pm) option" where
  "policy_inact_loop P d (Suc maxscan) (Some m) page_shortage addl b S =
     (if page_shortage > 0
      then do {
        ((stuck, freed, higher), nxt, S) \<leftarrow> policy_inact_page P d m S;
        let b = b\<lparr>pages_in_inactive_queue := pages_in_inactive_queue b + 1,
                  pages_scanned := pages_scanned b + 1,
                  pages_moved_to_higher_queue := pages_moved_to_higher_queue b + of_bool higher\<rparr>;
        policy_inact_loop P d maxscan nxt (page_shortage - of_bool freed) (addl + of_bool stuck) b S
      }
      else Some (page_shortage, addl, b, S))"
| "policy_inact_loop P d 0 m page_shortage addl b S = Some (page_shortage, addl, b, S)"
| "policy_inact_loop P d (Suc maxscan) None page_shortage addl b S = Some (page_shortage, addl, b, S)"

text \<open>Waking the laundry thread of the first domain.\<close>

definition policy_request_laundry ::
  "('w::len) penv \<Rightarrow> int \<Rightarrow> int \<Rightarrow> 'w pm \<Rightarrow> 'w pm" where
  "policy_request_laundry P starting page_shortage S =
     (if pm_laundry_request (snd S) = VM_LAUNDRY_IDLE \<and> starting > 0
      then let S = pe_lock P (Queue_lock 0 PQ_LAUNDRY) S;
               S = (if page_shortage > 0
                    then on_vm (upd_cnt (\<lambda>c. c\<lparr>v_pdshortfalls := v_pdshortfalls c + 1\<rparr>))
                           (on_pol (\<lambda>g. g\<lparr>pm_laundry_request := VM_LAUNDRY_SHORTFALL\<rparr>) S)
                    else if pm_laundry_request (snd S) \<noteq> VM_LAUNDRY_SHORTFALL
                    then on_pol (\<lambda>g. g\<lparr>pm_laundry_request := VM_LAUNDRY_BACKGROUND\<rparr>) S
                    else S)
           in pe_wakeup_laundry P S
      else S)"

subsection \<open>The active queue\<close>

text \<open>The number of pages the active scan is to move; the sum is one of unsigned integers.\<close>

definition policy_inactq_shortage ::
  "('w::len) penv \<Rightarrow> int \<Rightarrow> int \<Rightarrow> 'w pm \<Rightarrow> int option" where
  "policy_inactq_shortage P deficit addl S =
     (let weight = v_act_scan_laundry_weight (fst S)
      in if weight = 0 then None
         else Some (to_int (v_inactive_target (v_cnt (fst S)) -
                (pm_inactive_count (snd S) + pm_laundry_count (snd S) div word_of_int weight) +
                word_of_int (pe_paging_target P S) + word_of_int deficit + word_of_int addl) * weight))"

text \<open>One page that is locked: the shortage left, and whether it counts as moved down.\<close>

definition policy_act_reclaim ::
  "('w::len) penv \<Rightarrow> pgid \<Rightarrow> int \<Rightarrow> 'w pm \<Rightarrow> (int \<times> bool) \<times> 'w pm" where
  "policy_act_reclaim P m shortage S =
     (let S = on_pol (\<lambda>g. g\<lparr>pm_pdpages := pm_pdpages g + 1\<rparr>) S;
          (act_delta, S) = policy_references P m (pg_object (page_of S m)) S;
          S = on_vm (upd_page m (\<lambda>p. p\<lparr>pg_act_count := act_count_update (pe_vm P) act_delta (pg_act_count p)\<rparr>)) S
      in if pm_pagemode (snd S) \<noteq> 0
         then ((shortage, True), pe_op P (Shared vm_page_deactivate) m (pe_op P vm_page_dequeue_locked m S))
         else if pg_act_count (page_of S m) \<noteq> 0
         then ((shortage, False), pe_op P vm_page_requeue_locked m S)
         else let S = pe_op P vm_page_dequeue_locked m S
              in if shortage \<le> 0 then ((shortage, True), pe_op P (Shared vm_page_deactivate) m S)
                 else if pg_dirty (page_of S m) = 0
                 then ((shortage - v_act_scan_laundry_weight (fst S), False),
                       pe_op P (Shared vm_page_deactivate) m S)
                 else ((shortage - 1, False), pe_op P (Shared vm_page_launder) m S))"

definition policy_act_page ::
  "('w::len) penv \<Rightarrow> domid \<Rightarrow> pgid \<Rightarrow> int \<Rightarrow> 'w pm \<Rightarrow> ((int \<times> bool) \<times> pgid option \<times> 'w pm) option" where
  "policy_act_page P d m shortage S =
     (let nxt = TAILQ_NEXT (the_pl S d PQ_ACTIVE) m
      in if pg_marker (page_of S m) then Some ((shortage, False), nxt, S)
         else do {
           (unchanged, nxt, S) \<leftarrow> vm_pageout_page_lock P m nxt S;
           if \<not> unchanged then Some ((shortage, False), nxt, S)
           else case policy_act_reclaim P m shortage S of (r, S) \<Rightarrow> Some (r, nxt, S)
         })"

function policy_act_loop ::
  "('w::len) penv \<Rightarrow> domid \<Rightarrow> int \<Rightarrow> int \<Rightarrow> pgid option \<Rightarrow> int \<Rightarrow> int \<Rightarrow> bench \<Rightarrow> 'w pm \<Rightarrow>
   (bench \<times> 'w pm) option" where
  "policy_act_loop P d min_scan maxscan None scanned shortage b S = Some (b, S)"
| "policy_act_loop P d min_scan maxscan (Some m) scanned shortage b S =
     (if scanned < min_scan \<or> (shortage > 0 \<and> scanned < maxscan)
      then do {
        ((shortage, lower), nxt, S) \<leftarrow> policy_act_page P d m shortage S;
        let b = b\<lparr>pages_in_active_queue := pages_in_active_queue b + 1,
                  pages_scanned := pages_scanned b + 1,
                  pages_moved_to_lower_queue := pages_moved_to_lower_queue b + of_bool lower\<rparr>;
        policy_act_loop P d min_scan maxscan nxt (scanned + 1) shortage b S
      }
      else Some (b, S))"
  by pat_completeness auto

termination
  by (relation "measure (\<lambda>(P, d, min_scan, maxscan, m, scanned, r). nat (max min_scan maxscan - scanned))") auto

definition policy_scan_active ::
  "('w::len) penv \<Rightarrow> domid \<Rightarrow> int \<Rightarrow> bench \<Rightarrow> 'w pm \<Rightarrow> (int \<times> bench \<times> 'w pm) option" where
  "policy_scan_active P d shortage b S = do {
     let S = pe_lock P (Queue_lock d PQ_ACTIVE) S;
     let maxscan = pq_cnt (the_pq (fst S) d PQ_ACTIVE);
     min_scan \<leftarrow> (if pm_pagemode (snd S) = 0 then act_min_scan (pe_vm P) d (fst S) else Some 0);
     let S = (if min_scan > 0 \<or> (shortage > 0 \<and> maxscan > 0)
              then on_vm (upd_domain d (\<lambda>v. v\<lparr>vmd_last_active_scan := v_ticks (fst S)\<rparr>)) S else S);
     (b, S) \<leftarrow> policy_act_loop P d min_scan maxscan (TAILQ_FIRST (the_pl S d PQ_ACTIVE)) 0 shortage b S;
     Some (maxscan, b, S)
   }"

subsection \<open>The whole scan\<close>

text \<open>The numbers of the benchmark line, in its order; the counters of the last scan are reset.\<close>

definition policy_benchmark :: "bench \<Rightarrow> int \<Rightarrow> int \<Rightarrow> ('w::len) pm \<Rightarrow> 'w pm" where
  "policy_benchmark b inactive2 active2 = on_pol (\<lambda>g.
     (if pm_benchmark_on g \<noteq> 0
      then g\<lparr>pm_log := pm_log g @ [[sint (pm_inactive_count g), sint (pm_active_count g),
             pages_in_inactive_queue b, pages_in_active_queue b, pages_scanned b,
             pages_moved_to_higher_queue b, pages_moved_to_lower_queue b, pm_moved_to_cache g,
             pm_queued_for_flush g, inactive2, active2]]\<rparr>
      else g)\<lparr>pm_queued_for_flush := 0, pm_moved_to_cache := 0\<rparr>)"

definition policy_lowmem :: "('w::len) penv \<Rightarrow> domid \<Rightarrow> int \<Rightarrow> 'w pm \<Rightarrow> 'w pm" where
  "policy_lowmem P d pass S =
     (if d = 0 \<and> pass > 0 \<and> pe_time_uptime P S - pm_lowmem_uptime (snd S) \<ge> v_lowmem_period (fst S)
      then let S = on_vm (ve_uma_reclaim (pe_vm P)) (on_vm (ve_vm_lowmem (pe_vm P)) S)
           in on_pol (\<lambda>g. g\<lparr>pm_lowmem_uptime := pe_time_uptime P S\<rparr>) S
      else S)"

definition policy_target :: "('w::len) penv \<Rightarrow> int \<Rightarrow> 'w pm \<Rightarrow> int \<times> int \<times> 'w pm" where
  "policy_target P pass S =
     (if pass > 0
      then let deficit = pm_pageout_deficit (snd S);
               S = on_pol (\<lambda>g. g\<lparr>pm_pageout_deficit := 0\<rparr>) S
           in (deficit, pe_paging_target P S + deficit, S)
      else (0, 0, S))"

definition policy_scan ::
  "('w::len) penv \<Rightarrow> domid \<Rightarrow> int \<Rightarrow> 'w pm \<Rightarrow> (bool \<times> 'w pm) option" where
  "policy_scan P d pass S = do {
     let S = policy_lowmem P d pass S;
     let (deficit, starting, S) = policy_target P pass S;
     let maxscan = pq_cnt (the_pq (fst S) d PQ_INACTIVE);
     let S = pe_lock P (Queue_lock d PQ_INACTIVE) S;
     (page_shortage, addl, b, S) \<leftarrow>
       policy_inact_loop P d (nat maxscan) (TAILQ_FIRST (the_pl S d PQ_INACTIVE)) starting 0 bench0 S;
     let S = policy_request_laundry P starting page_shortage S;
     let S = (if page_shortage > 0 then on_vm (ve_swapout_run (pe_vm P)) S else S);
     s \<leftarrow> vm_pageout_mightbe_oom (pe_vm P) d page_shortage starting (fst S);
     let S = (s, snd S);
     shortage \<leftarrow> policy_inactq_shortage P deficit addl S;
     (active2, b, S) \<leftarrow> policy_scan_active P d shortage b S;
     let S = policy_benchmark b maxscan active2 S;
     let S = (if pass > 0 then on_vm (ve_swapout_run_idle (pe_vm P)) S else S);
     Some (page_shortage \<le> 0, S)
   }"

subsection \<open>Writing pages out\<close>

text \<open>
  The older \<open>vm_pageout_flush\<close> counts every page for the benchmark and reactivates a page that
  could not be written, wherever it was to go.
\<close>

definition policy_flush_page ::
  "('w::len) penv \<Rightarrow> objid \<Rightarrow> int \<Rightarrow> int \<Rightarrow> pgid \<Rightarrow> pager_status \<Rightarrow> int \<times> int \<times> bool \<times> 'w pm \<Rightarrow>
   int \<times> int \<times> bool \<times> 'w pm" where
  "policy_flush_page P object mreq i mt st r =
     (let (n, runlen, eio, S) = r;
          S = on_pol (\<lambda>g. g\<lparr>pm_queued_for_flush := pm_queued_for_flush g + 1\<rparr>) S;
          deact = (\<lambda>S. let S = pe_lock P (Page_lock mt) S
                       in if ve_page_in_laundry (pe_vm P) (fst S) mt
                          then pe_op P (Shared vm_page_deactivate_noreuse) mt S else S);
          inrun = (mreq \<le> i \<and> i - mreq < runlen);
          (n, runlen, eio, S) =
            (case st of
               VM_PAGER_OK \<Rightarrow> (n + 1, runlen, eio, deact S)
             | VM_PAGER_PEND \<Rightarrow> (n + 1, runlen, eio, S)
             | VM_PAGER_BAD \<Rightarrow> (n, runlen, eio, deact (pe_op P (Shared vm_page_undirty) mt S))
             | VM_PAGER_AGAIN \<Rightarrow> (n, (if inrun then i - mreq else runlen), eio, S)
             | _ \<Rightarrow> (n, runlen, eio \<or> inrun,
                     pe_op P (Shared vm_page_activate) mt (pe_lock P (Page_lock mt) S)))
      in if st \<noteq> VM_PAGER_PEND
         then (n, runlen, eio,
           pe_op P (Shared vm_page_sunbusy) mt (on_vm (ve_pip_wakeup (pe_vm P) object) S))
         else (n, runlen, eio, S))"

fun policy_flush_loop ::
  "('w::len) penv \<Rightarrow> objid \<Rightarrow> int \<Rightarrow> int \<Rightarrow> (pgid \<times> pager_status) list \<Rightarrow> int \<times> int \<times> bool \<times> 'w pm \<Rightarrow>
   int \<times> int \<times> bool \<times> 'w pm" where
  "policy_flush_loop P object mreq i [] r = r"
| "policy_flush_loop P object mreq i ((mt, st) # ms) r =
     policy_flush_loop P object mreq (i + 1) ms (policy_flush_page P object mreq i mt st r)"

definition policy_flush ::
  "('w::len) penv \<Rightarrow> pgid list \<Rightarrow> nat \<Rightarrow> int \<Rightarrow> 'w pm \<Rightarrow> int \<times> int \<times> bool \<times> 'w pm" where
  "policy_flush P mc flags mreq S =
     (let object = pg_object (page_of S (hd mc));
          count = int (length mc);
          S = fold (pe_op P (Shared vm_page_sbusy)) mc S;
          S = on_vm (ve_pip_add (pe_vm P) object count) S;
          (pageout_status, s) = ve_put_pages (pe_vm P) object mc flags (fst S)
      in policy_flush_loop P object mreq 0 (zip mc pageout_status) (0, count - mreq, False, (s, snd S)))"

end
