(* ===== verification/Page_Policy_Props.thy ===== *)
theory Page_Policy_Props
  imports Page_Policy Pageout_Example
begin

section \<open>Properties of the page replacement policies\<close>

text \<open>
  A marker finds the place in the queue again whatever other threads did to the queue meanwhile.
  With nobody else running, the second policy is first-in first-out: the inactive queue is worked
  off from its head without regard to references, and the active queue moves behind it.
\<close>

subsection \<open>The place behind a marker\<close>

lemma TAILQ_PREV_split:
  assumes "x \<notin> set xs" "x \<notin> set ys"
  shows "TAILQ_PREV (xs @ x # ys) x = (if xs = [] then None else Some (last xs))"
  using assms
proof (induction xs)
  case Nil
  have "x \<notin> set (y # zs) \<Longrightarrow> TAILQ_PREV (y # zs) x = None" for y :: 'a and zs
    by (induction zs arbitrary: y) auto
  then show ?case using Nil by (induction ys) auto
next
  case (Cons a xs)
  then show ?case by (cases xs) auto
qed

lemma TAILQ_NEXT_split: "x \<notin> set xs \<Longrightarrow> TAILQ_NEXT (xs @ x # ys) x = TAILQ_FIRST ys"
  by (simp add: TAILQ_NEXT_def)

text \<open>The other threads do not touch the marker of this thread.\<close>

definition marker_kept :: "('w::len) penv \<Rightarrow> bool" where
  "marker_kept P \<longleftrightarrow> (\<forall>l S d q. count_list (the_pl (pe_lock P l S) d q) (pe_local_marker P) =
     count_list (the_pl S d q) (pe_local_marker P))"

lemma marker_keptD: "marker_kept P \<Longrightarrow>
  count_list (the_pl (pe_lock P l S) d q) (pe_local_marker P) = count_list (the_pl S d q) (pe_local_marker P)"
  unfolding marker_kept_def by blast

lemma count_list_1: "count_list l x = 1 \<Longrightarrow> \<exists>xs ys. l = xs @ x # ys \<and> x \<notin> set xs \<and> x \<notin> set ys"
  by (metis One_nat_def count_list_Suc_split_first count_list_0_iff)

lemma count_insert_after:
  "k \<noteq> a \<Longrightarrow> count_list (TAILQ_INSERT_AFTER l a k) k = count_list l k + of_bool (a \<in> set l)"
  by (induction l) auto

lemma the_pl_init [simp]: "the_pl (vm_pageout_init_marker k q' S) d q = the_pl S d q"
  by (simp add: vm_pageout_init_marker_def)

text \<open>
  The queue of a page with the marker behind it, and the states in which the locks have been
  obtained, whatever other threads did meanwhile.
\<close>

definition marked :: "('w::len) penv \<Rightarrow> domid \<Rightarrow> pqueue \<Rightarrow> pgid \<Rightarrow> 'w pm \<Rightarrow> 'w pm" where
  "marked P d q m S = on_vm (upd_pl d q (\<lambda>l. TAILQ_INSERT_AFTER l m (pe_local_marker P)))
     (vm_pageout_init_marker (pe_local_marker P) (Some q) S)"

definition page_locked :: "('w::len) penv \<Rightarrow> domid \<Rightarrow> pqueue \<Rightarrow> pgid \<Rightarrow> 'w pm \<Rightarrow> 'w pm" where
  "page_locked P d q m S = pe_lock P (Queue_lock d q) (pe_lock P (Page_lock m) S)"

lemma marked_once:
  assumes "m \<in> set (the_pl S d q)" "pe_local_marker P \<notin> set (the_pl S d q)"
  shows "count_list (the_pl (marked P d q m S) d q) (pe_local_marker P) = 1"
proof -
  have "pe_local_marker P \<noteq> m" using assms by auto
  with assms show ?thesis by (simp add: marked_def count_insert_after)
qed

text \<open>
  What is read off the marker in the state \<open>S\<close>: the marker stands once between \<open>xs\<close> and \<open>ys\<close>, the
  next page is the first of \<open>ys\<close>, the marker and nothing else is removed, and success means that the
  page \<open>m\<close> is the last of \<open>xs\<close> and the condition \<open>e\<close> holds.
\<close>

definition reads_place :: "('w::len) penv \<Rightarrow> domid \<Rightarrow> pqueue \<Rightarrow> pgid \<Rightarrow> bool \<Rightarrow> 'w pm \<Rightarrow> (bool \<times> pgid option \<times> 'w pm) option \<Rightarrow> bool" where
  "reads_place P d q m e S res \<longleftrightarrow> (\<exists>xs ys. the_pl S d q = xs @ pe_local_marker P # ys \<and>
     pe_local_marker P \<notin> set (xs @ ys) \<and>
     res = Some (e \<and> xs \<noteq> [] \<and> last xs = m, TAILQ_FIRST ys, on_vm (upd_pl d q (\<lambda>_. xs @ ys)) S))"

lemma reads_placeI:
  assumes "count_list (the_pl S d q) (pe_local_marker P) = 1"
  shows "reads_place P d q m e S (Some (e \<and> TAILQ_PREV (the_pl S d q) (pe_local_marker P) = Some m,
    TAILQ_NEXT (the_pl S d q) (pe_local_marker P), on_vm (upd_pl d q (\<lambda>l. TAILQ_REMOVE l (pe_local_marker P))) S))"
proof -
  let ?k = "pe_local_marker P"
  obtain xs ys where l: "the_pl S d q = xs @ ?k # ys" "?k \<notin> set xs" "?k \<notin> set ys" using count_list_1 [OF assms] by blast
  have "pq_pl (vmd_pagequeues (v_domains (fst S) d) q) = xs @ ?k # ys" using l(1) by (simp add: the_pl_def the_pq_def)
  then have "on_vm (upd_pl d q (\<lambda>l. TAILQ_REMOVE l ?k)) S = on_vm (upd_pl d q (\<lambda>_. xs @ ys)) S"
    using l(2) by (simp add: on_vm_def upd_pl_def upd_pq_def upd_domain_def)
  with l show ?thesis unfolding reads_place_def
    by (intro exI [of _ xs] exI [of _ ys]) (simp add: TAILQ_NEXT_split TAILQ_PREV_split)
qed

text \<open>
  C17. Locking a page, or its object, while the queue is walked. If the lock is free nothing happens;
  otherwise a marker is put behind the page, and when the locks have been obtained it stands somewhere
  in the queue as the other threads have left it: the result is the page that now follows the marker,
  the marker alone is taken out again, and success is reported exactly if the page still is directly
  before the marker (and still belongs to the object whose lock was taken). Of the other threads it is
  assumed only that they neither remove nor copy this thread's marker.
\<close>

theorem page_lock_keeps_place:
  assumes "marker_kept P" "pg_queue (page_of S m) = Some q" "ve_page_domain (pe_vm P) (fst S) m = d"
    and "m \<in> set (the_pl S d q)" "pe_local_marker P \<notin> set (the_pl S d q)"
  shows "(if pe_page_trylock P m S then vm_pageout_page_lock P m nxt S = Some (True, nxt, S)
      else reads_place P d q m True (page_locked P d q m (marked P d q m S)) (vm_pageout_page_lock P m nxt S)) \<and>
    (let S' = page_locked P d q m (pe_lock P (Object_lock (pg_object (page_of S m))) (marked P d q m S))
     in reads_place P d q m (pg_object (page_of S' m) = pg_object (page_of S m)) S'
          (vm_pageout_fallback_object_lock P m nxt S))"
proof -
  define M where "M = marked P d q m S"
  have k: "pe_local_marker P \<noteq> m" using assms(4,5) by auto
  have c: "count_list (the_pl (page_locked P d q m T) d q) (pe_local_marker P) = 1"
    if "T \<in> {M, pe_lock P (Object_lock (pg_object (page_of S m))) M}" for T
    using that marked_once [OF assms(4,5)] by (auto simp: page_locked_def M_def marker_keptD [OF assms(1)])
  have o: "pg_object (page_of (vm_pageout_init_marker (pe_local_marker P) (Some q) S) m) = pg_object (page_of S m)"
    using k by (simp add: vm_pageout_init_marker_def upd_page_def)
  have "reads_place P d q m True (page_locked P d q m M) (vm_pageout_page_lock P m nxt S)" if "\<not> pe_page_trylock P m S"
    using that reads_placeI [OF c [of M], of m True] assms(2,3)
    by (simp add: vm_pageout_page_lock_def Let_def M_def marked_def page_locked_def)
  moreover have "reads_place P d q m (pg_object (page_of S' m) = pg_object (page_of S m)) S'
      (vm_pageout_fallback_object_lock P m nxt S)"
    if "S' = page_locked P d q m (pe_lock P (Object_lock (pg_object (page_of S m))) M)" for S'
    using reads_placeI [OF c, of "pe_lock P (Object_lock (pg_object (page_of S m))) M" m
      "pg_object (page_of S' m) = pg_object (page_of S m)"] assms(2,3) o
    by (simp add: that vm_pageout_fallback_object_lock_def Let_def M_def marked_def page_locked_def)
  ultimately show ?thesis
    unfolding M_def [symmetric] Let_def by (simp add: vm_pageout_page_lock_def)
qed

subsection \<open>A first-in first-out specification\<close>

text \<open>
  \<open>evict clean k q\<close> works the queue \<open>q\<close> off from its head until \<open>k\<close> clean pages are found:
  the clean pages, which are freed, the dirty ones, which are laundered, and the rest of the queue.
\<close>

fun evict :: "('a \<Rightarrow> bool) \<Rightarrow> nat \<Rightarrow> 'a list \<Rightarrow> 'a list \<times> 'a list \<times> 'a list" where
  "evict clean (Suc k) (m # q) =
     (if clean m then case evict clean k q of (f, l, r) \<Rightarrow> (m # f, l, r)
      else case evict clean (Suc k) q of (f, l, r) \<Rightarrow> (f, m # l, r))"
| "evict clean 0 q = ([], [], q)"
| "evict clean (Suc k) [] = ([], [], [])"

lemma evict_cong: "(\<And>m. m \<in> set q \<Longrightarrow> c m = c' m) \<Longrightarrow> evict c k q = evict c' k q"
  by (induction c k q rule: evict.induct) (simp_all split: prod.split)

text \<open>
  The queues of a domain with their counts; what the operations leave alone: the content of the
  pages of \<open>X\<close>, and the state that is no page.
\<close>

definition queues :: "domid \<Rightarrow> ('w::len) pm \<Rightarrow> (pqueue \<Rightarrow> pgid list) \<times> (pqueue \<Rightarrow> int)" where
  "queues d S = (\<lambda>q. the_pl S d q, \<lambda>q. pq_cnt (the_pq (fst S) d q))"

definition content :: "('w::len) pm \<Rightarrow> pgid \<Rightarrow> bool \<times> int \<times> nat \<times> nat \<times> objid" where
  "content S m = (case page_of S m of p \<Rightarrow> (pg_marker p, pg_hold_count p, pg_valid p, pg_dirty p, pg_object p))"

definition core :: "domid \<Rightarrow> pgid set \<Rightarrow> ('w::len) pm \<Rightarrow>
    (pgid \<Rightarrow> (bool \<times> int \<times> nat \<times> nat \<times> objid) option) \<times> (objid \<Rightarrow> int \<times> bool) \<times> int \<times> int \<times> pgid" where
  "core d X S = (\<lambda>m. if m \<in> X then Some (content S m) else None,
     \<lambda>ob. (ob_ref_count (object_of S ob), ob_dead (object_of S ob)), pm_pagemode (snd S),
     v_act_scan_laundry_weight (fst S), vmd_markers (v_domains (fst S) d) PQ_INACTIVE)"

definition tallies :: "domid \<Rightarrow> ('w::len) pm \<Rightarrow> int \<times> int \<times> int" where
  "tallies d S = (v_dfree (v_cnt (fst S)), v_pageout_oom_seq (fst S), vmd_oom_seq (v_domains (fst S) d))"

definition enqueued :: "pqueue \<Rightarrow> 'a \<Rightarrow> (pqueue \<Rightarrow> 'a list) \<times> (pqueue \<Rightarrow> int) \<Rightarrow> (pqueue \<Rightarrow> 'a list) \<times> (pqueue \<Rightarrow> int)" where
  "enqueued q m v = ((fst v)(q := fst v q @ [m]), (snd v)(q := snd v q + 1))"

definition dequeued :: "'a \<Rightarrow> (pqueue \<Rightarrow> 'a list) \<times> (pqueue \<Rightarrow> int) \<Rightarrow> (pqueue \<Rightarrow> 'a list) \<times> (pqueue \<Rightarrow> int)" where
  "dequeued m v = (\<lambda>q. remove1 m (fst v q), \<lambda>q. snd v q - of_bool (m \<in> set (fst v q)))"

definition same_state :: "domid \<Rightarrow> pgid set \<Rightarrow> ('w::len) pm \<Rightarrow> 'w pm \<Rightarrow> bool" where
  "same_state d X S S' \<longleftrightarrow> core d X S' = core d X S \<and> tallies d S' = tallies d S"

text \<open>
  What happens to the page an operation is about. \<open>D m\<close> says that the page was modified through a
  mapping: \<^verbatim>\<open>vm_page_test_dirty\<close> makes such a page dirty, and a page that is not cannot become
  dirty while its mappings are removed. Moving a page between queues keeps its content; freeing it
  may change it.
\<close>

definition page_effect :: "(pgid \<Rightarrow> bool) \<Rightarrow> policy_op \<Rightarrow> pgid \<Rightarrow> bool \<times> int \<times> nat \<times> nat \<times> objid \<Rightarrow>
    bool \<times> int \<times> nat \<times> nat \<times> objid \<Rightarrow> bool" where
  "page_effect D x m c c' \<longleftrightarrow> (case (c, c') of ((k, h, v, y, ob), (k', h', v', y', ob')) \<Rightarrow>
     (if x = Shared vm_page_test_dirty then (k', h', v', ob') = (k, h, v, ob) \<and> (y' \<noteq> 0 \<longleftrightarrow> y \<noteq> 0 \<or> D m)
      else if x = Shared pmap_remove_all
      then (k', h', v', ob') = (k, h, v, ob) \<and> (y = 0 \<longrightarrow> \<not> D m \<longrightarrow> y' = 0)
      else x \<in> {vm_page_dequeue_locked, Shared vm_page_deactivate, Shared vm_page_launder} \<longrightarrow> c' = c))"

text \<open>
  Nobody else runs: every lock is free, the operations on a page do as \<^verbatim>\<open>vm_page.c\<close> documents and
  leave the other pages alone, and the caches have nothing to give back.
\<close>

definition still :: "('w::len) penv \<Rightarrow> domid \<Rightarrow> (pgid \<Rightarrow> bool) \<Rightarrow> bool" where
  "still P d D \<longleftrightarrow>
     (\<forall>S l. pe_lock P l S = S) \<and> (\<forall>S m. pe_page_trylock P m S) \<and> (\<forall>S x. pe_object_trywlock P x S) \<and>
     (\<forall>s m. \<not> ve_page_busied (pe_vm P) s m) \<and>
     (\<forall>S x m. same_state d (- {m}) S (pe_op P x m S)) \<and>
     (\<forall>S x m. page_effect D x m (content S m) (content (pe_op P x m S) m)) \<and>
     (\<forall>S m. queues d (pe_op P vm_page_dequeue_locked m S) = dequeued m (queues d S)) \<and>
     (\<forall>S m. queues d (pe_op P (Shared vm_page_deactivate) m S) = enqueued PQ_INACTIVE m (queues d S)) \<and>
     (\<forall>S m. queues d (pe_op P (Shared vm_page_launder) m S) = enqueued PQ_LAUNDRY m (queues d S)) \<and>
     (\<forall>S m x. x \<in> {vm_page_free, vm_page_test_dirty, pmap_remove_all} \<longrightarrow>
        queues d (pe_op P (Shared x) m S) = queues d S) \<and>
     (\<forall>m s. snd (ve_ts_referenced (pe_vm P) m s) = s) \<and> (\<forall>S. pe_wakeup_laundry P S = S) \<and>
     (\<forall>s. ve_swapout_run (pe_vm P) s = s \<and> ve_swapout_run_idle (pe_vm P) s = s \<and>
        ve_vm_lowmem (pe_vm P) s = s \<and> ve_uma_reclaim (pe_vm P) s = s)"

lemma core_mono: "core d X S' = core d X S \<Longrightarrow> Y \<subseteq> X \<Longrightarrow> core d Y S' = core d Y S"
  by (auto simp: core_def fun_eq_iff) (metis option.inject subsetD)+

lemma core_content: "core d X S' = core d X S \<Longrightarrow> m \<in> X \<Longrightarrow> content S' m = content S m"
  by (auto simp: core_def dest!: fun_cong [of _ _ m])

lemma core_insert: "core d (- {m}) S' = core d (- {m}) S \<Longrightarrow> content S' m = content S m \<Longrightarrow> core d X S' = core d X S"
  by (auto simp: core_def fun_eq_iff) (metis ComplI option.inject singletonD)

lemma core_pages:
  assumes "core d X S' = core d X S" "m \<in> X"
  shows "pg_marker (page_of S' m) = pg_marker (page_of S m)" "pg_hold_count (page_of S' m) = pg_hold_count (page_of S m)"
    "pg_valid (page_of S' m) = pg_valid (page_of S m)" "pg_dirty (page_of S' m) = pg_dirty (page_of S m)"
    "pg_object (page_of S' m) = pg_object (page_of S m)"
  using core_content [OF assms] by (simp_all add: content_def)

lemma core_rest:
  assumes "core d X S' = core d X S"
  shows "ob_ref_count (object_of S' ob) = ob_ref_count (object_of S ob)" "ob_dead (object_of S' ob) = ob_dead (object_of S ob)"
    "pm_pagemode (snd S') = pm_pagemode (snd S)" "v_act_scan_laundry_weight (fst S') = v_act_scan_laundry_weight (fst S)"
    "vmd_markers (v_domains (fst S') d) PQ_INACTIVE = vmd_markers (v_domains (fst S) d) PQ_INACTIVE"
  using assms unfolding core_def by (auto dest: fun_cong)

lemma stillD:
  assumes "still P d D"
  shows "pe_lock P l S = S" "pe_page_trylock P m S" "pe_object_trywlock P x S" "\<not> ve_page_busied (pe_vm P) s m"
    "core d (- {m}) (pe_op P y m S) = core d (- {m}) S" "tallies d (pe_op P y m S) = tallies d S"
    "queues d (pe_op P vm_page_dequeue_locked m S) = dequeued m (queues d S)"
    "queues d (pe_op P (Shared vm_page_deactivate) m S) = enqueued PQ_INACTIVE m (queues d S)"
    "queues d (pe_op P (Shared vm_page_launder) m S) = enqueued PQ_LAUNDRY m (queues d S)"
    "queues d (pe_op P (Shared vm_page_free) m S) = queues d S"
    "queues d (pe_op P (Shared vm_page_test_dirty) m S) = queues d S"
    "queues d (pe_op P (Shared pmap_remove_all) m S) = queues d S"
    "snd (ve_ts_referenced (pe_vm P) m s) = s" "pe_wakeup_laundry P S = S"
    "ve_swapout_run (pe_vm P) s = s" "ve_swapout_run_idle (pe_vm P) s = s"
    "ve_vm_lowmem (pe_vm P) s = s" "ve_uma_reclaim (pe_vm P) s = s"
    "page_effect D y m (content S m) (content (pe_op P y m S) m)"
  using assms unfolding still_def same_state_def by (simp_all del: split_paired_All)

lemma still_moves:
  assumes "still P d D" "x \<in> {vm_page_dequeue_locked, Shared vm_page_deactivate, Shared vm_page_launder}"
  shows "core d X (pe_op P x m S) = core d X S"
  using stillD(19) [OF assms(1), of x m S] assms(2)
  by (intro core_insert [OF stillD(5) [OF assms(1)]]) (auto simp: page_effect_def split: prod.splits)

lemma still_tests:
  assumes "still P d D"
  shows "pg_dirty (page_of (pe_op P (Shared vm_page_test_dirty) m S) m) \<noteq> 0 \<longleftrightarrow> pg_dirty (page_of S m) \<noteq> 0 \<or> D m"
    "pg_dirty (page_of S m) = 0 \<Longrightarrow> \<not> D m \<Longrightarrow> pg_dirty (page_of (pe_op P (Shared pmap_remove_all) m S) m) = 0"
  using stillD(19) [OF assms, of "Shared vm_page_test_dirty" m S] stillD(19) [OF assms, of "Shared pmap_remove_all" m S]
  by (simp_all add: page_effect_def content_def)

lemma queues_pl: "the_pl S d q = fst (queues d S) q"
  by (simp add: queues_def)

lemma queues_simps [simp]:
  "queues d (on_pol g S) = queues d S" "queues d (on_vm (upd_page m f) S) = queues d S"
  "queues d (on_vm (upd_cnt h) S) = queues d S"
  "queues d (on_vm (upd_pl d q k) S) = ((fst (queues d S))(q := k (fst (queues d S) q)), snd (queues d S))"
  by (auto simp: queues_def the_pl_def on_pol_def)

lemma core_simps [simp]:
  "pm_pagemode (g (snd S)) = pm_pagemode (snd S) \<Longrightarrow> core d X (on_pol g S) = core d X S"
  "core d X (on_vm (upd_cnt h) S) = core d X S" "core d X (on_vm (upd_pl d' q k) S) = core d X S"
  "tallies d (on_pol g S) = tallies d S" "tallies d (on_vm (upd_page m f) S) = tallies d S"
  "tallies d (on_vm (upd_pl d' q k) S) = tallies d S"
  by (auto simp: core_def content_def tallies_def upd_cnt_def upd_pl_def upd_pq_def upd_domain_def upd_page_def)

subsection \<open>Working the inactive queue off\<close>

definition clean :: "(pgid \<Rightarrow> bool) \<Rightarrow> ('w::len) pm \<Rightarrow> pgid \<Rightarrow> bool" where
  "clean D S m \<longleftrightarrow> pg_valid (page_of S m) = 0 \<or>
     pg_dirty (page_of S m) = 0 \<and> (ob_ref_count (object_of S (pg_object (page_of S m))) = 0 \<or> \<not> D m)"

text \<open>An ordinary page: no marker, not held, of an object that is not dead.\<close>

definition ordinary :: "('w::len) pm \<Rightarrow> pgid \<Rightarrow> bool" where
  "ordinary S m \<longleftrightarrow> \<not> pg_marker (page_of S m) \<and> pg_hold_count (page_of S m) = 0 \<and>
     \<not> ob_dead (object_of S (pg_object (page_of S m)))"

lemma core_clean:
  assumes "core d X S' = core d X S" "m \<in> X"
  shows "clean D S' m = clean D S m" "ordinary S' m = ordinary S m"
  by (simp_all add: clean_def ordinary_def core_pages [OF assms] core_rest [OF assms(1)])

lemma tallies_free:
  "tallies d (on_vm (upd_cnt (\<lambda>c. c\<lparr>v_dfree := v_dfree c + 1\<rparr>)) T) = (case tallies d T of (f, n, k) \<Rightarrow> (f + 1, n, k))"
  by (simp add: tallies_def upd_cnt_def)

lemma policy_free_still:
  assumes "still P d D"
  shows "queues d (policy_free P m S) = queues d S" "core d (- {m}) (policy_free P m S) = core d (- {m}) S"
    "tallies d (policy_free P m S) = (case tallies d S of (f, n, k) \<Rightarrow> (f + 1, n, k))"
  unfolding policy_free_def Let_def tallies_free queues_simps
  by (simp_all add: stillD(5,6,10) [OF assms])

text \<open>What a page of the inactive queue does to the queues and to the number of freed pages.\<close>

definition settled :: "domid \<Rightarrow> pgid \<Rightarrow> bool \<Rightarrow> ('w::len) pm \<Rightarrow> 'w pm \<Rightarrow> bool" where
  "settled d m c S S' \<longleftrightarrow> core d (- {m}) S' = core d (- {m}) S \<and>
     queues d S' = (if c then queues d S else enqueued PQ_LAUNDRY m (queues d S)) \<and>
     tallies d S' = (case tallies d S of (f, n, k) \<Rightarrow> (f + of_bool c, n, k))"

text \<open>A page of a referenced object is tested for modifications before it may be freed.\<close>

lemma policy_tests:
  assumes "still P d D"
    and "T = (if ob_ref_count (object_of S obj) \<noteq> 0
               then let S = pe_op P (Shared vm_page_test_dirty) m S
                    in if pg_dirty (page_of S m) = 0 then pe_op P (Shared pmap_remove_all) m S else S
               else S)"
  shows "core d (- {m}) T = core d (- {m}) S" "queues d T = queues d S" "tallies d T = tallies d S"
    "pg_dirty (page_of T m) = 0 \<longleftrightarrow> pg_dirty (page_of S m) = 0 \<and> (ob_ref_count (object_of S obj) = 0 \<or> \<not> D m)"
proof -
  show "core d (- {m}) T = core d (- {m}) S" "queues d T = queues d S" "tallies d T = tallies d S"
    by (simp_all add: assms(2) Let_def stillD [OF assms(1)])
  let ?t = "pe_op P (Shared vm_page_test_dirty) m S"
  note t = still_tests(1) [OF assms(1), of m S]
  show "pg_dirty (page_of T m) = 0 \<longleftrightarrow> pg_dirty (page_of S m) = 0 \<and> (ob_ref_count (object_of S obj) = 0 \<or> \<not> D m)"
  proof (cases "ob_ref_count (object_of S obj) = 0")
    case True
    then show ?thesis by (simp add: assms(2))
  next
    case False
    show ?thesis
    proof (cases "pg_dirty (page_of ?t m) = 0")
      case True
      then have "\<not> D m" "pg_dirty (page_of S m) = 0" using t by auto
      with still_tests(2) [OF assms(1) True] True False show ?thesis by (simp add: assms(2))
    next
      case dirty: False
      then show ?thesis using t False by (simp add: assms(2))
    qed
  qed
qed

lemma policy_clean_still:
  assumes "still P d D" "\<not> ob_dead (object_of S obj)" "policy_clean P m obj S = (freed, S')"
  shows "freed \<longleftrightarrow> pg_dirty (page_of S m) = 0 \<and> (ob_ref_count (object_of S obj) = 0 \<or> \<not> D m)" "settled d m freed S S'"
proof -
  define T where "T = (if ob_ref_count (object_of S obj) \<noteq> 0
               then let S = pe_op P (Shared vm_page_test_dirty) m S
                    in if pg_dirty (page_of S m) = 0 then pe_op P (Shared pmap_remove_all) m S else S
               else S)"
  note T = policy_tests [OF assms(1) T_def]
  have r: "(freed, S') = (if pg_dirty (page_of T m) = 0 then (True, policy_free P m T)
         else if \<not> ob_dead (object_of T obj) then (False, pe_op P (Shared vm_page_launder) m T)
         else (False, T))"
    using assms(3) unfolding policy_clean_def Let_def T_def by simp
  show "freed \<longleftrightarrow> pg_dirty (page_of S m) = 0 \<and> (ob_ref_count (object_of S obj) = 0 \<or> \<not> D m)"
    using r unfolding T(4) [symmetric] by (simp split: if_splits)
  show "settled d m freed S S'"
  proof (cases "pg_dirty (page_of T m) = 0")
    case True
    with r have "freed" "S' = policy_free P m T" by simp_all
    then show ?thesis by (simp add: settled_def policy_free_still [OF assms(1)] T)
  next
    case False
    with r assms(2) have "\<not> freed" "S' = pe_op P (Shared vm_page_launder) m T"
      by (simp_all add: core_rest [OF T(1)])
    then show ?thesis by (simp add: settled_def stillD [OF assms(1)] T split: prod.splits)
  qed
qed

lemma policy_reclaim_fifo:
  assumes "still P d D" "pm_pagemode (snd S) \<noteq> 0" "\<not> ob_dead (object_of S (pg_object (page_of S m)))"
  shows "\<exists>S'. policy_reclaim P d m (pg_object (page_of S m)) S = ((False, clean D S m, False), S') \<and>
    settled d m (clean D S m) S S'"
proof (cases "pg_valid (page_of S m) = 0")
  case True
  then show ?thesis
    by (simp add: policy_reclaim_def clean_def settled_def policy_free_still [OF assms(1)])
next
  case False
  let ?o = "pg_object (page_of S m)"
  obtain f S' where c: "policy_clean P m ?o S = (f, S')" by (cases "policy_clean P m ?o S") blast
  from policy_clean_still [OF assms(1,3) c] False assms(2) show ?thesis
    by (simp add: policy_reclaim_def clean_def c)
qed

definition settled_off :: "(pgid \<Rightarrow> bool) \<Rightarrow> domid \<Rightarrow> pgid \<Rightarrow> ('w::len) pm \<Rightarrow> 'w pm \<Rightarrow> bool" where
  "settled_off D d m S S' \<longleftrightarrow> core d (- {m}) S' = core d (- {m}) S \<and>
     queues d S' = (if clean D S m then dequeued m (queues d S) else enqueued PQ_LAUNDRY m (dequeued m (queues d S))) \<and>
     tallies d S' = (case tallies d S of (f, n, k) \<Rightarrow> (f + of_bool (clean D S m), n, k))"

lemma dequeued_insert:
  assumes "fst v PQ_INACTIVE = m # I" "k \<noteq> m" "k \<notin> set I"
    and "v' = (if c then dequeued m ((fst v)(PQ_INACTIVE := m # k # I), snd v)
               else enqueued PQ_LAUNDRY m (dequeued m ((fst v)(PQ_INACTIVE := m # k # I), snd v)))"
  shows "fst v' PQ_INACTIVE = k # I"
    "((fst v')(PQ_INACTIVE := I), snd v') = (if c then dequeued m v else enqueued PQ_LAUNDRY m (dequeued m v))"
  using assms by (auto simp: dequeued_def enqueued_def fun_eq_iff)

lemma policy_take_fifo:
  assumes "still P d D" "pm_pagemode (snd S) \<noteq> 0" "\<not> ob_dead (object_of S (pg_object (page_of S m)))"
    and I: "the_pl S d PQ_INACTIVE = m # I" "k = vmd_markers (v_domains (fst S) d) PQ_INACTIVE" "k \<noteq> m" "k \<notin> set I"
  shows "\<exists>S'. policy_take P d m (pg_object (page_of S m)) S = ((clean D S m, False, TAILQ_FIRST I), S') \<and>
    settled_off D d m S S'"
proof -
  define S1 where "S1 = on_vm (upd_pl d PQ_INACTIVE (\<lambda>l. TAILQ_INSERT_AFTER l m k)) S"
  define S2 where "S2 = pe_op P vm_page_dequeue_locked m S1"
  let ?v = "queues d S"
  have I': "fst ?v PQ_INACTIVE = m # I" using I(1) by (simp add: queues_pl)
  have c: "core d UNIV S2 = core d UNIV S" "tallies d S2 = tallies d S"
    by (simp_all add: S2_def S1_def stillD(6) [OF assms(1)] still_moves [OF assms(1)])
  note p = core_pages [OF c(1) UNIV_I]
  have q: "queues d S2 = dequeued m ((fst ?v)(PQ_INACTIVE := m # k # I), snd ?v)"
    by (simp add: S2_def S1_def stillD [OF assms(1)] I')
  have "pm_pagemode (snd S2) \<noteq> 0" "\<not> ob_dead (object_of S2 (pg_object (page_of S2 m)))"
    using assms(2,3) by (simp_all add: core_rest [OF c(1)] p)
  from policy_reclaim_fifo [OF assms(1) this] obtain S3 where
    r: "policy_reclaim P d m (pg_object (page_of S m)) S2 = ((False, clean D S m, False), S3)" "settled d m (clean D S m) S2 S3"
    using core_clean(1) [OF c(1) UNIV_I] p(5) by auto
  define S4 where "S4 = on_vm (upd_pl d PQ_INACTIVE (\<lambda>l. TAILQ_REMOVE l k)) S3"
  have "queues d S3 = (if clean D S m then dequeued m ((fst ?v)(PQ_INACTIVE := m # k # I), snd ?v)
               else enqueued PQ_LAUNDRY m (dequeued m ((fst ?v)(PQ_INACTIVE := m # k # I), snd ?v)))"
    using r(2) by (simp add: settled_def q)
  note v = dequeued_insert [OF I' I(3,4) this]
  have n: "TAILQ_NEXT (the_pl S3 d PQ_INACTIVE) k = TAILQ_FIRST I" by (simp add: queues_pl v(1) TAILQ_NEXT_def)
  have "policy_take P d m (pg_object (page_of S m)) S = ((clean D S m, False, TAILQ_FIRST I), S4)"
    unfolding policy_take_def Let_def I(2) [symmetric] S1_def [symmetric] S2_def [symmetric] r(1)
    by (simp add: stillD [OF assms(1)] n S4_def)
  moreover have "settled_off D d m S S4"
    using r(2) v I(4) core_mono [OF c(1) subset_UNIV] by (simp add: settled_off_def settled_def S4_def c)
  ultimately show ?thesis by blast
qed

lemma policy_inact_page_fifo:
  assumes "still P d D" "pm_pagemode (snd S) \<noteq> 0" "ordinary S m"
    and I: "the_pl S d PQ_INACTIVE = m # I" "vmd_markers (v_domains (fst S) d) PQ_INACTIVE \<notin> set (m # I)"
  shows "\<exists>S'. policy_inact_page P d m S = Some ((False, clean D S m, False), TAILQ_FIRST I, S') \<and> settled_off D d m S S'"
proof -
  define S1 where "S1 = on_pol (\<lambda>g. g\<lparr>pm_pdpages := pm_pdpages g + 1\<rparr>) S"
  have c: "core d X S1 = core d X S" "queues d S1 = queues d S" "tallies d S1 = tallies d S" for X
    by (simp_all add: S1_def)
  note p = core_pages [OF c(1) UNIV_I] core_rest [OF c(1)]
  have o: "pg_marker (page_of S1 m) = False" "pg_hold_count (page_of S1 m) = 0"
    "\<not> ob_dead (object_of S1 (pg_object (page_of S1 m)))" "pm_pagemode (snd S1) \<noteq> 0"
    using assms(2,3) unfolding ordinary_def by (simp_all add: p)
  have "the_pl S1 d PQ_INACTIVE = m # I" "vmd_markers (v_domains (fst S1) d) PQ_INACTIVE \<notin> set (m # I)"
    using I by (simp_all add: S1_def)
  with policy_take_fifo [OF assms(1) o(4,3) _ refl] obtain S' where
    t: "policy_take P d m (pg_object (page_of S1 m)) S1 = ((clean D S1 m, False, TAILQ_FIRST I), S')" "settled_off D d m S1 S'"
    by auto
  have "policy_inact_page P d m S = Some ((False, clean D S m, False), TAILQ_FIRST I, S')"
    using o t(1) unfolding policy_inact_page_def Let_def S1_def [symmetric]
    by (simp add: vm_pageout_page_lock_def policy_object_lock_def stillD [OF assms(1)] core_clean [OF c(1) UNIV_I])
  moreover have "settled_off D d m S S'" using t(2) unfolding settled_off_def c core_clean [OF c(1) UNIV_I] .
  ultimately show ?thesis by blast
qed

text \<open>The three lists of \<open>evict\<close> on the queues of the domain; \<open>X\<close> are the pages left alone.\<close>

definition worked :: "domid \<Rightarrow> pgid set \<Rightarrow> ('w::len) pm \<Rightarrow> 'w pm \<Rightarrow> pgid list \<times> pgid list \<times> pgid list \<Rightarrow> bool" where
  "worked d X S S' e \<longleftrightarrow> (case e of (f, l, r) \<Rightarrow>
     core d X S' = core d X S \<and> tallies d S' = (case tallies d S of (c, n, k) \<Rightarrow> (c + int (length f), n, k)) \<and>
     the_pl S' d PQ_INACTIVE = r \<and> the_pl S' d PQ_LAUNDRY = the_pl S d PQ_LAUNDRY @ l \<and>
     (\<forall>q. q \<noteq> PQ_INACTIVE \<longrightarrow> q \<noteq> PQ_LAUNDRY \<longrightarrow> the_pl S' d q = the_pl S d q) \<and>
     snd (queues d S') PQ_ACTIVE = snd (queues d S) PQ_ACTIVE)"

text \<open>The pages of \<open>I\<close> are ordinary, each is on the inactive queue once and on no other queue.\<close>

definition lined_up :: "domid \<Rightarrow> ('w::len) pm \<Rightarrow> pgid list \<Rightarrow> bool" where
  "lined_up d S I \<longleftrightarrow> pm_pagemode (snd S) \<noteq> 0 \<and> the_pl S d PQ_INACTIVE = I \<and> distinct I \<and>
     vmd_markers (v_domains (fst S) d) PQ_INACTIVE \<notin> set I \<and> (\<forall>m\<in>set I. ordinary S m) \<and>
     (\<forall>q m. q \<noteq> PQ_INACTIVE \<longrightarrow> m \<in> set I \<longrightarrow> m \<notin> set (the_pl S d q))"

lemma lined_up_step:
  assumes "lined_up d S (m # I)" "settled_off D d m S S'"
  shows "lined_up d S' I" "\<And>q. q \<noteq> PQ_INACTIVE \<Longrightarrow> q \<noteq> PQ_LAUNDRY \<Longrightarrow> the_pl S' d q = the_pl S d q"
    "the_pl S' d PQ_LAUNDRY = the_pl S d PQ_LAUNDRY @ (if clean D S m then [] else [m])"
    "snd (queues d S') PQ_ACTIVE = snd (queues d S) PQ_ACTIVE"
    "\<And>x. x \<in> set I \<Longrightarrow> clean D S' x = clean D S x"
proof -
  have c: "core d (- {m}) S' = core d (- {m}) S" using assms(2) by (simp add: settled_off_def)
  have x: "x \<in> - {m}" if "x \<in> set I" for x using assms(1) that by (auto simp: lined_up_def)
  have n: "m \<notin> set (fst (queues d S) q)" if "q \<noteq> PQ_INACTIVE" for q
    using assms(1) that by (simp add: lined_up_def queues_pl)
  have I: "fst (queues d S) PQ_INACTIVE = m # I" using assms(1) by (simp add: lined_up_def queues_pl)
  have p: "the_pl S' d q = (if q = PQ_INACTIVE then I else if q = PQ_LAUNDRY then the_pl S d q @ (if clean D S m then [] else [m])
      else the_pl S d q)" for q
    using assms(2) n [of q] I
    by (cases "q = PQ_LAUNDRY") (simp_all add: settled_off_def queues_pl dequeued_def enqueued_def remove1_idem)
  then show "\<And>q. q \<noteq> PQ_INACTIVE \<Longrightarrow> q \<noteq> PQ_LAUNDRY \<Longrightarrow> the_pl S' d q = the_pl S d q"
    "the_pl S' d PQ_LAUNDRY = the_pl S d PQ_LAUNDRY @ (if clean D S m then [] else [m])" by simp_all
  show "snd (queues d S') PQ_ACTIVE = snd (queues d S) PQ_ACTIVE"
    using assms(2) n [of PQ_ACTIVE] by (simp add: settled_off_def dequeued_def enqueued_def)
  show "\<And>x. x \<in> set I \<Longrightarrow> clean D S' x = clean D S x" using core_clean(1) [OF c x] .
  show "lined_up d S' I"
    using assms(1) core_clean(2) [OF c x] unfolding lined_up_def core_rest [OF c] by (auto simp: p)
qed

lemma worked_step:
  assumes "lined_up d S (m # I)" "settled_off D d m S S1" "worked d (- set I) S1 S' (f, l, r)"
  shows "worked d (- set (m # I)) S S' (if clean D S m then (m # f, l, r) else (f, m # l, r))"
proof -
  have "core d (- set (m # I)) S1 = core d (- set (m # I)) S"
    by (rule core_mono [of _ "- {m}"]) (use assms(2) in \<open>auto simp: settled_off_def\<close>)
  moreover have "core d (- set (m # I)) S' = core d (- set (m # I)) S1"
    by (rule core_mono [of _ "- set I"]) (use assms(3) in \<open>auto simp: worked_def\<close>)
  ultimately have c: "core d (- set (m # I)) S' = core d (- set (m # I)) S" by simp
  have w: "the_pl S' d PQ_INACTIVE = r" "the_pl S' d PQ_LAUNDRY = the_pl S1 d PQ_LAUNDRY @ l"
    "\<And>q. q \<noteq> PQ_INACTIVE \<Longrightarrow> q \<noteq> PQ_LAUNDRY \<Longrightarrow> the_pl S' d q = the_pl S1 d q"
    "snd (queues d S') PQ_ACTIVE = snd (queues d S1) PQ_ACTIVE"
    "tallies d S' = (case tallies d S1 of (c, n, k) \<Rightarrow> (c + int (length f), n, k))"
    using assms(3) by (simp_all add: worked_def)
  have t: "tallies d S1 = (case tallies d S of (f, n, k) \<Rightarrow> (f + of_bool (clean D S m), n, k))"
    using assms(2) by (simp add: settled_off_def)
  note u = lined_up_step(2-4) [OF assms(1,2)]
  show ?thesis
    unfolding worked_def if_distrib [of "case_prod _"] using c
    by (cases "clean D S m"; cases "tallies d S") (simp_all add: w t u)
qed

lemma policy_inact_loop_fifo:
  assumes "still P d D"
  shows "lined_up d S I \<Longrightarrow> length I \<le> n \<Longrightarrow>
    \<exists>b' S'. policy_inact_loop P d n (TAILQ_FIRST I) k addl b S =
        Some (k - int (length (fst (evict (clean D S) (nat k) I))), addl, b', S') \<and>
      worked d (- set I) S S' (evict (clean D S) (nat k) I)"
proof (induction I arbitrary: n k addl b S)
  case Nil
  have "evict (clean D S) (nat k) [] = ([], [], [])" by (cases "nat k") simp_all
  moreover have "policy_inact_loop P d n None k addl b S = Some (k, addl, b, S)" by (cases n) simp_all
  ultimately show ?case using Nil by (auto simp: worked_def lined_up_def split: prod.splits)
next
  case (Cons m I)
  then obtain n' where n: "n = Suc n'" "length I \<le> n'" by (cases n) auto
  show ?case
  proof (cases "k > 0")
    case False
    then have "evict (clean D S) (nat k) (m # I) = ([], [], m # I)" by simp
    then show ?thesis using False n Cons.prems by (auto simp: worked_def lined_up_def split: prod.splits)
  next
    case True
    have o: "pm_pagemode (snd S) \<noteq> 0" "ordinary S m" "the_pl S d PQ_INACTIVE = m # I"
      "vmd_markers (v_domains (fst S) d) PQ_INACTIVE \<notin> set (m # I)"
      using Cons.prems(1) by (simp_all add: lined_up_def)
    from policy_inact_page_fifo [OF assms o] obtain S1 where
      p: "policy_inact_page P d m S = Some ((False, clean D S m, False), TAILQ_FIRST I, S1)" and s: "settled_off D d m S S1" by blast
    have c: "evict (clean D S1) k I = evict (clean D S) k I" for k
      by (rule evict_cong) (rule lined_up_step(5) [OF Cons.prems(1) s])
    define k' where "k' = k - of_bool (clean D S m)"
    define b1 where "b1 = b\<lparr>pages_in_inactive_queue := pages_in_inactive_queue b + 1,
      pages_scanned := pages_scanned b + 1, pages_moved_to_higher_queue := pages_moved_to_higher_queue b + of_bool False\<rparr>"
    from Cons.IH [OF lined_up_step(1) [OF Cons.prems(1) s] n(2), of k' addl b1] obtain b' S' where
      l: "policy_inact_loop P d n' (TAILQ_FIRST I) k' addl b1 S1 =
            Some (k' - int (length (fst (evict (clean D S) (nat k') I))), addl, b', S')"
         "worked d (- set I) S1 S' (evict (clean D S) (nat k') I)" unfolding c by blast
    obtain f l r where e: "evict (clean D S) (nat k') I = (f, l, r)" by (cases "evict (clean D S) (nat k') I")
    obtain j where j: "nat k = Suc j" "nat k' = (if clean D S m then j else Suc j)" 
      using that [of "nat (k - 1)"] True by (cases "clean D S m") (simp_all add: k'_def)
    have e': "evict (clean D S) (nat k) (m # I) = (if clean D S m then (m # f, l, r) else (f, m # l, r))"
      using e j by (cases "clean D S m") simp_all
    have "policy_inact_loop P d n (TAILQ_FIRST (m # I)) k addl b S =
        Some (k - int (length (fst (evict (clean D S) (nat k) (m # I)))), addl, b', S')"
      using l(1) True unfolding e' e n(1) by (simp add: p k'_def b1_def)
    moreover have "worked d (- set (m # I)) S S' (evict (clean D S) (nat k) (m # I))"
      using worked_step [OF Cons.prems(1) s] l(2) unfolding e e' by blast
    ultimately show ?thesis by blast
  qed
qed

subsection \<open>Moving the active queue behind the inactive one\<close>

lemma core_upd_page:
  assumes "\<And>p. pg_marker (f p) = pg_marker p \<and> pg_hold_count (f p) = pg_hold_count p \<and>
    pg_valid (f p) = pg_valid p \<and> pg_dirty (f p) = pg_dirty p \<and> pg_object (f p) = pg_object p"
  shows "core d X (on_vm (upd_page m f) S) = core d X S"
  by (auto simp: core_def content_def upd_page_def fun_eq_iff assms)

lemma policy_references_still:
  assumes "still P d D"
  shows "core d X (snd (policy_references P m obj S)) = core d X S" "queues d (snd (policy_references P m obj S)) = queues d S"
    "tallies d (snd (policy_references P m obj S)) = tallies d S"
proof -
  have "core d X (on_vm (vm_page_aflag_clear m F) S) = core d X S" "queues d (on_vm (vm_page_aflag_clear m F) S) = queues d S"
    "tallies d (on_vm (vm_page_aflag_clear m F) S) = tallies d S" for F
    unfolding vm_page_aflag_clear_def by (auto intro: core_upd_page)
  moreover have "snd (policy_references P m obj S) \<in> {S, on_vm (vm_page_aflag_clear m {PGA_REFERENCED}) S}"
    by (simp add: policy_references_def Let_def case_prod_beta stillD(13) [OF assms] on_vm_def)
  ultimately show "core d X (snd (policy_references P m obj S)) = core d X S"
    "queues d (snd (policy_references P m obj S)) = queues d S"
    "tallies d (snd (policy_references P m obj S)) = tallies d S" by auto
qed

lemma policy_act_reclaim_fifo:
  assumes "still P d D" "pm_pagemode (snd S) \<noteq> 0"
  shows "\<exists>S'. policy_act_reclaim P m k S = ((k, True), S') \<and> same_state d UNIV S S' \<and>
    queues d S' = enqueued PQ_INACTIVE m (dequeued m (queues d S))"
proof -
  define S1 where "S1 = on_pol (\<lambda>g. g\<lparr>pm_pdpages := pm_pdpages g + 1\<rparr>) S"
  obtain a S2 where r: "policy_references P m (pg_object (page_of S1 m)) S1 = (a, S2)"
    by (cases "policy_references P m (pg_object (page_of S1 m)) S1") blast
  define S3 where "S3 = on_vm (upd_page m (\<lambda>p. p\<lparr>pg_act_count := act_count_update (pe_vm P) a (pg_act_count p)\<rparr>)) S2"
  have "core d UNIV S3 = core d UNIV S2" unfolding S3_def by (rule core_upd_page) simp
  then have c: "core d UNIV S3 = core d UNIV S" "tallies d S3 = tallies d S" "queues d S3 = queues d S"
    using policy_references_still(1) [OF assms(1), of UNIV m "pg_object (page_of S1 m)" S1]
      policy_references_still(2,3) [OF assms(1), of m "pg_object (page_of S1 m)" S1] unfolding r snd_conv
    by (simp_all add: S1_def S3_def)
  have "pm_pagemode (snd S3) \<noteq> 0" using assms(2) by (simp add: core_rest [OF c(1)])
  then have "policy_act_reclaim P m k S =
      ((k, True), pe_op P (Shared vm_page_deactivate) m (pe_op P vm_page_dequeue_locked m S3))"
    unfolding policy_act_reclaim_def Let_def S1_def [symmetric] r prod.case S3_def [symmetric] by simp
  then show ?thesis by (simp add: same_state_def stillD(6-8) [OF assms(1)] still_moves [OF assms(1)] c)
qed

definition moved :: "domid \<Rightarrow> ('w::len) pm \<Rightarrow> 'w pm \<Rightarrow> bool" where
  "moved d S S' \<longleftrightarrow> same_state d UNIV S S' \<and> the_pl S' d PQ_LAUNDRY = the_pl S d PQ_LAUNDRY \<and>
     the_pl S' d PQ_INACTIVE = the_pl S d PQ_INACTIVE @ the_pl S d PQ_ACTIVE \<and> the_pl S' d PQ_ACTIVE = []"

definition actives :: "domid \<Rightarrow> ('w::len) pm \<Rightarrow> pgid list \<Rightarrow> bool" where
  "actives d S A \<longleftrightarrow> pm_pagemode (snd S) \<noteq> 0 \<and> the_pl S d PQ_ACTIVE = A \<and> distinct A \<and>
     (\<forall>m\<in>set A. \<not> pg_marker (page_of S m)) \<and> (\<forall>q m. q \<noteq> PQ_ACTIVE \<longrightarrow> m \<in> set A \<longrightarrow> m \<notin> set (the_pl S d q))"

lemma actives_step:
  assumes "actives d S (m # A)" "same_state d UNIV S S'" "queues d S' = enqueued PQ_INACTIVE m (dequeued m (queues d S))"
  shows "actives d S' A" "the_pl S' d PQ_INACTIVE = the_pl S d PQ_INACTIVE @ [m]"
    "the_pl S' d PQ_LAUNDRY = the_pl S d PQ_LAUNDRY"
proof -
  have c: "core d UNIV S' = core d UNIV S" using assms(2) by (simp add: same_state_def)
  have n: "m \<notin> set (fst (queues d S) q)" if "q \<noteq> PQ_ACTIVE" for q
    using assms(1) that by (simp add: actives_def queues_pl)
  have A: "fst (queues d S) PQ_ACTIVE = m # A" using assms(1) by (simp add: actives_def queues_pl)
  have p: "the_pl S' d q = (if q = PQ_ACTIVE then A else if q = PQ_INACTIVE then the_pl S d q @ [m] else the_pl S d q)" for q
    using assms(3) n [of q] A
    by (cases "q = PQ_INACTIVE") (simp_all add: queues_pl dequeued_def enqueued_def remove1_idem)
  then show "the_pl S' d PQ_INACTIVE = the_pl S d PQ_INACTIVE @ [m]" "the_pl S' d PQ_LAUNDRY = the_pl S d PQ_LAUNDRY" by simp_all
  show "actives d S' A" using assms(1) unfolding actives_def core_pages [OF c UNIV_I] core_rest [OF c] by (auto simp: p)
qed

lemma policy_act_loop_fifo:
  assumes "still P d D" "k > 0"
  shows "actives d S A \<Longrightarrow> scanned + int (length A) \<le> maxscan \<Longrightarrow>
    \<exists>b' S'. policy_act_loop P d 0 maxscan (TAILQ_FIRST A) scanned k b S = Some (b', S') \<and> moved d S S'"
proof (induction A arbitrary: scanned b S)
  case Nil
  then show ?case by (simp add: moved_def same_state_def actives_def)
next
  case (Cons m A)
  have o: "pm_pagemode (snd S) \<noteq> 0" "\<not> pg_marker (page_of S m)" "the_pl S d PQ_ACTIVE = m # A"
    using Cons.prems(1) by (simp_all add: actives_def)
  obtain S1 where r: "policy_act_reclaim P m k S = ((k, True), S1)" "same_state d UNIV S S1"
    "queues d S1 = enqueued PQ_INACTIVE m (dequeued m (queues d S))"
    using policy_act_reclaim_fifo [OF assms(1) o(1), of m k] by auto
  have p: "policy_act_page P d m k S = Some ((k, True), TAILQ_FIRST A, S1)"
    using o by (simp add: policy_act_page_def vm_pageout_page_lock_def stillD [OF assms(1)] r(1) TAILQ_NEXT_def)
  note s = actives_step [OF Cons.prems(1) r(2,3)]
  have "scanned + 1 + int (length A) \<le> maxscan" using Cons.prems(2) by simp
  from Cons.IH [OF s(1) this] obtain b' S' where
    l: "policy_act_loop P d 0 maxscan (TAILQ_FIRST A) (scanned + 1) k (b\<lparr>pages_in_active_queue := pages_in_active_queue b + 1,
          pages_scanned := pages_scanned b + 1, pages_moved_to_lower_queue := pages_moved_to_lower_queue b + 1\<rparr>) S1 = Some (b', S')"
       "moved d S1 S'" by blast
  have "policy_act_loop P d 0 maxscan (TAILQ_FIRST (m # A)) scanned k b S = Some (b', S')"
    using l(1) Cons.prems(2) assms(2) by (simp add: p)
  moreover have "moved d S S'" using l(2) s r(2) o(3) by (simp add: moved_def same_state_def actives_def)
  ultimately show ?case by blast
qed

lemma last_scan_still:
  "core d X (on_vm (upd_domain d (\<lambda>v. v\<lparr>vmd_last_active_scan := t\<rparr>)) S) = core d X S"
  "tallies d (on_vm (upd_domain d (\<lambda>v. v\<lparr>vmd_last_active_scan := t\<rparr>)) S) = tallies d S"
  "queues d (on_vm (upd_domain d (\<lambda>v. v\<lparr>vmd_last_active_scan := t\<rparr>)) S) = queues d S"
  by (simp_all add: core_def content_def tallies_def queues_def the_pl_def the_pq_def upd_domain_def cong: if_cong)

lemma policy_scan_active_fifo:
  assumes "still P d D" "actives d S A" "snd (queues d S) PQ_ACTIVE = int (length A)"
  shows "\<exists>c b' S'. policy_scan_active P d k b S = Some (c, b', S') \<and>
    (if k > 0 then moved d S S' else same_state d UNIV S S' \<and> queues d S' = queues d S)"
proof -
  define S1 where "S1 = (if k > 0 \<and> int (length A) > 0
    then on_vm (upd_domain d (\<lambda>v. v\<lparr>vmd_last_active_scan := v_ticks (fst S)\<rparr>)) S else S)"
  have c: "core d UNIV S1 = core d UNIV S" "tallies d S1 = tallies d S" "queues d S1 = queues d S"
    by (simp_all add: S1_def last_scan_still)
  have p: "the_pl S1 d q = the_pl S d q" for q by (simp add: queues_pl c)
  have a: "actives d S1 A" using assms(2) unfolding actives_def core_pages [OF c(1) UNIV_I] core_rest [OF c(1)] p .
  have n: "pq_cnt (the_pq (fst S) d PQ_ACTIVE) = int (length A)" using assms(3) by (simp add: queues_def)
  have A: "the_pl S1 d PQ_ACTIVE = A" "pm_pagemode (snd S) \<noteq> 0" using a assms(2) by (simp_all add: actives_def)
  have e: "policy_scan_active P d k b S =
      Option.bind (policy_act_loop P d 0 (int (length A)) (TAILQ_FIRST A) 0 k b S1) (\<lambda>(b, S). Some (int (length A), b, S))"
    using A by (simp add: policy_scan_active_def Let_def stillD(1) [OF assms(1)] n S1_def queues_pl last_scan_still)
  show ?thesis
  proof (cases "k > 0")
    case True
    from policy_act_loop_fifo [OF assms(1) True a, of 0 "int (length A)" b] obtain b' S' where
      "policy_act_loop P d 0 (int (length A)) (TAILQ_FIRST A) 0 k b S1 = Some (b', S')" "moved d S1 S'" by auto
    moreover from this(2) have "moved d S S'" by (simp add: moved_def same_state_def c p)
    ultimately show ?thesis using e True by simp
  next
    case False
    then have "policy_act_loop P d 0 (int (length A)) (TAILQ_FIRST A) 0 k b S1 = Some (b, S1)" by (cases A) simp_all
    then show ?thesis using e False c by (simp add: same_state_def)
  qed
qed

subsection \<open>The whole scan\<close>

lemma policy_request_laundry_still:
  assumes "still P d D"
  shows "core d X (policy_request_laundry P a k S) = core d X S" "tallies d (policy_request_laundry P a k S) = tallies d S"
    "queues d (policy_request_laundry P a k S) = queues d S"
proof -
  have "tallies d (on_vm (upd_cnt (\<lambda>c. c\<lparr>v_pdshortfalls := v_pdshortfalls c + 1\<rparr>)) T) = tallies d T" for T :: "'a pm"
    by (simp add: tallies_def upd_cnt_def)
  then show "core d X (policy_request_laundry P a k S) = core d X S" "tallies d (policy_request_laundry P a k S) = tallies d S"
    "queues d (policy_request_laundry P a k S) = queues d S"
    unfolding policy_request_laundry_def Let_def by (simp_all add: stillD(1,14) [OF assms])
qed

lemma policy_lowmem_still:
  assumes "still P d D"
  shows "core d X (policy_lowmem P d' k S) = core d X S" "tallies d (policy_lowmem P d' k S) = tallies d S"
    "queues d (policy_lowmem P d' k S) = queues d S"
  unfolding policy_lowmem_def Let_def
  by (simp_all add: stillD(17,18) [OF assms] on_vm_def)

lemma policy_target_still:
  assumes "policy_target P k S = (deficit, starting, S')"
  shows "core d X S' = core d X S" "tallies d S' = tallies d S" "queues d S' = queues d S"
  using assms by (auto simp: policy_target_def Let_def split: if_splits)

text \<open>No daemon comes near its vote for killing a process.\<close>

lemma mightbe_oom_calm:
  assumes "tallies d S = (f, n, k)" "0 \<le> k" "k + 1 < n"
  shows "\<exists>s. vm_pageout_mightbe_oom V d a b (fst S) = Some s \<and> core d X (s, snd S) = core d X S \<and>
    queues d (s, snd S) = queues d S \<and> v_dfree (v_cnt s) = f"
proof -
  have t: "v_dfree (v_cnt (fst S)) = f" "v_pageout_oom_seq (fst S) = n" "vmd_oom_seq (v_domains (fst S) d) = k"
    using assms(1) by (simp_all add: tallies_def)
  have "vmd_oom_seq (v_domains (oom_count d a b (fst S)) d) < v_pageout_oom_seq (oom_count d a b (fst S))"
    using assms(2,3) by (simp add: oom_count_def t)
  then show ?thesis
    by (simp add: vm_pageout_mightbe_oom_def Let_def)
      (simp add: oom_cast_def oom_count_def core_def content_def queues_def the_pl_def the_pq_def upd_domain_def t cong: if_cong)
qed

lemma evict_parts: "evict c k q = (f, l, r) \<Longrightarrow> set q = set f \<union> set l \<union> set r"
proof (induction c k q arbitrary: f l r rule: evict.induct)
  case (1 c k m q)
  show ?case
  proof (cases "c m")
    case True
    obtain f' l' r' where e: "evict c k q = (f', l', r')" by (metis prod_cases3)
    have x: "f = m # f'" "l = l'" "r = r'" using 1(3) True e by simp_all
    show ?thesis using 1(1) [OF True e] by (simp add: x)
  next
    case False
    obtain f' l' r' where e: "evict c (Suc k) q = (f', l', r')" by (metis prod_cases3)
    have x: "f = f'" "l = m # l'" "r = r'" using 1(3) False e by simp_all
    show ?thesis using 1(2) [OF False e] by (simp add: x)
  qed
qed simp_all

text \<open>A domain at rest with ordinary pages, each on one queue, and far from killing a process.\<close>

definition fifo_ready :: "domid \<Rightarrow> ('w::len) pm \<Rightarrow> bool" where
  "fifo_ready d S \<longleftrightarrow> lined_up d S (the_pl S d PQ_INACTIVE) \<and> actives d S (the_pl S d PQ_ACTIVE) \<and>
     pq_cnt (the_pq (fst S) d PQ_INACTIVE) = int (length (the_pl S d PQ_INACTIVE)) \<and>
     pq_cnt (the_pq (fst S) d PQ_ACTIVE) = int (length (the_pl S d PQ_ACTIVE)) \<and>
     v_act_scan_laundry_weight (fst S) \<noteq> 0 \<and>
     0 \<le> vmd_oom_seq (v_domains (fst S) d) \<and> vmd_oom_seq (v_domains (fst S) d) + 1 < v_pageout_oom_seq (fst S)"

lemma worked_actives:
  assumes "worked d (- set (the_pl S d PQ_INACTIVE)) S S1 (evict c k (the_pl S d PQ_INACTIVE))" "actives d S A"
  shows "actives d S1 A"
proof -
  let ?X = "- set (the_pl S d PQ_INACTIVE)"
  obtain f l r where e: "evict c k (the_pl S d PQ_INACTIVE) = (f, l, r)" by (cases "evict c k (the_pl S d PQ_INACTIVE)")
  have w: "core d ?X S1 = core d ?X S" "the_pl S1 d PQ_INACTIVE = r" "the_pl S1 d PQ_LAUNDRY = the_pl S d PQ_LAUNDRY @ l"
    "\<And>q. q \<noteq> PQ_INACTIVE \<Longrightarrow> q \<noteq> PQ_LAUNDRY \<Longrightarrow> the_pl S1 d q = the_pl S d q"
    using assms(1) by (simp_all add: worked_def e)
  have n: "m \<notin> set (the_pl S d q)" if "q \<noteq> PQ_ACTIVE" "m \<in> set A" for q m
    using that assms(2) by (simp add: actives_def)
  have "m \<notin> set (the_pl S1 d q)" if "q \<noteq> PQ_ACTIVE" "m \<in> set A" for q m
    using n [OF _ that(2), of PQ_INACTIVE] n [OF _ that(2), of PQ_LAUNDRY] n [OF that] evict_parts [OF e] w(4) [of q]
    by (cases "q = PQ_INACTIVE"; cases "q = PQ_LAUNDRY") (simp_all add: w(2,3))
  moreover have "pg_marker (page_of S1 m) = pg_marker (page_of S m)" if "m \<in> set A" for m
    using core_pages(1) [OF w(1)] n [OF _ that, of PQ_INACTIVE] by simp
  ultimately show ?thesis using assms(2) w(4) [of PQ_ACTIVE] unfolding actives_def core_rest [OF w(1)] by auto
qed

lemma actives_core:
  assumes "actives d S A" "core d X S' = core d X S" "set A \<subseteq> X" "queues d S' = queues d S"
  shows "actives d S' A"
proof -
  have "pg_marker (page_of S' m) = pg_marker (page_of S m)" if "m \<in> set A" for m
    using core_pages(1) [OF assms(2)] assms(3) that by blast
  then show ?thesis
    using assms(1) unfolding actives_def core_rest [OF assms(2)] queues_pl assms(4) by simp
qed

text \<open>What the scan has done when it turns to the active queue.\<close>

lemma fifo_scan_inactive:
  assumes "still P d D" "fifo_ready d S"
    and t: "policy_target P pass (policy_lowmem P d pass S) = (deficit, starting, S0)"
    and e: "evict (clean D S) (nat starting) (the_pl S d PQ_INACTIVE) = (f, l, r)"
  obtains b1 S3 where
    "policy_scan P d pass S = do {
       shortage \<leftarrow> policy_inactq_shortage P deficit 0 S3;
       (active2, b, S) \<leftarrow> policy_scan_active P d shortage b1 S3;
       Some (starting \<le> int (length f), policy_benchmark b (pq_cnt (the_pq (fst S0) d PQ_INACTIVE)) active2 S)
     }"
    "v_act_scan_laundry_weight (fst S3) = v_act_scan_laundry_weight (fst S)" "actives d S3 (the_pl S d PQ_ACTIVE)"
    "snd (queues d S3) PQ_ACTIVE = int (length (the_pl S d PQ_ACTIVE))"
    "the_pl S3 d PQ_INACTIVE = r" "the_pl S3 d PQ_LAUNDRY = the_pl S d PQ_LAUNDRY @ l"
    "the_pl S3 d PQ_ACTIVE = the_pl S d PQ_ACTIVE" "v_dfree (v_cnt (fst S3)) = v_dfree (v_cnt (fst S)) + int (length f)"
proof -
  define I where "I = the_pl S d PQ_INACTIVE"
  have r: "lined_up d S I" "actives d S (the_pl S d PQ_ACTIVE)"
    and n: "snd (queues d S) PQ_INACTIVE = int (length I)" "snd (queues d S) PQ_ACTIVE = int (length (the_pl S d PQ_ACTIVE))"
    and X: "set (the_pl S d PQ_ACTIVE) \<subseteq> - set I"
    and o: "0 \<le> vmd_oom_seq (v_domains (fst S) d)" "vmd_oom_seq (v_domains (fst S) d) + 1 < v_pageout_oom_seq (fst S)"
    using assms(2) by (simp_all add: fifo_ready_def queues_def I_def) (auto simp: actives_def)
  have s0: "core d X S0 = core d X S" "tallies d S0 = tallies d S" "queues d S0 = queues d S" for X
    using policy_target_still [OF t, of d] by (simp_all add: policy_lowmem_still [OF assms(1)])
  have p0: "the_pl S0 d q = the_pl S d q" for q by (simp add: queues_pl s0)
  have "lined_up d S0 I" using r(1) unfolding lined_up_def core_rest [OF s0(1)] core_clean [OF s0(1) UNIV_I] p0 .
  moreover have c0: "clean D S0 = clean D S" by (intro ext core_clean(1) [OF s0(1) UNIV_I])
  ultimately obtain b1 S1 where
    l: "policy_inact_loop P d (length I) (TAILQ_FIRST I) starting 0 bench0 S0 = Some (starting - int (length f), 0, b1, S1)"
    and w: "worked d (- set I) S0 S1 (f, l, r)"
    using policy_inact_loop_fifo [OF assms(1) _ order_refl, of S0 I starting 0 bench0] e
    unfolding c0 I_def [symmetric] by auto
  define S2 where "S2 = policy_request_laundry P starting (starting - int (length f)) S1"
  note s2 = policy_request_laundry_still [OF assms(1), where a = starting and k = "starting - int (length f)" and S = S1,
    folded S2_def]
  have "tallies d S2 = (v_dfree (v_cnt (fst S)) + int (length f), v_pageout_oom_seq (fst S), vmd_oom_seq (v_domains (fst S) d))"
    using w by (simp add: worked_def s2 s0) (simp add: tallies_def)
  from mightbe_oom_calm [OF this o, where a = "starting - int (length f)" and b = starting and V = "pe_vm P" and X = "- set I"] obtain s where
    m: "vm_pageout_mightbe_oom (pe_vm P) d (starting - int (length f)) starting (fst S2) = Some s"
    and s3: "core d (- set I) (s, snd S2) = core d (- set I) S2" "queues d (s, snd S2) = queues d S2"
      "v_dfree (v_cnt s) = v_dfree (v_cnt (fst S)) + int (length f)" by blast
  have q3: "queues d (s, snd S2) = queues d S1" "core d (- set I) (s, snd S2) = core d (- set I) S1" by (simp_all add: s3 s2)
  have p3: "the_pl (s, snd S2) d q = the_pl S1 d q" for q by (simp add: queues_pl q3)
  have w1: "the_pl S1 d PQ_LAUNDRY = the_pl S d PQ_LAUNDRY @ l" "the_pl S1 d PQ_INACTIVE = r" "core d (- set I) S1 = core d (- set I) S"
    "the_pl S1 d PQ_ACTIVE = the_pl S d PQ_ACTIVE" "snd (queues d S1) PQ_ACTIVE = int (length (the_pl S d PQ_ACTIVE))"
    using w n(2) by (simp_all add: worked_def p0 s0)
  have a1: "actives d S1 (the_pl S d PQ_ACTIVE)"
    using worked_actives [of d S S1 "clean D S" "nat starting"] w r e s0 p0 by (simp add: worked_def I_def)
  have nI: "nat (pq_cnt (the_pq (fst S0) d PQ_INACTIVE)) = length I" "the_pl S0 d PQ_INACTIVE = I"
    using n(1) s0(3) p0 by (simp_all add: queues_def fun_eq_iff I_def)
  have id: "on_vm (ve_swapout_run (pe_vm P)) T = T" "on_vm (ve_swapout_run_idle (pe_vm P)) T = T" for T
    by (simp_all add: on_vm_def stillD(15,16) [OF assms(1)])
  show thesis
  proof (rule that [of "(s, snd S2)" b1])
    show "policy_scan P d pass S = do {
       shortage \<leftarrow> policy_inactq_shortage P deficit 0 (s, snd S2);
       (active2, b, S) \<leftarrow> policy_scan_active P d shortage b1 (s, snd S2);
       Some (starting \<le> int (length f), policy_benchmark b (pq_cnt (the_pq (fst S0) d PQ_INACTIVE)) active2 S)
     }"
      unfolding policy_scan_def Let_def t prod.case stillD(1) [OF assms(1)] nI l bind.bind_lunit id if_cancel
        S2_def [symmetric] m by simp
  qed (use w1 q3 p3 s3(3) actives_core [OF a1 q3(2) X q3(1)] core_rest(4) [OF q3(2)] core_rest(4) [OF w1(3)] in simp_all)
qed

text \<open>
  C5. With \<^verbatim>\<open>vm_pagemode\<close> set, a scan implements the first-in first-out policy: the inactive queue
  is worked off from its head until enough clean pages are freed, the others go to the laundry in
  order, no page is spared for its references, and the active queue moves behind the inactive one in
  its order, as a whole or not at all. A page is clean if it is invalid, or not dirty and, where its
  object is referenced, not modified through a mapping either (\<open>D\<close>). This is for a domain with nobody
  else at work (\<open>still\<close>) whose pages are no markers, not held, of live objects and on one queue
  each, whose counts are right, and which is far from a vote to kill a process (\<open>fifo_ready\<close>).
\<close>

theorem fifo_scan_is_fifo:
  assumes "still P d D" "fifo_ready d S"
    and t: "policy_target P pass (policy_lowmem P d pass S) = (deficit, starting, S0)"
    and e: "evict (clean D S) (nat starting) (the_pl S d PQ_INACTIVE) = (f, l, r)"
  shows "\<exists>S'. policy_scan P d pass S = Some (starting \<le> int (length f), S') \<and>
    v_dfree (v_cnt (fst S')) = v_dfree (v_cnt (fst S)) + int (length f) \<and>
    the_pl S' d PQ_LAUNDRY = the_pl S d PQ_LAUNDRY @ l \<and>
    (the_pl S' d PQ_INACTIVE = r \<and> the_pl S' d PQ_ACTIVE = the_pl S d PQ_ACTIVE \<or>
     the_pl S' d PQ_INACTIVE = r @ the_pl S d PQ_ACTIVE \<and> the_pl S' d PQ_ACTIVE = [])"
proof -
  obtain b1 S3 where s: "policy_scan P d pass S = do {
       shortage \<leftarrow> policy_inactq_shortage P deficit 0 S3;
       (active2, b, S) \<leftarrow> policy_scan_active P d shortage b1 S3;
       Some (starting \<le> int (length f), policy_benchmark b (pq_cnt (the_pq (fst S0) d PQ_INACTIVE)) active2 S)}"
    and c3: "v_act_scan_laundry_weight (fst S3) = v_act_scan_laundry_weight (fst S)" and a3: "actives d S3 (the_pl S d PQ_ACTIVE)"
      "snd (queues d S3) PQ_ACTIVE = int (length (the_pl S d PQ_ACTIVE))"
    and p3: "the_pl S3 d PQ_INACTIVE = r" "the_pl S3 d PQ_LAUNDRY = the_pl S d PQ_LAUNDRY @ l"
      "the_pl S3 d PQ_ACTIVE = the_pl S d PQ_ACTIVE" "v_dfree (v_cnt (fst S3)) = v_dfree (v_cnt (fst S)) + int (length f)"
    using fifo_scan_inactive [OF assms] .
  obtain k where k: "policy_inactq_shortage P deficit 0 S3 = Some k"
    using assms(2) c3 by (simp add: policy_inactq_shortage_def Let_def fifo_ready_def)
  from policy_scan_active_fifo [OF assms(1) a3, of k b1] obtain c b2 S4 where
    v: "policy_scan_active P d k b1 S3 = Some (c, b2, S4)"
      "if k > 0 then moved d S3 S4 else same_state d UNIV S3 S4 \<and> queues d S4 = queues d S3" by auto
  define S5 where "S5 = policy_benchmark b2 (pq_cnt (the_pq (fst S0) d PQ_INACTIVE)) c S4"
  have s5: "fst S5 = fst S4" "the_pl S5 d q = the_pl S4 d q" for q by (simp_all add: S5_def policy_benchmark_def)
  have p4: "the_pl S4 d q = the_pl S3 d q" if "queues d S4 = queues d S3" for q using that by (simp add: queues_pl)
  have "policy_scan P d pass S = Some (starting \<le> int (length f), S5)" by (simp add: s k v(1) S5_def)
  moreover have "v_dfree (v_cnt (fst S5)) = v_dfree (v_cnt (fst S)) + int (length f)"
    using v(2) p3(4) s5(1) by (auto simp: moved_def same_state_def tallies_def split: if_splits)
  moreover have "the_pl S5 d PQ_LAUNDRY = the_pl S d PQ_LAUNDRY @ l"
    "the_pl S5 d PQ_INACTIVE = r \<and> the_pl S5 d PQ_ACTIVE = the_pl S d PQ_ACTIVE \<or>
     the_pl S5 d PQ_INACTIVE = r @ the_pl S d PQ_ACTIVE \<and> the_pl S5 d PQ_ACTIVE = []"
    using v(2) p3 p4 by (cases "k > 0"; simp add: s5 moved_def)+
  ultimately show ?thesis by blast
qed

subsection \<open>A machine whose policy is first-in first-out\<close>

text \<open>
  The pages 30, 10, 31 and 11 are on the inactive queue, 10 and 11 are dirty, and 30 was modified
  through a mapping without having been marked dirty; 20 and 21 are on the active queue. One page is
  wanted: 31 is the first that may be freed.
\<close>

definition enqueue0 :: "pqueue \<Rightarrow> pgid \<Rightarrow> 64 pm \<Rightarrow> 64 pm" where
  "enqueue0 q m = on_vm (upd_pq 0 q (\<lambda>p. p\<lparr>pq_pl := pq_pl p @ [m], pq_cnt := pq_cnt p + 1\<rparr>))"

definition dequeue0 :: "pgid \<Rightarrow> 64 pm \<Rightarrow> 64 pm" where
  "dequeue0 m = on_vm (upd_domain 0 (\<lambda>v. v\<lparr>vmd_pagequeues := (\<lambda>q. case vmd_pagequeues v q of p \<Rightarrow>
     p\<lparr>pq_pl := remove1 m (pq_pl p), pq_cnt := pq_cnt p - of_bool (m \<in> set (pq_pl p))\<rparr>)\<rparr>))"

definition mapped0 :: "pgid \<Rightarrow> bool" where
  "mapped0 m \<longleftrightarrow> m = 30"

definition test_dirty0 :: "pgid \<Rightarrow> 64 pm \<Rightarrow> 64 pm" where
  "test_dirty0 m S = (if mapped0 m then on_vm (upd_page m (\<lambda>p. p\<lparr>pg_dirty := 255\<rparr>)) S else S)"

definition op0 :: "policy_op \<Rightarrow> pgid \<Rightarrow> 64 pm \<Rightarrow> 64 pm" where
  "op0 x m S = (if x = vm_page_dequeue_locked then dequeue0 m S
     else if x = Shared vm_page_deactivate then enqueue0 PQ_INACTIVE m S
     else if x = Shared vm_page_launder then enqueue0 PQ_LAUNDRY m S
     else if x = Shared vm_page_test_dirty then test_dirty0 m S else S)"

definition penv0 :: "64 penv" where
  "penv0 = \<lparr>pe_vm = venv0, pe_op = op0, pe_lock = (\<lambda>_ S. S), pe_page_trylock = (\<lambda>_ _. True),
     pe_object_trywlock = (\<lambda>_ _. True), pe_cnt_inc = (\<lambda>_ _ S. S), pe_time_uptime = (\<lambda>_. 0),
     pe_paging_target = (\<lambda>_. 1), pe_wakeup_laundry = (\<lambda>S. S), pe_local_marker = 999\<rparr>"

definition queue1 :: "pqueue \<Rightarrow> vm_pagequeue" where
  "queue1 q = (case q of
       PQ_ACTIVE \<Rightarrow> \<lparr>pq_pl = [20, 21], pq_cnt = 2, pq_pdpages = 0\<rparr>
     | PQ_INACTIVE \<Rightarrow> \<lparr>pq_pl = [30, 10, 31, 11], pq_cnt = 4, pq_pdpages = 0\<rparr>
     | PQ_LAUNDRY \<Rightarrow> \<lparr>pq_pl = [12], pq_cnt = 1, pq_pdpages = 0\<rparr>
     | PQ_UNSWAPPABLE \<Rightarrow> \<lparr>pq_pl = [], pq_cnt = 0, pq_pdpages = 0\<rparr>)"

definition pages1 :: "pgid \<Rightarrow> vm_page" where
  "pages1 m = (if m \<in> {10, 11} then (pages0 m)\<lparr>pg_queue := Some PQ_INACTIVE\<rparr> else pages0 m)"

definition pm0 :: "64 pm" where
  "pm0 = (vm0\<lparr>v_pages := pages1, v_domains := (\<lambda>_. domain0\<lparr>vmd_pagequeues := queue1\<rparr>)\<rparr>,
     \<lparr>pm_pageout_deficit = 0, pm_laundry_request = VM_LAUNDRY_IDLE, pm_pagemode = 1, pm_benchmark_on = 1,
      pm_queued_for_flush = 0, pm_moved_to_cache = 0, pm_lowmem_uptime = 0, pm_pdpages = 0,
      pm_inactive_count = 4, pm_active_count = 2, pm_laundry_count = 1, pm_log = []\<rparr>)"

lemma penv0_still: "still penv0 0 mapped0"
proof -
  have q: "queues 0 (enqueue0 q m S) = enqueued q m (queues 0 S)" for q m S
    by (auto simp: queues_def enqueued_def enqueue0_def the_pl_def upd_pq_def the_pq_def)
  have d: "queues 0 (dequeue0 m S) = dequeued m (queues 0 S)" for m S
    by (auto simp: queues_def dequeued_def dequeue0_def the_pl_def the_pq_def)
  have t: "queues 0 (test_dirty0 m S) = queues 0 S" for m S by (simp add: test_dirty0_def)
  have s: "same_state 0 X S (enqueue0 q m S)" "same_state 0 X S (dequeue0 m S)" "same_state 0 (- {m}) S (test_dirty0 m S)"
    for X q m S
    by (auto simp: same_state_def core_def content_def tallies_def enqueue0_def dequeue0_def test_dirty0_def
      upd_pq_def upd_domain_def upd_page_def)
  have c: "content (enqueue0 q m S) m = content S m" "content (dequeue0 m S) m = content S m" for q m S
    by (simp_all add: content_def enqueue0_def dequeue0_def upd_pq_def upd_domain_def)
  have e: "page_effect mapped0 (Shared vm_page_test_dirty) m (content S m) (content (test_dirty0 m S) m)" for m S
    by (simp add: page_effect_def content_def test_dirty0_def mapped0_def upd_page_def)
  have n: "same_state 0 X S S" for X and S :: "64 pm" by (simp add: same_state_def)
  have o: "same_state 0 (- {m}) S (op0 x m S)" for S x m by (simp add: op0_def s n)
  have p: "page_effect mapped0 x m (content S m) (content (op0 x m S) m)" for S x m
  proof (cases "x = Shared vm_page_test_dirty")
    case True
    then show ?thesis using e [of m S] by (simp add: op0_def)
  next
    case False
    then have "content (op0 x m S) m = content S m" by (simp add: op0_def c)
    with False show ?thesis by (simp add: page_effect_def split: prod.split)
  qed
  have u: "queues 0 (op0 vm_page_dequeue_locked m S) = dequeued m (queues 0 S)"
    "queues 0 (op0 (Shared vm_page_deactivate) m S) = enqueued PQ_INACTIVE m (queues 0 S)"
    "queues 0 (op0 (Shared vm_page_launder) m S) = enqueued PQ_LAUNDRY m (queues 0 S)"
    "queues 0 (op0 (Shared vm_page_free) m S) = queues 0 S" "queues 0 (op0 (Shared vm_page_test_dirty) m S) = queues 0 S"
    "queues 0 (op0 (Shared pmap_remove_all) m S) = queues 0 S" for m S
    by (simp_all add: op0_def q d t)
  show ?thesis unfolding still_def
    by (simp add: penv0_def o p u del: split_paired_All) (simp add: venv0_def)
qed

lemma pm0_ready: "fifo_ready 0 pm0"
proof -
  have "the_pl pm0 0 q = (case q of PQ_ACTIVE \<Rightarrow> [20, 21] | PQ_INACTIVE \<Rightarrow> [30, 10, 31, 11] | PQ_LAUNDRY \<Rightarrow> [12] | _ \<Rightarrow> [])"
    "pq_cnt (the_pq (fst pm0) 0 q) = (case q of PQ_ACTIVE \<Rightarrow> 2 | PQ_INACTIVE \<Rightarrow> 4 | PQ_LAUNDRY \<Rightarrow> 1 | _ \<Rightarrow> 0)" for q
    by (cases q; simp add: the_pl_def the_pq_def pm0_def queue1_def)+
  then show ?thesis
    by (simp add: fifo_ready_def lined_up_def actives_def pm0_def ordinary_def pages1_def pages0_def page0_def vm0_def domain0_def
      split: pqueue.split)
qed

theorem fifo_scan_is_fifo_witness:
  "\<exists>S'. policy_scan penv0 0 1 pm0 = Some (True, S') \<and> v_dfree (v_cnt (fst S')) = 1 \<and>
    the_pl S' 0 PQ_LAUNDRY = [12, 30, 10] \<and>
    (the_pl S' 0 PQ_INACTIVE = [11] \<and> the_pl S' 0 PQ_ACTIVE = [20, 21] \<or>
     the_pl S' 0 PQ_INACTIVE = [11, 20, 21] \<and> the_pl S' 0 PQ_ACTIVE = [])"
proof -
  have t: "policy_target penv0 1 (policy_lowmem penv0 0 1 pm0) = (0, 1, on_pol (\<lambda>g. g\<lparr>pm_pageout_deficit := 0\<rparr>) pm0)"
    by (simp add: policy_target_def policy_lowmem_def penv0_def pm0_def vm0_def)
  have e: "evict (clean mapped0 pm0) (nat 1) (the_pl pm0 0 PQ_INACTIVE) = ([31], [30, 10], [11])"
    by (simp add: the_pl_def the_pq_def pm0_def queue1_def clean_def pages1_def pages0_def page0_def mapped0_def vm0_def numeral_2_eq_2)
  have "the_pl pm0 0 PQ_LAUNDRY = [12]" "the_pl pm0 0 PQ_ACTIVE = [20, 21]" "v_dfree (v_cnt (fst pm0)) = 0"
    by (simp_all add: the_pl_def the_pq_def pm0_def queue1_def vm0_def counters0_def)
  with fifo_scan_is_fifo [OF penv0_still pm0_ready t e] show ?thesis by simp
qed

text \<open>Another thread takes page 10 off the queue while the lock of page 30 is waited for.\<close>

definition penv1 :: "64 penv" where
  "penv1 = penv0\<lparr>pe_page_trylock := (\<lambda>_ _. False),
     pe_lock := (\<lambda>_. on_vm (upd_pl 0 PQ_INACTIVE (filter (\<lambda>m. m \<noteq> 10))))\<rparr>"

lemma penv1_marker_kept: "marker_kept penv1"
proof -
  have "count_list (filter (\<lambda>m. m \<noteq> 10) l) 999 = count_list l (999::nat)" for l by (induction l) auto
  then show ?thesis by (simp add: marker_kept_def penv1_def penv0_def)
qed

lemma penv1_locked:
  "the_pl (page_locked penv1 0 PQ_INACTIVE m (marked penv1 0 PQ_INACTIVE m pm0)) 0 PQ_INACTIVE =
    filter (\<lambda>m. m \<noteq> 10) (TAILQ_INSERT_AFTER [30, 10, 31, 11] m 999)"
  by (simp add: page_locked_def marked_def penv1_def penv0_def) (simp add: the_pl_def the_pq_def pm0_def queue1_def)

lemma split_999:
  "[30, 999, 31, 11] = xs @ (999::nat) # ys \<Longrightarrow> 999 \<notin> set (xs @ ys) \<Longrightarrow> xs = [30] \<and> ys = [31, 11]"
  by (auto simp: Cons_eq_append_conv)

text \<open>So page 30 is found where it was, and 31 follows; page 10 is not, and 31 follows its place.\<close>

theorem page_lock_keeps_place_witness:
  "(\<exists>S'. vm_pageout_page_lock penv1 30 (Some 10) pm0 = Some (True, Some 31, S') \<and> the_pl S' 0 PQ_INACTIVE = [30, 31, 11]) \<and>
   (\<exists>S'. vm_pageout_page_lock penv1 10 (Some 31) pm0 = Some (False, Some 31, S') \<and> the_pl S' 0 PQ_INACTIVE = [30, 31, 11])"
proof -
  have k: "pe_local_marker penv1 = 999" "ve_page_domain (pe_vm penv1) (fst pm0) m = 0" "\<not> pe_page_trylock penv1 m pm0" for m
    by (simp_all add: penv1_def penv0_def venv0_def)
  have q: "pg_queue (page_of pm0 m) = Some PQ_INACTIVE" if "m \<in> {30, 10}" for m
    using that by (auto simp: pm0_def pages1_def pages0_def page0_def)
  have l: "the_pl pm0 0 PQ_INACTIVE = [30, 10, 31, 11]" by (simp add: the_pl_def the_pq_def pm0_def queue1_def)
  have r: "reads_place penv1 0 PQ_INACTIVE m True (page_locked penv1 0 PQ_INACTIVE m (marked penv1 0 PQ_INACTIVE m pm0))
    (vm_pageout_page_lock penv1 m nxt pm0)" if "m \<in> {30, 10}" for m nxt
    using page_lock_keeps_place [OF penv1_marker_kept q [OF that] k(2), of nxt] that k(1,3) by (auto simp: l)
  have "\<exists>S'. vm_pageout_page_lock penv1 m nxt pm0 = Some (30 = m, Some 31, S') \<and> the_pl S' 0 PQ_INACTIVE = [30, 31, 11]"
    if m: "m \<in> {30, 10}" for m nxt
  proof -
    have e: "filter (\<lambda>m. m \<noteq> 10) (TAILQ_INSERT_AFTER [30, 10, 31, 11] m 999) = [30, 999, 31, 11]" using m by auto
    let ?S = "page_locked penv1 0 PQ_INACTIVE m (marked penv1 0 PQ_INACTIVE m pm0)"
    from r [OF m, of nxt] have "vm_pageout_page_lock penv1 m nxt pm0 =
        Some (30 = m, Some 31, on_vm (upd_pl 0 PQ_INACTIVE (\<lambda>_. [30, 31, 11])) ?S)"
      unfolding reads_place_def penv1_locked k(1) e by (auto dest!: split_999)
    moreover have "the_pl (on_vm (upd_pl 0 PQ_INACTIVE (\<lambda>_. [30, 31, 11])) ?S) 0 PQ_INACTIVE = [30, 31, 11]" by simp
    ultimately show ?thesis by blast
  qed
  from this [of 30 "Some 10"] this [of 10 "Some 31"] show ?thesis by simp
qed

end
