(* ===== verification/Spec2Isabelle.thy ===== *)
theory Spec2Isabelle
  imports Policy_Props Ule_Prio_Props Tdq_Steal Cpu_Search Ule_Smp_Props Switch_Props Idle_Clock_Props
    Pageout_Props Pageout_Oom_Props Pageout_Clean_Props Pageout_Scan_Props Pageout_Reclaim_Props
    Dog Http_Transfer Http_Log_Props Http_Pool Balancer_Props Shell_Input Topology_Spec Page_Policy_Props
begin

text \<open>
  A verification library for the C programs of this repository, the work of operating system
  courses: variants of two files of the FreeBSD kernel, the scheduler and the page daemon, and
  the user programs of the courses CSE130 (a copy program, two HTTP servers, a load balancer) and
  CMPS 111 (a shell). Each program part has its own theory, translated from the source it names;
  the theories whose names end in \<^verbatim>\<open>_Props\<close> hold what is proved of it. This theory only gathers
  them.

  \<^bold>\<open>How the parts interact.\<close> The run queues (\<^verbatim>\<open>kern_switch_orig.c\<close>) are arrays of thread queues with
  a bitmap. The ULE scheduler (\<^verbatim>\<open>sched_ule.c\<close>) has three of them for each processor, with the
  number of threads as the load, and moves threads between processors. The scheduling assignment
  replaces the function that adds to a run queue. The page daemon (\<^verbatim>\<open>misc-code/vm_pageout.c\<close>) runs
  beside it: it frees pages, hands dirty ones to its laundry thread, and may kill a process, for
  which it calls \<open>sched_nice\<close> of the scheduler; its state contains the state of the scheduler. The
  paging assignment (\<^verbatim>\<open>misc-code/vm_pageout_test.c\<close>) adds a policy to the scan of an older page
  daemon. The load balancer reads the health check that the threaded HTTP server writes; the
  round trip between the two is proved across both models.

  \<^bold>\<open>Shared theories.\<close> \<^verbatim>\<open>Prelude\<close>: C integers as words, the tail queues of \<^verbatim>\<open>sys/queue.h\<close> as lists,
  searches over index ranges, the collections \<^verbatim>\<open>runq_intros\<close> and \<^verbatim>\<open>frame_simps\<close>. \<^verbatim>\<open>Threads\<close>: the
  fields of a thread and a process that the kernel parts read and write. \<^verbatim>\<open>Posix\<close>: the system calls
  as a record of functions on an unspecified world, C strings in arrays of bytes, \<^verbatim>\<open>strtok\<close>,
  \<^verbatim>\<open>sscanf\<close> and \<^verbatim>\<open>snprintf\<close> as far as the user programs use them.

  \<^bold>\<open>Run queues\<close> (\<^verbatim>\<open>Benchmark-tests-gitlab-asgn2\<close>). \<^verbatim>\<open>Runq\<close>: \<^verbatim>\<open>struct runq\<close> and every \<^verbatim>\<open>runq_*\<close>
  function, on a store of threads because \<^verbatim>\<open>td_rqindex\<close> is written in the thread. \<^verbatim>\<open>Runq_Props\<close>: the
  invariant between bitmap, queues and index, for every sequence of operations; the highest
  priority is chosen; draining is a stable sort. \<^verbatim>\<open>Runq_Laws\<close>: the interface \<^verbatim>\<open>thread_queue\<close> that a
  scheduler uses (add, remove, choose), with the facts its users need proved once, and its proof
  for the stock run queue with the bitmaps of amd64 and i386. \<^verbatim>\<open>Runq_Policies\<close> and \<^verbatim>\<open>Policy_Props\<close>:
  the insertion policies of the assignment (\<^verbatim>\<open>kern_switch.c\<close>, \<^verbatim>\<open>kern_switch1.c\<close> to
  \<^verbatim>\<open>kern_switch3.c\<close>, \<^verbatim>\<open>benchmark2\<close> to \<^verbatim>\<open>benchmark4\<close>, \<^verbatim>\<open>testkernel\<close>, \<^verbatim>\<open>test.c\<close> to \<^verbatim>\<open>test3.c\<close>); those that
  work implement the same interface, the priority insertion refines the sort by class to a sort by
  priority, and the faults of the others are theorems.

  \<^bold>\<open>Scheduler\<close> (\<^verbatim>\<open>sched_ule.c\<close> and the upper half of \<^verbatim>\<open>kern_switch_orig.c\<close>). \<^verbatim>\<open>Ule_Prio\<close>,
  \<^verbatim>\<open>Ule_Prio_Props\<close>: interactivity score, history, usage window and priorities on 32-bit words, with
  bounds for every word. \<^verbatim>\<open>Tdq\<close>, \<^verbatim>\<open>Tdq_Props\<close>, \<^verbatim>\<open>Tdq_Steal\<close>: \<^verbatim>\<open>struct tdq\<close>, its invariant, its proof of
  the interface \<^verbatim>\<open>thread_queue\<close>, the order in which it serves, what stealing finds. \<^verbatim>\<open>Cpu_Search\<close>,
  \<^verbatim>\<open>Search_Sound\<close>: the search of the topology tree finds a qualifying processor exactly if there is
  one. \<^verbatim>\<open>Kernel\<close>, \<^verbatim>\<open>Kernel_Inv\<close>: the state of all processors and its invariant. \<^verbatim>\<open>Ule_Smp\<close>,
  \<^verbatim>\<open>Ule_Smp_Props\<close>: moving a thread; the balancer, while the other processors do anything that keeps
  the invariant wherever no lock is held (the locale \<^verbatim>\<open>kernel_invariant\<close>); stealing by an idle
  processor, while they stand still. \<^verbatim>\<open>Ule_Sched\<close>, \<^verbatim>\<open>Switch\<close>: the \<^verbatim>\<open>sched_*\<close> entry points and \<open>choosethread\<close>.
  \<^verbatim>\<open>Ule_Sched_Props\<close>, \<^verbatim>\<open>Switch_Props\<close>, \<^verbatim>\<open>Idle_Clock_Props\<close>: adding, choosing and switching keep every
  thread on exactly one queue, and an added thread's processor is told; the calendar of a thread queue as a state machine.
  \<^verbatim>\<open>Topology_Spec\<close>: the dump of the topology. \<^verbatim>\<open>Kernel_Example\<close>: the two-processor machine of the
  examples.

  \<^bold>\<open>Page daemon\<close> (\<^verbatim>\<open>misc-code/vm_pageout.c\<close>). \<^verbatim>\<open>Pageout\<close>: pages, objects, queues and domains as
  stores. \<^verbatim>\<open>Pageout_Oom\<close>, \<^verbatim>\<open>Pageout_Scan\<close>, \<^verbatim>\<open>Pageout_Clean\<close>, \<^verbatim>\<open>Pageout_Daemon\<close>: the out-of-memory
  killer, the scans in batches behind a marker, clusters and laundering, the threads and the
  thresholds; their properties are in \<^verbatim>\<open>Pageout_Oom_Props\<close>, \<^verbatim>\<open>Pageout_Scan_Props\<close>,
  \<^verbatim>\<open>Pageout_Reclaim_Props\<close>, \<^verbatim>\<open>Pageout_Clean_Props\<close> and \<^verbatim>\<open>Pageout_Props\<close>, on examples of
  \<^verbatim>\<open>Pageout_Example\<close>. \<^verbatim>\<open>Page_Policy\<close>, \<^verbatim>\<open>Page_Policy_Props\<close>: \<open>vm_pageout_scan\<close> of the paging assignment
  with the clock and the first-in first-out policy; the second refines the abstract queue
  \<open>evict\<close> with nobody else at work, and the marker protocol of its locks holds whatever other threads
  do to the queue, their leaving the marker alone. A cluster assumes of them the object lock only.

  \<^bold>\<open>User programs.\<close> \<^verbatim>\<open>Dog\<close>: \<^verbatim>\<open>CSE130-v2/asgn0/dog.c\<close>. \<^verbatim>\<open>Http_Server\<close>: \<^verbatim>\<open>asgn1/httpserver.c\<close>;
  \<^verbatim>\<open>Http_Props\<close> has the type of the message object, the arrays and the final error, \<^verbatim>\<open>Http_Transfer\<close>
  the round trip of a request and the transfer of whole files. \<^verbatim>\<open>Http_Threaded\<close>, \<^verbatim>\<open>Http_Log_Props\<close>:
  one request of \<^verbatim>\<open>asgn2/httpserver.c\<close> and its log. \<^verbatim>\<open>Http_Pool\<close>: the hand-over of sockets to the
  workers as a step relation. \<^verbatim>\<open>Load_Balancer\<close>, \<^verbatim>\<open>Balancer_Props\<close>: \<^verbatim>\<open>asgn3/loadbalancer.c\<close>.
  \<^verbatim>\<open>Shell\<close>, \<^verbatim>\<open>Shell_Props\<close>, \<^verbatim>\<open>Shell_Input\<close>: \<^verbatim>\<open>CS111/assgn-1/myshell.c\<close> with its lexer \<^verbatim>\<open>lex.l\<close>.

  \<^bold>\<open>Parameters.\<close> What the programs call and the repository does not hold is an argument: the header
  constants and bit macros (\<^verbatim>\<open>rqenv\<close>), the rest of the kernel (\<^verbatim>\<open>kenv\<close>, \<^verbatim>\<open>venv\<close>, \<^verbatim>\<open>penv\<close>), the system
  calls (\<^verbatim>\<open>sys\<close> and its extensions for the servers, the balancer and the shell), the values of
  \<^verbatim>\<open>random()\<close>, what other threads do where a lock is waited for. A property that needs more of
  them than their type has the documented behaviour as a named hypothesis and a witness with a
  concrete instance.

  \<^bold>\<open>Loops and bounds.\<close> A loop that need not end (a read from a device, a walk that other threads may
  prolong, the retry after a lock) is a partial function with values in \<^verbatim>\<open>option\<close>; where the
  properties say that the code returns, they say that the value is \<^verbatim>\<open>Some\<close>. The loops bounded by a
  queue, an array or a counter are total functions with a measure. The endless loops of the
  servers, the dispatcher and the shell take the number of rounds as an argument (\<open>serve\<close>,
  \<open>dispatch_clients\<close>, \<open>shell_main\<close>), the kernel threads are given by one round each. \<^verbatim>\<open>None\<close> also
  stands for a panic, a division by zero or an access outside an array. Words have the width of
  the C type; \<^verbatim>\<open>int\<close> values that cannot overflow, such as the counts of queues, are integers.

  \<^bold>\<open>Not modelled.\<close> Locks themselves, reference counts on processes and address spaces, event
  tracing, probes, assertions and the declarations of sysctl nodes; memory that runs out; the creation of POSIX
  threads. Files that are copies or older forms of a modelled one: \<^verbatim>\<open>vm_pageout_orig.c\<close>,
  \<^verbatim>\<open>test1.c\<close> to \<^verbatim>\<open>test3.c\<close> and \<^verbatim>\<open>vm_pageout_test2.c\<close> in \<^verbatim>\<open>misc-code\<close> and all of
  \<^verbatim>\<open>vm_pageout_test.c\<close> but its policies and \<open>vm_pageout_flush\<close>, \<^verbatim>\<open>benchmark1/kern_switch.c\<close>,
  \<^verbatim>\<open>kern_switch_test.c\<close>, the second \<^verbatim>\<open>myshell.c\<close>. The benchmark drivers only fork and measure
  time. The C++ programs, the circuits and assembly of CE12, the JavaScript fragments and the
  course notes are not C.
\<close>

end
